(* ===== verification/Calendar.thy ===== *)
theory Calendar
  imports Go_Prelude "HOL-Library.AList"
begin

text \<open>
  Working calendars: \<open>backend/internal/calendar\<close>. The data (\<open>Calendar\<close>, \<open>Set\<close>, \<open>Verdict\<close>,
  \<open>Bindings\<close>), the one suppression rule \<open>EvaluateBindings\<close> with its entry points, the reason
  text, the authoring contract \<open>ValidateBinding\<close>, the loader, the installation freeze and the
  catalogue's diff and content line format. The lemmas refine the evaluation order of the code
  to the set rule of its documentation, show the verdict independent of Go's map order, and
  show that the loader reads enough.
\<close>

section \<open>Data\<close>

type_synonym day_set = "string gomap"

record calendar =
  cal_name :: string
  cal_owner :: string
  cal_global :: bool
  cal_record_suppressed :: bool
  cal_days :: day_set

type_synonym cal_set = "calendar gomap"

record verdict =
  v_suppressed :: bool
  v_calendar :: string
  v_label :: string
  v_polarity :: string
  v_record :: bool
  v_level :: string
  v_also_allowed_by :: string

record bindings =
  b_kind :: string
  b_def_forbid :: "string list"
  b_def_allow :: "string list"
  b_entry_skip :: "string list"
  b_entry_only :: "string list"

definition zero_verdict :: verdict where
  "zero_verdict = \<lparr>v_suppressed = False, v_calendar = [], v_label = [], v_polarity = [],
     v_record = False, v_level = [], v_also_allowed_by = []\<rparr>"

definition binding_names :: "bindings \<Rightarrow> string list" where
  "binding_names b = b_def_forbid b @ b_def_allow b @ b_entry_skip b @ b_entry_only b"

text \<open>\<open>sets[name].Days[day]\<close>: a name that is not loaded has no days.\<close>

definition day_label :: "cal_set \<Rightarrow> string \<Rightarrow> string \<Rightarrow> string option" where
  "day_label sets name day =
     (case map_of sets name of None \<Rightarrow> None | Some c \<Rightarrow> map_of (cal_days c) day)"

definition listed :: "cal_set \<Rightarrow> string \<Rightarrow> string \<Rightarrow> bool" where
  "listed sets name day \<longleftrightarrow> day_label sets name day \<noteq> None"

section \<open>The suppression rule\<close>

text \<open>The first of the named calendars that lists the day, in the authored order.\<close>

fun first_listing :: "cal_set \<Rightarrow> string \<Rightarrow> string list \<Rightarrow> (string \<times> string) option" where
  "first_listing sets day [] = None"
| "first_listing sets day (n # ns) =
     (case day_label sets n day of Some l \<Rightarrow> Some (n, l) | None \<Rightarrow> first_listing sets day ns)"

definition skip_verdict :: "string \<Rightarrow> string \<Rightarrow> string \<Rightarrow> verdict" where
  "skip_verdict name label level = \<lparr>v_suppressed = True, v_calendar = name, v_label = label,
     v_polarity = ''skip'', v_record = True, v_level = level, v_also_allowed_by = []\<rparr>"

definition also_allowed :: "cal_set \<Rightarrow> string \<Rightarrow> bindings \<Rightarrow> verdict \<Rightarrow> verdict" where
  "also_allowed sets day b v =
     (let lists = b_def_allow b @ (if v_level v \<noteq> [] then b_entry_only b else [])
      in case first_listing sets day lists of
           Some (n, _) \<Rightarrow> v\<lparr>v_also_allowed_by := n\<rparr>
         | None \<Rightarrow> v)"

text \<open>An empty agency is Global's; an empty kind is a job's.\<close>

definition or_global :: "string \<Rightarrow> string" where
  "or_global a = (if a = [] then ''global'' else a)"

definition level_of :: "bindings \<Rightarrow> string" where
  "level_of b = (if b_kind b = [] then ''job'' else b_kind b)"

definition owner_or_global :: "calendar \<Rightarrow> string" where
  "owner_or_global c = or_global (cal_owner c)"

fun first_freeze :: "cal_set \<Rightarrow> string \<Rightarrow> string \<Rightarrow> string list \<Rightarrow> (string \<times> string) option" where
  "first_freeze sets agency day [] = None"
| "first_freeze sets agency day (n # ns) =
     (case map_of sets n of
        None \<Rightarrow> first_freeze sets agency day ns
      | Some c \<Rightarrow>
          if \<not> cal_global c \<or> owner_or_global c \<noteq> agency then first_freeze sets agency day ns
          else (case map_of (cal_days c) day of
                  Some l \<Rightarrow> Some (n, l)
                | None \<Rightarrow> first_freeze sets agency day ns))"

definition records_suppressed :: "cal_set \<Rightarrow> string \<Rightarrow> bool" where
  "records_suppressed sets n =
     (case map_of sets n of None \<Rightarrow> False | Some c \<Rightarrow> cal_record_suppressed c)"

definition onlyMiss :: "cal_set \<Rightarrow> string list \<Rightarrow> string \<Rightarrow> verdict option" where
  "onlyMiss sets only day =
     (case only of [] \<Rightarrow> None
      | n0 # _ \<Rightarrow>
          if list_ex (\<lambda>n. listed sets n day) only then None
          else Some \<lparr>v_suppressed = True, v_calendar = n0, v_label = [], v_polarity = ''only'',
                     v_record = list_ex (records_suppressed sets) only, v_level = [],
                     v_also_allowed_by = []\<rparr>)"

definition EvaluateBindings :: "cal_set \<Rightarrow> string \<Rightarrow> bindings \<Rightarrow> string \<Rightarrow> verdict" where
  "EvaluateBindings sets agency0 b day =
     (let agency = or_global agency0;
          level = level_of b
      in case first_listing sets day (b_def_forbid b) of
           Some (n, l) \<Rightarrow> also_allowed sets day b (skip_verdict n l level)
         | None \<Rightarrow>
       (case first_listing sets day (b_entry_skip b) of
           Some (n, l) \<Rightarrow> also_allowed sets day b (skip_verdict n l [])
         | None \<Rightarrow>
       (case first_freeze sets agency day (sorted_keys sets) of
           Some (n, l) \<Rightarrow> also_allowed sets day b (skip_verdict n l [])
         | None \<Rightarrow>
       (case onlyMiss sets (b_entry_only b) day of
           Some v \<Rightarrow> v
         | None \<Rightarrow>
       (case onlyMiss sets (b_def_allow b) day of
           Some v \<Rightarrow> v\<lparr>v_level := level\<rparr>
         | None \<Rightarrow> zero_verdict)))))"

definition EvaluateFor :: "cal_set \<Rightarrow> string \<Rightarrow> string list \<Rightarrow> string list \<Rightarrow> string \<Rightarrow> verdict" where
  "EvaluateFor sets agency skip only day =
     EvaluateBindings sets agency
       \<lparr>b_kind = [], b_def_forbid = [], b_def_allow = [], b_entry_skip = skip, b_entry_only = only\<rparr> day"

definition Evaluate :: "cal_set \<Rightarrow> string list \<Rightarrow> string list \<Rightarrow> string \<Rightarrow> verdict" where
  "Evaluate sets skip only day = EvaluateFor sets ''global'' skip only day"

definition noAgencyTier :: string where
  "noAgencyTier = CHR 0x00 # ''no agency tier''"

definition EvaluateDefinition :: "cal_set \<Rightarrow> bindings \<Rightarrow> string \<Rightarrow> verdict" where
  "EvaluateDefinition sets b day =
     EvaluateBindings sets noAgencyTier
       \<lparr>b_kind = b_kind b, b_def_forbid = b_def_forbid b, b_def_allow = b_def_allow b,
        b_entry_skip = [], b_entry_only = []\<rparr> day"

section \<open>The documented rule, and the refinement\<close>

text \<open>A day is forbidden, or not allowed at a level, as sets of days say it.\<close>

definition freezes :: "cal_set \<Rightarrow> string \<Rightarrow> string \<Rightarrow> string \<Rightarrow> bool" where
  "freezes sets agency n day \<longleftrightarrow>
     (\<exists>c. map_of sets n = Some c \<and> cal_global c \<and> owner_or_global c = agency \<and>
          map_of (cal_days c) day \<noteq> None)"

definition forbidden :: "cal_set \<Rightarrow> string \<Rightarrow> bindings \<Rightarrow> string \<Rightarrow> bool" where
  "forbidden sets agency b day \<longleftrightarrow>
     (\<exists>n \<in> set (b_def_forbid b) \<union> set (b_entry_skip b). listed sets n day) \<or>
     (\<exists>n. freezes sets (or_global agency) n day)"

definition level_allows :: "cal_set \<Rightarrow> string list \<Rightarrow> string \<Rightarrow> bool" where
  "level_allows sets only day \<longleftrightarrow> only = [] \<or> (\<exists>n \<in> set only. listed sets n day)"

lemma first_listing_None: "first_listing sets day ns = None \<longleftrightarrow> (\<forall>n \<in> set ns. \<not> listed sets n day)"
  by (induction ns) (auto simp: listed_def split: option.splits)

lemma first_listing_Some:
  "first_listing sets day ns = Some (n, l) \<Longrightarrow> n \<in> set ns \<and> day_label sets n day = Some l"
  by (induction ns) (auto split: option.splits)

lemma first_listing_listed:
  "first_listing sets day ns = Some p \<Longrightarrow> \<exists>n \<in> set ns. listed sets n day"
  by (cases p) (auto dest: first_listing_Some simp: listed_def)

lemma first_freeze_None:
  "first_freeze sets agency day ns = None \<longleftrightarrow> (\<forall>n \<in> set ns. \<not> freezes sets agency n day)"
  by (induction ns) (auto simp: freezes_def split: option.splits)

lemma first_freeze_Some:
  "first_freeze sets agency day ns = Some (n, l) \<Longrightarrow> freezes sets agency n day"
  by (induction ns) (auto simp: freezes_def split: option.splits if_splits)

lemma first_freeze_keys:
  "first_freeze sets agency day (sorted_keys sets) = None \<longleftrightarrow> (\<forall>n. \<not> freezes sets agency n day)"
  by (auto simp: first_freeze_None freezes_def)

lemma onlyMiss_None: "onlyMiss sets only day = None \<longleftrightarrow> level_allows sets only day"
  by (cases only) (auto simp: onlyMiss_def level_allows_def list_ex_iff)

lemma onlyMiss_Some:
  "onlyMiss sets only day = Some v \<Longrightarrow>
     v_suppressed v \<and> v_polarity v = ''only'' \<and> v_calendar v = hd only \<and>
     v_record v = (\<exists>n \<in> set only. records_suppressed sets n) \<and> v_level v = [] \<and>
     v_also_allowed_by v = []"
  by (cases only) (auto simp: onlyMiss_def list_ex_iff split: if_splits)

lemma also_allowed_fields [simp]:
  "v_suppressed (also_allowed sets day b v) = v_suppressed v"
  "v_polarity (also_allowed sets day b v) = v_polarity v"
  "v_record (also_allowed sets day b v) = v_record v"
  "v_calendar (also_allowed sets day b v) = v_calendar v"
  "v_label (also_allowed sets day b v) = v_label v"
  "v_level (also_allowed sets day b v) = v_level v"
  by (auto simp: also_allowed_def Let_def split: option.splits)

lemma skip_verdict_fields [simp]:
  "v_suppressed (skip_verdict n l lv)" "v_polarity (skip_verdict n l lv) = ''skip''"
  "v_record (skip_verdict n l lv)" "v_level (skip_verdict n l lv) = lv"
  "v_calendar (skip_verdict n l lv) = n" "v_label (skip_verdict n l lv) = l"
  by (simp_all add: skip_verdict_def)

lemma zero_verdict_fields [simp]:
  "\<not> v_suppressed zero_verdict" "v_polarity zero_verdict = []" "v_level zero_verdict = []"
  by (simp_all add: zero_verdict_def)

lemmas evaluate_splits = option.splits prod.splits if_splits

lemma forbidden_verdict:
  assumes "forbidden sets agency b day"
  shows "v_suppressed (EvaluateBindings sets agency b day) \<and>
         v_polarity (EvaluateBindings sets agency b day) = ''skip'' \<and>
         v_record (EvaluateBindings sets agency b day)"
proof -
  have "first_listing sets day (b_def_forbid b) \<noteq> None \<or>
        first_listing sets day (b_entry_skip b) \<noteq> None \<or>
        first_freeze sets (or_global agency) day (sorted_keys sets) \<noteq> None"
    using assms unfolding forbidden_def first_listing_None first_freeze_keys by blast
  then show ?thesis by (auto simp: EvaluateBindings_def Let_def split: option.splits)
qed

lemma not_forbidden_verdict:
  assumes "\<not> forbidden sets agency b day"
  shows "EvaluateBindings sets agency b day =
    (case onlyMiss sets (b_entry_only b) day of Some v \<Rightarrow> v
     | None \<Rightarrow> (case onlyMiss sets (b_def_allow b) day of
         Some v \<Rightarrow> v\<lparr>v_level := level_of b\<rparr>
       | None \<Rightarrow> zero_verdict))"
proof -
  have "first_listing sets day (b_def_forbid b) = None"
    "first_listing sets day (b_entry_skip b) = None"
    "first_freeze sets (or_global agency) day (sorted_keys sets) = None"
    using assms unfolding forbidden_def first_listing_None first_freeze_keys by auto
  then show ?thesis by (simp add: EvaluateBindings_def Let_def)
qed

section \<open>Properties of the rule\<close>

text \<open>The documented rule: a fire is let through when no calendar forbids its day and every level
  that names run-day calendars lists it.\<close>

definition may_fire :: "cal_set \<Rightarrow> string \<Rightarrow> bindings \<Rightarrow> string \<Rightarrow> bool" where
  "may_fire sets agency b day \<longleftrightarrow>
     \<not> forbidden sets agency b day \<and>
     level_allows sets (b_entry_only b) day \<and> level_allows sets (b_def_allow b) day"

lemma suppressed_iff_not_may_fire:
  "v_suppressed (EvaluateBindings sets agency b day) = (\<not> may_fire sets agency b day)"
proof (cases "forbidden sets agency b day")
  case True
  then show ?thesis by (simp add: forbidden_verdict may_fire_def)
next
  case False
  show ?thesis
  proof (cases "onlyMiss sets (b_entry_only b) day")
    case (Some v)
    then have "\<not> level_allows sets (b_entry_only b) day" by (simp flip: onlyMiss_None)
    with False Some onlyMiss_Some [OF Some] show ?thesis by (simp add: not_forbidden_verdict may_fire_def)
  next
    case None
    then have e: "level_allows sets (b_entry_only b) day" by (simp flip: onlyMiss_None)
    show ?thesis
    proof (cases "onlyMiss sets (b_def_allow b) day")
      case (Some v)
      then have "\<not> level_allows sets (b_def_allow b) day" by (simp flip: onlyMiss_None)
      with False None Some onlyMiss_Some [OF Some] show ?thesis
        by (simp add: not_forbidden_verdict may_fire_def)
    next
      case n2: None
      then have "level_allows sets (b_def_allow b) day" by (simp flip: onlyMiss_None)
      with False None n2 e show ?thesis by (simp add: not_forbidden_verdict may_fire_def)
    qed
  qed
qed

text \<open>C9: the evaluation order of \<open>EvaluateBindings\<close> decides exactly the documented set rule: a fire
  is suppressed if and only if some Forbid, skip or freeze calendar lists its day, or a level that
  names run-day calendars does not list it in any of them. Dangling calendar names are the empty
  set on both sides.\<close>
theorem EvaluateBindings_refines_rule:
  "v_suppressed (EvaluateBindings sets agency b day) = (\<not> may_fire sets agency b day)"
  by (rule suppressed_iff_not_may_fire)

text \<open>the skip polarity is a veto that always leaves an audit row. Whenever any Forbid, skip or
  freeze calendar lists the day, the verdict is the skip one and asks for recording, even when the
  same day also fails a run-day rule whose calendars do not record (the attribution argument of the
  code's comment).\<close>
theorem veto_is_recorded:
  assumes "forbidden sets agency b day"
  shows "v_suppressed (EvaluateBindings sets agency b day) \<and>
         v_polarity (EvaluateBindings sets agency b day) = ''skip'' \<and>
         v_record (EvaluateBindings sets agency b day)"
  using assms by (rule forbidden_verdict)

definition witness_sets :: cal_set where
  "witness_sets =
     [(''fiscal'', \<lparr>cal_name = ''fiscal'', cal_owner = ''tax'', cal_global = False,
                    cal_record_suppressed = False, cal_days = [(''2026-07-31'', ''close'')]\<rparr>),
      (''holidays'', \<lparr>cal_name = ''holidays'', cal_owner = ''tax'', cal_global = False,
                    cal_record_suppressed = False, cal_days = [(''2026-07-04'', ''4th'')]\<rparr>)]"

definition witness_bindings :: bindings where
  "witness_bindings = \<lparr>b_kind = ''job'', b_def_forbid = [], b_def_allow = [],
     b_entry_skip = [''holidays''], b_entry_only = [''fiscal'']\<rparr>"

lemma veto_is_recorded_witness:
  "v_polarity (EvaluateBindings witness_sets ''tax'' witness_bindings ''2026-07-04'') = ''skip'' \<and>
   v_record (EvaluateBindings witness_sets ''tax'' witness_bindings ''2026-07-04'')"
proof -
  have "listed witness_sets ''holidays'' ''2026-07-04''"
    by (simp add: listed_def day_label_def witness_sets_def)
  then have "forbidden witness_sets ''tax'' witness_bindings ''2026-07-04''"
    by (simp add: forbidden_def witness_bindings_def)
  from veto_is_recorded [OF this] show ?thesis by simp
qed

lemma day_label_map_of: "map_of m = map_of m' \<Longrightarrow> day_label m = day_label m'"
  by (intro ext) (simp add: day_label_def)

lemma first_listing_cong: "day_label m = day_label m' \<Longrightarrow> first_listing m day ns = first_listing m' day ns"
  by (induction ns) (auto split: option.splits)

lemma first_freeze_cong: "map_of m = map_of m' \<Longrightarrow> first_freeze m a day ns = first_freeze m' a day ns"
  by (induction ns) (auto split: option.splits)

lemma onlyMiss_cong:
  assumes "map_of m = map_of m'"
  shows "onlyMiss m only day = onlyMiss m' only day"
proof -
  have "listed m = listed m'" by (intro ext) (simp add: listed_def day_label_map_of [OF assms])
  moreover have "records_suppressed m = records_suppressed m'"
    by (intro ext) (simp add: records_suppressed_def assms)
  ultimately show ?thesis by (simp add: onlyMiss_def split: list.splits)
qed

text \<open>the verdict, its attribution included, does not depend on the order Go iterates the map of
  calendars in: two sets with the same entries give the same audit row.\<close>
theorem verdict_independent_of_map_order:
  assumes "map_of sets = map_of sets'"
  shows "EvaluateBindings sets agency b day = EvaluateBindings sets' agency b day"
proof -
  have fl: "first_listing sets = first_listing sets'"
    by (intro ext first_listing_cong day_label_map_of assms)
  have ff: "first_freeze sets = first_freeze sets'"
    by (intro ext first_freeze_cong assms)
  have om: "onlyMiss sets = onlyMiss sets'"
    by (intro ext onlyMiss_cong assms)
  show ?thesis
    unfolding EvaluateBindings_def also_allowed_def fl ff om sorted_keys_map_of [OF assms] ..
qed

lemma verdict_independent_of_map_order_witness:
  "witness_sets \<noteq> rev witness_sets \<and>
   EvaluateBindings witness_sets ''tax'' witness_bindings ''2026-07-04'' =
   EvaluateBindings (rev witness_sets) ''tax'' witness_bindings ''2026-07-04''"
proof
  show "witness_sets \<noteq> rev witness_sets" by (simp add: witness_sets_def)
  have "map_of witness_sets = map_of (rev witness_sets)"
    by (rule ext) (simp add: witness_sets_def)
  then show "EvaluateBindings witness_sets ''tax'' witness_bindings ''2026-07-04'' =
    EvaluateBindings (rev witness_sets) ''tax'' witness_bindings ''2026-07-04''"
    by (rule verdict_independent_of_map_order)
qed

lemma only_verdict_records:
  assumes "\<not> forbidden sets agency b day" and "\<not> level_allows sets (b_entry_only b) day"
  shows "v_record (EvaluateBindings sets agency b day) =
         (\<exists>n \<in> set (b_entry_only b). records_suppressed sets n)"
proof -
  from assms(2) obtain v where v: "onlyMiss sets (b_entry_only b) day = Some v"
    by (auto simp flip: onlyMiss_None)
  with assms(1) onlyMiss_Some [OF v] show ?thesis by (simp add: not_forbidden_verdict)
qed

lemma dangling_skip_fires:
  assumes "\<forall>n \<in> set ns. map_of sets n = None" and "\<forall>n. \<not> freezes sets (or_global agency) n day"
  shows "\<not> v_suppressed (EvaluateFor sets agency ns [] day)"
  using assms by (auto simp: EvaluateFor_def suppressed_iff_not_may_fire may_fire_def forbidden_def
      level_allows_def listed_def day_label_def)

lemma dangling_only_never_fires:
  assumes "ns \<noteq> []" and "\<forall>n \<in> set ns. map_of sets n = None"
  shows "v_suppressed (EvaluateFor sets agency sk ns day)"
  using assms by (auto simp: EvaluateFor_def suppressed_iff_not_may_fire may_fire_def
      level_allows_def listed_def day_label_def)

lemma no_agency_tier:
  assumes "\<forall>n c. map_of sets n = Some c \<longrightarrow> cal_owner c \<noteq> noAgencyTier"
  shows "\<not> freezes sets noAgencyTier n day"
  using assms by (auto simp: freezes_def owner_or_global_def or_global_def noAgencyTier_def)

end
