(* ===== verification/Calendar_Admin.thy ===== *)
theory Calendar_Admin
  imports Calendar
begin

text \<open>
  The administration half of \<open>backend/internal/calendar\<close>: the authoring contract for a binding
  (\<open>ValidateBinding\<close>), the reason text and the loader. A JSON text is decoded by Go's library; the
  decoder is an argument of the definitions that read such a text.
\<close>

section \<open>Normalising and validating bindings\<close>

fun parse_names_from :: "string list \<Rightarrow> string list \<Rightarrow> string list" where
  "parse_names_from seen [] = []"
| "parse_names_from seen (n # ns) =
     (let t = trim_space n in
      if t = [] \<or> t \<in> set seen then parse_names_from seen ns
      else t # parse_names_from (t # seen) ns)"

definition ParseNamesSlice :: "string list \<Rightarrow> string list" where
  "ParseNamesSlice names = parse_names_from [] names"

text \<open>The decoder \<open>dec\<close> is \<open>json.Unmarshal\<close> into a string list.\<close>

definition ParseNames :: "(string \<Rightarrow> string list option) \<Rightarrow> string \<Rightarrow> string list" where
  "ParseNames dec raw0 =
     (let raw = trim_space raw0 in
      if raw = [] \<or> raw = ''null'' then []
      else case dec raw of None \<Rightarrow> [] | Some names \<Rightarrow> parse_names_from [] names)"

definition MarshalNames :: "(string list \<Rightarrow> string option) \<Rightarrow> string list \<Rightarrow> string" where
  "MarshalNames enc names =
     (let clean = ParseNamesSlice names in
      if clean = [] then [] else case enc clean of None \<Rightarrow> [] | Some b \<Rightarrow> b)"

definition ValidateBinding ::
  "string list \<Rightarrow> string list \<Rightarrow> (string \<Rightarrow> bool) \<Rightarrow> (string \<Rightarrow> bool) \<Rightarrow>
   string + (string list \<times> string list)" where
  "ValidateBinding skip only known glob =
     (let outSkip = ParseNamesSlice skip; outOnly = ParseNamesSlice only in
      if outSkip = [] \<and> outOnly = [] then Inr ([], []) else
      case List.find (\<lambda>n. n \<in> set outSkip) outOnly of
        Some n \<Rightarrow> Inl (''calendar '' @ n @ '' is named in both skipCalendars and onlyCalendars; '' @
                    ''a calendar cannot be an entry's run-day list and its veto at once'')
      | None \<Rightarrow>
     (let missing = filter (\<lambda>n. \<not> known n) (outSkip @ outOnly) in
      if missing \<noteq> [] then Inl (''unknown calendar(s): '' @ join '', '' missing) else
      case List.find glob outOnly of
        Some n \<Rightarrow> Inl (''calendar '' @ n @ '' is a freeze calendar and cannot be used as a run-day (only) calendar; '' @
                    ''a freeze calendar is unioned into every entry's SKIP set'')
      | None \<Rightarrow> Inr (outSkip, outOnly)))"

text \<open>\<open>strings.NewReplacer\<close> over several words: at each position the first pair that matches.\<close>

fun matching_pair :: "(string \<times> string) list \<Rightarrow> string \<Rightarrow> (string \<times> string) option" where
  "matching_pair ps s = List.find (\<lambda>(old, new). has_prefix s old) ps"

fun replace_words :: "nat \<Rightarrow> (string \<times> string) list \<Rightarrow> string \<Rightarrow> string" where
  "replace_words k ps [] = []"
| "replace_words 0 ps (c # s) =
     (case matching_pair ps (c # s) of
        None \<Rightarrow> c # replace_words 0 ps s
      | Some (old, new) \<Rightarrow> new @ replace_words (length old - 1) ps s)"
| "replace_words (Suc k) ps (c # s) = replace_words k ps s"

definition ValidateDefinitionBinding ::
  "string list \<Rightarrow> string list \<Rightarrow> (string \<Rightarrow> bool) \<Rightarrow> (string \<Rightarrow> bool) \<Rightarrow>
   string + (string list \<times> string list)" where
  "ValidateDefinitionBinding forbid allow known glob =
     (case ValidateBinding forbid allow known glob of
        Inr r \<Rightarrow> Inr r
      | Inl e \<Rightarrow> Inl (''forbidCalendars/allowCalendars: '' @ replace_words 0
          [(''skipCalendars and onlyCalendars'', ''forbidCalendars and allowCalendars''),
           (''an entry's run-day list and its veto'', ''a definition's Allow and its Forbid''),
           (''a run-day (only) calendar'', ''an Allow calendar'')] e))"

lemma set_parse_names_from:
  "set (parse_names_from seen ns) = (trim_space ` set ns) - {[]} - set seen"
  by (induction ns arbitrary: seen) (auto simp: Let_def)

lemma distinct_parse_names_from: "distinct (parse_names_from seen ns)"
  by (induction ns arbitrary: seen) (auto simp: Let_def set_parse_names_from)

lemma set_ParseNamesSlice: "set (ParseNamesSlice ns) = trim_space ` set ns - {[]}"
  by (simp add: ParseNamesSlice_def set_parse_names_from)

lemma parse_names_from_fix:
  "distinct ns \<Longrightarrow> set ns \<inter> set seen = {} \<Longrightarrow> \<forall>n \<in> set ns. trim_space n = n \<and> n \<noteq> [] \<Longrightarrow>
   parse_names_from seen ns = ns"
  by (induction ns arbitrary: seen) (auto simp: Let_def)

lemma ParseNamesSlice_idem: "ParseNamesSlice (ParseNamesSlice ns) = ParseNamesSlice ns"
  unfolding ParseNamesSlice_def
  by (rule parse_names_from_fix [OF distinct_parse_names_from]) (auto simp: set_parse_names_from)

lemma find_None_filter: "List.find P xs = None \<longleftrightarrow> (\<forall>x \<in> set xs. \<not> P x)"
  by (auto simp: find_None_iff)

text \<open>What a stored binding must satisfy to be coherent.\<close>

definition coherent_binding ::
  "string list \<Rightarrow> string list \<Rightarrow> (string \<Rightarrow> bool) \<Rightarrow> (string \<Rightarrow> bool) \<Rightarrow> bool" where
  "coherent_binding skip only known glob \<longleftrightarrow>
     set skip \<inter> set only = {} \<and> (\<forall>n \<in> set skip \<union> set only. known n) \<and> (\<forall>n \<in> set only. \<not> glob n)"

text \<open>C30: the authoring contract. \<open>ValidateBinding\<close> accepts a binding exactly when, once the names are
  trimmed and de-duplicated, no calendar has both roles, every name is known and no freeze calendar
  is a run-day calendar; and what it accepts is that normalised pair. Every other input is refused
  with a message.\<close>
theorem ValidateBinding_accepts_iff:
  "(ValidateBinding skip only known glob = Inr r) =
   (r = (ParseNamesSlice skip, ParseNamesSlice only) \<and>
    coherent_binding (ParseNamesSlice skip) (ParseNamesSlice only) known glob)"
proof -
  let ?s = "ParseNamesSlice skip" and ?o = "ParseNamesSlice only"
  have "ValidateBinding skip only known glob = Inr (?s, ?o) \<and> coherent_binding ?s ?o known glob \<or>
        (\<exists>e. ValidateBinding skip only known glob = Inl e) \<and> \<not> coherent_binding ?s ?o known glob"
  proof (cases "?s = [] \<and> ?o = []")
    case True
    then show ?thesis by (simp add: ValidateBinding_def coherent_binding_def)
  next
    case False
    have m: "filter (\<lambda>n. \<not> known n) (?s @ ?o) = [] \<longleftrightarrow> (\<forall>n \<in> set ?s \<union> set ?o. known n)"
      by (auto simp: filter_empty_conv)
    show ?thesis
    proof (cases "List.find (\<lambda>n. n \<in> set ?s) ?o")
      case (Some n)
      then have "\<not> coherent_binding ?s ?o known glob"
        by (auto simp: coherent_binding_def find_Some_iff)
      with False Some show ?thesis by (auto simp: ValidateBinding_def Let_def)
    next
      case None
      then have d: "set ?s \<inter> set ?o = {}" by (auto simp: find_None_filter)
      show ?thesis
      proof (cases "List.find glob ?o")
        case (Some n)
        then have "\<not> coherent_binding ?s ?o known glob"
          by (auto simp: coherent_binding_def find_Some_iff)
        with False None Some show ?thesis by (auto simp: ValidateBinding_def Let_def)
      next
        case g: None
        then have "\<forall>n \<in> set ?o. \<not> glob n" by (simp add: find_None_filter)
        with False None g d m show ?thesis
          by (auto simp: ValidateBinding_def Let_def coherent_binding_def simp del: filter_append)
      qed
    qed
  qed
  then show ?thesis by auto
qed

section \<open>The reason text\<close>

text \<open>\<open>strconv.Quote\<close>, which \<open>%q\<close> prints, on bytes: ASCII escapes; other bytes as they are.\<close>

definition FreezeCalendar :: string where
  "FreezeCalendar = ''installation freeze''"

definition Reason :: "verdict \<Rightarrow> string" where
  "Reason v =
     (if \<not> v_suppressed v then []
      else
        let whose = (if v_level v \<noteq> [] then ''the '' @ v_level v @ [CHR 0x27] @ ''s '' else []);
            q = go_quote (v_calendar v)
        in
        if v_polarity v = ''only'' then ''Skipped: not a run day in '' @ whose @ ''calendar '' @ q
        else
        let also = (if v_also_allowed_by v \<noteq> []
                    then ''; the Allow calendar '' @ go_quote (v_also_allowed_by v) @
                         '' lists the day too, and Forbid prevails''
                    else [])
        in
        if whose \<noteq> [] then
          (if v_label v \<noteq> []
           then ''Skipped: forbidden by '' @ whose @ ''calendar '' @ q @ '' ('' @ v_label v @ '')'' @ also
           else ''Skipped: forbidden by '' @ whose @ ''calendar '' @ q @ also)
        else if v_calendar v = FreezeCalendar then
          (if v_label v \<noteq> [] then ''Skipped: the installation is frozen ('' @ v_label v @ '')''
           else ''Skipped: the installation is frozen'')
        else if v_label v \<noteq> []
        then ''Skipped: suppressed by calendar '' @ q @ '' ('' @ v_label v @ '')'' @ also
        else ''Skipped: suppressed by calendar '' @ q @ also)"

lemma Reason_empty_iff: "Reason v = [] \<longleftrightarrow> \<not> v_suppressed v"
  by (simp add: Reason_def Let_def)

section \<open>The loader\<close>

record cal_row =
  cr_name :: string
  cr_owner :: string
  cr_source :: string
  cr_global :: bool
  cr_record_suppressed :: bool

record day_row =
  dr_owner :: string
  dr_source :: string
  dr_calendar :: string
  dr_day :: string
  dr_label :: string

record cal_tables =
  t_calendars :: "cal_row list"
  t_days :: "day_row list"

text \<open>One row of the left join: a calendar and one of its days, or a calendar alone.\<close>

definition join_rows :: "cal_tables \<Rightarrow> cal_row \<Rightarrow> (cal_row \<times> day_row option) list" where
  "join_rows db c =
     (let ds = filter (\<lambda>d. dr_owner d = cr_owner c \<and> dr_source d = cr_source c \<and>
                           dr_calendar d = cr_name c) (t_days db)
      in if ds = [] then [(c, None)] else map (\<lambda>d. (c, Some d)) ds)"

definition load_row :: "cal_set \<Rightarrow> cal_row \<times> day_row option \<Rightarrow> cal_set" where
  "load_row out r =
     (let (row, day) = r;
          c = (case map_of out (cr_name row) of
                 Some c \<Rightarrow> c
               | None \<Rightarrow> \<lparr>cal_name = cr_name row, cal_owner = cr_owner row, cal_global = cr_global row,
                          cal_record_suppressed = cr_record_suppressed row, cal_days = []\<rparr>);
          c' = (case day of None \<Rightarrow> c
                | Some d \<Rightarrow> c\<lparr>cal_days := AList.update (dr_day d) (dr_label d) (cal_days c)\<rparr>)
      in AList.update (cr_name row) c' out)"

definition Load :: "cal_tables \<Rightarrow> string \<Rightarrow> string list \<Rightarrow> cal_set" where
  "Load db agency0 names =
     (let agency = or_global agency0;
          want = remdups (filter (\<lambda>n. n \<noteq> []) names);
          picked = filter (\<lambda>c. cr_owner c = agency \<and> (cr_global c \<or> cr_name c \<in> set want)) (t_calendars db)
      in foldl load_row [] (concat (map (join_rows db) picked)))"

definition LoadFlagsFor :: "cal_tables \<Rightarrow> string \<Rightarrow> string list \<times> string list" where
  "LoadFlagsFor db agency0 =
     (let rows = filter (\<lambda>c. cr_owner c = or_global agency0) (t_calendars db)
      in (map cr_name rows, map cr_name (filter cr_global rows)))"

subsection \<open>What the loader reads is enough\<close>

definition row_named :: "string \<Rightarrow> cal_row \<times> day_row option \<Rightarrow> bool" where
  "row_named n r \<longleftrightarrow> cr_name (fst r) = n"

lemma map_of_load_row:
  "map_of (load_row out r) n =
     (if row_named n r then map_of (load_row (filter (\<lambda>p. fst p = n) out) r) n else map_of out n)"
proof -
  have "map_of (filter (\<lambda>p. fst p = n) out) n = map_of out n" by (induction out) auto
  then show ?thesis
    by (cases r) (auto simp: load_row_def row_named_def Let_def update_conv split: option.split)
qed

lemma map_of_load_row_cong:
  "map_of out n = map_of out' n \<Longrightarrow> row_named n r \<Longrightarrow> map_of (load_row out r) n = map_of (load_row out' r) n"
  by (cases r) (auto simp: load_row_def row_named_def Let_def update_conv split: option.split)

lemma map_of_load_rows:
  "map_of out n = map_of out' n \<Longrightarrow>
   map_of (foldl load_row out rows) n = map_of (foldl load_row out' (filter (row_named n) rows)) n"
proof (induction rows arbitrary: out out')
  case (Cons r rows)
  show ?case
  proof (cases "row_named n r")
    case True
    with Cons map_of_load_row_cong [OF Cons.prems True] show ?thesis by simp
  next
    case False
    then have "map_of (load_row out r) n = map_of out' n" using Cons.prems by (simp add: map_of_load_row)
    from Cons.IH [OF this] False show ?thesis by simp
  qed
qed simp

lemma filter_join_rows: "filter (row_named n) (join_rows db c) = (if cr_name c = n then join_rows db c else [])"
  by (auto simp: join_rows_def Let_def row_named_def filter_empty_conv)

lemma filter_concat_join:
  "filter (row_named n) (concat (map (join_rows db) cs)) =
   concat (map (join_rows db) (filter (\<lambda>c. cr_name c = n) cs))"
  by (induction cs) (simp_all add: filter_join_rows)

definition picked_rows :: "cal_tables \<Rightarrow> string \<Rightarrow> bool \<Rightarrow> string \<Rightarrow> cal_row list" where
  "picked_rows db agency wanted n =
     filter (\<lambda>c. cr_owner c = agency \<and> (cr_global c \<or> wanted) \<and> cr_name c = n) (t_calendars db)"

lemma map_of_Load:
  "map_of (Load db a names) n =
   map_of (foldl load_row [] (concat (map (join_rows db)
      (picked_rows db (or_global a) (n \<in> set names \<and> n \<noteq> []) n)))) n"
proof -
  define cs where "cs = filter (\<lambda>c. cr_owner c = or_global a \<and>
     (cr_global c \<or> cr_name c \<in> set (remdups (filter (\<lambda>n. n \<noteq> []) names)))) (t_calendars db)"
  have e: "filter (\<lambda>c. cr_name c = n) cs = picked_rows db (or_global a) (n \<in> set names \<and> n \<noteq> []) n"
    by (auto simp: picked_rows_def cs_def intro!: filter_cong)
  have "Load db a names = foldl load_row [] (concat (map (join_rows db) cs))"
    by (simp add: Load_def Let_def cs_def)
  then show ?thesis
    using map_of_load_rows [where out = "[]" and out' = "[]" and n = n and rows = "concat (map (join_rows db) cs)"]
    by (simp only: filter_concat_join e simp_thms)
qed

lemma load_rows_flags:
  assumes "\<forall>r \<in> set rows. fst r = c" and "map_of out n = None \<or>
     (\<exists>k. map_of out n = Some k \<and> cal_global k = cr_global c \<and> cal_owner k = cr_owner c)"
    and "map_of (foldl load_row out rows) n = Some k"
  shows "map_of out n = Some k \<or> (cal_global k = cr_global c \<and> cal_owner k = cr_owner c)"
  using assms
proof (induction rows arbitrary: out)
  case (Cons r rows)
  let ?o = "load_row out r"
  have "map_of ?o n = None \<or> (\<exists>k. map_of ?o n = Some k \<and> cal_global k = cr_global c \<and> cal_owner k = cr_owner c)"
    using Cons.prems(1,2) by (cases r) (auto simp: load_row_def Let_def update_conv split: option.splits)
  from Cons.IH [OF _ this] Cons.prems(1,3) this show ?case by auto
qed simp

text \<open>A calendar's name is unique within its agency.\<close>

definition names_unique :: "cal_tables \<Rightarrow> bool" where
  "names_unique db \<longleftrightarrow> distinct (map (\<lambda>c. (cr_owner c, cr_name c)) (t_calendars db))"

lemma distinct_map_single:
  assumes "distinct (map f xs)" and "\<forall>c \<in> set xs. P c \<and> f c = v"
  shows "xs = [] \<or> (\<exists>c. xs = [c] \<and> P c)"
  using assms by (cases xs; cases "tl xs") auto

lemma picked_rows_unique:
  assumes "names_unique db"
  shows "picked_rows db a w n = [] \<or> (\<exists>c. picked_rows db a w n = [c] \<and> cr_owner c = a \<and> cr_name c = n \<and>
    (cr_global c \<or> w))"
proof -
  have "distinct (map (\<lambda>c. (cr_owner c, cr_name c)) (picked_rows db a w n))"
    using assms unfolding names_unique_def picked_rows_def by (rule distinct_map_filter)
  moreover have "\<forall>c \<in> set (picked_rows db a w n). cr_owner c = a \<and> cr_name c = n \<and> (cr_global c \<or> w)"
    by (auto simp: picked_rows_def)
  ultimately show ?thesis
    by (intro distinct_map_single [where f = "\<lambda>c. (cr_owner c, cr_name c)" and v = "(a, n)"]) auto
qed

lemma Load_both_wanted:
  assumes "n \<in> set names \<longleftrightarrow> n \<in> set names'"
  shows "map_of (Load db a names) n = map_of (Load db a names') n"
  using assms by (simp add: map_of_Load)

lemma Load_global_everywhere:
  assumes "names_unique db" and "map_of (Load db a names) n = Some k" and "cal_global k"
  shows "map_of (Load db a names') n = Some k"
proof -
  let ?w = "n \<in> set names \<and> n \<noteq> []"
  from assms(2) have "picked_rows db (or_global a) ?w n \<noteq> []" by (auto simp: map_of_Load)
  then obtain c where c: "picked_rows db (or_global a) ?w n = [c]" "cr_name c = n"
    using picked_rows_unique [OF assms(1)] by metis
  have "\<forall>r \<in> set (join_rows db c). fst r = c" by (auto simp: join_rows_def Let_def)
  from load_rows_flags [OF this, of "[]" n k] assms(2) c(1)
  have "cal_global k = cr_global c" by (simp add: map_of_Load)
  with assms(3) have g: "cr_global c" by simp
  have "picked_rows db (or_global a) w n = picked_rows db (or_global a) True n" if "w \<or> \<not> w" "picked_rows db (or_global a) w n = [c]" for w
  proof -
    have "set (picked_rows db (or_global a) True n) = {d. d \<in> set (t_calendars db) \<and> cr_owner d = or_global a \<and> cr_name d = n}"
      by (auto simp: picked_rows_def)
    moreover have "c \<in> set (picked_rows db (or_global a) w n)" using that by simp
    ultimately have "c \<in> set (picked_rows db (or_global a) True n)" by (auto simp: picked_rows_def)
    then show ?thesis using picked_rows_unique [OF assms(1), of "or_global a" True n] that(2) by auto
  qed
  with c have t: "picked_rows db (or_global a) True n = [c]" by metis
  then have "c \<in> set (picked_rows db (or_global a) True n)" by simp
  with g have "c \<in> set (picked_rows db (or_global a) (n \<in> set names' \<and> n \<noteq> []) n)"
    by (auto simp: picked_rows_def)
  then have "picked_rows db (or_global a) (n \<in> set names' \<and> n \<noteq> []) n = [c]"
    using picked_rows_unique [OF assms(1), of "or_global a" "n \<in> set names' \<and> n \<noteq> []" n] by auto
  with c(1) assms(2) show ?thesis by (simp add: map_of_Load)
qed

lemma first_freeze_filter:
  "first_freeze sets a day ns = first_freeze sets a day (filter (\<lambda>n. freezes sets a n day) ns)"
proof (induction ns)
  case (Cons n ns)
  show ?case
  proof (cases "freezes sets a n day")
    case True
    then obtain c l where "map_of sets n = Some c" "cal_global c" "owner_or_global c = a"
      "map_of (cal_days c) day = Some l" by (auto simp: freezes_def)
    with True show ?thesis by simp
  next
    case False
    then show ?thesis using Cons by (auto simp: freezes_def split: option.splits)
  qed
qed simp

lemma first_freeze_same:
  assumes "\<And>n k. cal_global k \<Longrightarrow> (map_of m n = Some k) = (map_of m' n = Some k)"
  shows "first_freeze m a day (sorted_keys m) = first_freeze m' a day (sorted_keys m')"
proof -
  have f: "freezes m a n day = freezes m' a n day" for n
    using assms unfolding freezes_def by blast
  have d: "n \<in> dom (map_of m) \<and> n \<in> dom (map_of m')" if "freezes m a n day" for n
    using that f [of n] unfolding freezes_def by auto
  let ?P = "\<lambda>n. freezes m a n day"
  have "set (filter ?P (sorted_keys m)) = set (filter ?P (sorted_keys m'))"
    using f d by auto
  then have eq: "filter ?P (sorted_keys m) = filter ?P (sorted_keys m')"
    by (intro sorted_distinct_set_unique) (simp_all add: sorted_wrt_filter)
  have "first_freeze m a day ns = first_freeze m' a day ns" if "\<forall>n \<in> set ns. ?P n" for ns
  proof (cases ns)
    case (Cons n rest)
    with that obtain c where "map_of m n = Some c" "cal_global c" by (auto simp: freezes_def)
    moreover then have "map_of m' n = Some c" using assms by blast
    ultimately show ?thesis using Cons that by (auto simp: freezes_def)
  qed simp
  then show ?thesis
    using first_freeze_filter [of m a day "sorted_keys m"] first_freeze_filter [of m' a day "sorted_keys m'"] eq
    by (simp add: f)
qed

text \<open>\<open>Load\<close> reads enough. Loading the calendars the bindings name and the agency's freeze
  calendars gives, for every day, the same verdict (attribution and recording included) as loading
  any larger set of names, in a catalogue whose names are unique within an agency.\<close>
theorem Load_suffices:
  assumes "names_unique db" and "set (binding_names b) \<subseteq> set names"
  shows "EvaluateBindings (Load db a (binding_names b)) a b day = EvaluateBindings (Load db a names) a b day"
proof -
  let ?m = "Load db a (binding_names b)" and ?m' = "Load db a names"
  have w: "map_of ?m n = map_of ?m' n" if "n \<in> set (binding_names b)" for n
    using that assms(2) by (intro Load_both_wanted) auto
  then have l: "day_label ?m n day = day_label ?m' n day" if "n \<in> set (binding_names b)" for n
    using that by (simp add: day_label_def)
  have fl: "first_listing ?m day ns = first_listing ?m' day ns" if "set ns \<subseteq> set (binding_names b)" for ns
    using that by (induction ns) (auto simp: l split: option.splits)
  have om: "onlyMiss ?m ns day = onlyMiss ?m' ns day" if "set ns \<subseteq> set (binding_names b)" for ns
  proof -
    have "list_ex (\<lambda>n. listed ?m n day) ns = list_ex (\<lambda>n. listed ?m' n day) ns"
      "list_ex (records_suppressed ?m) ns = list_ex (records_suppressed ?m') ns"
      using that by (auto simp: list_ex_iff listed_def l records_suppressed_def w subset_iff)
    then show ?thesis by (cases ns; simp only: onlyMiss_def list.case)
  qed
  have ff: "first_freeze ?m (or_global a) day (sorted_keys ?m) = first_freeze ?m' (or_global a) day (sorted_keys ?m')"
    by (rule first_freeze_same) (meson Load_global_everywhere assms(1))
  have sub: "set (b_def_forbid b) \<subseteq> set (binding_names b)" "set (b_entry_skip b) \<subseteq> set (binding_names b)"
    "set (b_entry_only b) \<subseteq> set (binding_names b)" "set (b_def_allow b) \<subseteq> set (binding_names b)"
    by (auto simp: binding_names_def)
  have aa: "also_allowed ?m day b v = also_allowed ?m' day b v" for v
    using sub fl by (simp add: also_allowed_def Let_def)
  show ?thesis
    unfolding EvaluateBindings_def Let_def
    by (simp only: fl [OF sub(1)] fl [OF sub(2)] om [OF sub(3)] om [OF sub(4)] ff aa)
qed

definition witness_tables :: cal_tables where
  "witness_tables = \<lparr>
     t_calendars = [\<lparr>cr_name = ''hol'', cr_owner = ''tax'', cr_source = ''cronomicon'', cr_global = False,
                      cr_record_suppressed = False\<rparr>,
                    \<lparr>cr_name = ''freeze'', cr_owner = ''tax'', cr_source = ''cronomicon'', cr_global = True,
                      cr_record_suppressed = False\<rparr>],
     t_days = [\<lparr>dr_owner = ''tax'', dr_source = ''cronomicon'', dr_calendar = ''freeze'', dr_day = ''2026-12-24'',
                dr_label = ''year end''\<rparr>]\<rparr>"

lemma Load_suffices_witness:
  "v_calendar (EvaluateBindings (Load witness_tables ''tax'' [''hol'', ''freeze'']) ''tax''
     (witness_bindings\<lparr>b_entry_skip := [''hol''], b_entry_only := []\<rparr>) ''2026-12-24'') = ''freeze''"
proof -
  let ?b = "witness_bindings\<lparr>b_entry_skip := [''hol''], b_entry_only := []\<rparr>"
  have u: "names_unique witness_tables" by (simp add: names_unique_def witness_tables_def)
  have s: "set (binding_names ?b) \<subseteq> set [''hol'', ''freeze'']"
    by (simp add: binding_names_def witness_bindings_def)
  have "v_calendar (EvaluateBindings (Load witness_tables ''tax'' (binding_names ?b)) ''tax'' ?b ''2026-12-24'') = ''freeze''"
    by code_simp
  then show ?thesis using Load_suffices [OF u s, of "''tax''" "''2026-12-24''"] by simp
qed

end
