(* ===== verification/Calendar_Catalogue.thy ===== *)
theory Calendar_Catalogue
  imports Calendar_Admin
begin

text \<open>
  The installation freeze (\<open>backend/internal/calendar/freeze.go\<close>) and the catalogue of calendars
  (\<open>catalogue.go\<close>), with the strict day format of \<open>calendar.go\<close>. The lemmas give the freeze as a
  half-open window, the diff as the change that turns one content into the other, and the hashed
  lines as an injective encoding of a content.
\<close>

section \<open>The strict day format\<close>

definition leap_year :: "int \<Rightarrow> bool" where
  "leap_year y \<longleftrightarrow> y mod 4 = 0 \<and> (y mod 100 \<noteq> 0 \<or> y mod 400 = 0)"

definition days_in :: "int \<Rightarrow> int \<Rightarrow> int" where
  "days_in m y = (if m = 2 then (if leap_year y then 29 else 28)
                  else if m \<in> {4, 6, 9, 11} then 30 else 31)"

text \<open>\<open>time.Parse("2006-01-02", s)\<close> reads four, two and two digits; formatting what it read gives
  the same text back, so the comparison of the code adds nothing to the parse.\<close>

definition ValidDay :: "string \<Rightarrow> bool" where
  "ValidDay s \<longleftrightarrow>
     length s = 10 \<and> s ! 4 = CHR ''-'' \<and> s ! 7 = CHR ''-'' \<and>
     list_all is_digit (take 4 s) \<and> list_all is_digit (take 2 (drop 5 s)) \<and> list_all is_digit (drop 8 s) \<and>
     (let y = digits_val (take 4 s); m = digits_val (take 2 (drop 5 s)); d = digits_val (drop 8 s)
      in 1 \<le> m \<and> m \<le> 12 \<and> 1 \<le> d \<and> d \<le> days_in m y)"

lemma ValidDay_examples:
  "ValidDay ''2026-07-04''" "\<not> ValidDay ''2026-02-30''" "ValidDay ''2024-02-29''" "\<not> ValidDay ''2026-7-4''"
  by (simp_all add: ValidDay_def days_in_def leap_year_def digits_val_def digit_val_def is_digit_def)

section \<open>The installation freeze\<close>

record freeze =
  fz_on :: bool
  fz_reason :: string
  fz_from :: string
  fz_until :: string

datatype freeze_state = FreezeOff | FreezeScheduled | FreezeInEffect | FreezeEnded

text \<open>\<open>parse\<close> is \<open>time.Parse(time.RFC3339, _)\<close>. A bound that does not parse is the zero time, an
  open end.\<close>

definition freeze_bound :: "(string \<Rightarrow> int option) \<Rightarrow> string \<Rightarrow> int" where
  "freeze_bound parse s = (case parse s of Some t \<Rightarrow> t | None \<Rightarrow> 0)"

definition freeze_window :: "(string \<Rightarrow> int option) \<Rightarrow> freeze \<Rightarrow> int \<times> int" where
  "freeze_window parse f = (freeze_bound parse (fz_from f), freeze_bound parse (fz_until f))"

definition FreezeState :: "(string \<Rightarrow> int option) \<Rightarrow> freeze \<Rightarrow> int \<Rightarrow> freeze_state" where
  "FreezeState parse f t =
     (if \<not> fz_on f then FreezeOff
      else let (from, until) = freeze_window parse f in
        if from \<noteq> 0 \<and> t < from then FreezeScheduled
        else if until \<noteq> 0 \<and> \<not> t < until then FreezeEnded
        else FreezeInEffect)"

definition FreezeVerdictAt :: "(string \<Rightarrow> int option) \<Rightarrow> freeze \<Rightarrow> int \<Rightarrow> verdict option" where
  "FreezeVerdictAt parse f t =
     (if FreezeState parse f t \<noteq> FreezeInEffect then None
      else Some (skip_verdict FreezeCalendar (fz_reason f) []))"

text \<open>\<open>freezeTier\<close> of \<open>backend/internal/scheduler/gate.go\<close>: the freeze in effect, else the calendars.\<close>

definition freezeTier ::
  "(string \<Rightarrow> int option) \<Rightarrow> freeze \<Rightarrow> cal_tables \<Rightarrow> string \<Rightarrow> bindings \<Rightarrow> string \<Rightarrow> int \<Rightarrow> verdict" where
  "freezeTier parse f db agency b day t =
     (case FreezeVerdictAt parse f t of
        Some v \<Rightarrow> v
      | None \<Rightarrow> EvaluateBindings (Load db agency (binding_names b)) agency b day)"

text \<open>the installation freeze is the half-open window it is set to: it suppresses a fire at \<open>t\<close>
  exactly when it is on, \<open>t\<close> is not before its start and is before its end, a missing or damaged
  bound being an open end; and what it then gives is a recorded skip naming it.\<close>
theorem FreezeVerdictAt_window:
  "(FreezeVerdictAt parse f t = Some v) =
   (fz_on f \<and> t \<in> {u. freeze_bound parse (fz_from f) = 0 \<or> freeze_bound parse (fz_from f) \<le> u}
      \<inter> {u. freeze_bound parse (fz_until f) = 0 \<or> u < freeze_bound parse (fz_until f)} \<and>
    v = skip_verdict FreezeCalendar (fz_reason f) [])"
  by (auto simp: FreezeVerdictAt_def FreezeState_def freeze_window_def)

lemma freeze_never_resumes:
  assumes "FreezeState parse f t = FreezeEnded" and "t \<le> t'"
  shows "FreezeState parse f t' = FreezeEnded"
  using assms by (auto simp: FreezeState_def freeze_window_def split: if_splits)

section \<open>The catalogue\<close>

record content =
  ct_description :: string
  ct_global :: bool
  ct_record_suppressed :: bool
  ct_days :: day_set

record content_diff =
  cd_added :: "string list"
  cd_removed :: "string list"
  cd_relabelled :: "string list"
  cd_description :: bool
  cd_global :: bool
  cd_record_suppressed :: bool

definition diff_empty :: "content_diff \<Rightarrow> bool" where
  "diff_empty d \<longleftrightarrow> cd_added d = [] \<and> cd_removed d = [] \<and> cd_relabelled d = [] \<and>
     \<not> cd_description d \<and> \<not> cd_global d \<and> \<not> cd_record_suppressed d"

definition Diff :: "content \<Rightarrow> content \<Rightarrow> content_diff" where
  "Diff from to =
     (let f = map_of (ct_days from); t = map_of (ct_days to);
          fromDays = sorted_keys (ct_days from); toDays = sorted_keys (ct_days to)
      in \<lparr>cd_added = filter (\<lambda>d. f d = None) toDays,
          cd_removed = filter (\<lambda>d. t d = None) fromDays,
          cd_relabelled = filter (\<lambda>d. f d \<noteq> None \<and> f d \<noteq> t d) toDays,
          cd_description = (ct_description from \<noteq> ct_description to),
          cd_global = (ct_global from \<noteq> ct_global to),
          cd_record_suppressed = (ct_record_suppressed from \<noteq> ct_record_suppressed to)\<rparr>)"

text \<open>Taking a diff's days from the catalogue's content.\<close>

definition take_days :: "content_diff \<Rightarrow> content \<Rightarrow> content \<Rightarrow> string \<Rightarrow> string option" where
  "take_days d from to day =
     (if day \<in> set (cd_removed d) then None
      else if day \<in> set (cd_added d) \<union> set (cd_relabelled d) then map_of (ct_days to) day
      else map_of (ct_days from) day)"

definition same_content :: "content \<Rightarrow> content \<Rightarrow> bool" where
  "same_content a b \<longleftrightarrow> ct_description a = ct_description b \<and> ct_global a = ct_global b \<and>
     ct_record_suppressed a = ct_record_suppressed b \<and> map_of (ct_days a) = map_of (ct_days b)"

lemma set_Diff:
  "set (cd_added (Diff a b)) = {d. map_of (ct_days a) d = None \<and> map_of (ct_days b) d \<noteq> None}"
  "set (cd_removed (Diff a b)) = {d. map_of (ct_days a) d \<noteq> None \<and> map_of (ct_days b) d = None}"
  "set (cd_relabelled (Diff a b)) = {d. map_of (ct_days a) d \<noteq> None \<and> map_of (ct_days b) d \<noteq> None \<and>
      map_of (ct_days a) d \<noteq> map_of (ct_days b) d}"
  by (auto simp: Diff_def Let_def)

text \<open>the diff is the change it says. Removing the removed days and taking the added and
  relabelled ones turns the copy's days into the catalogue's, and the diff is empty exactly when
  the two contents are the same (so "behind" is never shown for an identical copy).\<close>
theorem Diff_is_the_change:
  "take_days (Diff from to) from to = map_of (ct_days to) \<and>
   diff_empty (Diff from to) = same_content from to"
proof
  show "take_days (Diff from to) from to = map_of (ct_days to)"
    by (rule ext) (auto simp: take_days_def set_Diff)
  have "(cd_added (Diff from to) = [] \<and> cd_removed (Diff from to) = [] \<and> cd_relabelled (Diff from to) = []) =
     (map_of (ct_days from) = map_of (ct_days to))"
    (is "?l = ?r")
  proof
    assume ?l
    then have n: "d \<notin> set (cd_added (Diff from to))" "d \<notin> set (cd_removed (Diff from to))"
      "d \<notin> set (cd_relabelled (Diff from to))" for d by simp_all
    show ?r
    proof
      fix d show "map_of (ct_days from) d = map_of (ct_days to) d"
        using n [of d] by (cases "map_of (ct_days from) d"; cases "map_of (ct_days to) d") (auto simp: set_Diff)
    qed
  next
    assume ?r then show ?l by (auto simp: Diff_def Let_def filter_empty_conv)
  qed
  then show "diff_empty (Diff from to) = same_content from to"
    by (auto simp: diff_empty_def same_content_def Diff_def Let_def)
qed

section \<open>The hashed lines\<close>

text \<open>The escape of \<open>ContentHash\<close>: backslash, tab and newline.\<close>

definition esc_char :: "char \<Rightarrow> string" where
  "esc_char c =
     (if c = CHR 0x5C then [CHR 0x5C, CHR 0x5C]
      else if c = CHR 0x09 then [CHR 0x5C, CHR ''t'']
      else if c = CHR 0x0A then [CHR 0x5C, CHR ''n'']
      else [c])"

definition esc :: "string \<Rightarrow> string" where
  "esc s = replace_bytes esc_char s"

definition flag :: "bool \<Rightarrow> string" where
  "flag b = (if b then ''1'' else ''0'')"

definition content_lines :: "content \<Rightarrow> string" where
  "content_lines c =
     ''v1'' @ [CHR 0x0A] @ esc (ct_description c) @ [CHR 0x0A] @
     flag (ct_global c) @ [CHR 0x09] @ flag (ct_record_suppressed c) @ [CHR 0x0A] @
     concat (map (\<lambda>d. esc d @ [CHR 0x09] @
               esc (case map_of (ct_days c) d of Some l \<Rightarrow> l | None \<Rightarrow> []) @ [CHR 0x0A])
            (sorted_keys (ct_days c)))"

text \<open>\<open>sha\<close> is \<open>hex.EncodeToString\<close> of SHA-256.\<close>

definition ContentHash :: "(string \<Rightarrow> string) \<Rightarrow> content \<Rightarrow> string" where
  "ContentHash sha c = ''sha256:'' @ sha (content_lines c)"

lemma esc_simps: "esc [] = []" "esc (c # s) = esc_char c @ esc s"
  by (simp_all add: esc_def replace_bytes_def)

lemma esc_clean: "CHR 0x09 \<notin> set (esc s)" "CHR 0x0A \<notin> set (esc s)"
  by (induction s) (auto simp: esc_simps esc_char_def)

lemma esc_inj: "esc s = esc t \<Longrightarrow> s = t"
proof (induction s arbitrary: t)
  case Nil then show ?case by (cases t) (auto simp: esc_simps esc_char_def split: if_splits)
next
  case (Cons c s)
  then show ?case by (cases t) (auto simp: esc_simps esc_char_def split: if_splits)
qed

lemma esc_eq: "esc s = esc t \<longleftrightarrow> s = t"
  using esc_inj by blast

definition line_of :: "(string \<Rightarrow> string) \<Rightarrow> string \<Rightarrow> string" where
  "line_of f d = esc d @ [CHR 0x09] @ esc (f d) @ [CHR 0x0A]"

lemma lines_inj:
  "concat (map (line_of f) ds) = concat (map (line_of g) es) \<Longrightarrow>
   ds = es \<and> (\<forall>d \<in> set ds. f d = g d)"
proof (induction ds arbitrary: es)
  case Nil then show ?case by (cases es) (auto simp: line_of_def)
next
  case (Cons d ds)
  then obtain e es' where es: "es = e # es'" by (cases es) (auto simp: line_of_def)
  have "esc d @ CHR 0x09 # (esc (f d) @ CHR 0x0A # concat (map (line_of f) ds)) =
        esc e @ CHR 0x09 # (esc (g e) @ CHR 0x0A # concat (map (line_of g) es'))"
    using Cons.prems unfolding es by (simp add: line_of_def [of f d] line_of_def [of g e])
  then have "esc d = esc e" "esc (f d) = esc (g e)" "concat (map (line_of f) ds) = concat (map (line_of g) es')"
    by (simp_all add: field_cut esc_clean)
  with Cons.IH [of es'] es show ?case by (simp add: esc_eq)
qed

text \<open>what the catalogue hashes identifies a content. Two contents give the same lines exactly
  when their descriptions, flags, days and labels agree: the escaping leaves no description or
  label that makes two contents read alike.\<close>
theorem content_lines_injective:
  "(content_lines a = content_lines b) = same_content a b"
proof
  let ?lab = "\<lambda>c d. case map_of (ct_days c) d of Some l \<Rightarrow> l | None \<Rightarrow> []"
  have cl: "content_lines c = ''v1'' @ CHR 0x0A # (esc (ct_description c) @ CHR 0x0A #
      (flag (ct_global c) @ CHR 0x09 # (flag (ct_record_suppressed c) @ CHR 0x0A #
       concat (map (line_of (?lab c)) (sorted_keys (ct_days c))))))" for c
    by (simp add: content_lines_def line_of_def [abs_def])
  have fl: "CHR 0x09 \<notin> set (flag x)" "CHR 0x0A \<notin> set (flag x)" "flag x = flag y \<longleftrightarrow> x = y" for x y
    by (auto simp: flag_def)
  {
    assume "content_lines a = content_lines b"
    then have d: "esc (ct_description a) = esc (ct_description b)" "ct_global a = ct_global b"
      "ct_record_suppressed a = ct_record_suppressed b"
      and l: "concat (map (line_of (?lab a)) (sorted_keys (ct_days a))) =
              concat (map (line_of (?lab b)) (sorted_keys (ct_days b)))"
      unfolding cl by (simp_all add: field_cut esc_clean fl)
    from lines_inj [OF l] have k: "sorted_keys (ct_days a) = sorted_keys (ct_days b)"
      and v: "\<forall>d \<in> set (sorted_keys (ct_days a)). ?lab a d = ?lab b d" by blast+
    from arg_cong [OF k, of set] have dm: "dom (map_of (ct_days a)) = dom (map_of (ct_days b))" by simp
    have "map_of (ct_days a) = map_of (ct_days b)"
    proof
      fix d
      have "(map_of (ct_days a) d = None) = (map_of (ct_days b) d = None)" using dm by (metis domIff)
      moreover have "?lab a d = ?lab b d" if "map_of (ct_days a) d \<noteq> None" using v that by (simp add: domIff)
      ultimately show "map_of (ct_days a) d = map_of (ct_days b) d"
        by (cases "map_of (ct_days a) d"; cases "map_of (ct_days b) d") auto
    qed
    with d esc_inj show "same_content a b" by (simp add: same_content_def)
  }
  assume "same_content a b"
  then show "content_lines a = content_lines b"
    using sorted_keys_map_of [of "ct_days a" "ct_days b"]
    by (simp add: same_content_def content_lines_def)
qed

end
