(* ===== verification/Cron_Spec.thy ===== *)
theory Cron_Spec
  imports Go_Prelude
begin

text \<open>
  Schedule specifications: \<open>backend/internal/cronutil\<close> (\<open>cronutil.go\<close>, \<open>spec.go\<close>). The activation
  window, the three kinds of schedule (cron, interval, once), their validation and resolution,
  the projections of the next fires, deadlines, policies and the concurrency key.

  A \<open>time.Time\<close> is the zone it is stated in and its instant. A \<open>cron.Schedule\<close> is its \<open>Next\<close> method: from a time
  to the next one, instant 0 (Go's zero time) for "never again", \<open>None\<close> for a run-time panic. The cron parser
  (robfig/cron) and \<open>time.ParseDuration\<close> are fields of the record \<open>cron_lib\<close>: an expression that names no zone is
  evaluated in the zone of the time it is asked with, and the answer is stated in that zone.
\<close>

type_synonym moment = "string \<times> int"
type_synonym schedule = "moment \<Rightarrow> moment option"
type_synonym cron_expr = "string \<Rightarrow> int \<Rightarrow> int option"

record cron_lib =
  parse6 :: "string \<Rightarrow> cron_expr option"
  parse5 :: "string \<Rightarrow> cron_expr option"
  parse_duration :: "string \<Rightarrow> int option"
  local_zone :: string

section \<open>Windows\<close>

text \<open>The bounds are compared as instants; \<open>w_zone\<close> is the zone the start is stated in.\<close>

record window =
  w_start :: int
  w_end :: int
  w_zone :: string

definition win_Active :: "window option \<Rightarrow> int \<Rightarrow> bool" where
  "win_Active w now =
     (case w of None \<Rightarrow> True
      | Some w \<Rightarrow> if w_start w \<noteq> 0 \<and> now < w_start w then False
                  else if w_end w \<noteq> 0 \<and> now > w_end w then False
                  else True)"

definition win_Pending :: "window option \<Rightarrow> int \<Rightarrow> bool" where
  "win_Pending w now = (case w of None \<Rightarrow> False | Some w \<Rightarrow> w_start w \<noteq> 0 \<and> now < w_start w)"

definition win_Expired :: "window option \<Rightarrow> int \<Rightarrow> bool" where
  "win_Expired w now = (case w of None \<Rightarrow> False | Some w \<Rightarrow> w_end w \<noteq> 0 \<and> now > w_end w)"

definition clampAfter :: "window option \<Rightarrow> int \<Rightarrow> int" where
  "clampAfter w after =
     (case w of None \<Rightarrow> after
      | Some w \<Rightarrow> if w_start w = 0 \<or> \<not> after < w_start w then after else w_start w - 1)"

definition win_past :: "window option \<Rightarrow> int \<Rightarrow> bool" where
  "win_past w t = (case w of None \<Rightarrow> False | Some w \<Rightarrow> w_end w \<noteq> 0 \<and> t > w_end w)"

definition NewWindow :: "moment option \<Rightarrow> moment option \<Rightarrow> window option" where
  "NewWindow start stop =
     (if start = None \<and> stop = None then None
      else Some \<lparr>w_start = (case start of Some (_, t) \<Rightarrow> t | None \<Rightarrow> 0),
                 w_end = (case stop of Some (_, t) \<Rightarrow> t | None \<Rightarrow> 0),
                 w_zone = (case start of Some (z, _) \<Rightarrow> z | None \<Rightarrow> ''UTC'')\<rparr>)"

definition windowLogState :: "window option \<Rightarrow> int \<Rightarrow> string" where
  "windowLogState win now =
     (if win = None then []
      else if win_Pending win now then ''pending''
      else if win_Expired win now then ''expired''
      else ''active'')"

lemma win_Active_iff: "win_Active w now \<longleftrightarrow> \<not> win_Pending w now \<and> \<not> win_Expired w now"
  by (cases w) (auto simp: win_Active_def win_Pending_def win_Expired_def)

section \<open>Cron expressions\<close>

definition isEveryDescriptor :: "string \<Rightarrow> bool" where
  "isEveryDescriptor expr \<longleftrightarrow> has_prefix (to_lower (trim_space expr)) ''@every''"

definition Parse :: "cron_lib \<Rightarrow> string \<Rightarrow> cron_expr option" where
  "Parse lib expr =
     (if isEveryDescriptor expr then None
      else case parse6 lib expr of Some s \<Rightarrow> Some s | None \<Rightarrow> parse5 lib expr)"

definition Valid :: "cron_lib \<Rightarrow> string \<Rightarrow> bool" where
  "Valid lib expr \<longleftrightarrow> Parse lib expr \<noteq> None"

definition locOr :: "cron_lib \<Rightarrow> string option \<Rightarrow> string" where
  "locOr lib loc = (case loc of None \<Rightarrow> local_zone lib | Some z \<Rightarrow> z)"

text \<open>The inner option is the \<open>ok\<close> result; the outer one is a panic.\<close>

definition cron_Next :: "cron_lib \<Rightarrow> string \<Rightarrow> int \<Rightarrow> string option \<Rightarrow> int option option" where
  "cron_Next lib expr after loc =
     (case Parse lib expr of None \<Rightarrow> Some None
      | Some sched \<Rightarrow> (case sched (locOr lib loc) after of
           None \<Rightarrow> None
         | Some u \<Rightarrow> Some (if u = 0 then None else Some u)))"

text \<open>The projection loop: at most \<open>n\<close> fires, stopping at the zero time or where \<open>stop\<close> says.\<close>

fun next_loop :: "(int \<Rightarrow> int option) \<Rightarrow> (int \<Rightarrow> bool) \<Rightarrow> nat \<Rightarrow> int \<Rightarrow> int list option" where
  "next_loop nxt stop 0 cur = Some []"
| "next_loop nxt stop (Suc n) cur =
     (case nxt cur of None \<Rightarrow> None
      | Some u \<Rightarrow> if u = 0 \<or> stop u then Some []
                  else map_option ((#) u) (next_loop nxt stop n u))"

text \<open>The same loop on times: the zone an answer is stated in is the one the next question is asked in.\<close>

fun moment_loop :: "schedule \<Rightarrow> (int \<Rightarrow> bool) \<Rightarrow> nat \<Rightarrow> moment \<Rightarrow> int list option" where
  "moment_loop nxt stop 0 cur = Some []"
| "moment_loop nxt stop (Suc n) cur =
     (case nxt cur of None \<Rightarrow> None
      | Some (z, u) \<Rightarrow> if u = 0 \<or> stop u then Some []
                       else map_option ((#) u) (moment_loop nxt stop n (z, u)))"

lemma moment_loop_instants:
  assumes "\<And>z t. map_option snd (nxt (z, t)) = f t"
  shows "moment_loop nxt stop n (z, t) = next_loop f stop n t"
proof (induction n arbitrary: z t)
  case (Suc n)
  then show ?case by (cases "nxt (z, t)") (auto simp: assms [of z t, symmetric])
qed simp

lemma moment_loop_zone:
  assumes "\<And>t. nxt (z, t) = map_option (Pair z) (f t)"
  shows "moment_loop nxt stop n (z, t) = next_loop f stop n t"
proof (induction n arbitrary: t)
  case (Suc n)
  then show ?case by (simp add: assms split: option.splits)
qed simp

text \<open>\<open>NextNWindowed\<close> moves the clamped time to the evaluation zone, which no answer of an expression leaves.\<close>

definition NextNWindowed ::
  "cron_lib \<Rightarrow> string \<Rightarrow> int \<Rightarrow> int \<Rightarrow> int \<Rightarrow> string option \<Rightarrow> window option \<Rightarrow> int list option" where
  "NextNWindowed lib expr after horizon n loc win =
     (case Parse lib expr of None \<Rightarrow> Some []
      | Some sched \<Rightarrow>
          if n \<le> 0 then Some []
          else next_loop (sched (locOr lib loc)) (\<lambda>u. u > horizon \<or> win_past win u) (nat n)
                 (clampAfter win after))"

definition NextN :: "cron_lib \<Rightarrow> string \<Rightarrow> int \<Rightarrow> int \<Rightarrow> int \<Rightarrow> string option \<Rightarrow> int list option" where
  "NextN lib expr after horizon n loc = NextNWindowed lib expr after horizon n loc None"

section \<open>Wall-clock anchoring\<close>

text \<open>\<open>time.Parse("15:04", s)\<close>: one or two hour digits, a colon, two minute digits.\<close>

definition parse_clock :: "string \<Rightarrow> (int \<times> int) option" where
  "parse_clock s =
     (let hd2 = (if length s \<ge> 2 \<and> is_digit (s ! 1) then 2 else 1 :: nat);
          hs = take hd2 s; r = drop hd2 s;
          h = digits_val hs; m = digits_val (drop 1 r)
      in if s \<noteq> [] \<and> list_all is_digit hs \<and> length r = 3 \<and> r ! 0 = CHR '':'' \<and>
            list_all is_digit (drop 1 r) \<and> 0 \<le> h \<and> h < 24 \<and> 0 \<le> m \<and> m < 60
         then Some (h, m) else None)"

definition UntilWallClock :: "string \<Rightarrow> string \<Rightarrow> int \<Rightarrow> int" where
  "UntilWallClock hhmm fallback now =
     (let (h, m) = (case parse_clock hhmm of Some c \<Rightarrow> c
                    | None \<Rightarrow> (case parse_clock fallback of Some c \<Rightarrow> c | None \<Rightarrow> (2, 0)));
          next0 = (now - now mod nsDay) + h * nsHour + m * nsMinute;
          next = (if \<not> next0 > now then next0 + nsDay else next0)
      in time_sub next now)"

section \<open>Intervals\<close>

definition re_space :: "char \<Rightarrow> bool" where
  "re_space c \<longleftrightarrow> c \<in> {CHR 0x09, CHR 0x0A, CHR 0x0C, CHR 0x0D, CHR '' ''}"

text \<open>The expression \<open>^(\d+)\s*d$\<close>.\<close>

definition day_shorthand :: "string \<Rightarrow> string option" where
  "day_shorthand raw =
     (let ds = takeWhile is_digit raw; r = dropWhile re_space (dropWhile is_digit raw)
      in if ds \<noteq> [] \<and> r = ''d'' then Some ds else None)"

definition MinInterval :: int where "MinInterval = nsMinute"

datatype spec_error =
    ErrSpecEmpty
  | ErrSpecConflict
  | ErrIntervalNeedsAnchor
  | ErrInvalidInterval
  | ErrIntervalTooShort
  | ErrInvalidCron

definition ParseInterval :: "cron_lib \<Rightarrow> string \<Rightarrow> spec_error + int" where
  "ParseInterval lib s =
     (let raw = trim_space (to_lower s) in
      if raw = [] then Inr 0
      else case day_shorthand raw of
        Some ds \<Rightarrow>
          (case atoi ds of
             None \<Rightarrow> Inl ErrInvalidInterval
           | Some days \<Rightarrow> if days \<le> 0 then Inl ErrInvalidInterval
                          else Inr (wrap64 (wrap64 (days * 24) * nsHour)))
      | None \<Rightarrow>
          (case parse_duration lib raw of
             None \<Rightarrow> Inl ErrInvalidInterval
           | Some d \<Rightarrow> if d \<le> 0 then Inl ErrInvalidInterval
                       else if d < MinInterval then Inl ErrIntervalTooShort
                       else Inr d))"

text \<open>Integer division truncates towards zero and panics on a zero divisor.\<close>

definition go_div :: "int \<Rightarrow> int \<Rightarrow> int option" where
  "go_div a b = (if b = 0 then None else Some (wrap64 (sgn a * sgn b * (\<bar>a\<bar> div \<bar>b\<bar>))))"

definition interval_next :: "int \<Rightarrow> int \<Rightarrow> int \<Rightarrow> int option" where
  "interval_next anchor every t =
     (if t < anchor then Some anchor
      else case go_div (time_sub t anchor) every of
        None \<Rightarrow> None
      | Some q \<Rightarrow> Some (anchor + wrap64 (wrap64 (q + 1) * every)))"

definition once_next :: "int \<Rightarrow> int \<Rightarrow> int option" where
  "once_next at t = (if t < at then Some at else Some 0)"

section \<open>Specs\<close>

record spec =
  sp_cron :: string
  sp_interval :: string
  sp_window :: "window option"

datatype spec_mode = ModeCron | ModeInterval | ModeOnce

definition Mode :: "spec \<Rightarrow> spec_mode" where
  "Mode sp =
     (if trim_space (sp_cron sp) \<noteq> [] then ModeCron
      else if trim_space (sp_interval sp) \<noteq> [] then ModeInterval
      else ModeOnce)"

definition has_start :: "window option \<Rightarrow> bool" where
  "has_start w \<longleftrightarrow> (case w of None \<Rightarrow> False | Some w \<Rightarrow> w_start w \<noteq> 0)"

definition Validate :: "cron_lib \<Rightarrow> spec \<Rightarrow> spec_error option" where
  "Validate lib sp =
     (let hasCron = (trim_space (sp_cron sp) \<noteq> []);
          hasInterval = (trim_space (sp_interval sp) \<noteq> [])
      in if hasCron \<and> hasInterval then Some ErrSpecConflict
         else if hasCron then (if \<not> Valid lib (sp_cron sp) then Some ErrInvalidCron else None)
         else if hasInterval then
           (case ParseInterval lib (sp_interval sp) of
              Inl e \<Rightarrow> Some e
            | Inr _ \<Rightarrow> if \<not> has_start (sp_window sp) then Some ErrIntervalNeedsAnchor else None)
         else if \<not> has_start (sp_window sp) then Some ErrSpecEmpty else None)"

text \<open>A window on instants, for a schedule that looks at no zone.\<close>

definition window_next :: "window \<Rightarrow> (int \<Rightarrow> int option) \<Rightarrow> int \<Rightarrow> int option" where
  "window_next w inner t =
     (let t' = (if w_start w \<noteq> 0 \<and> t < w_start w then w_start w - 1 else t)
      in case inner t' of
           None \<Rightarrow> None
         | Some u \<Rightarrow> if u = 0 \<or> (w_end w \<noteq> 0 \<and> u > w_end w) then Some 0 else Some u)"

text \<open>\<open>specWindow.Next\<close>: a time before the window is replaced by one stated in the zone of the window's start.\<close>

definition specWindow_Next :: "window \<Rightarrow> schedule \<Rightarrow> schedule" where
  "specWindow_Next w inner t0 =
     (let t = (if w_start w \<noteq> 0 \<and> snd t0 < w_start w then (w_zone w, w_start w - 1) else t0)
      in case inner t of
           None \<Rightarrow> None
         | Some (z, u) \<Rightarrow> if u = 0 \<or> (w_end w \<noteq> 0 \<and> u > w_end w) then Some (''UTC'', 0) else Some (z, u))"

definition withWindow :: "schedule \<Rightarrow> window option \<Rightarrow> schedule" where
  "withWindow inner win = (case win of None \<Rightarrow> inner | Some w \<Rightarrow> specWindow_Next w inner)"

definition cron_schedule :: "cron_expr \<Rightarrow> schedule" where
  "cron_schedule e = (\<lambda>(z, t). map_option (Pair z) (e z t))"

text \<open>The answers of an interval and of a one-shot are stated in the zone of their anchor.\<close>

definition anchored :: "window option \<Rightarrow> (int \<Rightarrow> int option) \<Rightarrow> schedule" where
  "anchored win f = (\<lambda>(_, t). map_option (Pair (case win of None \<Rightarrow> ''UTC'' | Some w \<Rightarrow> w_zone w)) (f t))"

lemma anchored_instants: "map_option snd (withWindow (anchored win f) (Some w) (z, t)) = window_next w f t"
  by (auto simp: withWindow_def specWindow_Next_def window_next_def anchored_def Let_def split: option.split)

lemma anchored_loop:
  "moment_loop (withWindow (anchored win f) (Some w)) stop n (z, t) = next_loop (window_next w f) stop n t"
  by (rule moment_loop_instants) (rule anchored_instants)

lemma cron_loop: "moment_loop (cron_schedule e) stop n (z, t) = next_loop (e z) stop n t"
  by (rule moment_loop_zone) (simp add: cron_schedule_def)

definition start_of :: "window option \<Rightarrow> int" where
  "start_of w = (case w of None \<Rightarrow> 0 | Some w \<Rightarrow> w_start w)"

definition ParseSpec :: "cron_lib \<Rightarrow> spec \<Rightarrow> spec_error + schedule" where
  "ParseSpec lib sp =
     (case Validate lib sp of Some e \<Rightarrow> Inl e
      | None \<Rightarrow>
        (case Mode sp of
           ModeCron \<Rightarrow> (case Parse lib (sp_cron sp) of
               None \<Rightarrow> Inl ErrInvalidCron
             | Some inner \<Rightarrow> Inr (withWindow (cron_schedule inner) (sp_window sp)))
         | ModeInterval \<Rightarrow> (case ParseInterval lib (sp_interval sp) of
               Inl e \<Rightarrow> Inl e
             | Inr every \<Rightarrow>
                 Inr (withWindow (anchored (sp_window sp) (interval_next (start_of (sp_window sp)) every)) (sp_window sp)))
         | ModeOnce \<Rightarrow> Inr (withWindow (anchored (sp_window sp) (once_next (start_of (sp_window sp)))) (sp_window sp))))"

definition NextSpec :: "cron_lib \<Rightarrow> spec \<Rightarrow> int \<Rightarrow> string option \<Rightarrow> int option option" where
  "NextSpec lib sp after loc =
     (case ParseSpec lib sp of Inl _ \<Rightarrow> Some None
      | Inr sched \<Rightarrow> (case sched (locOr lib loc, after) of
           None \<Rightarrow> None
         | Some (_, u) \<Rightarrow> Some (if u = 0 then None else Some u)))"

definition NextNSpec :: "cron_lib \<Rightarrow> spec \<Rightarrow> int \<Rightarrow> int \<Rightarrow> int \<Rightarrow> string option \<Rightarrow> int list option" where
  "NextNSpec lib sp after horizon n loc =
     (case ParseSpec lib sp of Inl _ \<Rightarrow> Some []
      | Inr sched \<Rightarrow> if n \<le> 0 then Some []
                     else moment_loop sched (\<lambda>u. u > horizon) (nat n) (locOr lib loc, after))"

definition DescribeSpec :: "spec \<Rightarrow> string" where
  "DescribeSpec sp =
     (case Mode sp of
        ModeCron \<Rightarrow> ''cron '' @ trim_space (sp_cron sp)
      | ModeInterval \<Rightarrow> ''every '' @ trim_space (sp_interval sp)
      | ModeOnce \<Rightarrow> ''once'')"

section \<open>Deadlines, policies, keys\<close>

definition ParseDeadline :: "string \<Rightarrow> (int \<times> int) option" where
  "ParseDeadline hhmm =
     (case split_on (CHR '':'') (trim_space hhmm) of
        [a, b] \<Rightarrow>
          (case (atoi a, atoi b) of
             (Some h, Some m) \<Rightarrow> if h < 0 \<or> h > 23 \<or> m < 0 \<or> m > 59 then None else Some (h, m)
           | _ \<Rightarrow> None)
      | _ \<Rightarrow> None)"

definition ValidDeadline :: "string \<Rightarrow> bool" where
  "ValidDeadline hhmm \<longleftrightarrow> ParseDeadline hhmm \<noteq> None"

definition PolicyAllow :: string where "PolicyAllow = ''Allow''"
definition PolicyForbid :: string where "PolicyForbid = ''Forbid''"
definition PolicyQueue :: string where "PolicyQueue = ''Queue''"

lemmas policy_defs [go_simps] = PolicyAllow_def PolicyForbid_def PolicyQueue_def

definition ConcurrencyPolicies :: "string list" where
  "ConcurrencyPolicies = [PolicyAllow, PolicyForbid, PolicyQueue]"

definition ValidPolicy :: "string \<Rightarrow> bool" where
  "ValidPolicy p \<longleftrightarrow> p \<in> set ConcurrencyPolicies"

definition NormalizePolicy :: "string \<Rightarrow> string" where
  "NormalizePolicy p = (if ValidPolicy p then p else PolicyAllow)"

definition HoldsGate :: "string \<Rightarrow> bool" where
  "HoldsGate p \<longleftrightarrow> p = PolicyForbid \<or> p = PolicyQueue"

definition ConcurrencyKey :: "string \<Rightarrow> string \<Rightarrow> string \<Rightarrow> string \<Rightarrow> string \<Rightarrow> string" where
  "ConcurrencyKey custom agency uid source name =
     (if custom \<noteq> [] then (if agency = [] then custom else agency @ '':'' @ custom)
      else if uid \<noteq> [] then uid
      else source @ ''/'' @ name)"

end
