(* ===== verification/Cron_Laws.thy ===== *)
theory Cron_Laws
  imports Cron_Spec
begin

text \<open>
  The contract of a schedule's \<open>Next\<close> as a locale, the projection loop's correctness proved once
  from it, and its interpretations on the interval, once and windowed schedules of
  \<open>Cron_Spec\<close>. Then the remaining properties of \<open>cronutil\<close>: mode exclusivity, the daily anchor,
  deadlines, policies and concurrency keys.
\<close>

section \<open>The contract of Next\<close>

text \<open>
  \<open>limit\<close> bounds the instants the laws speak about: beyond it the 64-bit durations of the
  interval arithmetic no longer hold the distance to the anchor.
\<close>

locale fire_schedule =
  fixes nxt :: "int \<Rightarrow> int option" and limit :: int
  assumes total: "0 \<le> t \<Longrightarrow> t \<le> limit \<Longrightarrow> nxt t \<noteq> None"
    and strict: "0 \<le> t \<Longrightarrow> t \<le> limit \<Longrightarrow> nxt t = Some u \<Longrightarrow> u \<noteq> 0 \<Longrightarrow> t < u"
    and stable: "0 \<le> t \<Longrightarrow> t \<le> t' \<Longrightarrow> t' \<le> limit \<Longrightarrow> nxt t = Some u \<Longrightarrow> u \<noteq> 0 \<Longrightarrow> t' < u \<Longrightarrow> nxt t' = Some u"
    and final: "0 \<le> t \<Longrightarrow> t \<le> t' \<Longrightarrow> t' \<le> limit \<Longrightarrow> nxt t = Some 0 \<Longrightarrow> nxt t' = Some 0"
begin

lemma fire_is_least:
  assumes "0 \<le> t" "t \<le> limit" "nxt t = Some u" "u \<noteq> 0"
    and "0 \<le> s" "s \<le> limit" "nxt s = Some v" "v \<noteq> 0" "t < v"
  shows "u \<le> v"
proof (cases "s \<le> t")
  case True
  then have "nxt t = Some v" using assms by (intro stable [of s t v]) auto
  with assms(3) show ?thesis by simp
next
  case False
  show ?thesis
  proof (cases "s < u")
    case True
    then have "nxt s = Some u" using assms False by (intro stable [of t s u]) auto
    with assms(7) show ?thesis by simp
  next
    case False
    moreover have "s < v" using strict assms(5-8) by blast
    ultimately show ?thesis by simp
  qed
qed

lemma loop_correct:
  assumes "0 \<le> cur" "cur \<le> limit" "\<And>u. \<not> stop u \<Longrightarrow> u \<le> limit"
  shows "\<exists>us. next_loop nxt stop n cur = Some us \<and> length us \<le> n \<and> sorted_wrt (<) us \<and>
    (\<forall>u \<in> set us. cur < u \<and> \<not> stop u \<and> (\<exists>t. 0 \<le> t \<and> t \<le> limit \<and> nxt t = Some u))"
  using assms(1,2)
proof (induction n arbitrary: cur)
  case (Suc n)
  obtain u where u: "nxt cur = Some u" using total Suc.prems by auto
  show ?case
  proof (cases "u = 0 \<or> stop u")
    case True then show ?thesis using u by auto
  next
    case False
    then have l: "cur < u" "u \<le> limit" using strict [OF Suc.prems u] assms(3) by auto
    then obtain us where us: "next_loop nxt stop n u = Some us" "length us \<le> n"
      "sorted_wrt (<) us" "\<forall>v \<in> set us. u < v \<and> \<not> stop v \<and> (\<exists>t. 0 \<le> t \<and> t \<le> limit \<and> nxt t = Some v)"
      using Suc.IH [of u] Suc.prems by auto
    have f: "\<exists>t. 0 \<le> t \<and> t \<le> limit \<and> nxt t = Some u" using Suc.prems u by blast
    have "\<forall>v \<in> set us. cur < v \<and> \<not> stop v \<and> (\<exists>t. 0 \<le> t \<and> t \<le> limit \<and> nxt t = Some v)"
      using us(4) l(1) by fastforce
    then show ?thesis using u us False l f by (intro exI [of _ "u # us"]) (simp add: Ball_def)
  qed
qed simp

lemma loop_complete:
  assumes "0 \<le> cur" "cur \<le> limit" "\<And>u. \<not> stop u \<Longrightarrow> u \<le> limit"
    and mono: "\<And>u v. stop u \<Longrightarrow> u \<le> v \<Longrightarrow> stop v"
    and "next_loop nxt stop n cur = Some us"
    and s: "0 \<le> s" "s \<le> limit" "nxt s = Some v" "v \<noteq> 0" "\<not> stop v"
    and "cur < v" "length us < n \<or> us \<noteq> [] \<and> v \<le> last us"
  shows "v \<in> set us"
  using assms(1,2,5,11,12)
proof (induction n arbitrary: cur us)
  case (Suc n)
  obtain u where u: "nxt cur = Some u" using total Suc.prems by auto
  have ns: "u \<noteq> 0"
  proof
    assume z: "u = 0"
    show False
    proof (cases "cur \<le> s")
      case True
      with final [OF Suc.prems(1) True s(2)] u z s show False by simp
    next
      case False
      then have "nxt cur = Some v" using s Suc.prems by (intro stable [of s cur v]) auto
      with u z s show False by simp
    qed
  qed
  have uv: "u \<le> v" using fire_is_least Suc.prems(1,2,4) u ns s by blast
  with mono s have nst: "\<not> stop u" by blast
  with ns Suc.prems u obtain us' where us': "us = u # us'" "next_loop nxt stop n u = Some us'" by auto
  have cu: "cur < u" "u \<le> limit" using strict [OF Suc.prems(1,2) u ns] assms(3) [OF nst] by auto
  show ?case
  proof (cases "v = u")
    case True then show ?thesis by (simp add: us')
  next
    case False
    with uv Suc.prems(5) us' have "length us' < n \<or> us' \<noteq> [] \<and> v \<le> last us'" by (auto split: if_splits)
    with Suc.IH [of u us'] Suc.prems(1) us' cu uv False show ?thesis by auto
  qed
qed simp

end

section \<open>The schedules of the code satisfy the contract\<close>

definition interval_limit :: "int \<Rightarrow> int \<Rightarrow> int" where
  "interval_limit anchor every =
     (if 0 < every \<and> every \<le> maxInt64 then anchor + maxInt64 - every else - 1)"

lemma div_lt_of_lt_mult:
  fixes a b k :: int
  assumes "0 < b" "a < k * b"
  shows "a div b < k"
proof (rule ccontr)
  assume "\<not> a div b < k"
  then have "k * b \<le> a div b * b" using assms(1) by (intro mult_right_mono) auto
  moreover have "a div b * b \<le> a" using assms(1) by (simp add: minus_mod_eq_div_mult [symmetric])
  ultimately show False using assms(2) by simp
qed

lemma interval_next_exact:
  assumes "0 < every" "anchor \<le> t" "t \<le> anchor + maxInt64 - every"
  shows "interval_next anchor every t = Some (anchor + ((t - anchor) div every + 1) * every)"
proof -
  let ?d = "t - anchor"
  have d: "0 \<le> ?d" "?d \<le> maxInt64" using assms by auto
  have q0: "0 \<le> ?d div every" using d assms(1) by (simp add: pos_imp_zdiv_nonneg_iff)
  have m: "?d div every * every \<le> ?d" using assms(1) by (simp add: minus_mod_eq_div_mult [symmetric])
  have "?d div every * 1 \<le> ?d div every * every" using q0 assms(1) by (intro mult_left_mono) auto
  with m q0 have q: "0 \<le> ?d div every" "?d div every \<le> ?d" by auto
  have e: "(?d div every + 1) * every \<le> maxInt64" using m assms(3) by (simp add: algebra_simps)
  have "?d div every + 1 \<le> (?d div every + 1) * every" using q(1) assms(1) by (simp add: mult_le_cancel_left1)
  with e have q1: "?d div every + 1 \<le> maxInt64" by simp
  have z: "0 \<le> (?d div every + 1) * every" using q assms(1) by simp
  have g: "go_div ?d every = Some (wrap64 (?d div every))"
    using d assms(1) by (cases "?d = 0") (simp_all add: go_div_def)
  have s: "time_sub t anchor = ?d" using d by (simp add: time_sub_def minInt64_def)
  have "wrap64 (?d div every) = ?d div every" "wrap64 (?d div every + 1) = ?d div every + 1"
    "wrap64 ((?d div every + 1) * every) = (?d div every + 1) * every"
    using q q1 e z d by (simp_all add: minInt64_def)
  then show ?thesis
    using assms by (simp add: interval_next_def s g)
qed

lemma interval_next_after:
  fixes t :: int
  assumes "0 < every"
  shows "t < anchor + ((t - anchor) div every + 1) * every"
proof -
  have "(t - anchor) div every * every + (t - anchor) mod every = t - anchor" by (rule div_mult_mod_eq)
  with pos_mod_bound [OF assms, of "t - anchor"]
  have "t - anchor < (t - anchor) div every * every + every" by linarith
  then show ?thesis unfolding distrib_right by linarith
qed

interpretation interval: fire_schedule "interval_next anchor every" "interval_limit anchor every" for anchor every
proof
  fix t assume t: "0 \<le> t" "t \<le> interval_limit anchor every"
  then have e: "0 < every" "every \<le> maxInt64" and l: "t \<le> anchor + maxInt64 - every"
    by (auto simp: interval_limit_def split: if_splits)
  have before: "interval_next anchor every t = Some anchor" if "t < anchor" using that by (simp add: interval_next_def)
  have after: "interval_next anchor every t = Some (anchor + ((t - anchor) div every + 1) * every)" if "anchor \<le> t"
    using interval_next_exact e(1) that l by blast
  show "interval_next anchor every t \<noteq> None" using before after by (cases "t < anchor") auto
  fix u assume u: "interval_next anchor every t = Some u" "u \<noteq> 0"
  have gt: "t < anchor + ((t - anchor) div every + 1) * every" using e(1) by (rule interval_next_after)
  show "t < u" using u before after gt by (cases "t < anchor") auto
next
  fix t t' u
  assume t: "0 \<le> t" "t \<le> t'" "t' \<le> interval_limit anchor every"
    and u: "interval_next anchor every t = Some u" "t' < u"
  then have e: "0 < every" "every \<le> maxInt64" and l: "t' \<le> anchor + maxInt64 - every"
    by (auto simp: interval_limit_def split: if_splits)
  show "interval_next anchor every t' = Some u"
  proof (cases "t < anchor")
    case True
    with u t show ?thesis by (simp add: interval_next_def)
  next
    case False
    then have a: "anchor \<le> t" "anchor \<le> t'" using t by auto
    have ut: "u = anchor + ((t - anchor) div every + 1) * every"
      using interval_next_exact [OF e(1) a(1)] l t(2) u(1) by simp
    have "(t - anchor) div every \<le> (t' - anchor) div every" using t(2) e(1) by (simp add: zdiv_mono1)
    moreover have "(t' - anchor) div every < (t - anchor) div every + 1"
    proof -
      have "t' - anchor < ((t - anchor) div every + 1) * every" using u(2) ut by linarith
      with e(1) show ?thesis by (rule div_lt_of_lt_mult)
    qed
    ultimately have "(t' - anchor) div every = (t - anchor) div every" by simp
    with ut interval_next_exact [OF e(1) a(2) l] show ?thesis by simp
  qed
next
  fix t t'
  assume t: "0 \<le> t" "t \<le> t'" "t' \<le> interval_limit anchor every" and u: "interval_next anchor every t = Some 0"
  then have e: "0 < every" and l: "t \<le> anchor + maxInt64 - every"
    by (auto simp: interval_limit_def split: if_splits)
  have False
  proof (cases "t < anchor")
    case True
    with t(1) u show False by (simp add: interval_next_def)
  next
    case False
    then have a: "anchor \<le> t" by simp
    with interval_next_after [OF e, of t anchor] interval_next_exact [OF e a l] t(1) u show False by simp
  qed
  then show "interval_next anchor every t' = Some 0" by simp
qed

interpretation once: fire_schedule "once_next at" limit for at limit
  by unfold_locales (auto simp: once_next_def split: if_splits)

definition window_limit :: "window \<Rightarrow> int \<Rightarrow> int" where
  "window_limit w limit = (if w_start w \<le> limit + 1 then limit else - 1)"

lemma window_laws:
  assumes f: "fire_schedule nxt limit"
  shows "fire_schedule (window_next w nxt) (window_limit w limit)"
proof
  let ?c = "\<lambda>t. if w_start w \<noteq> 0 \<and> t < w_start w then w_start w - 1 else t"
  have c: "0 \<le> ?c t \<and> t \<le> ?c t \<and> ?c t \<le> limit" if "0 \<le> t" "t \<le> window_limit w limit" for t
    using that by (auto simp: window_limit_def split: if_splits)
  fix t assume t: "0 \<le> t" "t \<le> window_limit w limit"
  obtain v where v: "nxt (?c t) = Some v" using fire_schedule.total [OF f] c [OF t] by blast
  then show "window_next w nxt t \<noteq> None" by (simp add: window_next_def Let_def)
  fix u assume u: "window_next w nxt t = Some u" "u \<noteq> 0"
  with v have "v = u" by (auto simp: window_next_def Let_def split: if_splits)
  with v u fire_schedule.strict [OF f, of "?c t" u] c [OF t] show "t < u" by auto
next
  let ?c = "\<lambda>t. if w_start w \<noteq> 0 \<and> t < w_start w then w_start w - 1 else t"
  fix t t' u
  assume t: "0 \<le> t" "t \<le> t'" "t' \<le> window_limit w limit"
    and u: "window_next w nxt t = Some u" "u \<noteq> 0" "t' < u"
  have c: "0 \<le> ?c s \<and> s \<le> ?c s \<and> ?c s \<le> limit" if "0 \<le> s" "s \<le> window_limit w limit" for s
    using that by (auto simp: window_limit_def split: if_splits)
  have n: "nxt (?c t) = Some u" and e: "\<not> (w_end w \<noteq> 0 \<and> u > w_end w)"
    using u by (auto simp: window_next_def Let_def split: option.splits if_splits)
  have "?c t < u" using fire_schedule.strict [OF f _ _ n u(2)] c [of t] t by auto
  then have "?c t' < u" using u(3) t(2) by (auto split: if_splits)
  moreover have "?c t \<le> ?c t'" using t(2) by auto
  ultimately have "nxt (?c t') = Some u"
    using fire_schedule.stable [OF f, of "?c t" "?c t'" u] n u(2) c [of t] c [of t'] t by auto
  with e u(2) show "window_next w nxt t' = Some u" by (simp add: window_next_def Let_def)
next
  let ?c = "\<lambda>t. if w_start w \<noteq> 0 \<and> t < w_start w then w_start w - 1 else t"
  fix t t'
  assume t: "0 \<le> t" "t \<le> t'" "t' \<le> window_limit w limit" and z: "window_next w nxt t = Some 0"
  have c: "0 \<le> ?c s \<and> s \<le> ?c s \<and> ?c s \<le> limit" if "0 \<le> s" "s \<le> window_limit w limit" for s
    using that by (auto simp: window_limit_def split: if_splits)
  have ct: "0 \<le> ?c t" "?c t \<le> ?c t'" "?c t' \<le> limit" using c [of t] c [of t'] t by auto
  obtain u where u: "nxt (?c t) = Some u" "u = 0 \<or> w_end w \<noteq> 0 \<and> u > w_end w"
    using z by (auto simp: window_next_def Let_def split: option.splits if_splits)
  obtain v where v: "nxt (?c t') = Some v" using fire_schedule.total [OF f] ct by fastforce
  have "v = 0 \<or> w_end w \<noteq> 0 \<and> v > w_end w"
  proof (cases "u = 0")
    case True
    then have "nxt (?c t') = Some 0" using fire_schedule.final [OF f ct] u(1) by simp
    with v show ?thesis by simp
  next
    case False
    show ?thesis
    proof (cases "?c t' < u")
      case True
      then have "nxt (?c t') = Some u" using fire_schedule.stable [OF f ct] u(1) False by simp
      with v u(2) show ?thesis by simp
    next
      case nlt: False
      have "v = 0 \<or> ?c t' < v" using fire_schedule.strict [OF f _ ct(3) v] ct by fastforce
      with nlt u(2) False show ?thesis by linarith
    qed
  qed
  with v show "window_next w nxt t' = Some 0" by (simp add: window_next_def Let_def)
qed

interpretation interval_in_window:
  fire_schedule "window_next w (interval_next anchor every)" "window_limit w (interval_limit anchor every)"
  for w anchor every
  by (rule window_laws) (rule interval.fire_schedule_axioms)

interpretation once_in_window: fire_schedule "window_next w (once_next at)" "window_limit w limit" for w at limit
  by (rule window_laws) (rule once.fire_schedule_axioms)

end
