(* ===== verification/Cron_Props.thy ===== *)
theory Cron_Props
  imports Cron_Laws
begin

text \<open>
  The properties of \<open>cronutil\<close>: which specs resolve, what the projections list, the agreement of
  the two projections, the daily anchor, the bounds of an interval and of a key.
\<close>

section \<open>Resolution\<close>

text \<open>C29: \<open>ParseSpec\<close> resolves a spec exactly when \<open>Validate\<close> accepts it and refuses it with the
  same error; what is accepted has exactly one mode, and the interval and once modes have an anchor.\<close>

theorem ParseSpec_iff_Validate:
  "(case Validate lib sp of
      Some e \<Rightarrow> ParseSpec lib sp = Inl e
    | None \<Rightarrow> (\<exists>sched. ParseSpec lib sp = Inr sched) \<and>
        (case Mode sp of
           ModeCron \<Rightarrow> trim_space (sp_interval sp) = [] \<and> Valid lib (sp_cron sp)
         | ModeInterval \<Rightarrow> trim_space (sp_cron sp) = [] \<and> (\<exists>d. ParseInterval lib (sp_interval sp) = Inr d) \<and>
             start_of (sp_window sp) \<noteq> 0
         | ModeOnce \<Rightarrow> trim_space (sp_cron sp) = [] \<and> trim_space (sp_interval sp) = [] \<and>
             start_of (sp_window sp) \<noteq> 0))"
proof (cases "Validate lib sp")
  case None
  then show ?thesis
    by (auto simp: Validate_def ParseSpec_def Mode_def Valid_def Let_def has_start_def start_of_def
        split: if_splits sum.splits option.splits)
qed (simp add: ParseSpec_def)

section \<open>Intervals\<close>

definition on_grid :: "window \<Rightarrow> int \<Rightarrow> int \<Rightarrow> bool" where
  "on_grid w every v \<longleftrightarrow> w_start w \<le> v \<and> (v - w_start w) mod every = 0 \<and> (w_end w = 0 \<or> v \<le> w_end w)"

lemma interval_next_on_grid:
  assumes "0 < every" "0 < v" "w_start w \<noteq> 0" "v \<le> w_start w + maxInt64 - every" "on_grid w every v"
  shows "window_next w (interval_next (w_start w) every) (v - 1) = Some v"
proof (cases "v - 1 < w_start w")
  case True
  with assms(5) have "v = w_start w" by (simp add: on_grid_def)
  with True assms show ?thesis by (auto simp: window_next_def Let_def interval_next_def on_grid_def)
next
  case False
  obtain k where k: "v - w_start w = every * k" using assms(5) by (auto simp: on_grid_def)
  have "(v - 1 - w_start w) div every = k - 1"
  proof -
    have "v - 1 - w_start w = (every - 1) + every * (k - 1)" using k by (simp add: algebra_simps)
    then have "(v - 1 - w_start w) div every = k - 1 + (every - 1) div every"
      using assms(1) by (simp only: div_mult_self2)
    then show ?thesis using assms(1) by (simp add: div_pos_pos_trivial)
  qed
  then have "interval_next (w_start w) every (v - 1) = Some (w_start w + k * every)"
    using interval_next_exact [of every "w_start w" "v - 1"] False assms(1,4) by simp
  also have "w_start w + k * every = v" using k by (simp add: algebra_simps)
  finally show ?thesis using False assms(2,5) by (auto simp: window_next_def Let_def on_grid_def)
qed

lemma interval_fire_on_grid:
  assumes "0 < every" "t \<le> w_start w + maxInt64 - every"
    and "window_next w (interval_next (w_start w) every) t = Some u" "u \<noteq> 0"
  shows "on_grid w every u"
proof -
  let ?t = "if w_start w \<noteq> 0 \<and> t < w_start w then w_start w - 1 else t"
  have n: "interval_next (w_start w) every ?t = Some u" and e: "w_end w = 0 \<or> u \<le> w_end w"
    using assms(3,4) by (auto simp: window_next_def Let_def split: option.splits if_splits)
  show ?thesis
  proof (cases "?t < w_start w")
    case True
    with n have "u = w_start w" by (simp add: interval_next_def)
    with e show ?thesis by (simp add: on_grid_def)
  next
    case False
    then have "u = w_start w + ((t - w_start w) div every + 1) * every" and "w_start w \<le> t"
      using n interval_next_exact [of every "w_start w" t] assms(1,2) by (auto split: if_splits)
    moreover from this have "0 \<le> ((t - w_start w) div every + 1) * every"
      using assms(1) by (simp add: pos_imp_zdiv_nonneg_iff)
    ultimately show ?thesis using e by (simp add: on_grid_def)
  qed
qed

lemma ParseSpec_interval:
  assumes "Validate lib sp = None" "Mode sp = ModeInterval" "sp_window sp = Some w"
    "ParseInterval lib (sp_interval sp) = Inr every"
  shows "ParseSpec lib sp = Inr (withWindow (anchored (Some w) (interval_next (w_start w) every)) (Some w))"
  using assms by (simp add: ParseSpec_def start_of_def)

lemma mode_has_anchor:
  assumes "Validate lib sp = None" "Mode sp \<noteq> ModeCron"
  shows "\<exists>w. sp_window sp = Some w \<and> w_start w \<noteq> 0"
  using assms by (auto simp: Validate_def Mode_def Let_def has_start_def split: if_splits sum.splits option.splits)

text \<open>C28: the projection of an interval schedule lists, in increasing order, at most \<open>n\<close> instants
  of the grid anchored at the window's start, all after \<open>after\<close>, none past the horizon or the
  window's end, and skips none: a grid instant in range is missing only past the last one listed of
  a full list. The hypotheses keep the distances to the anchor within 64 bits.\<close>

theorem NextNSpec_interval:
  assumes "Validate lib sp = None" "Mode sp = ModeInterval" "sp_window sp = Some w"
    and "ParseInterval lib (sp_interval sp) = Inr every" "0 < every" "every \<le> maxInt64"
    and "0 \<le> w_start w" "0 \<le> after" "after \<le> w_start w + maxInt64 - every"
    and "horizon \<le> w_start w + maxInt64 - every"
  shows "\<exists>us. NextNSpec lib sp after horizon n loc = Some us \<and> length us \<le> nat n \<and> sorted_wrt (<) us \<and>
    (\<forall>u \<in> set us. after < u \<and> u \<le> horizon \<and> on_grid w every u) \<and>
    (\<forall>v. on_grid w every v \<and> after < v \<and> v \<le> horizon \<and> (length us < nat n \<or> us \<noteq> [] \<and> v \<le> last us) \<longrightarrow>
       v \<in> set us)"
proof (cases "n \<le> 0")
  case True
  then show ?thesis using ParseSpec_interval assms(1-4) by (simp add: NextNSpec_def)
next
  case False
  let ?nx = "window_next w (interval_next (w_start w) every)" and ?stop = "\<lambda>u. u > horizon"
  have w0: "w_start w \<noteq> 0" using mode_has_anchor [of lib sp] assms(1-3) by simp
  let ?L = "window_limit w (interval_limit (w_start w) every)"
  have L: "?L = w_start w + maxInt64 - every"
    using assms(5-7) by (simp add: window_limit_def interval_limit_def)
  have lim: "after \<le> ?L" "\<And>u. \<not> ?stop u \<Longrightarrow> u \<le> ?L" using L assms(9,10) by auto
  obtain us where us: "next_loop ?nx ?stop (nat n) after = Some us" "length us \<le> nat n" "sorted_wrt (<) us"
    "\<forall>u \<in> set us. after < u \<and> \<not> ?stop u \<and> (\<exists>t. 0 \<le> t \<and> t \<le> ?L \<and> ?nx t = Some u)"
    using interval_in_window.loop_correct [OF assms(8) lim] by blast
  have "\<forall>u \<in> set us. after < u \<and> u \<le> horizon \<and> on_grid w every u"
  proof
    fix u assume "u \<in> set us"
    with us(4) obtain t where t: "after < u" "u \<le> horizon" "t \<le> ?L" "?nx t = Some u" by auto
    have "on_grid w every u" using interval_fire_on_grid [OF assms(5) _ t(4)] t(1,3) L assms(8) by simp
    with t show "after < u \<and> u \<le> horizon \<and> on_grid w every u" by simp
  qed
  moreover have "v \<in> set us" if v: "on_grid w every v" "after < v" "v \<le> horizon"
    "length us < nat n \<or> us \<noteq> [] \<and> v \<le> last us" for v
  proof (rule interval_in_window.loop_complete [OF assms(8) lim _ us(1), where s = "v - 1"])
    show "?nx (v - 1) = Some v"
      using interval_next_on_grid [OF assms(5) _ w0 _ v(1)] v(2,3) assms(8,10) by simp
  qed (use v assms(8,10) L in auto)
  ultimately show ?thesis
    using us(1-3) False ParseSpec_interval [OF assms(1-4)] anchored_loop
    by (intro exI [of _ us]) (simp add: NextNSpec_def)
qed

definition demo_lib :: cron_lib where
  "demo_lib = \<lparr>parse6 = (\<lambda>_. None),
     parse5 = (\<lambda>e. if e = ''0 * * * *'' then Some (\<lambda>_ t. Some ((t div nsHour + 1) * nsHour)) else None),
     parse_duration = (\<lambda>s. if s = ''36h'' then Some (36 * nsHour) else None), local_zone = ''UTC''\<rparr>"

definition demo_spec :: "string \<Rightarrow> string \<Rightarrow> spec" where
  "demo_spec c i = \<lparr>sp_cron = c, sp_interval = i, sp_window = Some \<lparr>w_start = 7 * nsHour, w_end = 99 * nsHour, w_zone = ''UTC''\<rparr>\<rparr>"

theorem NextNSpec_interval_witness:
  "\<exists>us. NextNSpec demo_lib (demo_spec [] ''36h'') 0 (200 * nsHour) 5 None = Some us \<and>
    sorted_wrt (<) us \<and> length us = 3 \<and> 43 * nsHour \<in> set us"
proof -
  have h: "Validate demo_lib (demo_spec [] ''36h'') = None" "Mode (demo_spec [] ''36h'') = ModeInterval"
    "sp_window (demo_spec [] ''36h'') = Some \<lparr>w_start = 7 * nsHour, w_end = 99 * nsHour, w_zone = ''UTC''\<rparr>"
    "ParseInterval demo_lib (sp_interval (demo_spec [] ''36h'')) = Inr (36 * nsHour)"
    "0 < 36 * nsHour" "36 * nsHour \<le> maxInt64"
    "0 \<le> w_start \<lparr>w_start = 7 * nsHour, w_end = 99 * nsHour, w_zone = ''UTC''\<rparr>"
    "(0::int) \<le> 0" "0 \<le> w_start \<lparr>w_start = 7 * nsHour, w_end = 99 * nsHour, w_zone = ''UTC''\<rparr> + maxInt64 - 36 * nsHour"
    "200 * nsHour \<le> w_start \<lparr>w_start = 7 * nsHour, w_end = 99 * nsHour, w_zone = ''UTC''\<rparr> + maxInt64 - 36 * nsHour"
    by code_simp+
  have g: "on_grid \<lparr>w_start = 7 * nsHour, w_end = 99 * nsHour, w_zone = ''UTC''\<rparr> (36 * nsHour) (43 * nsHour) \<and>
    0 < 43 * nsHour \<and> 43 * nsHour \<le> 200 * nsHour" by code_simp
  have c: "NextNSpec demo_lib (demo_spec [] ''36h'') 0 (200 * nsHour) 5 None =
    Some [7 * nsHour, 43 * nsHour, 79 * nsHour]" by code_simp
  from NextNSpec_interval [OF h, of 5 None] g c show ?thesis by simp
qed

text \<open>a one-shot spec projects its single instant, at most once, when it lies ahead, within the
  horizon and not past the window's end.\<close>

theorem NextNSpec_once:
  assumes "Validate lib sp = None" "Mode sp = ModeOnce" "sp_window sp = Some w"
  shows "NextNSpec lib sp after horizon n loc =
    Some (if 0 < n \<and> after < w_start w \<and> w_start w \<le> horizon \<and> (w_end w = 0 \<or> w_start w \<le> w_end w)
          then [w_start w] else [])"
proof -
  have w0: "w_start w \<noteq> 0" using mode_has_anchor [of lib sp] assms by simp
  have p: "ParseSpec lib sp = Inr (withWindow (anchored (Some w) (once_next (w_start w))) (Some w))"
    using assms by (simp add: ParseSpec_def start_of_def)
  show ?thesis
  proof (cases "nat n")
    case 0
    then show ?thesis using p by (simp add: NextNSpec_def)
  next
    case (Suc m)
    have rest: "next_loop (window_next w (once_next (w_start w))) (\<lambda>u. u > horizon) m (w_start w) = Some []"
      by (cases m) (simp_all add: window_next_def once_next_def Let_def)
    have "0 < n" using Suc by simp
    then show ?thesis using p Suc rest w0
      by (simp add: NextNSpec_def anchored_loop window_next_def once_next_def Let_def del: moment_loop.simps)
  qed
qed

theorem NextNSpec_once_witness:
  "NextNSpec demo_lib (demo_spec [] []) 0 (200 * nsHour) 5 None = Some [7 * nsHour]"
proof -
  have h: "Validate demo_lib (demo_spec [] []) = None" "Mode (demo_spec [] []) = ModeOnce"
    "sp_window (demo_spec [] []) = Some \<lparr>w_start = 7 * nsHour, w_end = 99 * nsHour, w_zone = ''UTC''\<rparr>"
    by code_simp+
  show ?thesis unfolding NextNSpec_once [OF h] by code_simp
qed

section \<open>The two projections\<close>

lemma windowed_loop_agrees:
  assumes "\<And>t u. e z t = Some u \<Longrightarrow> u \<noteq> 0 \<Longrightarrow> t < u" and "w_start w \<noteq> 0 \<longrightarrow> w_start w - 1 \<le> cur"
    and "w_start w \<noteq> 0 \<and> cur < w_start w \<longrightarrow> z = w_zone w"
  shows "moment_loop (specWindow_Next w (cron_schedule e)) (\<lambda>u. u > horizon) n (z, cur) =
    next_loop (e z) (\<lambda>u. u > horizon \<or> win_past (Some w) u) n cur"
  using assms(2,3)
proof (induction n arbitrary: cur)
  case (Suc n)
  then have c: "(if w_start w \<noteq> 0 \<and> cur < w_start w then (w_zone w, w_start w - 1) else (z, cur)) = (z, cur)" by auto
  show ?case
  proof (cases "e z cur")
    case None then show ?thesis by (simp add: specWindow_Next_def cron_schedule_def c)
  next
    case (Some u)
    show ?thesis
    proof (cases "u = 0")
      case True with Some show ?thesis by (simp add: specWindow_Next_def cron_schedule_def c)
    next
      case False
      then have "cur < u" using assms(1) Some by blast
      with Suc.prems(1) have "w_start w \<noteq> 0 \<longrightarrow> w_start w - 1 \<le> u" "w_start w \<noteq> 0 \<and> u < w_start w \<longrightarrow> z = w_zone w" by auto
      from Suc.IH [OF this] show ?thesis using Some False
        by (simp add: specWindow_Next_def cron_schedule_def c win_past_def)
    qed
  qed
qed simp

text \<open>on a valid cron spec the projection that resolves the spec as the engine does (\<open>NextNSpec\<close>, a window decorator on
  every step) lists the fires of the windowed projection (\<open>NextNWindowed\<close>, which clamps once), given that the cron library's
  schedule moves strictly forward; but while the window has not opened it lists them as evaluated in the zone the window's
  start is stated in, not in the one it is asked for: the clamp hands the schedule the start itself, and an expression is
  evaluated in the zone of the time it is given. Once the window is open the two agree.\<close>

theorem projections_agree:
  assumes "Validate lib sp = None" "Mode sp = ModeCron" "Parse lib (sp_cron sp) = Some e"
    and strict: "\<And>z t u. e z t = Some u \<Longrightarrow> u \<noteq> 0 \<Longrightarrow> t < u"
  shows "NextNSpec lib sp after horizon n loc =
    NextNWindowed lib (sp_cron sp) after horizon n
      (if win_Pending (sp_window sp) after then map_option w_zone (sp_window sp) else loc) (sp_window sp)"
proof (cases "n \<le> 0")
  case True
  then show ?thesis using assms by (simp add: NextNWindowed_def NextNSpec_def ParseSpec_def)
next
  case False
  then obtain m where m: "nat n = Suc m" by (metis Suc_pred nat_0_iff neq0_conv not_le)
  show ?thesis
  proof (cases "sp_window sp")
    case None
    then show ?thesis using assms False
      by (simp add: NextNWindowed_def NextNSpec_def ParseSpec_def withWindow_def clampAfter_def win_past_def win_Pending_def cron_loop)
  next
    case (Some w)
    let ?s = "specWindow_Next w (cron_schedule e)" and ?c = "clampAfter (Some w) after"
    define z where "z = locOr lib (if win_Pending (Some w) after then Some (w_zone w) else loc)"
    have c: "w_start w \<noteq> 0 \<longrightarrow> w_start w - 1 \<le> ?c" "w_start w \<noteq> 0 \<and> ?c < w_start w \<longrightarrow> z = w_zone w"
      by (auto simp: clampAfter_def z_def win_Pending_def locOr_def)
    have "?s (z, ?c) = ?s (locOr lib loc, after)"
      by (auto simp: specWindow_Next_def clampAfter_def z_def win_Pending_def locOr_def)
    then have "moment_loop ?s (\<lambda>u. u > horizon) (nat n) (z, ?c) = moment_loop ?s (\<lambda>u. u > horizon) (nat n) (locOr lib loc, after)"
      by (simp add: m)
    moreover have "moment_loop ?s (\<lambda>u. u > horizon) (nat n) (z, ?c) =
        next_loop (e z) (\<lambda>u. u > horizon \<or> win_past (Some w) u) (nat n) ?c"
      by (rule windowed_loop_agrees [OF _ c]) (rule strict)
    ultimately show ?thesis using assms(1-3) False Some by (simp add: NextNWindowed_def NextNSpec_def ParseSpec_def withWindow_def z_def)
  qed
qed

text \<open>Two zones, five hours apart, and the expression for two in the morning.\<close>

definition two_zones :: cron_lib where
  "two_zones = \<lparr>parse6 = (\<lambda>_. None),
     parse5 = (\<lambda>e. if e = ''0 2 * * *'' then Some (\<lambda>z t. let o2 = (if z = ''NY'' then 7 else 2) * nsHour
        in Some (((t - o2) div nsDay + 1) * nsDay + o2)) else None),
     parse_duration = (\<lambda>_. None), local_zone = ''UTC''\<rparr>"

definition night_spec :: spec where
  "night_spec = \<lparr>sp_cron = ''0 2 * * *'', sp_interval = [], sp_window = Some \<lparr>w_start = nsHour, w_end = 0, w_zone = ''UTC''\<rparr>\<rparr>"

theorem projections_agree_witness:
  "NextNSpec two_zones night_spec 0 (3 * nsDay) 2 (Some ''NY'') = Some [2 * nsHour, 26 * nsHour] \<and>
   NextNWindowed two_zones ''0 2 * * *'' 0 (3 * nsDay) 2 (Some ''NY'') (sp_window night_spec) = Some [7 * nsHour, 31 * nsHour]"
proof -
  define e where "e = (\<lambda>(z :: string) (t :: int). let o2 = (if z = ''NY'' then 7 else 2) * nsHour in Some (((t - o2) div nsDay + 1) * nsDay + o2))"
  have h: "Validate two_zones night_spec = None" "Mode night_spec = ModeCron" by code_simp+
  have p: "Parse two_zones (sp_cron night_spec) = Some e"
    by (simp add: Parse_def two_zones_def night_spec_def isEveryDescriptor_def e_def) code_simp
  have "t < u" if "e z t = Some u" for z t u
    using that interval_next_after [of nsDay "t" "7 * nsHour"] interval_next_after [of nsDay "t" "2 * nsHour"]
    by (auto simp: e_def duration_defs Let_def split: if_splits)
  then have "NextNSpec two_zones night_spec 0 (3 * nsDay) 2 (Some ''NY'') =
      NextNWindowed two_zones ''0 2 * * *'' 0 (3 * nsDay) 2 (Some ''UTC'') (sp_window night_spec)"
    using projections_agree [OF h p, of 0 "3 * nsDay" 2 "Some ''NY''"] by (simp add: night_spec_def win_Pending_def duration_defs)
  moreover have "NextNWindowed two_zones ''0 2 * * *'' 0 (3 * nsDay) 2 (Some ''UTC'') (sp_window night_spec) = Some [2 * nsHour, 26 * nsHour]"
    "NextNWindowed two_zones ''0 2 * * *'' 0 (3 * nsDay) 2 (Some ''NY'') (sp_window night_spec) = Some [7 * nsHour, 31 * nsHour]"
    by code_simp+
  ultimately show ?thesis by simp
qed

section \<open>Clock, intervals, keys\<close>

lemma parse_clock_bounds: "parse_clock s = Some (h, m) \<Longrightarrow> 0 \<le> h \<and> h < 24 \<and> 0 \<le> m \<and> m < 60"
  by (simp add: parse_clock_def Let_def split: if_splits)

definition clock_of :: "string \<Rightarrow> string \<Rightarrow> int \<times> int" where
  "clock_of hhmm fallback = (case parse_clock hhmm of Some c \<Rightarrow> c
     | None \<Rightarrow> (case parse_clock fallback of Some c \<Rightarrow> c | None \<Rightarrow> (2, 0)))"

lemma day_step:
  fixes a r D :: int
  assumes "0 \<le> a" "a < D" "0 \<le> r" "r < D"
  shows "0 < (if a - r > 0 then a - r else a - r + D) \<and> (if a - r > 0 then a - r else a - r + D) \<le> D"
  using assms by auto

text \<open>the wait for a daily wall-clock anchor is positive, at most a day, and ends exactly at the
  requested time of day (the fallback's, or 02:00, when the request does not parse).\<close>

theorem UntilWallClock_hits_anchor:
  "let d = UntilWallClock hhmm fallback now; (h, m) = clock_of hhmm fallback
   in 0 < d \<and> d \<le> nsDay \<and> (now + d) mod nsDay = h * nsHour + m * nsMinute"
proof -
  obtain h m where c: "clock_of hhmm fallback = (h, m)" by (cases "clock_of hhmm fallback")
  then have b: "0 \<le> h" "h < 24" "0 \<le> m" "m < 60"
    using parse_clock_bounds by (auto simp: clock_of_def split: option.splits)
  let ?o = "h * nsHour + m * nsMinute" and ?r = "now mod nsDay"
  have o: "0 \<le> ?o" "?o < nsDay" using b by (simp_all add: duration_defs)
  have r: "0 \<le> ?r" "?r < nsDay" by (simp_all add: duration_defs)
  let ?d = "if ?o - ?r > 0 then ?o - ?r else ?o - ?r + nsDay"
  have d: "0 < ?d" "?d \<le> nsDay" using day_step [OF o r] by auto
  have "UntilWallClock hhmm fallback now = sat64 ?d"
    using c by (simp add: UntilWallClock_def clock_of_def Let_def time_sub_def algebra_simps)
  moreover have "sat64 ?d = ?d"
    using d by (intro sat64_id) (auto simp: duration_defs minInt64_def maxInt64_def)
  moreover have "(now + ?d) mod nsDay = ?o"
  proof -
    have "(now + (?o - ?r)) mod nsDay = ?o mod nsDay"
      by (metis add.commute add_diff_eq diff_add_eq mod_diff_right_eq diff_self diff_add_cancel minus_mod_self2 mod_add_left_eq add_0)
    then have e: "(now + (?o - ?r)) mod nsDay = ?o" using o by simp
    then have "(now + (?o - ?r + nsDay)) mod nsDay = ?o" by (metis add.assoc mod_add_self2)
    with e show ?thesis by simp
  qed
  ultimately show ?thesis using d c by (simp add: Let_def)
qed

text \<open>an accepted interval that is not empty is at least a minute long, except that a count of
  days can wrap round; up to 106751 days it does not and is that many days.\<close>

theorem ParseInterval_bounds:
  "case ParseInterval lib s of
     Inl e \<Rightarrow> e \<in> {ErrInvalidInterval, ErrIntervalTooShort}
   | Inr d \<Rightarrow>
       (case day_shorthand (trim_space (to_lower s)) of
          None \<Rightarrow> trim_space (to_lower s) = [] \<and> d = 0 \<or> MinInterval \<le> d
        | Some ds \<Rightarrow> (\<exists>n. atoi ds = Some n \<and> 0 < n \<and> (n \<le> 106751 \<longrightarrow> d = n * nsDay \<and> MinInterval \<le> d)))"
proof -
  have w: "wrap64 (wrap64 (n * 24) * nsHour) = n * nsDay" "MinInterval \<le> n * nsDay"
    if "0 < n" "n \<le> 106751" for n :: int
    using that by (simp_all add: duration_defs minInt64_def maxInt64_def MinInterval_def)
  have e: "day_shorthand [] = None" by code_simp
  show ?thesis
  proof (cases "trim_space (to_lower s) = []")
    case True
    then show ?thesis using e by (simp add: ParseInterval_def)
  next
    case False
    then show ?thesis using w
      by (cases "day_shorthand (trim_space (to_lower s))")
        (auto simp: ParseInterval_def Let_def split: option.splits)
  qed
qed

theorem ParseInterval_bounds_witness:
  "ParseInterval demo_lib '' 7 D '' = Inr (7 * nsDay) \<and> MinInterval \<le> 7 * nsDay"
proof -
  have p: "ParseInterval demo_lib '' 7 D '' = Inr (7 * nsDay)" by code_simp
  have d: "day_shorthand (trim_space (to_lower '' 7 D '')) = Some ''7''" "atoi ''7'' = Some 7" by code_simp+
  from ParseInterval_bounds [where lib = demo_lib and s = "'' 7 D ''"] p d show ?thesis by simp
qed

text \<open>A spec that \<open>Validate\<close> accepts and whose schedule panics: its day count wraps to zero.\<close>

definition wrapping_spec :: "window \<Rightarrow> spec" where
  "wrapping_spec w = \<lparr>sp_cron = [], sp_interval = ''281474976710656d'', sp_window = Some w\<rparr>"

lemma wrapping_interval: "ParseInterval lib ''281474976710656d'' = Inr 0"
proof -
  have d: "day_shorthand (trim_space (to_lower ''281474976710656d'')) = Some ''281474976710656''"
    "atoi ''281474976710656'' = Some 281474976710656" "trim_space (to_lower ''281474976710656d'') \<noteq> []"
    by code_simp+
  have "wrap64 (wrap64 (281474976710656 * 24) * nsHour) = 0" by code_simp
  with d show ?thesis by (simp add: ParseInterval_def Let_def)
qed

text \<open>an interval of 281474976710656 days is accepted by \<open>Validate\<close> as zero nanoseconds, in any window that has a start; the
  schedule it resolves to fires at the start and panics when asked for a later fire (integer division by zero).\<close>

theorem day_interval_overflow_panics:
  assumes "w_start w \<noteq> 0"
  shows "Validate lib (wrapping_spec w) = None \<and>
    (w_start w \<le> after \<longrightarrow> NextSpec lib (wrapping_spec w) after loc = None) \<and>
    (after < w_start w \<and> (w_end w = 0 \<or> w_start w \<le> w_end w) \<longrightarrow> NextSpec lib (wrapping_spec w) after loc = Some (Some (w_start w)))"
proof -
  have t: "trim_space [] = []" "trim_space ''281474976710656d'' \<noteq> []" by code_simp+
  have m: "sp_window (wrapping_spec w) = Some w" "sp_interval (wrapping_spec w) = ''281474976710656d''"
    "Mode (wrapping_spec w) = ModeInterval" "has_start (Some w)"
    using assms t by (simp_all add: wrapping_spec_def Mode_def has_start_def)
  have v: "Validate lib (wrapping_spec w) = None"
    using m(4) t wrapping_interval [of lib] by (simp add: Validate_def Let_def wrapping_spec_def)
  have "ParseInterval lib (sp_interval (wrapping_spec w)) = Inr 0" using wrapping_interval m(2) by simp
  note p = ParseSpec_interval [OF v m(3,1) this]
  have i: "interval_next a 0 t = (if t < a then Some a else None)" for a t
    by (simp add: interval_next_def go_div_def)
  show ?thesis using v assms by (auto simp: NextSpec_def p withWindow_def specWindow_Next_def anchored_def Let_def i)
qed

lemma day_interval_overflow_panics_witness:
  "NextSpec demo_lib (wrapping_spec \<lparr>w_start = 1, w_end = 0, w_zone = ''UTC''\<rparr>) 1 None = None"
  using day_interval_overflow_panics [of "\<lparr>w_start = 1, w_end = 0, w_zone = ''UTC''\<rparr>" demo_lib 1 None] by simp

text \<open>two definitions of different agencies never share a concurrency key through the same custom
  key, and a key of a named definition is never empty.\<close>

theorem ConcurrencyKey_separates:
  "ConcurrencyKey custom agency uid source name \<noteq> [] \<and>
   (ConcurrencyKey custom agency uid source name = ConcurrencyKey custom agency' uid' source' name' \<and>
      custom \<noteq> [] \<and> CHR '':'' \<notin> set agency \<and> CHR '':'' \<notin> set agency' \<and> agency \<noteq> [] \<and> agency' \<noteq> [] \<longrightarrow>
      agency = agency')"
proof -
  have "agency = agency'"
    if e: "agency @ '':'' @ custom = agency' @ '':'' @ custom" and n: "CHR '':'' \<notin> set agency" "CHR '':'' \<notin> set agency'"
  proof -
    from e have "agency @ '':'' = agency' @ '':''" by simp
    then show ?thesis by simp
  qed
  then show ?thesis by (auto simp: ConcurrencyKey_def)
qed

theorem ConcurrencyKey_separates_witness:
  "ConcurrencyKey ''db'' ''ops'' [] ''git'' ''j'' \<noteq> ConcurrencyKey ''db'' ''net'' [] ''git'' ''k''"
  using ConcurrencyKey_separates [of "''db''" "''ops''" "[]" "''git''" "''j''" "''net''" "[]" "''git''" "''k''"]
  by auto

end
