(* ===== verification/Workflow_Graph.thy ===== *)
theory Workflow_Graph
  imports Go_Prelude "HOL-Library.Multiset"
begin

text \<open>
  The step graph of a workflow (\<open>backend/internal/workflow/engine.go\<close>): the step type, its
  walkers (\<open>flattenJobNodes\<close>, \<open>flattenWorkflowNodes\<close>, \<open>collectStepRefs\<close>, \<open>collectWorkflowRefs\<close>,
  \<open>collectBranchRefs\<close>), the minting of node ids and the branch condition. A graph is a list of
  steps; a nil arm of a branch is \<open>None\<close>. A step's type is a free string in the code; every switch
  over it is read through \<open>stepKind\<close>, whose last constructor stands for every other string.
\<close>

section \<open>Types\<close>

record input_ref =
  in_FromStep :: string
  in_FromOutput :: string

record condition =
  c_Type :: string
  c_JobRef :: string
  c_Field :: string
  c_Operator :: string
  c_Value :: string

record step_info =
  st_Type :: string
  st_Name :: string
  st_Label :: string
  st_Source :: string
  st_JobUID :: string
  st_Inputs :: "input_ref gomap"
  st_Condition :: "condition option"
  st_Retries :: "int option"
  st_BackoffSeconds :: "int option"
  st_ContinueOnError :: "bool option"
  st_Workflow :: string
  st_WorkflowUID :: string
  st_NodeID :: string

datatype step = Step (si: step_info) (s_jobs: "step list") (s_steps: "step list")
  (s_pass: "step list option") (s_fail: "step list option")

abbreviation s_name :: "step \<Rightarrow> string" where "s_name s \<equiv> st_Name (si s)"
abbreviation s_id :: "step \<Rightarrow> string" where "s_id s \<equiv> st_NodeID (si s)"

record job_result =
  r_Status :: string
  r_Outputs :: "string gomap option"
  r_TraceID :: string

text \<open>A results map, keyed by step name.\<close>

type_synonym results = "job_result gomap"

datatype kind = KJob | KWorkflow | KSequence | KParallel | KBranch | KOther

definition kind_of :: "string \<Rightarrow> kind" where
  "kind_of t =
     (if t = ''job'' then KJob else if t = ''workflow'' then KWorkflow
      else if t = ''sequence'' then KSequence else if t = ''parallel'' then KParallel
      else if t = ''branch'' then KBranch else KOther)"

definition stepKind :: "step \<Rightarrow> kind" where
  "stepKind s = kind_of (if st_Type (si s) = [] then ''job'' else st_Type (si s))"

text \<open>An arm that may be nil: walking a nil arm visits nothing.\<close>

definition arm :: "step list option \<Rightarrow> step list" where
  "arm b = (case b of None \<Rightarrow> [] | Some ss \<Rightarrow> ss)"

lemma arm_simps [simp]: "arm None = []" "arm (Some ss) = ss"
  by (simp_all add: arm_def)

lemma sub_sizes [termination_simp]:
  "size_list size (s_jobs s) < size s" "size_list size (s_steps s) < size s"
  "size_list size (arm (s_pass s)) < size s" "size_list size (arm (s_fail s)) < size s"
  by (cases s; cases "s_pass s"; cases "s_fail s"; simp)+

lemma sub_sizes_cons [termination_simp]:
  "size_list size (s_jobs s) < Suc (size s + n)" "size_list size (s_steps s) < Suc (size s + n)"
  "size_list size (arm (s_pass s)) < Suc (size s + n)" "size_list size (arm (s_fail s)) < Suc (size s + n)"
  using sub_sizes [of s] by simp_all

section \<open>Walkers\<close>

fun flattenJobNodes :: "step list \<Rightarrow> step list" where
  "flattenJobNodes [] = []"
| "flattenJobNodes (s # ss) =
     (case stepKind s of
        KJob \<Rightarrow> [s]
      | KParallel \<Rightarrow> flattenJobNodes (s_jobs s)
      | KSequence \<Rightarrow> flattenJobNodes (s_steps s)
      | KBranch \<Rightarrow> flattenJobNodes (arm (s_pass s)) @ flattenJobNodes (arm (s_fail s))
      | _ \<Rightarrow> []) @ flattenJobNodes ss"

fun flattenWorkflowNodes :: "step list \<Rightarrow> step list" where
  "flattenWorkflowNodes [] = []"
| "flattenWorkflowNodes (s # ss) =
     (case stepKind s of
        KWorkflow \<Rightarrow> [s]
      | KParallel \<Rightarrow> flattenWorkflowNodes (s_jobs s)
      | KSequence \<Rightarrow> flattenWorkflowNodes (s_steps s)
      | KBranch \<Rightarrow> flattenWorkflowNodes (arm (s_pass s)) @ flattenWorkflowNodes (arm (s_fail s))
      | _ \<Rightarrow> []) @ flattenWorkflowNodes ss"

definition FlattenSteps :: "step list \<Rightarrow> string list" where
  "FlattenSteps steps = map s_name (flattenJobNodes steps)"

definition WorkflowRefs :: "step list \<Rightarrow> string list" where
  "WorkflowRefs steps = filter (\<lambda>w. w \<noteq> []) (map (\<lambda>n. trim_space (st_Workflow (si n))) (flattenWorkflowNodes steps))"

text \<open>The switch of \<open>collectBranchRefs\<close> is over the raw type, which agrees with \<open>stepKind\<close> on the
  three cases it has.\<close>

fun collectBranchRefs :: "step list \<Rightarrow> string list" where
  "collectBranchRefs [] = []"
| "collectBranchRefs (s # ss) =
     (case kind_of (st_Type (si s)) of
        KBranch \<Rightarrow> (case st_Condition (si s) of None \<Rightarrow> [] | Some c \<Rightarrow> [c_JobRef c]) @
          collectBranchRefs (arm (s_pass s)) @ collectBranchRefs (arm (s_fail s))
      | KParallel \<Rightarrow> collectBranchRefs (s_jobs s)
      | KSequence \<Rightarrow> collectBranchRefs (s_steps s)
      | _ \<Rightarrow> []) @ collectBranchRefs ss"

subsection \<open>Job and workflow references\<close>

record step_ref =
  ref_Name :: string
  ref_Source :: string
  ref_UID :: string

definition StepRefOf :: "step \<Rightarrow> step_ref" where
  "StepRefOf s = \<lparr>ref_Name = s_name s, ref_Source = st_Source (si s), ref_UID = st_JobUID (si s)\<rparr>"

definition ref_Key :: "step_ref \<Rightarrow> string" where
  "ref_Key r = (if ref_UID r \<noteq> [] then ''uid:'' @ ref_UID r else ''name:'' @ ref_Name r)"

definition StepKey :: "step \<Rightarrow> string" where "StepKey s = ref_Key (StepRefOf s)"

text \<open>The closure \<open>add\<close>: the value of a key is the last written, its place the first.\<close>

definition add_ref :: "step_ref list \<Rightarrow> step_ref \<Rightarrow> step_ref list" where
  "add_ref out r =
     (if ref_Key r \<in> ref_Key ` set out
      then map (\<lambda>o'. if ref_Key o' = ref_Key r then r else o') out
      else out @ [r])"

fun collect_walk :: "step_ref list \<Rightarrow> step list \<Rightarrow> step_ref list" where
  "collect_walk out [] = out"
| "collect_walk out (s # ss) =
     collect_walk
       (case stepKind s of
          KJob \<Rightarrow> if s_name s \<noteq> [] then add_ref out (StepRefOf s) else out
        | KParallel \<Rightarrow> collect_walk out (s_jobs s)
        | KSequence \<Rightarrow> collect_walk out (s_steps s)
        | KBranch \<Rightarrow> collect_walk (collect_walk out (arm (s_pass s))) (arm (s_fail s))
        | _ \<Rightarrow> out) ss"

definition collectStepRefs :: "step list \<Rightarrow> step_ref list" where
  "collectStepRefs steps = collect_walk [] steps"

type_synonym workflow_ref = "string \<times> string"

fun collect_wf_walk :: "workflow_ref list \<Rightarrow> step list \<Rightarrow> workflow_ref list" where
  "collect_wf_walk out [] = out"
| "collect_wf_walk out (s # ss) =
     collect_wf_walk
       (case stepKind s of
          KWorkflow \<Rightarrow>
            (let r = (st_Workflow (si s), st_WorkflowUID (si s))
             in if st_Workflow (si s) \<noteq> [] \<and> r \<notin> set out then out @ [r] else out)
        | KParallel \<Rightarrow> collect_wf_walk out (s_jobs s)
        | KSequence \<Rightarrow> collect_wf_walk out (s_steps s)
        | KBranch \<Rightarrow> collect_wf_walk (collect_wf_walk out (arm (s_pass s))) (arm (s_fail s))
        | _ \<Rightarrow> out) ss"

definition collectWorkflowRefs :: "step list \<Rightarrow> workflow_ref list" where
  "collectWorkflowRefs steps = collect_wf_walk [] steps"

definition StepSourceOrder :: "string \<Rightarrow> string \<Rightarrow> string list" where
  "StepSourceOrder override wfSource =
     (if override \<noteq> [] then [override]
      else [wfSource, (if wfSource = ''cronomicon'' then ''git'' else ''cronomicon'')])"

subsection \<open>Minting node ids\<close>

definition with_id :: "string \<Rightarrow> step \<Rightarrow> step" where
  "with_id t s = Step (si s\<lparr>st_NodeID := t\<rparr>) (s_jobs s) (s_steps s) (s_pass s) (s_fail s)"

text \<open>One pass over the graph, giving the nodes of kind \<open>k\<close> the next ids of the supply \<open>gen\<close>.\<close>

fun relabel :: "kind \<Rightarrow> (nat \<Rightarrow> string) \<Rightarrow> nat \<Rightarrow> step list \<Rightarrow> step list \<times> nat" where
  "relabel k gen n [] = ([], n)"
| "relabel k gen n (s # ss) =
     (let (s', n') =
        (if stepKind s = k then (with_id (gen n) s, Suc n)
         else case stepKind s of
           KParallel \<Rightarrow> (let (js, m) = relabel k gen n (s_jobs s)
                         in (Step (si s) js (s_steps s) (s_pass s) (s_fail s), m))
         | KSequence \<Rightarrow> (let (st, m) = relabel k gen n (s_steps s)
                         in (Step (si s) (s_jobs s) st (s_pass s) (s_fail s), m))
         | KBranch \<Rightarrow> (let (p, m) = relabel k gen n (arm (s_pass s));
                            (f, m') = relabel k gen m (arm (s_fail s))
                        in (Step (si s) (s_jobs s) (s_steps s) (map_option (\<lambda>_. p) (s_pass s))
                              (map_option (\<lambda>_. f) (s_fail s)), m'))
         | _ \<Rightarrow> (s, n));
        (ss', m) = relabel k gen n' ss
      in (s' # ss', m))"

definition assignNodeIDs :: "(nat \<Rightarrow> string) \<Rightarrow> step list \<Rightarrow> step list" where
  "assignNodeIDs gen steps =
     (let (g, n) = relabel KJob gen 0 steps in fst (relabel KWorkflow gen n g))"

section \<open>Branch conditions\<close>

definition EvaluateCondition :: "condition option \<Rightarrow> results \<Rightarrow> bool" where
  "EvaluateCondition cond results =
     (case cond of None \<Rightarrow> False
      | Some c \<Rightarrow>
        (case map_of results (c_JobRef c) of None \<Rightarrow> False
         | Some r \<Rightarrow>
            if c_Type c = ''job_status'' then r_Status r = ''success''
            else if c_Type c = ''output_match'' then
              (case map_of (case r_Outputs r of None \<Rightarrow> [] | Some o' \<Rightarrow> o') (c_Field c) of
                 None \<Rightarrow> False
               | Some actual \<Rightarrow>
                   if c_Operator c = ''=='' then actual = c_Value c
                   else if c_Operator c = ''!='' then actual \<noteq> c_Value c
                   else if c_Operator c = ''contains'' then contains actual (c_Value c)
                   else False)
            else False))"

end
