(* ===== verification/Workflow_Graph_Props.thy ===== *)
theory Workflow_Graph_Props
  imports Workflow_Graph
begin

text \<open>
  The walkers of \<open>Workflow_Graph\<close> visit the same nodes: the references collected for a graph are
  those of its job nodes, and minting gives every job and workflow node an id of its own without
  changing anything else.
\<close>

section \<open>Induction over a graph\<close>

lemma graph_induct [case_names Nil Step]:
  assumes "P []"
    and "\<And>s ss. P (s_jobs s) \<Longrightarrow> P (s_steps s) \<Longrightarrow> P (arm (s_pass s)) \<Longrightarrow> P (arm (s_fail s)) \<Longrightarrow> P ss \<Longrightarrow> P (s # ss)"
  shows "P g"
proof (induction "size_list size g" arbitrary: g rule: less_induct)
  case less
  show ?case
  proof (cases g)
    case Nil then show ?thesis using assms(1) by simp
  next
    case (Cons s ss)
    with less sub_sizes_cons [of s "size_list size ss"] show ?thesis
      by (auto intro!: assms(2))
  qed
qed

section \<open>The nodes of a kind\<close>

fun nodes_of :: "kind \<Rightarrow> step list \<Rightarrow> step list" where
  "nodes_of k [] = []"
| "nodes_of k (s # ss) =
     (if stepKind s = k then [s]
      else case stepKind s of
        KParallel \<Rightarrow> nodes_of k (s_jobs s)
      | KSequence \<Rightarrow> nodes_of k (s_steps s)
      | KBranch \<Rightarrow> nodes_of k (arm (s_pass s)) @ nodes_of k (arm (s_fail s))
      | _ \<Rightarrow> []) @ nodes_of k ss"

lemma flattenJobNodes_nodes: "flattenJobNodes g = nodes_of KJob g"
  by (induction g rule: flattenJobNodes.induct) (auto split: kind.splits)

lemma flattenWorkflowNodes_nodes: "flattenWorkflowNodes g = nodes_of KWorkflow g"
  by (induction g rule: flattenWorkflowNodes.induct) (auto split: kind.splits)

lemma nodes_of_append: "nodes_of k (g @ h) = nodes_of k g @ nodes_of k h"
  by (induction g) auto

lemma nodes_of_kind: "s \<in> set (nodes_of k g) \<Longrightarrow> stepKind s = k"
  by (induction k g rule: nodes_of.induct) (auto split: if_splits kind.splits)

section \<open>References\<close>

lemma collect_walk_foldl:
  "collect_walk out g = foldl add_ref out (map StepRefOf (filter (\<lambda>s. s_name s \<noteq> []) (flattenJobNodes g)))"
  by (induction out g rule: collect_walk.induct) (simp_all split: kind.splits)

lemma keys_add_ref:
  "map ref_Key (add_ref out r) =
    (if ref_Key r \<in> ref_Key ` set out then map ref_Key out else map ref_Key out @ [ref_Key r])"
  by (auto simp: add_ref_def intro!: map_cong)

definition first_keys :: "string list \<Rightarrow> string list" where
  "first_keys ks = rev (remdups (rev ks))"

lemma first_keys_snoc:
  "first_keys (ks @ [k]) = (if k \<in> set ks then first_keys ks else first_keys ks @ [k])"
  by (simp add: first_keys_def)

lemma set_first_keys: "set (first_keys ks) = set ks"
  by (simp add: first_keys_def)

lemma distinct_first_keys: "distinct (first_keys ks)"
  by (simp add: first_keys_def)

lemma keys_fold: "map ref_Key (foldl add_ref [] rs) = first_keys (map ref_Key rs)"
proof (induction rs rule: rev_induct)
  case (snoc r rs)
  have "ref_Key ` set (foldl add_ref [] rs) = ref_Key ` set rs"
    using arg_cong [OF snoc, of set] by (simp add: set_first_keys)
  then show ?case using snoc by (simp add: keys_add_ref first_keys_snoc)
qed (simp add: first_keys_def)

lemma lookup_replace:
  "map_of (map (\<lambda>r. (ref_Key r, r)) (map (\<lambda>o'. if ref_Key o' = ref_Key r then r else o') out)) k =
    (if k = ref_Key r then (if ref_Key r \<in> ref_Key ` set out then Some r else None)
     else map_of (map (\<lambda>r. (ref_Key r, r)) out) k)"
  by (induction out) (simp_all add: eq_commute)

lemma lookup_add_ref:
  "map_of (map (\<lambda>r. (ref_Key r, r)) (add_ref out r)) k =
    (if k = ref_Key r then Some r else map_of (map (\<lambda>r. (ref_Key r, r)) out) k)"
proof (cases "ref_Key r \<in> ref_Key ` set out")
  case True
  then show ?thesis unfolding add_ref_def if_P [OF True] lookup_replace by simp
next
  case False
  then have "ref_Key r \<notin> dom (map_of (map (\<lambda>r. (ref_Key r, r)) out))" by (simp add: dom_map_of_conv_image_fst image_image)
  then have "map_of (map (\<lambda>r. (ref_Key r, r)) out) (ref_Key r) = None" by blast
  with False show ?thesis by (simp add: add_ref_def map_add_def split: option.split)
qed

lemma lookup_fold:
  "map_of (map (\<lambda>r. (ref_Key r, r)) (foldl add_ref [] rs)) k = map_of (rev (map (\<lambda>r. (ref_Key r, r)) rs)) k"
  by (induction rs rule: rev_induct) (auto simp: lookup_add_ref)

text \<open>the references collected for a graph are exactly those of its named job nodes (the nodes
  the run will dispatch or skip): each key once, in order of first appearance, with the source and
  identity of the last node that has the key.\<close>

theorem collectStepRefs_covers_jobs:
  "let ks = map StepKey (filter (\<lambda>s. s_name s \<noteq> []) (flattenJobNodes g)) in
   map ref_Key (collectStepRefs g) = first_keys ks \<and> distinct (map ref_Key (collectStepRefs g)) \<and>
   (\<forall>k. map_of (map (\<lambda>r. (ref_Key r, r)) (collectStepRefs g)) k =
        map_of (rev (map (\<lambda>s. (StepKey s, StepRefOf s)) (filter (\<lambda>s. s_name s \<noteq> []) (flattenJobNodes g)))) k)"
proof -
  let ?rs = "map StepRefOf (filter (\<lambda>s. s_name s \<noteq> []) (flattenJobNodes g))"
  have c: "collectStepRefs g = foldl add_ref [] ?rs" by (simp add: collectStepRefs_def collect_walk_foldl)
  show ?thesis
    unfolding c keys_fold lookup_fold by (simp add: Let_def distinct_first_keys StepKey_def [abs_def] comp_def rev_map)
qed

section \<open>Node ids\<close>

lemma stepKind_with_id [simp]: "stepKind (with_id t s) = stepKind s"
  by (simp add: with_id_def stepKind_def)

lemma stepKind_Step [simp]: "stepKind (Step (si s) a b c d) = stepKind s"
  by (simp add: stepKind_def)

text \<open>A step with the id of its node blanked: what minting must not change.\<close>

definition anonymous :: "step \<Rightarrow> step_info" where
  "anonymous s = si s\<lparr>st_NodeID := []\<rparr>"

lemma anonymous_simps [simp]:
  "anonymous (with_id t s) = anonymous s" "anonymous (Step (si s) a b c d) = anonymous s"
  by (simp_all add: anonymous_def with_id_def)

lemma with_id_simps [simp]:
  "s_id (with_id t s) = t" "s_jobs (with_id t s) = s_jobs s" "s_steps (with_id t s) = s_steps s"
  "s_pass (with_id t s) = s_pass s" "s_fail (with_id t s) = s_fail s"
  by (simp_all add: with_id_def)

lemma arm_map_option [simp]: "b \<noteq> None \<or> x = [] \<Longrightarrow> arm (map_option (\<lambda>_. x) b) = x"
  by (cases b) auto

lemma relabel_nil_arm [simp]: "b = None \<Longrightarrow> relabel k gen n (arm b) = ([], n)"
  by simp

lemma relabel_arm:
  "arm (map_option (\<lambda>_. fst (relabel k gen n (arm b))) b) = fst (relabel k gen n (arm b))"
  by (cases b) auto

lemma relabel_count: "snd (relabel k gen n g) = n + length (nodes_of k g)"
proof (induction k g arbitrary: n rule: nodes_of.induct)
  case (2 k s ss)
  then show ?case by (cases "stepKind s = k"; cases "stepKind s") (simp_all add: split_beta Let_def)
qed simp

lemma relabel_ids:
  "map s_id (nodes_of k (fst (relabel k gen n g))) = map gen [n..<n + length (nodes_of k g)]"
proof (induction k g arbitrary: n rule: nodes_of.induct)
  case (2 k s ss)
  have u: "gen i # map gen [Suc i..<Suc (i + j)] = map gen [i..<Suc (i + j)]" for i j
    using upt_conv_Cons [of i "Suc (i + j)"] by (simp del: upt_Suc)
  have a: "map gen [i..<i + a] @ map gen [i + a..<i + a + b] = map gen [i..<i + a + b]" for i a b
    using upt_add_eq_append [of i "i + a" b] by simp
  have a3: "map gen [i..<i + a] @ map gen [i + a..<i + (a + b)] @ map gen [i + (a + b)..<i + (a + (b + c))] =
      map gen [i..<i + (a + (b + c))]" for i a b c
    using a [of i a b] a [of i "a + b" c] by (simp add: add.assoc flip: append_assoc)
  note a2 = a [unfolded add.assoc]
  show ?case
  proof (cases "stepKind s = k")
    case True
    with 2(5) show ?thesis by (simp add: split_beta Let_def u del: upt_Suc)
  next
    case False
    with 2 show ?thesis
      by (cases "stepKind s") (simp_all add: split_beta Let_def relabel_count relabel_arm a2 a3 add.assoc)
  qed
qed simp

definition leaf_kind :: "kind \<Rightarrow> bool" where
  "leaf_kind k \<longleftrightarrow> k = KJob \<or> k = KWorkflow"

lemma leaf_kind_neq:
  "leaf_kind k \<Longrightarrow> k \<noteq> KSequence \<and> k \<noteq> KParallel \<and> k \<noteq> KBranch \<and> k \<noteq> KOther \<and>
    KSequence \<noteq> k \<and> KParallel \<noteq> k \<and> KBranch \<noteq> k \<and> KOther \<noteq> k"
  by (auto simp: leaf_kind_def)

lemma relabel_other:
  assumes "leaf_kind k" "leaf_kind k'" "k' \<noteq> k"
  shows "nodes_of k' (fst (relabel k gen n g)) = nodes_of k' g"
  using assms(1,3)
proof (induction k g arbitrary: n rule: nodes_of.induct)
  case (2 k s ss)
  then show ?case using leaf_kind_neq [OF assms(2)]
    by (cases "stepKind s = k"; cases "stepKind s") (simp_all add: split_beta Let_def relabel_arm)
qed simp

lemma relabel_anonymous:
  assumes "leaf_kind k" "leaf_kind k'"
  shows "map anonymous (nodes_of k' (fst (relabel k gen n g))) = map anonymous (nodes_of k' g)"
  using assms(1)
proof (induction k g arbitrary: n rule: nodes_of.induct)
  case (2 k s ss)
  then show ?case using leaf_kind_neq [OF assms(2)] leaf_kind_neq [OF 2(6)]
    by (cases "stepKind s = k"; cases "stepKind s") (simp_all add: split_beta Let_def relabel_arm)
qed simp

text \<open>after minting, every job node and every sub-workflow node of the graph has an id no other
  node has (for a supply that never repeats), so run rows keyed by node never collide, however often
  a job's name occurs; and nothing but the ids changed.\<close>

theorem assignNodeIDs_distinct:
  assumes "inj gen"
  shows "let g' = assignNodeIDs gen g in distinct (map s_id (flattenJobNodes g' @ flattenWorkflowNodes g')) \<and>
    map anonymous (flattenJobNodes g') = map anonymous (flattenJobNodes g) \<and>
    map anonymous (flattenWorkflowNodes g') = map anonymous (flattenWorkflowNodes g)"
proof -
  define g' where "g' = assignNodeIDs gen g"
  let ?g1 = "fst (relabel KJob gen 0 g)" and ?n = "length (nodes_of KJob g)"
  have g': "g' = fst (relabel KWorkflow gen ?n ?g1)"
    by (simp add: g'_def assignNodeIDs_def split_beta relabel_count)
  have j: "nodes_of KJob g' = nodes_of KJob ?g1" unfolding g' by (rule relabel_other) (simp_all add: leaf_kind_def)
  have "map s_id (nodes_of KJob g') = map gen [0..<?n]" unfolding j using relabel_ids [of KJob gen 0 g] by simp
  moreover have "map s_id (nodes_of KWorkflow g') = map gen [?n..<?n + length (nodes_of KWorkflow ?g1)]"
    unfolding g' by (rule relabel_ids)
  moreover have "[0..<?n + i] = [0..<?n] @ [?n..<?n + i]" for i by (rule upt_add_eq_append) simp
  ultimately have m: "map s_id (flattenJobNodes g' @ flattenWorkflowNodes g') =
      map gen [0..<?n + length (nodes_of KWorkflow ?g1)]"
    by (simp add: flattenJobNodes_nodes flattenWorkflowNodes_nodes)
  have "distinct (map gen [0..<i])" for i
    using inj_on_subset [OF assms(1), of "set [0..<i]"] by (simp add: distinct_map)
  then have d: "distinct (map s_id (flattenJobNodes g' @ flattenWorkflowNodes g'))" unfolding m .
  have "map anonymous (nodes_of k g') = map anonymous (nodes_of k g)" if "k = KJob \<or> k = KWorkflow" for k
    unfolding g' using that by (simp add: relabel_anonymous leaf_kind_def)
  then have "map anonymous (flattenJobNodes g') = map anonymous (flattenJobNodes g)"
    "map anonymous (flattenWorkflowNodes g') = map anonymous (flattenWorkflowNodes g)"
    unfolding flattenJobNodes_nodes flattenWorkflowNodes_nodes by blast+
  with d show ?thesis unfolding Let_def g'_def by blast
qed

theorem assignNodeIDs_distinct_witness:
  "let gen = (\<lambda>n. replicate n CHR ''a'');
     leaf = (\<lambda>t x. Step \<lparr>st_Type = t, st_Name = x, st_Label = [], st_Source = [], st_JobUID = [], st_Inputs = [],
       st_Condition = None, st_Retries = None, st_BackoffSeconds = None, st_ContinueOnError = None,
       st_Workflow = ''w'', st_WorkflowUID = [], st_NodeID = []\<rparr> [] [] None None);
     g' = assignNodeIDs gen [leaf [] ''x'', leaf ''workflow'' ''y'', leaf ''job'' ''x'']
   in distinct (map s_id (flattenJobNodes g' @ flattenWorkflowNodes g'))"
proof -
  have "inj (\<lambda>n. replicate n CHR ''a'')" by (rule injI) (metis length_replicate)
  from assignNodeIDs_distinct [OF this] show ?thesis by (simp add: Let_def)
qed

end
