(* ===== verification/Env_Ref.thy ===== *)
theory Env_Ref
  imports Go_Prelude "HOL-Library.AList"
begin

text \<open>
  The \<open>CRONOMICON_*\<close> name contract (\<open>backend/internal/envref/envref.go\<close>) and the layering of run
  environments (\<open>backend/internal/envmerge/envmerge.go\<close>): which names are references, which are the
  agent's own configuration, which names a row may have, and which layer of an environment wins.
\<close>

section \<open>References\<close>

definition Namespace :: string where "Namespace = ''CRONOMICON_''"
definition PrefixVar :: string where "PrefixVar = ''CRONOMICON_VAR_''"
definition PrefixSecret :: string where "PrefixSecret = ''CRONOMICON_SECRET_''"
definition PrefixKey :: string where "PrefixKey = ''CRONOMICON_KEY_''"
definition PrefixRun :: string where "PrefixRun = ''CRONOMICON_RUN_''"
definition PrefixRunnerConfig :: string where "PrefixRunnerConfig = ''CRONOMICON_RUNNER_''"

lemmas prefix_defs = Namespace_def PrefixVar_def PrefixSecret_def PrefixKey_def PrefixRun_def PrefixRunnerConfig_def

definition IsAgentConfig :: "string \<Rightarrow> bool" where
  "IsAgentConfig name = has_prefix name PrefixRunnerConfig"

datatype env_section = SectionNone | SectionVariable | SectionSecret | SectionKey | SectionRun

definition HasCronomiconPrefix :: "string \<Rightarrow> bool" where
  "HasCronomiconPrefix name = has_prefix name Namespace"

definition Split :: "string \<Rightarrow> env_section \<times> string \<times> bool" where
  "Split name =
     (if has_prefix name PrefixVar then (SectionVariable, drop (length PrefixVar) name, True)
      else if has_prefix name PrefixSecret then (SectionSecret, drop (length PrefixSecret) name, True)
      else if has_prefix name PrefixKey then (SectionKey, drop (length PrefixKey) name, True)
      else if has_prefix name PrefixRun then (SectionRun, drop (length PrefixRun) name, True)
      else (SectionNone, [], False))"

definition StripKey :: "string \<Rightarrow> string \<times> bool" where
  "StripKey name = (if has_prefix name PrefixKey then (drop (length PrefixKey) name, True) else (name, False))"

definition StripValueReference :: "string \<Rightarrow> string \<times> bool" where
  "StripValueReference name =
     (if has_prefix name PrefixSecret then (drop (length PrefixSecret) name, True)
      else if has_prefix name PrefixVar then (drop (length PrefixVar) name, True)
      else (name, False))"

definition VarReference :: "string \<Rightarrow> string" where "VarReference bare = PrefixVar @ bare"
definition SecretReference :: "string \<Rightarrow> string" where "SecretReference bare = PrefixSecret @ bare"
definition KeyReference :: "string \<Rightarrow> string" where "KeyReference bare = PrefixKey @ bare"

section \<open>Names\<close>

definition is_alpha :: "char \<Rightarrow> bool" where
  "is_alpha c \<longleftrightarrow> (65 \<le> (of_char c :: nat) \<and> (of_char c :: nat) \<le> 90) \<or> (97 \<le> (of_char c :: nat) \<and> (of_char c :: nat) \<le> 122)"

text \<open>The expression \<open>^[A-Za-z_][A-Za-z0-9_]*$\<close>.\<close>

definition row_name_ok :: "string \<Rightarrow> bool" where
  "row_name_ok name =
     (case name of [] \<Rightarrow> False
      | c # cs \<Rightarrow> (is_alpha c \<or> c = CHR ''_'') \<and> list_all (\<lambda>d. is_alpha d \<or> is_digit d \<or> d = CHR ''_'') cs)"

text \<open>The expression \<open>^KEK(_FILE|_VERSION|_[0-9]+(_FILE)?)?$\<close>.\<close>

definition kek_name :: "string \<Rightarrow> bool" where
  "kek_name name =
     (name = ''KEK'' \<or> name = ''KEK_FILE'' \<or> name = ''KEK_VERSION'' \<or>
      (has_prefix name ''KEK_'' \<and>
       (let r = drop 4 name in takeWhile is_digit r \<noteq> [] \<and>
          (dropWhile is_digit r = [] \<or> dropWhile is_digit r = ''_FILE''))))"

datatype name_error = NameRequired | NameReserved | NameCharset | NameKEK | EnvKeyReserved string

definition ValidateRowName :: "string \<Rightarrow> name_error option" where
  "ValidateRowName name =
     (if name = [] then Some NameRequired
      else if HasCronomiconPrefix name then Some NameReserved
      else if \<not> row_name_ok name then Some NameCharset
      else None)"

definition ValidateSecretRowName :: "string \<Rightarrow> name_error option" where
  "ValidateSecretRowName name =
     (case ValidateRowName name of Some e \<Rightarrow> Some e
      | None \<Rightarrow> if kek_name name then Some NameKEK else None)"

definition ValidateOperatorEnv :: "'v gomap \<Rightarrow> name_error option" where
  "ValidateOperatorEnv env =
     (let bad = filter HasCronomiconPrefix (map fst env)
      in if bad = [] then None else Some (EnvKeyReserved (hd (sort bad))))"

section \<open>Environments\<close>

text \<open>\<open>maps.Copy\<close> overwrites; the merged map is nil when it is empty.\<close>

definition maps_Copy :: "'v gomap \<Rightarrow> 'v gomap \<Rightarrow> 'v gomap" where
  "maps_Copy dst src = foldr (\<lambda>(k, v) m. AList.update k v m) src dst"

definition Merge :: "string gomap option list \<Rightarrow> string gomap option" where
  "Merge layers =
     (let out = foldl (\<lambda>m l. case l of None \<Rightarrow> m | Some s \<Rightarrow> maps_Copy m s) [] layers
      in if out = [] then None else Some out)"

definition env_Parse :: "(string \<Rightarrow> string gomap option) \<Rightarrow> string \<Rightarrow> string gomap option" where
  "env_Parse dec s = (if s = [] then None else dec s)"

definition MergeJSON :: "(string \<Rightarrow> string gomap option) \<Rightarrow> (string gomap \<Rightarrow> string) \<Rightarrow> string list \<Rightarrow> string" where
  "MergeJSON dec enc layers = (case Merge (map (env_Parse dec) layers) of None \<Rightarrow> [] | Some m \<Rightarrow> enc m)"

lemma map_of_maps_Copy: "map_of (maps_Copy dst src) = map_of dst ++ map_of src"
  by (induction src) (auto simp: maps_Copy_def update_conv' fun_eq_iff map_add_def)

lemma map_of_merge_fold:
  "map_of (foldl (\<lambda>m l. case l of None \<Rightarrow> m | Some s \<Rightarrow> maps_Copy m s) m0 layers) =
   foldl (\<lambda>m l. case l of None \<Rightarrow> m | Some s \<Rightarrow> m ++ map_of s) (map_of m0) layers"
  by (induction layers arbitrary: m0) (auto simp: map_of_maps_Copy split: option.split)

section \<open>Properties\<close>

definition all_prefixes :: "string list" where
  "all_prefixes = [PrefixVar, PrefixSecret, PrefixKey, PrefixRun, PrefixRunnerConfig]"

lemma prefixes_incomparable:
  "p \<in> set all_prefixes \<Longrightarrow> q \<in> set all_prefixes \<Longrightarrow> has_prefix p q \<Longrightarrow> p = q"
proof -
  have "list_all (\<lambda>p. list_all (\<lambda>q. has_prefix p q \<longrightarrow> p = q) all_prefixes) all_prefixes" by code_simp
  then show "p \<in> set all_prefixes \<Longrightarrow> q \<in> set all_prefixes \<Longrightarrow> has_prefix p q \<Longrightarrow> p = q"
    by (simp add: list_all_iff)
qed

lemma common_prefix: "has_prefix n p \<Longrightarrow> has_prefix n q \<Longrightarrow> has_prefix p q \<or> has_prefix q p"
  unfolding has_prefix_iff by (auto simp: append_eq_append_conv2)

lemma prefix_unique:
  "has_prefix n p \<Longrightarrow> has_prefix n q \<Longrightarrow> p \<in> set all_prefixes \<Longrightarrow> q \<in> set all_prefixes \<Longrightarrow> p = q"
  using common_prefix prefixes_incomparable by blast

lemma prefix_of_reference:
  "p \<in> set all_prefixes \<Longrightarrow> q \<in> set all_prefixes \<Longrightarrow> has_prefix (p @ b) q \<longleftrightarrow> p = q"
  using prefix_unique [of "p @ b" p q] by auto

lemma prefix_neqs [simp]:
  "PrefixVar \<noteq> PrefixSecret" "PrefixVar \<noteq> PrefixKey" "PrefixVar \<noteq> PrefixRun" "PrefixSecret \<noteq> PrefixKey"
  "PrefixSecret \<noteq> PrefixRun" "PrefixKey \<noteq> PrefixRun" "PrefixVar \<noteq> PrefixRunnerConfig"
  "PrefixSecret \<noteq> PrefixRunnerConfig" "PrefixKey \<noteq> PrefixRunnerConfig" "PrefixRun \<noteq> PrefixRunnerConfig"
  by (simp_all add: prefix_defs)

lemmas prefix_neqs_sym [simp] = prefix_neqs [symmetric]

lemma prefix_members:
  "PrefixVar \<in> set all_prefixes" "PrefixSecret \<in> set all_prefixes" "PrefixKey \<in> set all_prefixes"
  "PrefixRun \<in> set all_prefixes" "PrefixRunnerConfig \<in> set all_prefixes"
  by (simp_all add: all_prefixes_def)

lemma in_namespace: "p \<in> set all_prefixes \<Longrightarrow> has_prefix n p \<Longrightarrow> HasCronomiconPrefix n"
proof -
  have "list_all (\<lambda>p. has_prefix p Namespace) all_prefixes" by code_simp
  then show "p \<in> set all_prefixes \<Longrightarrow> has_prefix n p \<Longrightarrow> HasCronomiconPrefix n"
    by (auto simp: list_all_iff HasCronomiconPrefix_def has_prefix_iff)
qed

lemma split_prefix: "has_prefix n p \<Longrightarrow> p @ drop (length p) n = n"
  by (auto simp: has_prefix_iff)

lemma Split_sound:
  assumes "Split n = (sec, bare, ok)" "ok"
  shows "\<exists>p \<in> set all_prefixes - {PrefixRunnerConfig}. has_prefix n p \<and> n = p @ bare \<and>
    (sec, p) \<in> {(SectionVariable, PrefixVar), (SectionSecret, PrefixSecret), (SectionKey, PrefixKey), (SectionRun, PrefixRun)}"
  using assms by (auto simp: Split_def all_prefixes_def split_prefix split: if_splits)

text \<open>C31: a reference derived from a bare name is routed back to its section and that name, every name
  the router accepts is such a reference (or a run-context name), and no reference is in the agent's
  own configuration namespace: a job can name every reference and never a credential of its runner.\<close>

theorem references_route_back:
  "Split (VarReference b) = (SectionVariable, b, True) \<and> Split (SecretReference b) = (SectionSecret, b, True) \<and>
   Split (KeyReference b) = (SectionKey, b, True) \<and> Split (PrefixRun @ b) = (SectionRun, b, True) \<and>
   StripKey (KeyReference b) = (b, True) \<and> StripValueReference (VarReference b) = (b, True) \<and>
   StripValueReference (SecretReference b) = (b, True) \<and>
   (case Split n of (sec, bare, ok) \<Rightarrow>
      if ok then \<not> IsAgentConfig n \<and> HasCronomiconPrefix n \<and>
        n = (case sec of SectionVariable \<Rightarrow> VarReference bare | SectionSecret \<Rightarrow> SecretReference bare
             | SectionKey \<Rightarrow> KeyReference bare | _ \<Rightarrow> PrefixRun @ bare)
      else sec = SectionNone)"
proof -
  note refs = Split_def StripKey_def StripValueReference_def VarReference_def SecretReference_def KeyReference_def
  have "case Split n of (sec, bare, ok) \<Rightarrow>
      if ok then \<not> IsAgentConfig n \<and> HasCronomiconPrefix n \<and>
        n = (case sec of SectionVariable \<Rightarrow> VarReference bare | SectionSecret \<Rightarrow> SecretReference bare
             | SectionKey \<Rightarrow> KeyReference bare | _ \<Rightarrow> PrefixRun @ bare)
      else sec = SectionNone"
  proof -
    obtain sec bare ok where sp: "Split n = (sec, bare, ok)" by (cases "Split n") auto
    show ?thesis
    proof (cases ok)
      case True
      from Split_sound [OF sp True] obtain p where p: "p \<in> set all_prefixes" "p \<noteq> PrefixRunnerConfig"
        "has_prefix n p" "n = p @ bare"
        "(sec, p) \<in> {(SectionVariable, PrefixVar), (SectionSecret, PrefixSecret), (SectionKey, PrefixKey), (SectionRun, PrefixRun)}"
        by blast
      have "\<not> IsAgentConfig n"
        using prefix_unique [OF p(3) _ p(1) prefix_members(5)] p(2) by (auto simp: IsAgentConfig_def)
      then show ?thesis using p(4,5) in_namespace [OF p(1,3)] sp True
        by (auto simp: VarReference_def SecretReference_def KeyReference_def)
    next
      case False
      then show ?thesis using sp by (auto simp: Split_def split: if_splits)
    qed
  qed
  then show ?thesis by (simp add: refs prefix_of_reference prefix_members)
qed

lemma row_name_append:
  assumes "row_name_ok p" "row_name_ok b"
  shows "row_name_ok (p @ b)"
proof (cases p; cases b)
  fix c cs d ds assume "p = c # cs" "b = d # ds"
  with assms show ?thesis by (auto simp: row_name_ok_def)
qed (use assms in \<open>auto simp: row_name_ok_def\<close>)

text \<open>a row name the writer accepts derives references that are POSIX identifiers, and two rows of
  different sections never share one.\<close>

theorem accepted_names_derive_identifiers:
  "if ValidateRowName b = None
   then row_name_ok (VarReference b) \<and> row_name_ok (SecretReference b) \<and> row_name_ok (KeyReference b) \<and>
     VarReference b \<noteq> SecretReference b' \<and> VarReference b \<noteq> KeyReference b' \<and> SecretReference b \<noteq> KeyReference b' \<and>
     Split b = (SectionNone, [], False) \<and> \<not> IsAgentConfig b
   else \<not> (b \<noteq> [] \<and> \<not> HasCronomiconPrefix b \<and> row_name_ok b)"
proof (cases "ValidateRowName b = None")
  case True
  then have ok: "row_name_ok b" "\<not> HasCronomiconPrefix b" by (auto simp: ValidateRowName_def split: if_splits)
  have np: "\<not> has_prefix b p" if "p \<in> set all_prefixes" for p using in_namespace that ok(2) by blast
  have "row_name_ok PrefixVar" "row_name_ok PrefixSecret" "row_name_ok PrefixKey" by code_simp+
  then have r: "row_name_ok (VarReference b)" "row_name_ok (SecretReference b)" "row_name_ok (KeyReference b)"
    using ok(1) by (simp_all add: VarReference_def SecretReference_def KeyReference_def row_name_append)
  have "p @ b \<noteq> q @ b'" if "p \<in> set all_prefixes" "q \<in> set all_prefixes" "p \<noteq> q" for p q
    using prefix_of_reference [of p q b] prefix_of_reference [of q q b'] that by metis
  with r np show ?thesis using True
    by (simp add: VarReference_def SecretReference_def KeyReference_def Split_def IsAgentConfig_def prefix_members)
qed (auto simp: ValidateRowName_def split: if_splits)

text \<open>in a merged environment the value of a key is the one of the last layer that has it, and the
  merge is absent exactly when every layer is empty.\<close>

theorem Merge_last_layer_wins:
  "(case Merge layers of
      None \<Rightarrow> \<not> (\<exists>l k v. Some l \<in> set layers \<and> map_of l k = Some v)
    | Some m \<Rightarrow> m \<noteq> [] \<and> map_of m = foldl (\<lambda>m l. case l of None \<Rightarrow> m | Some s \<Rightarrow> m ++ map_of s) Map.empty layers)"
proof -
  let ?f = "foldl (\<lambda>m l. case l of None \<Rightarrow> m | Some s \<Rightarrow> maps_Copy m s) [] layers"
  let ?g = "\<lambda>m0 ls. foldl (\<lambda>m l. case l of None \<Rightarrow> m | Some s \<Rightarrow> m ++ map_of s) m0 ls"
  have dom: "dom (?g m0 ls) = dom m0 \<union> {k. \<exists>l v. Some l \<in> set ls \<and> map_of l k = Some v}" for m0 and ls :: "string gomap option list"
    by (induction ls arbitrary: m0) (auto split: option.splits)
  have m: "map_of ?f = ?g Map.empty layers" by (simp add: map_of_merge_fold)
  show ?thesis
  proof (cases "?f = []")
    case True
    then have "dom (?g Map.empty layers) = {}" using m by simp
    then have "\<not> (\<exists>l k v. Some l \<in> set layers \<and> map_of l k = Some v)" unfolding dom by blast
    then show ?thesis using True by (simp add: Merge_def)
  next
    case False
    then show ?thesis using m by (simp add: Merge_def)
  qed
qed

end
