(* ===== verification/Workflow_Validate.thy ===== *)
theory Workflow_Validate
  imports Workflow_Graph_Props Env_Ref
begin

text \<open>
  Structural validation of a step graph (\<open>ValidateSteps\<close> and its helpers in
  \<open>backend/internal/workflow/engine.go\<close>). The set of names produced upstream is a list read as a
  set; every function returns the errors it reports, in order, beside the extended set.
\<close>

record validation_error =
  ve_Step :: string
  ve_Field :: string
  ve_Message :: string

definition stepErr :: "step \<Rightarrow> string \<Rightarrow> string \<Rightarrow> validation_error" where
  "stepErr s field msg =
     \<lparr>ve_Step = (if s_name s = [] then st_Label (si s) else s_name s), ve_Field = field, ve_Message = msg\<rparr>"

text \<open>An error reported when \<open>b\<close> holds.\<close>

definition err_if :: "bool \<Rightarrow> step \<Rightarrow> string \<Rightarrow> string \<Rightarrow> validation_error list" where
  "err_if b s field msg = (if b then [stepErr s field msg] else [])"

definition validateInput :: "step \<Rightarrow> string list \<Rightarrow> string \<times> input_ref \<Rightarrow> validation_error list" where
  "validateInput s upstream kr =
     (case kr of (key, ref) \<Rightarrow>
       err_if (HasCronomiconPrefix key) s (''inputs.'' @ key)
         (''input key is reserved: a workflow step may not define an CRONOMICON_* env key '' @
          ''(these are references Cronomicon injects into runs, not values you set)'') @
       (if in_FromStep ref = [] then
          [stepErr s (''inputs.'' @ key) ''input must name an upstream step (fromStep)'']
        else err_if (in_FromStep ref \<notin> set upstream) s (''inputs.'' @ key)
          (''input references unknown upstream step: '' @ in_FromStep ref)))"

definition validateInputs :: "step \<Rightarrow> string list \<Rightarrow> validation_error list" where
  "validateInputs s upstream = concat (map (validateInput s upstream) (st_Inputs (si s)))"

definition negative :: "int option \<Rightarrow> bool" where
  "negative n = (case n of None \<Rightarrow> False | Some i \<Rightarrow> i < 0)"

definition at_least_zero :: string where
  "at_least_zero = '' must be '' @ [CHR 0xE2, CHR 0x89, CHR 0xA5] @ '' 0''"

definition validateRetry :: "step \<Rightarrow> validation_error list" where
  "validateRetry s =
     err_if (negative (st_Retries (si s))) s ''retries'' (''retries'' @ at_least_zero) @
     err_if (negative (st_BackoffSeconds (si s))) s ''backoffSeconds'' (''backoffSeconds'' @ at_least_zero)"

definition validateCondition :: "step \<Rightarrow> condition \<Rightarrow> validation_error list" where
  "validateCondition s c =
     (if c_Type c = ''job_status'' then []
      else if c_Type c = ''output_match'' then
        err_if (c_Field c = []) s ''condition.field'' ''output_match condition requires a field'' @
        err_if (c_Operator c \<notin> {''=='', ''!='', ''contains''}) s ''condition.operator''
          ''output_match operator must be one of ==, !=, contains''
      else if c_Type c = [] then
        [stepErr s ''condition.type'' ''condition requires a type (job_status|output_match)'']
      else [stepErr s ''condition.type'' (''unknown condition type '' @ go_quote (c_Type c) @ '' (want job_status|output_match)'')]) @
     err_if (c_JobRef c = []) s ''condition.jobRef'' ''condition requires a jobRef''"

definition validateBranch :: "step \<Rightarrow> validation_error list" where
  "validateBranch s =
     (case st_Condition (si s) of
        None \<Rightarrow> [stepErr s ''condition'' ''branch step requires a condition'']
      | Some c \<Rightarrow> validateCondition s c) @
     err_if (s_pass s = None) s ''pass'' ''branch step requires a pass arm'' @
     err_if (s_fail s = None) s ''fail'' ''branch step requires a fail arm''"

definition branch_fields :: "step \<Rightarrow> bool" where
  "branch_fields s \<longleftrightarrow> s_pass s \<noteq> None \<or> s_fail s \<noteq> None \<or> st_Condition (si s) \<noteq> None"

definition validateJob :: "step \<Rightarrow> string list \<Rightarrow> validation_error list" where
  "validateJob s upstream =
     err_if (s_name s = []) s ''name'' ''job step requires a name'' @
     err_if (s_jobs s \<noteq> []) s ''jobs'' ''jobs[] is only valid on a parallel step'' @
     err_if (s_steps s \<noteq> []) s ''steps'' ''steps[] is only valid on a sequence step'' @
     err_if (branch_fields s) s ''type'' ''condition/pass/fail are only valid on a branch step'' @
     validateInputs s upstream @ validateRetry s"

definition validateArmJob :: "step \<Rightarrow> string list \<Rightarrow> validation_error list" where
  "validateArmJob s upstream =
     err_if (s_name s = []) s ''name'' ''parallel job requires a name'' @
     err_if (s_jobs s \<noteq> [] \<or> s_steps s \<noteq> [] \<or> branch_fields s) s ''jobs''
       ''a parallel arm must be a plain job or a sequence'' @
     validateInputs s upstream @ validateRetry s"

definition validateWorkflowStep :: "step \<Rightarrow> string list \<Rightarrow> validation_error list" where
  "validateWorkflowStep s upstream =
     err_if (s_name s = []) s ''name'' ''workflow step requires a name'' @
     err_if (trim_space (st_Workflow (si s)) = []) s ''workflow'' ''workflow step requires a workflow to run'' @
     err_if (s_jobs s \<noteq> [] \<or> s_steps s \<noteq> [] \<or> branch_fields s) s ''type''
       ''jobs/steps/condition/pass/fail are not valid on a workflow step'' @
     validateInputs s upstream @ validateRetry s"

definition produce :: "step \<Rightarrow> string list" where
  "produce s = (if s_name s \<noteq> [] then [s_name s] else [])"

text \<open>\<open>validateArms\<close> is the loop over the arms of a parallel step: its second result is \<open>produced\<close>.\<close>

fun validateStepSeq :: "step list \<Rightarrow> string list \<Rightarrow> validation_error list \<times> string list"
  and validateArms :: "step list \<Rightarrow> string list \<Rightarrow> validation_error list \<times> string list" where
  "validateStepSeq [] upstream = ([], upstream)"
| "validateStepSeq (s # ss) upstream =
     (let (errs, up) =
        (case stepKind s of
           KJob \<Rightarrow> (validateJob s upstream, produce s @ upstream)
         | KSequence \<Rightarrow>
             (let (e, up) = validateStepSeq (s_steps s) upstream
              in (err_if (s_steps s = []) s ''steps'' ''sequence step requires at least one step'' @ e, up))
         | KParallel \<Rightarrow>
             (let (e, produced) = validateArms (s_jobs s) upstream
              in (err_if (s_jobs s = []) s ''jobs'' ''parallel step requires at least one arm'' @ e,
                  produced @ upstream))
         | KBranch \<Rightarrow>
             (let (e1, up1) = validateStepSeq (arm (s_pass s)) upstream;
                  (e2, up2) = validateStepSeq (arm (s_fail s)) (up1 @ upstream)
              in (validateBranch s @ e1 @ e2, up2 @ up1 @ upstream))
         | KWorkflow \<Rightarrow> (validateWorkflowStep s upstream, produce s @ upstream)
         | KOther \<Rightarrow> ([stepErr s ''type'' (''unknown step type '' @ go_quote (st_Type (si s)) @
             '' (want job|parallel|branch|sequence|workflow)'')], upstream));
        (errs', up') = validateStepSeq ss up
      in (errs @ errs', up'))"
| "validateArms [] upstream = ([], [])"
| "validateArms (a # as) upstream =
     (let (errs, produced) =
        (case stepKind a of
           KSequence \<Rightarrow>
             (let (e, armUp) = validateStepSeq (s_steps a) upstream
              in (err_if (s_steps a = []) a ''steps'' ''sequence arm requires at least one step'' @ e,
                  filter (\<lambda>n. n \<notin> set upstream) armUp))
         | KJob \<Rightarrow> (validateArmJob a upstream, produce a)
         | _ \<Rightarrow> ([stepErr a ''type'' (''a parallel arm must be a plain job or a sequence '' @
                    ''(wrap a workflow step in a sequence to run it as an arm)'')], []));
        (errs', produced') = validateArms as upstream
      in (errs @ errs', produced @ produced'))"

definition ValidateSteps :: "step list \<Rightarrow> validation_error list" where
  "ValidateSteps steps = fst (validateStepSeq steps [])"

end
