(* ===== verification/Run_Row.thy ===== *)
theory Run_Row
  imports Go_Prelude
begin

text \<open>
  The one writer of the \<open>runs\<close> table: \<open>InsertRun\<close> of \<open>backend/internal/scheduler/runrow.go\<close> with the
  defaults of \<open>EnqueueParams\<close> (\<open>scheduler.go\<close>). The row's columns are computed from the request and
  from the catalogue's tables; SQL's NULL is \<open>None\<close>, and the empty agency array and an unset one are
  both the empty list. A stored requirements value is one of the shapes of \<open>json_text\<close>; the JSON
  functions of SQLite used on it are written out.
\<close>

section \<open>The request\<close>

record enqueue_params =
  e_JobName :: string
  e_JobSource :: string
  e_JobUID :: string
  e_RunType :: string
  e_Scope :: string
  e_TargetHost :: string
  e_TriggerKind :: string
  e_TriggeredBy :: string
  e_ConcurrencyKey :: string
  e_WorkflowRunID :: string
  e_Executor :: string
  e_ScheduleName :: string
  e_EnvJSON :: "string gomap option"
  e_OverrideJSON :: string
  e_SSHUser :: string
  e_SSHCredential :: string
  e_Agencies :: "string list"
  e_ScheduledFor :: string
  e_Priority :: int
  e_Policy :: string
  e_ReactionDepth :: int
  e_ReactedToRunID :: string

definition no_params :: enqueue_params where
  "no_params = \<lparr>e_JobName = [], e_JobSource = [], e_JobUID = [], e_RunType = [], e_Scope = [],
     e_TargetHost = [], e_TriggerKind = [], e_TriggeredBy = [], e_ConcurrencyKey = [], e_WorkflowRunID = [],
     e_Executor = [], e_ScheduleName = [], e_EnvJSON = None, e_OverrideJSON = [], e_SSHUser = [],
     e_SSHCredential = [], e_Agencies = [], e_ScheduledFor = [], e_Priority = 0, e_Policy = [],
     e_ReactionDepth = 0, e_ReactedToRunID = []\<rparr>"

record run_row =
  w_params :: enqueue_params
  w_TraceID :: string
  w_Status :: string
  w_QueuedReason :: string
  w_Terminal :: bool
  w_SuppressedByCalendar :: string
  w_NoDefinition :: bool
  w_CreatedAt :: string
  w_Kind :: string
  w_EntityCode :: string
  w_DurationMs :: "int option"

definition queued_row :: "enqueue_params \<Rightarrow> run_row" where
  "queued_row p = \<lparr>w_params = p, w_TraceID = [], w_Status = [], w_QueuedReason = [], w_Terminal = False,
     w_SuppressedByCalendar = [], w_NoDefinition = False, w_CreatedAt = [], w_Kind = [], w_EntityCode = [],
     w_DurationMs = None\<rparr>"

section \<open>The catalogue's tables\<close>

datatype json_text = JList "string list" | JScalar "string option" | JEmpty | JBad

record job_row =
  j_uid :: string
  j_name :: string
  j_source :: string
  j_run_type :: string
  j_script_ref :: "string option"
  j_script_uid :: "string option"
  j_content_hash :: "string option"
  j_project_root :: string
  j_repo_id :: "string option"
  j_script_path :: "string option"
  j_requires :: "json_text option"
  j_become_secret :: string

record script_row =
  s_uid :: string
  s_repo_id :: "string option"
  s_content_hash :: "string option"

record catalog =
  c_jobs :: "job_row list"
  c_scripts :: "script_row list"
  c_repos :: "(string \<times> string option) list"
  c_codes :: "(string \<times> string) list"
  c_global_name :: string

record db_run =
  d_id :: string
  d_kind :: string
  d_job_name :: string
  d_job_source :: "string option"
  d_run_type :: string
  d_scope :: "string option"
  d_target_host :: "string option"
  d_status :: string
  d_queued_reason :: "string option"
  d_triggered_by :: string
  d_trigger_kind :: string
  d_concurrency_key :: "string option"
  d_workflow_run_id :: "string option"
  d_executor :: string
  d_schedule_name :: "string option"
  d_env :: "string gomap option"
  d_override :: "string option"
  d_ssh_user :: "string option"
  d_ssh_credential :: "string option"
  d_agencies :: "string list"
  d_suppressed_by_calendar :: "string option"
  d_started_at :: "string option"
  d_completed_at :: "string option"
  d_duration_ms :: "int option"
  d_created_at :: string
  d_entity_code :: "string option"
  d_script_ref :: "string option"
  d_content_hash :: "string option"
  d_checkout_repo :: "string option"
  d_checkout_sha :: "string option"
  d_checkout_entry :: "string option"
  d_requires :: "json_text option"
  d_reaction_depth :: int
  d_reacted_to :: "string option"
  d_priority :: int
  d_scheduled_for :: "string option"
  d_job_uid :: "string option"
  d_script_uid :: "string option"

section \<open>Defaults\<close>

definition nullStr :: "string \<Rightarrow> string option" where
  "nullStr s = (if s = [] then None else Some s)"

definition kindOrDefault :: "run_row \<Rightarrow> string" where
  "kindOrDefault r = (if w_Kind r = [] then ''job'' else w_Kind r)"

definition statusOrDefault :: "run_row \<Rightarrow> string" where
  "statusOrDefault r = (if w_Status r = [] then ''queued'' else w_Status r)"

definition snapshotFlag :: "run_row \<Rightarrow> int" where
  "snapshotFlag r = (if w_Terminal r then 0 else 1)"

definition jobSourceOrDefault :: "enqueue_params \<Rightarrow> string" where
  "jobSourceOrDefault p = (if e_JobSource p = [] then ''git'' else e_JobSource p)"

definition executorOrDefault :: "enqueue_params \<Rightarrow> string" where
  "executorOrDefault p = ''runner''"

definition agenciesJSONOrDefault :: "catalog \<Rightarrow> enqueue_params \<Rightarrow> string list" where
  "agenciesJSONOrDefault db p = (if e_Agencies p = [] then [c_global_name db] else e_Agencies p)"

definition agenciesSnapshot :: "catalog \<Rightarrow> run_row \<Rightarrow> string list" where
  "agenciesSnapshot db r = (if w_Terminal r then e_Agencies (w_params r) else agenciesJSONOrDefault db (w_params r))"

definition resolveEnqueueUID :: "catalog \<Rightarrow> enqueue_params \<Rightarrow> string" where
  "resolveEnqueueUID db p =
     (if e_JobUID p \<noteq> [] then e_JobUID p
      else case filter (\<lambda>j. j_name j = e_JobName p \<and> j_source j = jobSourceOrDefault p) (c_jobs db) of
        [j] \<Rightarrow> j_uid j
      | _ \<Rightarrow> [])"

section \<open>Requirements\<close>

text \<open>\<open>json_each\<close>: the values of a list, a scalar itself, an error (\<open>None\<close>) on text that is not JSON.\<close>

definition json_each :: "json_text \<Rightarrow> string option list option" where
  "json_each t = (case t of JList xs \<Rightarrow> Some (map Some xs) | JScalar v \<Rightarrow> Some [v] | _ \<Rightarrow> None)"

text \<open>\<open>json_insert(t, '$[#]', v)\<close> appends to a list and leaves any other value.\<close>

definition json_append :: "json_text \<Rightarrow> string \<Rightarrow> json_text option" where
  "json_append t v = (case t of JList xs \<Rightarrow> Some (JList (xs @ [v])) | JScalar s \<Rightarrow> Some (JScalar s) | _ \<Rightarrow> None)"

definition list_or_empty :: "json_text option \<Rightarrow> json_text" where
  "list_or_empty t = (case t of Some (JList xs) \<Rightarrow> JList xs | _ \<Rightarrow> JList [])"

text \<open>The inner SELECT: \<open>r.req\<close>. The outer option is a failed statement.\<close>

definition become_requires :: "job_row \<Rightarrow> json_text option option" where
  "become_requires j =
     (if j_become_secret j \<noteq> [] \<and> j_run_type j = ''ansible'' then
        (let t = (case j_requires j of None \<Rightarrow> JList [] | Some t \<Rightarrow> if t = JEmpty then JList [] else t) in
         case json_each t of None \<Rightarrow> None
         | Some vs \<Rightarrow> if Some ''become-file'' \<in> set vs then Some (j_requires j)
                      else map_option Some (json_append t ''become-file''))
      else if j_requires j \<noteq> None \<and> j_requires j \<noteq> Some (JList []) then Some (j_requires j)
      else Some None)"

definition requires_of :: "job_row \<Rightarrow> json_text option option" where
  "requires_of j =
     (case become_requires j of None \<Rightarrow> None
      | Some req \<Rightarrow>
          if j_project_root j = [] then Some req
          else (case json_each (list_or_empty req) of None \<Rightarrow> None
                | Some vs \<Rightarrow> if Some ''checkout'' \<in> set vs then Some req
                             else map_option Some (json_append (list_or_empty req) ''checkout'')))"

section \<open>The writer\<close>

definition job_by_uid :: "catalog \<Rightarrow> string \<Rightarrow> job_row option" where
  "job_by_uid db uid = List.find (\<lambda>j. j_uid j = uid) (c_jobs db)"

definition script_of :: "catalog \<Rightarrow> job_row \<Rightarrow> script_row option" where
  "script_of db j = (case j_script_uid j of None \<Rightarrow> None | Some u \<Rightarrow> List.find (\<lambda>s. s_uid s = u) (c_scripts db))"

definition run_content_hash :: "catalog \<Rightarrow> job_row \<Rightarrow> string option" where
  "run_content_hash db j =
     (case (if j_source j \<noteq> ''git'' then Option.bind (script_of db j) s_content_hash else None) of
        Some h \<Rightarrow> Some h | None \<Rightarrow> j_content_hash j)"

text \<open>The repository a project job's tree is fetched from: its script's, else a Git job's own.\<close>

definition checkout_repo :: "catalog \<Rightarrow> job_row \<Rightarrow> string option" where
  "checkout_repo db j =
     (case Option.bind (script_of db j) s_repo_id of Some r \<Rightarrow> Some r
      | None \<Rightarrow> if j_source j = ''git'' then Some (case j_repo_id j of None \<Rightarrow> ''global'' | Some r \<Rightarrow> r) else None)"

definition checkout_sha :: "catalog \<Rightarrow> job_row \<Rightarrow> string option" where
  "checkout_sha db j = (case checkout_repo db j of None \<Rightarrow> None
     | Some r \<Rightarrow> (case map_of (c_repos db) r of None \<Rightarrow> None | Some sha \<Rightarrow> sha))"

definition if_project :: "bool \<Rightarrow> job_row option \<Rightarrow> (job_row \<Rightarrow> string option) \<Rightarrow> string option" where
  "if_project snap j f = (case j of None \<Rightarrow> None | Some j \<Rightarrow> if snap \<and> j_project_root j \<noteq> [] then f j else None)"

text \<open>The columns of the row, for the resolved identity and requirements.\<close>

definition run_columns :: "catalog \<Rightarrow> string \<Rightarrow> string \<Rightarrow> run_row \<Rightarrow> string \<Rightarrow> json_text option \<Rightarrow> db_run" where
  "run_columns db traceID now r uid requires =
     (let p = w_params r;
          at = (if w_Terminal r then Some now else None);
          src = (if kindOrDefault r \<noteq> ''job'' \<and> e_JobSource p = [] then None else Some (jobSourceOrDefault p));
          snap = (snapshotFlag r = 1);
          j = job_by_uid db uid
      in \<lparr>d_id = traceID, d_kind = kindOrDefault r, d_job_name = e_JobName p,
          d_job_source = src, d_run_type = e_RunType p, d_scope = nullStr (e_Scope p),
          d_target_host = nullStr (e_TargetHost p), d_status = statusOrDefault r,
          d_queued_reason = nullStr (w_QueuedReason r), d_triggered_by = e_TriggeredBy p,
          d_trigger_kind = e_TriggerKind p, d_concurrency_key = nullStr (e_ConcurrencyKey p),
          d_workflow_run_id = nullStr (e_WorkflowRunID p), d_executor = executorOrDefault p,
          d_schedule_name = nullStr (e_ScheduleName p), d_env = e_EnvJSON p, d_override = nullStr (e_OverrideJSON p),
          d_ssh_user = nullStr (e_SSHUser p), d_ssh_credential = nullStr (e_SSHCredential p),
          d_agencies = agenciesSnapshot db r, d_suppressed_by_calendar = nullStr (w_SuppressedByCalendar r),
          d_started_at = at, d_completed_at = at, d_duration_ms = w_DurationMs r, d_created_at = now,
          d_entity_code = (case nullStr (w_EntityCode r) of Some c \<Rightarrow> Some c | None \<Rightarrow> map_of (c_codes db) uid),
          d_script_ref = Option.bind j j_script_ref,
          d_content_hash = Option.bind j (run_content_hash db),
          d_checkout_repo = if_project snap j (checkout_repo db), d_checkout_sha = if_project snap j (checkout_sha db),
          d_checkout_entry = if_project snap j j_script_path, d_requires = requires,
          d_reaction_depth = e_ReactionDepth p, d_reacted_to = nullStr (e_ReactedToRunID p),
          d_priority = e_Priority p, d_scheduled_for = nullStr (e_ScheduledFor p),
          d_job_uid = nullStr uid, d_script_uid = Option.bind j j_script_uid\<rparr>)"

definition row_uid :: "catalog \<Rightarrow> run_row \<Rightarrow> string" where
  "row_uid db r = (if w_NoDefinition r then [] else resolveEnqueueUID db (w_params r))"

text \<open>\<open>None\<close> is a failed INSERT: the id exists already, or a requirements value cannot be read.\<close>

definition InsertRun :: "catalog \<Rightarrow> string \<Rightarrow> string \<Rightarrow> db_run list \<Rightarrow> run_row \<Rightarrow> (string \<times> db_run list) option" where
  "InsertRun db fresh clock runs r =
     (let traceID = (if w_TraceID r = [] then fresh else w_TraceID r);
          now = (if w_CreatedAt r = [] then clock else w_CreatedAt r);
          uid = row_uid db r
      in case (if snapshotFlag r = 1 then (case job_by_uid db uid of None \<Rightarrow> Some None | Some j \<Rightarrow> requires_of j) else Some None) of
        None \<Rightarrow> None
      | Some requires \<Rightarrow>
          if traceID \<in> d_id ` set runs then None
          else Some (traceID, runs @ [run_columns db traceID now r uid requires]))"

lemma run_columns_simps [simp]:
  "d_id (run_columns db t now r u q) = t" "d_status (run_columns db t now r u q) = statusOrDefault r"
  "d_agencies (run_columns db t now r u q) = agenciesSnapshot db r" "d_requires (run_columns db t now r u q) = q"
  "d_executor (run_columns db t now r u q) = ''runner''" "d_created_at (run_columns db t now r u q) = now"
  "d_started_at (run_columns db t now r u q) = (if w_Terminal r then Some now else None)"
  "d_completed_at (run_columns db t now r u q) = (if w_Terminal r then Some now else None)"
  "d_job_uid (run_columns db t now r u q) = nullStr u"
  "d_checkout_repo (run_columns db t now r u q) = if_project (snapshotFlag r = 1) (job_by_uid db u) (checkout_repo db)"
  "d_checkout_sha (run_columns db t now r u q) = if_project (snapshotFlag r = 1) (job_by_uid db u) (checkout_sha db)"
  "d_checkout_entry (run_columns db t now r u q) = if_project (snapshotFlag r = 1) (job_by_uid db u) j_script_path"
  by (simp_all add: run_columns_def Let_def executorOrDefault_def)

lemma InsertRun_Some:
  assumes "InsertRun db fresh clock runs r = Some (t, runs')"
  obtains now req where "runs' = runs @ [run_columns db t now r (row_uid db r) req]" "t \<notin> d_id ` set runs"
    "(if snapshotFlag r = 1 then (case job_by_uid db (row_uid db r) of None \<Rightarrow> Some None | Some j \<Rightarrow> requires_of j) else Some None) = Some req"
  using assms unfolding InsertRun_def Let_def by (auto split: option.splits if_splits)

section \<open>What a row requires of its runner\<close>

definition requires_tokens :: "json_text option \<Rightarrow> string list" where
  "requires_tokens t = (case t of Some (JList xs) \<Rightarrow> xs | _ \<Rightarrow> [])"

lemma become_requires_tokens:
  assumes "become_requires j = Some req"
  shows "set (requires_tokens (j_requires j)) \<subseteq> set (requires_tokens req)"
    and "j_become_secret j \<noteq> [] \<Longrightarrow> j_run_type j = ''ansible'' \<Longrightarrow> \<not> (\<exists>v. j_requires j = Some (JScalar v)) \<Longrightarrow>
      ''become-file'' \<in> set (requires_tokens req)"
  using assms
  by (auto simp: become_requires_def requires_tokens_def json_each_def json_append_def Let_def
      split: if_splits option.splits json_text.splits)

lemma requires_of_tokens:
  assumes "requires_of j = Some req"
  shows "set (requires_tokens (j_requires j)) \<subseteq> set (requires_tokens req)"
    and "j_project_root j \<noteq> [] \<Longrightarrow> ''checkout'' \<in> set (requires_tokens req)"
    and "j_become_secret j \<noteq> [] \<Longrightarrow> j_run_type j = ''ansible'' \<Longrightarrow> \<not> (\<exists>v. j_requires j = Some (JScalar v)) \<Longrightarrow>
      ''become-file'' \<in> set (requires_tokens req)"
proof -
  obtain b where b: "become_requires j = Some b" using assms by (auto simp: requires_of_def split: option.splits)
  have "set (requires_tokens b) \<subseteq> set (requires_tokens req) \<and>
      (j_project_root j \<noteq> [] \<longrightarrow> ''checkout'' \<in> set (requires_tokens req))"
    using assms b
    by (auto simp: requires_of_def requires_tokens_def list_or_empty_def json_each_def json_append_def
        split: if_splits option.splits json_text.splits)
  with become_requires_tokens [OF b] show
    "set (requires_tokens (j_requires j)) \<subseteq> set (requires_tokens req)"
    "j_project_root j \<noteq> [] \<Longrightarrow> ''checkout'' \<in> set (requires_tokens req)"
    "j_become_secret j \<noteq> [] \<Longrightarrow> j_run_type j = ''ansible'' \<Longrightarrow> \<not> (\<exists>v. j_requires j = Some (JScalar v)) \<Longrightarrow>
      ''become-file'' \<in> set (requires_tokens req)"
    by blast+
qed

text \<open>a row that will execute names an agency, runs on the runner executor and requires of its runner
  every token its job asks for, \<open>checkout\<close> when the job is a project, and \<open>become-file\<close> when an
  ansible job has a become password (unless the stored requirements are no list); a terminal row
  carries no dispatch policy and ends when it begins.\<close>

theorem InsertRun_dispatch_policy:
  assumes "InsertRun db fresh clock runs r = Some (t, runs')"
    and "job_by_uid db (row_uid db r) = Some j"
  shows "\<exists>row. runs' = runs @ [row] \<and> d_id row = t \<and>
    (if w_Terminal r then
       d_requires row = None \<and> d_checkout_repo row = None \<and> d_checkout_sha row = None \<and>
       d_checkout_entry row = None \<and> d_started_at row = Some (d_created_at row) \<and>
       d_completed_at row = Some (d_created_at row)
     else d_agencies row \<noteq> [] \<and> d_started_at row = None \<and>
       set (requires_tokens (j_requires j)) \<subseteq> set (requires_tokens (d_requires row)) \<and>
       (j_project_root j \<noteq> [] \<longrightarrow> ''checkout'' \<in> set (requires_tokens (d_requires row))) \<and>
       (j_become_secret j \<noteq> [] \<and> j_run_type j = ''ansible'' \<and> \<not> (\<exists>v. j_requires j = Some (JScalar v)) \<longrightarrow>
          ''become-file'' \<in> set (requires_tokens (d_requires row))))"
proof -
  from InsertRun_Some [OF assms(1)] obtain now req where row:
    "runs' = runs @ [run_columns db t now r (row_uid db r) req]"
    "(if snapshotFlag r = 1 then (case job_by_uid db (row_uid db r) of None \<Rightarrow> Some None | Some j \<Rightarrow> requires_of j) else Some None) = Some req"
    by blast
  show ?thesis
  proof (cases "w_Terminal r")
    case True
    then show ?thesis using row by (simp add: snapshotFlag_def if_project_def split: option.split)
  next
    case False
    then have "requires_of j = Some req" using row(2) assms(2) by (simp add: snapshotFlag_def)
    from requires_of_tokens [OF this] show ?thesis using False row(1)
      by (simp add: agenciesSnapshot_def agenciesJSONOrDefault_def)
  qed
qed

definition demo_job :: job_row where
  "demo_job = \<lparr>j_uid = ''u1'', j_name = ''deploy'', j_source = ''git'', j_run_type = ''ansible'', j_script_ref = None,
     j_script_uid = None, j_content_hash = None, j_project_root = ''site'', j_repo_id = None,
     j_script_path = Some ''site/main.yml'', j_requires = Some (JList [''vault'']), j_become_secret = ''pw''\<rparr>"

definition demo_catalog :: catalog where
  "demo_catalog = \<lparr>c_jobs = [demo_job], c_scripts = [], c_repos = [(''global'', Some ''abc'')], c_codes = [],
     c_global_name = ''Global''\<rparr>"

theorem InsertRun_dispatch_policy_witness:
  "\<exists>row. InsertRun demo_catalog ''t'' ''now'' [] (queued_row (no_params\<lparr>e_JobName := ''deploy''\<rparr>)) = Some (''t'', [row]) \<and>
     set (requires_tokens (d_requires row)) = {''vault'', ''become-file'', ''checkout''} \<and>
     ''checkout'' \<in> set (requires_tokens (d_requires row))"
proof -
  let ?r = "queued_row (no_params\<lparr>e_JobName := ''deploy''\<rparr>)"
  have "map_option (\<lambda>(t, rs). (t, map d_requires rs)) (InsertRun demo_catalog ''t'' ''now'' [] ?r) =
    Some (''t'', [Some (JList [''vault'', ''become-file'', ''checkout''])])"
    by code_simp
  then obtain runs' where i: "InsertRun demo_catalog ''t'' ''now'' [] ?r = Some (''t'', runs')"
    "map (\<lambda>row. d_requires row) runs' = [Some (JList [''vault'', ''become-file'', ''checkout''])]"
    by auto
  have j: "job_by_uid demo_catalog (row_uid demo_catalog ?r) = Some demo_job"
    by code_simp
  from InsertRun_dispatch_policy [OF i(1) j] obtain row where
    "runs' = [] @ [row]" "j_project_root demo_job \<noteq> [] \<longrightarrow> ''checkout'' \<in> set (requires_tokens (d_requires row))"
    by (auto simp: queued_row_def)
  moreover have "j_project_root demo_job \<noteq> []" by code_simp
  ultimately show ?thesis using i by (auto simp: requires_tokens_def)
qed

end
