(* ===== verification/Workflow_Step.thy ===== *)
theory Workflow_Step
  imports Workflow_Graph Cron_Spec Env_Ref Run_Row
begin

text \<open>
  One job step of a workflow run: the gates a step passes before its child run is queued, the row it
  leaves, the wait for the run and the retries (\<open>runJob\<close>, \<open>runStep\<close>, \<open>waitForRun\<close>, \<open>markSkipped\<close> and
  their helpers in \<open>backend/internal/workflow/engine.go\<close>). The database's answers are fields of the
  record \<open>step_world\<close>; an answer may be an error.
\<close>

section \<open>The world a step asks\<close>

datatype 'a query = QErr | QNone | QRow 'a

text \<open>What wakes the wait for a run: its context, its deadline, or a tick and the status then read.\<close>

datatype poll = PCtx | PDeadline | PTick "string query"

record jobDef =
  jd_runType :: string
  jd_scope :: string
  jd_source :: string
  jd_targetHost :: string
  jd_sshUser :: string
  jd_sshCred :: string
  jd_timeout :: int
  jd_uid :: string
  jd_agency :: string
  jd_concurrencyKey :: string
  jd_retries :: int
  jd_backoffSeconds :: int
  jd_continueOnError :: bool
  jd_unavailable :: string

definition no_def :: jobDef where
  "no_def = \<lparr>jd_runType = [], jd_scope = [], jd_source = [], jd_targetHost = [], jd_sshUser = [], jd_sshCred = [],
     jd_timeout = 0, jd_uid = [], jd_agency = [], jd_concurrencyKey = [], jd_retries = 0, jd_backoffSeconds = 0,
     jd_continueOnError = False, jd_unavailable = []\<rparr>"

type_synonym job_defs = "jobDef gomap"

definition def_of :: "job_defs \<Rightarrow> step \<Rightarrow> jobDef" where
  "def_of defs s = (case map_of defs (StepKey s) of None \<Rightarrow> no_def | Some jd \<Rightarrow> jd)"

text \<open>The identity of a step's job: its source, name and uid.\<close>

type_synonym job_id = "string \<times> string \<times> string"

record step_world =
  q_wfAgency :: "int \<Rightarrow> string option query"
  q_agencyName :: "string \<Rightarrow> string option query"
  q_globalName :: string
  q_scopeAgencies :: "string \<Rightarrow> string \<Rightarrow> string list option"
  q_scopeOutside :: "string \<Rightarrow> string \<Rightarrow> bool option"
  q_unbound :: "job_id \<Rightarrow> string \<Rightarrow> string list \<Rightarrow> bool option"
  q_repoScope :: "job_id \<Rightarrow> string \<Rightarrow> bool option"
  q_keyAgent :: "job_id \<Rightarrow> string \<Rightarrow> string \<Rightarrow> string \<Rightarrow> bool option"
  q_checkoutAgent :: "job_id \<Rightarrow> string \<Rightarrow> bool option"
  q_reactionDepth :: "string \<Rightarrow> int"
  q_jobEnv :: "job_id \<Rightarrow> string gomap option"
  q_parentEnv :: "string \<Rightarrow> string gomap option"
  q_insert :: "run_row \<Rightarrow> bool"
  q_sync :: "string \<Rightarrow> bool"
  q_unclaimable :: "string \<Rightarrow> string option"
  q_polls :: "run_row \<Rightarrow> poll list"
  q_outputs :: "string \<Rightarrow> string gomap option"
  q_fresh :: "string \<Rightarrow> nat \<Rightarrow> string"
  q_stop :: "string \<Rightarrow> nat \<Rightarrow> bool"
  q_stopBackoff :: "string \<Rightarrow> nat \<Rightarrow> bool"

section \<open>The reasons of a refusal\<close>

definition ReasonStepJobNotFound :: string where
  "ReasonStepJobNotFound = ''Refused: the job this step names is not this workflow's: it is in neither the workflow's repository nor, built in the app, its agency''"
definition ReasonStepJobOtherAgency :: string where
  "ReasonStepJobOtherAgency = ''Refused: this step's job is another agency's: a workflow runs its own agency's jobs only''"
definition QueuedReasonUnboundReferences :: string where
  "QueuedReasonUnboundReferences = ''unbound_references''"
definition ReasonRepoScopeMismatch :: string where
  "ReasonRepoScopeMismatch = ''Refused: this job, or the script it is built on, comes from an agency's repository, and the scope it would run on does not belong to that agency''"
definition ReasonWorkflowScopeMismatch :: string where
  "ReasonWorkflowScopeMismatch = ''Refused: this step would run on a scope that is not its workflow's agency's: a workflow runs its own agency's jobs only''"
definition ReasonKeyBindingNeedsAgent :: string where
  "ReasonKeyBindingNeedsAgent = ''Skipped: this job binds an SSH key, which only an agent can deliver, and no agent serves this job's scope''"
definition ReasonCheckoutNeedsAgent :: string where
  "ReasonCheckoutNeedsAgent = ''Skipped: this job is a project, which only an agent started with -allow-checkout can run, and no such agent serves this job's scope''"

lemmas reason_defs = ReasonStepJobNotFound_def ReasonStepJobOtherAgency_def QueuedReasonUnboundReferences_def
  ReasonRepoScopeMismatch_def ReasonWorkflowScopeMismatch_def ReasonKeyBindingNeedsAgent_def ReasonCheckoutNeedsAgent_def

section \<open>Retry configuration\<close>

definition effectiveContinueOnError :: "step \<Rightarrow> jobDef \<Rightarrow> bool" where
  "effectiveContinueOnError s jd =
     (case st_ContinueOnError (si s) of Some b \<Rightarrow> b | None \<Rightarrow> jd_continueOnError jd)"

definition effectiveRetry :: "step \<Rightarrow> jobDef \<Rightarrow> int \<times> int \<times> bool" where
  "effectiveRetry s jd =
     (if jd_unavailable jd \<noteq> [] then (0, 0, effectiveContinueOnError s jd)
      else
        let retries = (case st_Retries (si s) of Some n \<Rightarrow> n | None \<Rightarrow> jd_retries jd);
            backoff = (case st_BackoffSeconds (si s) of Some n \<Rightarrow> n | None \<Rightarrow> jd_backoffSeconds jd);
            cont = (case st_ContinueOnError (si s) of Some b \<Rightarrow> b | None \<Rightarrow> jd_continueOnError jd)
        in (if retries < 0 then 0 else retries, if backoff < 0 then 0 else backoff, cont))"

section \<open>Waiting\<close>

text \<open>A list of wake-ups that runs out is ended by the context (the engine stops).\<close>

fun waitForRun :: "int \<Rightarrow> poll list \<Rightarrow> string" where
  "waitForRun maxWait [] = ''danger''"
| "waitForRun maxWait (PCtx # ps) = ''danger''"
| "waitForRun maxWait (PDeadline # ps) = (if maxWait > 0 then ''danger'' else waitForRun maxWait ps)"
| "waitForRun maxWait (PTick QNone # ps) = ''danger''"
| "waitForRun maxWait (PTick QErr # ps) = waitForRun maxWait ps"
| "waitForRun maxWait (PTick (QRow st) # ps) =
     (if st = ''success'' \<or> st = ''warning'' then ''success''
      else if st = ''failure'' \<or> st = ''killed'' \<or> st = ''danger'' then ''danger''
      else if st = ''skipped'' then ''skipped''
      else waitForRun maxWait ps)"

lemma waitForRun_verdict: "waitForRun m ps \<in> {''success'', ''danger'', ''skipped''}"
  by (induction m ps rule: waitForRun.induct) auto

section \<open>Inputs and environments\<close>

definition resolveInputs :: "step \<Rightarrow> results \<Rightarrow> string gomap" where
  "resolveInputs s results =
     map (\<lambda>(key, ref). (key,
        case map_of results (in_FromStep ref) of
          None \<Rightarrow> []
        | Some up \<Rightarrow> (case r_Outputs up of None \<Rightarrow> []
             | Some o' \<Rightarrow> (case map_of o' (in_FromOutput ref) of None \<Rightarrow> [] | Some v \<Rightarrow> v)))) (st_Inputs (si s))"

definition childEnvJSON :: "step_world \<Rightarrow> string \<Rightarrow> job_id \<Rightarrow> string gomap \<Rightarrow> string gomap option" where
  "childEnvJSON w wfTrace job inputEnv = Merge [q_jobEnv w job, q_parentEnv w wfTrace, Some inputEnv]"

section \<open>The workflow's agency\<close>

definition workflowAgencyOf :: "step_world \<Rightarrow> int \<Rightarrow> (string \<times> string) option" where
  "workflowAgencyOf w wfID =
     (case q_wfAgency w wfID of
        QErr \<Rightarrow> None
      | QNone \<Rightarrow> Some ([], q_globalName w)
      | QRow None \<Rightarrow> Some ([], q_globalName w)
      | QRow (Some a) \<Rightarrow>
          (case q_agencyName w a of
             QErr \<Rightarrow> None
           | QNone \<Rightarrow> Some (a, q_globalName w)
           | QRow None \<Rightarrow> Some (a, q_globalName w)
           | QRow (Some n) \<Rightarrow> Some (a, if n = [] then q_globalName w else n)))"

definition stepOutsideWorkflowAgency :: "step_world \<Rightarrow> int \<Rightarrow> string \<Rightarrow> bool option" where
  "stepOutsideWorkflowAgency w wfID scope =
     (case q_wfAgency w wfID of
        QErr \<Rightarrow> None
      | QNone \<Rightarrow> Some False
      | QRow None \<Rightarrow> Some True
      | QRow (Some a) \<Rightarrow> if scope = [] then Some False else q_scopeOutside w a scope)"

section \<open>Running a job step\<close>

text \<open>A gate is asked only of a step still queued (\<open>None\<close>); the outer \<open>None\<close> is a failed query.\<close>

definition gate :: "bool option \<Rightarrow> string \<Rightarrow> string option \<Rightarrow> string option option" where
  "gate q reason st =
     (case st of Some r \<Rightarrow> Some (Some r)
      | None \<Rightarrow> (case q of None \<Rightarrow> None | Some b \<Rightarrow> Some (if b then Some reason else None)))"

definition step_gates :: "step_world \<Rightarrow> int \<Rightarrow> job_id \<Rightarrow> jobDef \<Rightarrow> string \<Rightarrow> string list \<Rightarrow> string option \<Rightarrow>
    string option option" where
  "step_gates w wfID job jd scope agencies st0 =
     Option.bind (if scope = [] then gate (q_unbound w job scope agencies) QueuedReasonUnboundReferences st0 else Some st0)
      (\<lambda>st1. Option.bind (gate (q_repoScope w job scope) ReasonRepoScopeMismatch st1)
      (\<lambda>st2. Option.bind (gate (stepOutsideWorkflowAgency w wfID scope) ReasonWorkflowScopeMismatch st2)
      (\<lambda>st3. Option.bind (gate (q_keyAgent w job (jd_runType jd) (jd_agency jd) scope) ReasonKeyBindingNeedsAgent st3)
      (\<lambda>st4. gate (q_checkoutAgent w job scope) ReasonCheckoutNeedsAgent st4))))"

record step_plan =
  p_def :: jobDef
  p_refusal :: string
  p_scope :: string

text \<open>The job the step names and whether it is the workflow's to run at all.\<close>

definition step_plan :: "job_defs \<Rightarrow> step \<Rightarrow> string \<Rightarrow> string \<Rightarrow> step_plan" where
  "step_plan defs s scope wfAgency =
     (let found = map_of defs (StepKey s);
          jd = (case found of None \<Rightarrow> no_def\<lparr>jd_runType := ''bash''\<rparr> | Some jd \<Rightarrow> jd);
          refusal = (if found = None then ReasonStepJobNotFound
                     else if wfAgency \<noteq> [] \<and> jd_agency jd \<noteq> [] \<and> jd_agency jd \<noteq> wfAgency
                     then ReasonStepJobOtherAgency else []);
          effective = (if jd_scope jd \<noteq> [] then jd_scope jd else scope)
      in if refusal \<noteq> []
         then \<lparr>p_def = no_def\<lparr>jd_runType := jd_runType jd, jd_source := jd_source jd\<rparr>, p_refusal = refusal, p_scope = scope\<rparr>
         else \<lparr>p_def = jd, p_refusal = [], p_scope = effective\<rparr>)"

definition first_reason :: "step_plan \<Rightarrow> string option" where
  "first_reason p =
     (if p_refusal p \<noteq> [] then Some (p_refusal p)
      else if jd_unavailable (p_def p) \<noteq> [] then Some (jd_unavailable (p_def p)) else None)"

definition child_row :: "step_world \<Rightarrow> string \<Rightarrow> step \<Rightarrow> string \<Rightarrow> string \<Rightarrow> string gomap \<Rightarrow> step_plan \<Rightarrow>
    string list \<Rightarrow> string option \<Rightarrow> run_row" where
  "child_row w wfTrace s traceID actor inputEnv p agencies reason =
     (let jd = p_def p; src = (if jd_source jd = [] then ''git'' else jd_source jd) in
      (queued_row (no_params
        \<lparr>e_JobName := s_name s, e_JobSource := src, e_JobUID := jd_uid jd, e_RunType := jd_runType jd,
         e_Scope := p_scope p, e_TargetHost := jd_targetHost jd, e_TriggerKind := ''workflow'', e_TriggeredBy := actor,
         e_ConcurrencyKey := ConcurrencyKey (jd_concurrencyKey jd) (jd_agency jd) (jd_uid jd) src (s_name s),
         e_WorkflowRunID := wfTrace, e_Executor := ''runner'',
         e_EnvJSON := (if p_refusal p = [] then childEnvJSON w wfTrace (src, s_name s, jd_uid jd) inputEnv else None),
         e_SSHUser := jd_sshUser jd, e_SSHCredential := jd_sshCred jd, e_Agencies := agencies,
         e_ReactionDepth := q_reactionDepth w wfTrace\<rparr>))
        \<lparr>w_TraceID := traceID, w_Status := (if reason = None then ''queued'' else ''failure''),
         w_QueuedReason := (case reason of None \<Rightarrow> [] | Some r \<Rightarrow> r), w_NoDefinition := (p_refusal p \<noteq> [])\<rparr>)"

text \<open>From the insert of the row to the end of the wait: the rows written, the terminal status and \<open>refused\<close>.\<close>

definition dispatch_row :: "step_world \<Rightarrow> jobDef \<Rightarrow> string \<Rightarrow> run_row \<Rightarrow> string option \<Rightarrow> run_row list \<times> string \<times> bool" where
  "dispatch_row w jd traceID row reason =
     (if \<not> q_insert w row then ([], ''danger'', False)
      else if \<not> q_sync w traceID then ([row], ''danger'', False)
      else
        let row' = (if reason = None
                    then (case q_unclaimable w traceID of None \<Rightarrow> row | Some r \<Rightarrow> row\<lparr>w_QueuedReason := r\<rparr>)
                    else row);
            maxWait = (if jd_timeout jd > 0 then jd_timeout jd * nsSecond + 60 * nsSecond else 0)
        in ([row'], waitForRun maxWait (q_polls w row'), reason \<noteq> None))"

definition runJob :: "step_world \<Rightarrow> string \<Rightarrow> int \<Rightarrow> job_defs \<Rightarrow> step \<Rightarrow> string \<Rightarrow> string \<Rightarrow> string \<Rightarrow> string gomap \<Rightarrow>
    run_row list \<times> string \<times> bool" where
  "runJob w wfTrace wfID defs s traceID scope actor inputEnv =
     (case workflowAgencyOf w wfID of None \<Rightarrow> ([], ''danger'', False)
      | Some (wfAgency, wfAgencyName) \<Rightarrow>
     (let p = step_plan defs s scope wfAgency; jd = p_def p;
          src = (if jd_source jd = [] then ''git'' else jd_source jd);
          job = (src, s_name s, jd_uid jd)
      in case (if p_refusal p \<noteq> [] then Some [wfAgencyName] else q_scopeAgencies w (jd_agency jd) (p_scope p)) of
        None \<Rightarrow> ([], ''danger'', False)
      | Some agencies \<Rightarrow>
     (case step_gates w wfID job jd (p_scope p) agencies (first_reason p) of
        None \<Rightarrow> ([], ''danger'', False)
      | Some reason \<Rightarrow>
     (let filed = (if first_reason p = None \<and> reason = Some ReasonWorkflowScopeMismatch then [wfAgencyName] else agencies)
      in dispatch_row w jd traceID (child_row w wfTrace s traceID actor inputEnv p filed reason) reason))))"

section \<open>Retries\<close>

text \<open>The loop of \<open>runStep\<close> and \<open>runWorkflowStep\<close>: what an attempt leaves is its records, its status,
  its id and whether it was refused. \<open>k\<close> is the number of the next attempt.\<close>

type_synonym 'r attempt = "'r list \<times> string \<times> string \<times> bool"

fun retry_loop :: "(nat \<Rightarrow> 'r attempt) \<Rightarrow> (nat \<Rightarrow> bool) \<Rightarrow> nat \<Rightarrow> nat \<Rightarrow> 'r attempt \<Rightarrow> 'r attempt" where
  "retry_loop run stop 0 k acc = acc"
| "retry_loop run stop (Suc left) k (log, status, tid, refused) =
     (if status = ''danger'' \<and> \<not> refused \<and> \<not> stop k
      then (case run k of (log', status', tid', refused') \<Rightarrow>
              retry_loop run stop left (Suc k) (log @ log', status', tid', refused'))
      else (log, status, tid, refused))"

definition job_attempt :: "step_world \<Rightarrow> string \<Rightarrow> int \<Rightarrow> job_defs \<Rightarrow> step \<Rightarrow> string \<Rightarrow> string \<Rightarrow> string gomap \<Rightarrow>
    string \<Rightarrow> run_row attempt" where
  "job_attempt w wfTrace wfID defs s scope actor inputEnv tid =
     (case runJob w wfTrace wfID defs s tid scope actor inputEnv of (rows, status, refused) \<Rightarrow> (rows, status, tid, refused))"

text \<open>The first attempt runs under the node's id, every other under a fresh one.\<close>

definition attempt_id :: "step_world \<Rightarrow> step \<Rightarrow> nat \<Rightarrow> string" where
  "attempt_id w s k =
     (let tid0 = (if s_id s = [] then q_fresh w [] 0 else s_id s) in if k = 0 then tid0 else q_fresh w tid0 k)"

text \<open>The context is asked before a retry, and during its backoff when it has one.\<close>

definition stop_before :: "step_world \<Rightarrow> step \<Rightarrow> int \<Rightarrow> nat \<Rightarrow> bool" where
  "stop_before w s backoff k =
     (q_stop w (attempt_id w s 0) k \<or> backoff > 0 \<and> q_stopBackoff w (attempt_id w s 0) k)"

definition runStep :: "step_world \<Rightarrow> string \<Rightarrow> int \<Rightarrow> job_defs \<Rightarrow> step \<Rightarrow> string \<Rightarrow> string \<Rightarrow> string gomap \<Rightarrow>
    run_row list \<times> string \<times> string" where
  "runStep w wfTrace wfID defs s scope actor inputEnv =
     (let (retries, backoff, _) = effectiveRetry s (def_of defs s);
          run = (\<lambda>k. job_attempt w wfTrace wfID defs s scope actor inputEnv (attempt_id w s k))
      in case retry_loop run (stop_before w s backoff) (nat retries) 1 (run 0) of
           (rows, status, tid, _) \<Rightarrow> (rows, status, tid))"

section \<open>Skipped steps\<close>

definition markSkipped :: "step_world \<Rightarrow> string \<Rightarrow> job_defs \<Rightarrow> step \<Rightarrow> string \<Rightarrow> run_row" where
  "markSkipped w wfTrace defs s actor =
     (let tid = (if s_id s = [] then q_fresh w [] 0 else s_id s);
          jd = def_of defs s;
          rt = (if jd_runType jd = [] then ''bash'' else jd_runType jd);
          src = (if jd_source jd = [] then ''git'' else jd_source jd)
      in (queued_row (no_params
        \<lparr>e_JobName := s_name s, e_JobSource := src, e_JobUID := jd_uid jd, e_RunType := rt,
         e_TargetHost := jd_targetHost jd, e_TriggerKind := ''workflow'', e_TriggeredBy := actor,
         e_ConcurrencyKey := ConcurrencyKey (jd_concurrencyKey jd) (jd_agency jd) (jd_uid jd) src (s_name s),
         e_WorkflowRunID := wfTrace\<rparr>))
        \<lparr>w_TraceID := tid, w_Status := ''skipped'', w_Terminal := True,
         w_QueuedReason := ''Skipped: an earlier step in the workflow failed''\<rparr>)"

end
