(* ===== verification/Workflow_Step_Props.thy ===== *)
theory Workflow_Step_Props
  imports Workflow_Step
begin

text \<open>
  What a job step leaves: a queued row has passed every gate, a refused row carries nothing of another
  agency's job, the retries are exactly the code's. The contract of a retried attempt is a locale,
  interpreted here on a job step's attempts and in \<open>Workflow_Walk\<close> on a sub-workflow step's.
\<close>

section \<open>Gates\<close>

lemma gate_queued: "gate q r st = Some None \<longleftrightarrow> st = None \<and> q = Some False"
  by (auto simp: gate_def split: option.splits)

lemma gate_keeps: "gate q r (Some x) = Some (Some x)"
  by (simp add: gate_def)

lemma step_gates_queued:
  "step_gates w wfID job jd scope agencies st0 = Some None \<longleftrightarrow>
     st0 = None \<and> (scope = [] \<longrightarrow> q_unbound w job scope agencies = Some False) \<and>
     q_repoScope w job scope = Some False \<and> stepOutsideWorkflowAgency w wfID scope = Some False \<and>
     q_keyAgent w job (jd_runType jd) (jd_agency jd) scope = Some False \<and>
     q_checkoutAgent w job scope = Some False"
  by (auto simp: step_gates_def bind_eq_Some_conv gate_queued)

lemma step_gates_keeps: "step_gates w wfID job jd scope agencies (Some r) = Some (Some r)"
  by (simp add: step_gates_def gate_keeps)

lemma child_row_simps [simp]:
  "w_TraceID (child_row w wt s t a ie p ag r) = t"
  "w_Status (child_row w wt s t a ie p ag r) = (if r = None then ''queued'' else ''failure'')"
  "w_Terminal (child_row w wt s t a ie p ag r) = False"
  "w_NoDefinition (child_row w wt s t a ie p ag r) = (p_refusal p \<noteq> [])"
  by (simp_all add: child_row_def Let_def queued_row_def)

definition the_job :: "step_plan \<Rightarrow> step \<Rightarrow> job_id" where
  "the_job p s = ((if jd_source (p_def p) = [] then ''git'' else jd_source (p_def p)), s_name s, jd_uid (p_def p))"

lemma child_row_params [simp]:
  "e_Scope (w_params (child_row w wt s t a ie p ag r)) = p_scope p"
  "w_params (child_row w wt s t a ie p ag r\<lparr>w_QueuedReason := q\<rparr>) = w_params (child_row w wt s t a ie p ag r)"
  by (simp_all add: child_row_def Let_def queued_row_def)

lemma runJob_row:
  assumes "runJob w wfTrace wfID defs s tid scope actor inputEnv = (rows, status, refused)" "row \<in> set rows"
  shows "\<exists>agency name ags r. workflowAgencyOf w wfID = Some (agency, name) \<and>
    step_gates w wfID (the_job (step_plan defs s scope agency) s) (p_def (step_plan defs s scope agency))
      (p_scope (step_plan defs s scope agency)) ags (first_reason (step_plan defs s scope agency)) = Some r \<and>
    w_Status row = (if r = None then ''queued'' else ''failure'') \<and> (refused \<longrightarrow> r \<noteq> None) \<and>
    e_Scope (w_params row) = p_scope (step_plan defs s scope agency) \<and> w_TraceID row = tid \<and> rows = [row] \<and>
    (p_refusal (step_plan defs s scope agency) = [] \<longrightarrow>
       q_scopeAgencies w (jd_agency (p_def (step_plan defs s scope agency))) (p_scope (step_plan defs s scope agency)) = Some ags) \<and>
    (r = None \<longrightarrow> e_Agencies (w_params row) = ags)"
proof (cases "workflowAgencyOf w wfID")
  case None
  with assms show ?thesis by (simp add: runJob_def)
next
  case (Some an)
  obtain agency name where an: "an = (agency, name)" by (cases an)
  let ?p = "step_plan defs s scope agency"
  let ?ags = "if p_refusal ?p \<noteq> [] then Some [name] else q_scopeAgencies w (jd_agency (p_def ?p)) (p_scope ?p)"
  show ?thesis
  proof (cases ?ags)
    case None
    with assms Some an show ?thesis by (simp add: runJob_def dispatch_row_def Let_def)
  next
    case ags: (Some ags)
    show ?thesis
    proof (cases "step_gates w wfID (the_job ?p s) (p_def ?p) (p_scope ?p) ags (first_reason ?p)")
      case None
      with assms Some an ags show ?thesis by (simp add: runJob_def dispatch_row_def Let_def the_job_def)
    next
      case r: (Some r)
      then have "rows = [] \<or> (\<exists>ag q. (rows = [child_row w wfTrace s tid actor inputEnv ?p ag r] \<or>
          rows = [child_row w wfTrace s tid actor inputEnv ?p ag r\<lparr>w_QueuedReason := q\<rparr>]) \<and> (refused \<longrightarrow> r \<noteq> None) \<and> (r = None \<longrightarrow> ag = ags))"
        using assms(1) Some an ags
        by (simp add: runJob_def dispatch_row_def Let_def the_job_def split: if_splits option.splits) auto
      moreover have "e_Agencies (w_params (child_row w wfTrace s tid actor inputEnv ?p ag r)) = ag" for ag
        by (simp add: child_row_def Let_def queued_row_def)
      moreover have "p_refusal ?p = [] \<longrightarrow> q_scopeAgencies w (jd_agency (p_def ?p)) (p_scope ?p) = Some ags" using ags by auto
      ultimately show ?thesis using assms(2) Some an r
        by (intro exI [of _ agency] exI [of _ name] exI [of _ ags] exI [of _ r]) auto
    qed
  qed
qed

text \<open>C36: a child run is left queued only when the step's job was found and may run, is the workflow's
  agency's, and every gate answered no: a run on no scope declares nothing that only an owner's scope could give it (asked with the agencies
  the row is filed under), the scope is not outside its repository's or its workflow's agency, and there is an agent for its
  keys and for its checkout.\<close>

theorem runJob_queued_passed_gates:
  assumes "runJob w wfTrace wfID defs s tid scope actor inputEnv = (rows, status, refused)"
    and "row \<in> set rows" "w_Status row = ''queued''"
  shows "\<exists>jd agency name. map_of defs (StepKey s) = Some jd \<and> jd_unavailable jd = [] \<and> \<not> refused \<and>
    workflowAgencyOf w wfID = Some (agency, name) \<and> (agency = [] \<or> jd_agency jd = [] \<or> jd_agency jd = agency) \<and>
    (let eff = (if jd_scope jd \<noteq> [] then jd_scope jd else scope);
         job = ((if jd_source jd = [] then ''git'' else jd_source jd), s_name s, jd_uid jd)
     in e_Scope (w_params row) = eff \<and> q_scopeAgencies w (jd_agency jd) eff = Some (e_Agencies (w_params row)) \<and>
        (eff = [] \<longrightarrow> q_unbound w job eff (e_Agencies (w_params row)) = Some False) \<and> q_repoScope w job eff = Some False \<and>
        stepOutsideWorkflowAgency w wfID eff = Some False \<and>
        q_keyAgent w job (jd_runType jd) (jd_agency jd) eff = Some False \<and>
        q_checkoutAgent w job eff = Some False)"
proof -
  from runJob_row [OF assms(1,2)] obtain agency name ags r where wa: "workflowAgencyOf w wfID = Some (agency, name)"
    and g: "step_gates w wfID (the_job (step_plan defs s scope agency) s) (p_def (step_plan defs s scope agency))
      (p_scope (step_plan defs s scope agency)) ags (first_reason (step_plan defs s scope agency)) = Some r"
    and row: "w_Status row = (if r = None then ''queued'' else ''failure'')" "refused \<longrightarrow> r \<noteq> None"
      "e_Scope (w_params row) = p_scope (step_plan defs s scope agency)"
    and ags: "p_refusal (step_plan defs s scope agency) = [] \<longrightarrow>
      q_scopeAgencies w (jd_agency (p_def (step_plan defs s scope agency))) (p_scope (step_plan defs s scope agency)) = Some ags"
      "r = None \<longrightarrow> e_Agencies (w_params row) = ags"
    by blast
  let ?p = "step_plan defs s scope agency"
  have r: "r = None" using row(1) assms(3) by (simp split: if_splits)
  with g have q: "first_reason ?p = None" "q_repoScope w (the_job ?p s) (p_scope ?p) = Some False"
    "stepOutsideWorkflowAgency w wfID (p_scope ?p) = Some False"
    "q_keyAgent w (the_job ?p s) (jd_runType (p_def ?p)) (jd_agency (p_def ?p)) (p_scope ?p) = Some False"
    "q_checkoutAgent w (the_job ?p s) (p_scope ?p) = Some False"
    "p_scope ?p = [] \<longrightarrow> q_unbound w (the_job ?p s) (p_scope ?p) (e_Agencies (w_params row)) = Some False"
    using ags(2) by (simp_all add: step_gates_queued)
  have nr: "p_refusal ?p = []" using q(1) by (simp add: first_reason_def split: if_splits)
  obtain jd where jd: "map_of defs (StepKey s) = Some jd" "p_def ?p = jd"
    "p_scope ?p = (if jd_scope jd \<noteq> [] then jd_scope jd else scope)"
    "agency = [] \<or> jd_agency jd = [] \<or> jd_agency jd = agency"
    using nr by (auto simp: step_plan_def Let_def reason_defs split: option.splits if_splits)
  have qs: "q_scopeAgencies w (jd_agency jd) (p_scope ?p) = Some (e_Agencies (w_params row))" using ags r nr jd(2) by simp
  have u: "jd_unavailable jd = []" using q(1) nr jd(2) by (simp add: first_reason_def split: if_splits)
  have tj: "the_job ?p s = ((if jd_source jd = [] then ''git'' else jd_source jd), s_name s, jd_uid jd)"
    unfolding the_job_def jd(2) ..
  have nf: "\<not> refused" using row(2) r by blast
  show ?thesis
    unfolding Let_def using wa jd(1,4) u nf row(3) q(2-6) [unfolded tj jd(2,3)] qs [unfolded jd(3)] jd(3) by metis
qed

text \<open>a step whose job is not the workflow's leaves one failed row with nothing of that job in it:
  filed under the workflow's agency, on the workflow's scope, with no job identity, host, connect-as
  identity or environment.\<close>

theorem refused_row_is_the_workflows:
  assumes "workflowAgencyOf w wfID = Some (agency, name)" "q_insert w = (\<lambda>_. True)"
    and "map_of defs (StepKey s) = None \<or>
      (\<exists>jd. map_of defs (StepKey s) = Some jd \<and> agency \<noteq> [] \<and> jd_agency jd \<noteq> [] \<and> jd_agency jd \<noteq> agency)"
  shows "\<exists>row. fst (runJob w wfTrace wfID defs s tid scope actor inputEnv) = [row] \<and> w_Status row = ''failure'' \<and>
    w_QueuedReason row \<in> {ReasonStepJobNotFound, ReasonStepJobOtherAgency} \<and> w_NoDefinition row \<and>
    e_Agencies (w_params row) = [name] \<and> e_Scope (w_params row) = scope \<and> e_JobUID (w_params row) = [] \<and>
    e_TargetHost (w_params row) = [] \<and> e_SSHUser (w_params row) = [] \<and> e_SSHCredential (w_params row) = [] \<and>
    e_EnvJSON (w_params row) = None"
proof -
  let ?p = "step_plan defs s scope agency"
  have p: "p_refusal ?p \<in> {ReasonStepJobNotFound, ReasonStepJobOtherAgency}" "p_refusal ?p \<noteq> []" "p_scope ?p = scope"
    "jd_uid (p_def ?p) = []" "jd_targetHost (p_def ?p) = []" "jd_sshUser (p_def ?p) = []" "jd_sshCred (p_def ?p) = []"
    using assms(3) by (auto simp: step_plan_def Let_def no_def_def reason_defs)
  then have "first_reason ?p = Some (p_refusal ?p)" by (simp add: first_reason_def)
  then show ?thesis using assms(1,2) p
    by (simp add: runJob_def dispatch_row_def Let_def step_gates_keeps child_row_def queued_row_def)
qed

section \<open>Retries\<close>

text \<open>An attempt leaves at most one record; \<open>stop\<close> is the context's answer before an attempt.\<close>

locale retried =
  fixes run :: "nat \<Rightarrow> 'r attempt" and stop :: "nat \<Rightarrow> bool"
  assumes single: "length (fst (run k)) \<le> 1"
begin

lemma loop_spec:
  "\<exists>m \<le> left. retry_loop run stop left k (log, snd a) =
      (log @ concat (map (\<lambda>i. fst (run i)) [k..<k + m]), snd (if m = 0 then a else run (k + m - 1))) \<and>
    (\<forall>i < m. fst (snd (if i = 0 then a else run (k + i - 1))) = ''danger'' \<and>
       \<not> snd (snd (snd (if i = 0 then a else run (k + i - 1)))) \<and> \<not> stop (k + i)) \<and>
    (m = left \<or> fst (snd (if m = 0 then a else run (k + m - 1))) \<noteq> ''danger'' \<or>
       snd (snd (snd (if m = 0 then a else run (k + m - 1)))) \<or> stop (k + m))"
proof (induction left arbitrary: k log a)
  case 0
  then show ?case by (cases a) simp
next
  case (Suc left)
  obtain l st t r where a: "a = (l, st, t, r)" by (cases a)
  show ?case
  proof (cases "st = ''danger'' \<and> \<not> r \<and> \<not> stop k")
    case False
    then show ?thesis by (intro exI [of _ 0]) (auto simp: a)
  next
    case True
    obtain l' st' t' r' where r: "run k = (l', st', t', r')" by (cases "run k")
    from Suc [of "Suc k" "log @ l'" "run k"] obtain m where m: "m \<le> left"
      "retry_loop run stop left (Suc k) (log @ l', snd (run k)) =
        ((log @ l') @ concat (map (\<lambda>i. fst (run i)) [Suc k..<Suc k + m]), snd (if m = 0 then run k else run (Suc k + m - 1)))"
      "\<forall>i < m. fst (snd (if i = 0 then run k else run (Suc k + i - 1))) = ''danger'' \<and>
         \<not> snd (snd (snd (if i = 0 then run k else run (Suc k + i - 1)))) \<and> \<not> stop (Suc k + i)"
      "m = left \<or> fst (snd (if m = 0 then run k else run (Suc k + m - 1))) \<noteq> ''danger'' \<or>
         snd (snd (snd (if m = 0 then run k else run (Suc k + m - 1)))) \<or> stop (Suc k + m)"
      by auto
    have at: "(if i = 0 then run k else run (Suc k + i - 1)) = run (k + i)" for i by simp
    note m' = m [unfolded at]
    have step: "retry_loop run stop (Suc left) k (log, snd a) = retry_loop run stop left (Suc k) (log @ l', snd (run k))"
      using True by (simp add: a r)
    have u: "[k..<k + Suc m] = k # [Suc k..<Suc k + m]" by (simp add: upt_conv_Cons del: upt_Suc)
    have c: "concat (map (\<lambda>i. fst (run i)) [k..<k + Suc m]) = l' @ concat (map (\<lambda>i. fst (run i)) [Suc k..<Suc k + m])"
      unfolding u by (simp add: r)
    have "\<forall>i < Suc m. fst (snd (if i = 0 then a else run (k + i - 1))) = ''danger'' \<and>
       \<not> snd (snd (snd (if i = 0 then a else run (k + i - 1)))) \<and> \<not> stop (k + i)"
      using m'(3) True by (auto simp: a less_Suc_eq_0_disj)
    then show ?thesis using m' step c by (intro exI [of _ "Suc m"]) simp
  qed
qed

lemma outcome_spec:
  "\<exists>m \<le> left. retry_loop run stop left 1 (run 0) =
      (concat (map (\<lambda>i. fst (run i)) [0..<Suc m]), snd (run m)) \<and>
    (\<forall>i < m. fst (snd (run i)) = ''danger'' \<and> \<not> snd (snd (snd (run i))) \<and> \<not> stop (Suc i)) \<and>
    (m = left \<or> fst (snd (run m)) \<noteq> ''danger'' \<or> snd (snd (snd (run m))) \<or> stop (Suc m))"
proof -
  have at: "(if i = 0 then run 0 else run (1 + i - 1)) = run i" for i by simp
  have u: "[0..<Suc m] = 0 # [1..<1 + m]" for m by (simp add: upt_conv_Cons del: upt_Suc)
  have c: "concat (map (\<lambda>i. fst (run i)) [0..<Suc m]) = fst (run 0) @ concat (map (\<lambda>i. fst (run i)) [1..<1 + m])" for m
    unfolding u by simp
  from loop_spec [of left 1 "fst (run 0)" "run 0", unfolded at]
  show ?thesis unfolding c by simp
qed

lemma outcome_bounded: "length (fst (retry_loop run stop left 1 (run 0))) \<le> Suc left"
proof -
  have "length (concat (map (\<lambda>i. fst (run i)) [0..<n])) \<le> n" for n
  proof (induction n)
    case (Suc n)
    with single [of n] show ?case by simp
  qed simp
  moreover obtain m where "m \<le> left" "fst (retry_loop run stop left 1 (run 0)) = concat (map (\<lambda>i. fst (run i)) [0..<Suc m])"
    using outcome_spec [of left] by (elim exE conjE) (simp del: upt_Suc)
  ultimately show ?thesis by (metis Suc_le_mono order_trans)
qed

end

interpretation job_step: retried "\<lambda>k. job_attempt w wfTrace wfID defs s scope actor inputEnv (attempt_id w s k)"
    "stop_before w s backoff"
  for w wfTrace wfID defs s scope actor inputEnv backoff
proof
  fix k
  let ?r = "runJob w wfTrace wfID defs s (attempt_id w s k) scope actor inputEnv"
  obtain rows status refused where r: "?r = (rows, status, refused)" by (cases ?r)
  have "length rows \<le> 1"
  proof (cases rows)
    case (Cons row rs)
    with runJob_row [OF r, of row] show ?thesis by auto
  qed simp
  with r show "length (fst (job_attempt w wfTrace wfID defs s scope actor inputEnv (attempt_id w s k))) \<le> 1"
    by (simp add: job_attempt_def)
qed

text \<open>C26: a job step runs once and then once more for each retry it is allowed, while its attempts fail,
  are not refused and the run is not cancelled; it stops for no other reason, leaves at most one row
  per attempt, and answers with the last attempt's status and id.\<close>

theorem runStep_attempts:
  "let (retries, backoff, _) = effectiveRetry s (def_of defs s);
       run = (\<lambda>k. job_attempt w wfTrace wfID defs s scope actor inputEnv (attempt_id w s k));
       (rows, status, tid) = runStep w wfTrace wfID defs s scope actor inputEnv
   in length rows \<le> Suc (nat retries) \<and>
     (\<exists>m \<le> nat retries. rows = concat (map (\<lambda>i. fst (run i)) [0..<Suc m]) \<and>
        status = fst (snd (run m)) \<and> tid = attempt_id w s m \<and>
        (\<forall>i < m. fst (snd (run i)) = ''danger'' \<and> \<not> snd (snd (snd (run i))) \<and> \<not> stop_before w s backoff (Suc i)) \<and>
        (m = nat retries \<or> status \<noteq> ''danger'' \<or> snd (snd (snd (run m))) \<or> stop_before w s backoff (Suc m)))"
proof -
  obtain retries backoff c where er: "effectiveRetry s (def_of defs s) = (retries, backoff, c)"
    by (cases "effectiveRetry s (def_of defs s)")
  let ?run = "\<lambda>k. job_attempt w wfTrace wfID defs s scope actor inputEnv (attempt_id w s k)"
  let ?res = "retry_loop ?run (stop_before w s backoff) (nat retries) 1 (?run 0)"
  from job_step.outcome_spec obtain m where m: "m \<le> nat retries"
    "?res = (concat (map (\<lambda>i. fst (?run i)) [0..<Suc m]), snd (?run m))"
    "\<forall>i < m. fst (snd (?run i)) = ''danger'' \<and> \<not> snd (snd (snd (?run i))) \<and> \<not> stop_before w s backoff (Suc i)"
    "m = nat retries \<or> fst (snd (?run m)) \<noteq> ''danger'' \<or> snd (snd (snd (?run m))) \<or> stop_before w s backoff (Suc m)"
    by blast
  have t: "fst (snd (snd (?run m))) = attempt_id w s m" by (simp add: job_attempt_def split_beta)
  have rs: "runStep w wfTrace wfID defs s scope actor inputEnv =
      (concat (map (\<lambda>i. fst (?run i)) [0..<Suc m]), fst (snd (?run m)), attempt_id w s m)"
  proof -
    have "runStep w wfTrace wfID defs s scope actor inputEnv = (fst ?res, fst (snd ?res), fst (snd (snd ?res)))"
      by (simp add: runStep_def er split_beta Let_def)
    also have "\<dots> = (concat (map (\<lambda>i. fst (?run i)) [0..<Suc m]), fst (snd (?run m)), fst (snd (snd (?run m))))"
      by (subst (1 2 3) m(2)) (simp only: fst_conv snd_conv)
    finally show ?thesis unfolding t .
  qed
  have "length (concat (map (\<lambda>i. fst (?run i)) [0..<Suc m])) \<le> Suc (nat retries)"
    using job_step.outcome_bounded [of w wfTrace wfID defs s scope actor inputEnv backoff "nat retries"] unfolding m(2) by simp
  with m(1,3,4) show ?thesis unfolding er rs Let_def prod.case by blast
qed

section \<open>A concrete world\<close>

text \<open>A world whose gates all pass and whose runs end with the status given by their id.\<close>

definition demo_world :: "(string \<Rightarrow> string) \<Rightarrow> step_world" where
  "demo_world ends = \<lparr>q_wfAgency = (\<lambda>_. QRow (Some ''a1'')), q_agencyName = (\<lambda>_. QRow (Some ''Ops'')),
     q_globalName = ''Global'', q_scopeAgencies = (\<lambda>_ _. Some [''Ops'']), q_scopeOutside = (\<lambda>_ _. Some False),
     q_unbound = (\<lambda>_ _ _. Some False), q_repoScope = (\<lambda>_ _. Some False), q_keyAgent = (\<lambda>_ _ _ _. Some False),
     q_checkoutAgent = (\<lambda>_ _. Some False), q_reactionDepth = (\<lambda>_. 0), q_jobEnv = (\<lambda>_. None), q_parentEnv = (\<lambda>_. None),
     q_insert = (\<lambda>_. True), q_sync = (\<lambda>_. True), q_unclaimable = (\<lambda>_. None),
     q_polls = (\<lambda>r. [PTick (QRow ''running''), PTick (QRow (ends (w_TraceID r)))]), q_outputs = (\<lambda>_. None),
     q_fresh = (\<lambda>n k. n @ replicate k CHR ''+''), q_stop = (\<lambda>_ _. False), q_stopBackoff = (\<lambda>_ _. False)\<rparr>"

definition demo_step :: "string \<Rightarrow> string \<Rightarrow> int option \<Rightarrow> step" where
  "demo_step n nid retries = Step \<lparr>st_Type = ''job'', st_Name = n, st_Label = [], st_Source = [], st_JobUID = [],
     st_Inputs = [], st_Condition = None, st_Retries = retries, st_BackoffSeconds = None, st_ContinueOnError = None,
     st_Workflow = [], st_WorkflowUID = [], st_NodeID = nid\<rparr> [] [] None None"

definition demo_defs :: job_defs where
  "demo_defs = [(''name:build'', no_def\<lparr>jd_runType := ''bash'', jd_scope := ''prod'', jd_agency := ''a1''\<rparr>),
     (''name:other'', no_def\<lparr>jd_runType := ''bash'', jd_scope := ''prod'', jd_agency := ''a2'', jd_sshUser := ''root''\<rparr>)]"

theorem runJob_queued_passed_gates_witness:
  "\<exists>jd. map_of demo_defs (StepKey (demo_step ''build'' ''n1'' None)) = Some jd \<and> jd_unavailable jd = []"
proof -
  let ?w = "demo_world (\<lambda>_. ''success'')"
  let ?s = "demo_step ''build'' ''n1'' None"
  have q: "map w_Status (fst (runJob ?w ''wf'' 1 demo_defs ?s ''n1'' ''prod'' ''me'' [])) = [''queued'']" by code_simp
  obtain rows st rf where r: "runJob ?w ''wf'' 1 demo_defs ?s ''n1'' ''prod'' ''me'' [] = (rows, st, rf)"
    by (cases "runJob ?w ''wf'' 1 demo_defs ?s ''n1'' ''prod'' ''me'' []")
  with q obtain row where "row \<in> set rows" "w_Status row = ''queued''" by auto
  from runJob_queued_passed_gates [OF r this] show ?thesis by blast
qed

theorem refused_row_is_the_workflows_witness:
  "\<exists>row. fst (runJob (demo_world (\<lambda>_. ''failure'')) ''wf'' 1 demo_defs (demo_step ''other'' ''n1'' (Some 3)) ''n1'' ''dev'' ''me'' [])
     = [row] \<and> e_SSHUser (w_params row) = [] \<and> e_Agencies (w_params row) = [''Ops'']"
proof -
  let ?w = "demo_world (\<lambda>_. ''failure'')" and ?s = "demo_step ''other'' ''n1'' (Some 3)"
  have wa: "workflowAgencyOf ?w 1 = Some (''a1'', ''Ops'')" by code_simp
  have i: "q_insert ?w = (\<lambda>_. True)" by (simp add: demo_world_def)
  have "\<exists>jd. map_of demo_defs (StepKey ?s) = Some jd \<and> ''a1'' \<noteq> ([] :: string) \<and> jd_agency jd \<noteq> [] \<and> jd_agency jd \<noteq> ''a1''"
  proof -
    have "map_option jd_agency (map_of demo_defs (StepKey ?s)) = Some ''a2''" by code_simp
    then show ?thesis by auto
  qed
  then have "map_of demo_defs (StepKey ?s) = None \<or>
      (\<exists>jd. map_of demo_defs (StepKey ?s) = Some jd \<and> ''a1'' \<noteq> ([] :: string) \<and> jd_agency jd \<noteq> [] \<and> jd_agency jd \<noteq> ''a1'')" ..
  from refused_row_is_the_workflows [OF wa i this] show ?thesis by blast
qed

theorem runStep_attempts_witness:
  "length (fst (runStep (demo_world (\<lambda>_. ''failure'')) ''wf'' 1 demo_defs (demo_step ''build'' ''n1'' (Some 2)) ''prod'' ''me'' []))
     \<le> 3"
proof -
  let ?w = "demo_world (\<lambda>_. ''failure'')" and ?s = "demo_step ''build'' ''n1'' (Some 2)"
  have e: "effectiveRetry ?s (def_of demo_defs ?s) = (2, 0, False)" by code_simp
  obtain rows st tid where r: "runStep ?w ''wf'' 1 demo_defs ?s ''prod'' ''me'' [] = (rows, st, tid)"
    by (cases "runStep ?w ''wf'' 1 demo_defs ?s ''prod'' ''me'' []")
  from runStep_attempts [of ?s demo_defs ?w "''wf''" 1 "''prod''" "''me''" "[]"]
  show ?thesis unfolding e r Let_def prod.case by (simp add: eval_nat_numeral)
qed

end
