(* ===== verification/Workflow_Walk.thy ===== *)
theory Workflow_Walk
  imports Workflow_Validate Workflow_Step_Props
begin

text \<open>
  The walk of a workflow run: \<open>walkSteps\<close>, \<open>runWorkflow\<close>, \<open>Trigger\<close>
  (\<open>backend/internal/workflow/engine.go\<close>) and the sub-workflow step (\<open>subworkflow.go\<close>). A walk
  returns the events it causes, its verdict and the results map. The answers of the outside world
  are functions of the identity of what is asked (a trace id, a node, the position of a check in the
  walk), so the arms of a parallel block are independent of one another; the order in which their
  outcomes arrive is an argument. The log lists the arms of a block one after another: runs of
  different arms may overlap in time, and nothing below depends on their order.
\<close>

section \<open>Runs and events\<close>

record wf_row =
  wr_id :: string
  wr_workflow :: int
  wr_name :: string
  wr_source :: string
  wr_status :: string
  wr_reason :: string
  wr_actor :: string
  wr_kind :: string
  wr_env :: "string gomap"
  wr_reaction_depth :: int
  wr_parent :: string
  wr_node :: string
  wr_depth :: nat

text \<open>The events of a walk: a job step with its inputs, the names that had a result when it was
  dispatched, its rows and status; a skipped job node; a sub-workflow step with, for each attempt, the
  row of the child and the events of its own walk; a refused child.\<close>

datatype event =
    EvStep (ev_step: step) (ev_inputs: "string gomap") (ev_seen: "string list") "run_row list" string
  | EvSkip step run_row
  | EvSub step "string gomap" "string list" "event list" string
  | EvChild wf_row "event list" string
  | EvRefused wf_row
  | EvFinish string string

record run_ctx =
  rc_trace :: string
  rc_name :: string
  rc_workflow :: int
  rc_source :: string
  rc_depth :: nat
  rc_reaction_depth :: int
  rc_scope :: string
  rc_actor :: string
  rc_defs :: job_defs

datatype wf_poll = WCtx | WTick "(string \<times> bool) query"

record walk_world = step_world +
  ww_cancelled :: "string \<Rightarrow> nat list \<Rightarrow> bool"
  ww_order :: "string \<Rightarrow> nat list \<Rightarrow> nat list"
  ww_home :: "int \<Rightarrow> string"
  ww_load :: "workflow_ref \<Rightarrow> string \<Rightarrow> string \<Rightarrow> (string \<times> step list \<times> int) option"
  ww_sameAgency :: "int \<Rightarrow> int \<Rightarrow> bool option"
  ww_child :: "string \<Rightarrow> string \<Rightarrow> nat \<Rightarrow> string"
  ww_node :: "string \<Rightarrow> nat \<Rightarrow> string"
  ww_insert :: "wf_row \<Rightarrow> bool"
  ww_defs :: "step list \<Rightarrow> string \<Rightarrow> string \<Rightarrow> job_defs"
  ww_polls :: "string \<Rightarrow> string \<Rightarrow> wf_poll list"
  ww_outputs :: "string \<Rightarrow> string gomap option"

section \<open>Waiting for a child run\<close>

fun waitForWorkflowRun :: "wf_poll list \<Rightarrow> string" where
  "waitForWorkflowRun [] = ''danger''"
| "waitForWorkflowRun (WCtx # ps) = ''danger''"
| "waitForWorkflowRun (WTick QNone # ps) = ''danger''"
| "waitForWorkflowRun (WTick QErr # ps) = waitForWorkflowRun ps"
| "waitForWorkflowRun (WTick (QRow (st, cancelled)) # ps) =
     (if cancelled then ''danger''
      else if st = ''success'' \<or> st = ''warning'' then ''success''
      else if st = ''failure'' \<or> st = ''killed'' then ''danger''
      else if st = ''skipped'' then ''skipped''
      else waitForWorkflowRun ps)"

section \<open>Sub-workflow steps\<close>

definition MaxWorkflowDepth :: nat where "MaxWorkflowDepth = 3"

definition DepthExceeded :: "nat \<Rightarrow> bool" where "DepthExceeded childDepth \<longleftrightarrow> childDepth > MaxWorkflowDepth"

definition ReasonChildOtherAgency :: string where
  "ReasonChildOtherAgency = ''Refused: the referenced workflow is another agency's: a workflow runs its own agency's workflows only''"

definition ReasonChildNotFound :: string where
  "ReasonChildNotFound = ''Refused: the referenced workflow does not exist or is disabled''"

text \<open>\<open>fmt.Sprintf\<close> with \<open>%d\<close>: the decimal digits of a count.\<close>

fun digits_of :: "nat \<Rightarrow> string" where
  "digits_of n = (if n < 10 then [char_of (48 + n)] else digits_of (n div 10) @ [char_of (48 + n mod 10)])"

declare digits_of.simps [simp del]

definition ReasonDepth :: "nat \<Rightarrow> string" where
  "ReasonDepth d = ''Refused: sub-workflow nesting would reach depth '' @ digits_of d @ '' (max '' @ digits_of MaxWorkflowDepth @ '')''"

definition recordRefusedChild :: "walk_world \<Rightarrow> run_ctx \<Rightarrow> step \<Rightarrow> nat \<Rightarrow> string \<Rightarrow> nat \<Rightarrow> string \<Rightarrow> event list" where
  "recordRefusedChild w ctx s k childName depth reason =
     (if childName = [] then []
      else [EvRefused \<lparr>wr_id = (if s_id s \<noteq> [] then s_id s else ww_child w (rc_trace ctx) [] k), wr_workflow = 0,
        wr_name = childName, wr_source = rc_source ctx, wr_status = ''skipped'', wr_reason = reason,
        wr_actor = rc_actor ctx, wr_kind = ''workflow'', wr_env = [], wr_reaction_depth = 0,
        wr_parent = rc_trace ctx, wr_node = s_id s, wr_depth = depth\<rparr>])"

text \<open>A walker runs a graph in a context to its end: its events and its final status.\<close>

type_synonym walker = "run_ctx \<Rightarrow> step list \<Rightarrow> event list \<times> string"

text \<open>\<open>Trigger\<close>, with the walk it launches run to its end. \<open>None\<close> is a failed insert.\<close>

definition Trigger :: "walk_world \<Rightarrow> walker \<Rightarrow> wf_row \<Rightarrow> string \<Rightarrow> step list \<Rightarrow> (event \<times> string) option" where
  "Trigger w walker row scope steps =
     (let source = (if wr_source row = [] then ''git'' else wr_source row);
          kind = (if wr_kind row = [] then ''manual'' else wr_kind row);
          row' = row\<lparr>wr_source := source, wr_kind := kind, wr_status := ''running''\<rparr>;
          graph = assignNodeIDs (ww_node w (wr_id row)) steps
      in if \<not> ww_insert w row' then None
         else
           let ctx = \<lparr>rc_trace = wr_id row, rc_name = wr_name row, rc_workflow = wr_workflow row, rc_source = source,
                      rc_depth = wr_depth row, rc_reaction_depth = wr_reaction_depth row, rc_scope = scope,
                      rc_actor = wr_actor row, rc_defs = ww_defs w graph source (ww_home w (wr_workflow row))\<rparr>;
               (log, final) = walker ctx graph
           in Some (EvChild row' log final, final))"

text \<open>The parameters of \<open>Trigger\<close> for a child: only the step's inputs cross the boundary as environment; the
  actor and the reaction depth are inherited, the workflow depth is the parent's plus one.\<close>

definition child_run :: "walk_world \<Rightarrow> run_ctx \<Rightarrow> step \<Rightarrow> string gomap \<Rightarrow> nat \<Rightarrow> string \<Rightarrow> int \<Rightarrow> wf_row" where
  "child_run w ctx s inputEnv k src wfID =
     \<lparr>wr_id = ww_child w (rc_trace ctx) (s_id s) k, wr_workflow = wfID, wr_name = trim_space (st_Workflow (si s)),
      wr_source = src, wr_status = [], wr_reason = [], wr_actor = rc_actor ctx, wr_kind = ''workflow'',
      wr_env = inputEnv, wr_reaction_depth = rc_reaction_depth ctx, wr_parent = rc_trace ctx, wr_node = s_id s,
      wr_depth = rc_depth ctx + 1\<rparr>"

definition runChildWorkflowOnce :: "walk_world \<Rightarrow> run_ctx \<Rightarrow> walker \<Rightarrow> step \<Rightarrow> string gomap \<Rightarrow> nat \<Rightarrow> event attempt" where
  "runChildWorkflowOnce w ctx walker s inputEnv k =
     (let childName = trim_space (st_Workflow (si s));
          childDepth = rc_depth ctx + 1;
          refused = (\<lambda>reason. (recordRefusedChild w ctx s k childName childDepth reason, ''danger'', [], False))
      in if DepthExceeded childDepth then refused (ReasonDepth childDepth)
         else case ww_load w (childName, trim_space (st_WorkflowUID (si s))) (rc_source ctx) (ww_home w (rc_workflow ctx)) of
           None \<Rightarrow> refused ReasonChildNotFound
         | Some (src, steps, wfID) \<Rightarrow>
            (case (if rc_workflow ctx \<noteq> 0 then ww_sameAgency w (rc_workflow ctx) wfID else Some True) of
               None \<Rightarrow> ([], ''danger'', [], False)
             | Some False \<Rightarrow> refused ReasonChildOtherAgency
             | Some True \<Rightarrow>
                (let row = child_run w ctx s inputEnv k src wfID
                 in case Trigger w walker row [] steps of
                      None \<Rightarrow> ([], ''danger'', [], False)
                    | Some (ev, final) \<Rightarrow> ([ev], waitForWorkflowRun (ww_polls w (wr_id row) final), wr_id row, False))))"

definition runWorkflowStep :: "walk_world \<Rightarrow> run_ctx \<Rightarrow> walker \<Rightarrow> step \<Rightarrow> string gomap \<Rightarrow>
    event list \<times> string \<times> string \<times> string gomap option" where
  "runWorkflowStep w ctx walker s inputEnv =
     (let (retries, backoff, _) = effectiveRetry s no_def;
          run = runChildWorkflowOnce w ctx walker s inputEnv
      in case retry_loop run (stop_before (step_world.truncate w) s backoff) (nat retries) 1 (run 0) of
           (log, status, childID, _) \<Rightarrow>
             (log, status, childID, if childID = [] then None else ww_outputs w childID))"

section \<open>Parallel blocks\<close>

text \<open>The outcome of an arm: a leaf job's name, status, id and whether its failure is forgiven; a
  sequence's status and all the results of its walk.\<close>

datatype arm_outcome =
    ALeaf (a_log: "event list") (a_name: string) (a_status: string) string bool
  | ASeq (a_log: "event list") (a_status: string) results

definition put :: "results \<Rightarrow> string \<Rightarrow> job_result \<Rightarrow> results" where
  "put results k v = (k, v) # results"

definition add_new :: "string list \<Rightarrow> results \<Rightarrow> results \<Rightarrow> results" where
  "add_new preBlock produced results =
     foldr (\<lambda>k res. if k \<in> set preBlock \<or> map_of res k \<noteq> None then res
                    else put res k (the (map_of produced k))) (remdups (map fst produced)) results"

definition a_fatal :: "string list \<Rightarrow> arm_outcome \<Rightarrow> bool" where
  "a_fatal refs o' = (case o' of
      ALeaf _ name status _ cont \<Rightarrow> status = ''danger'' \<and> name \<notin> set refs \<and> \<not> cont
    | ASeq _ status _ \<Rightarrow> status = ''danger'')"

definition collect_one :: "walk_world \<Rightarrow> string list \<Rightarrow> arm_outcome \<Rightarrow> results \<Rightarrow> results" where
  "collect_one w preBlock o' results = (case o' of
      ALeaf _ name status tid _ \<Rightarrow> put results name \<lparr>r_Status = status, r_Outputs = q_outputs w tid, r_TraceID = tid\<rparr>
    | ASeq _ _ produced \<Rightarrow> add_new preBlock produced results)"

text \<open>The order of arrival, read as a permutation of the arms.\<close>

definition arrival :: "walk_world \<Rightarrow> string \<Rightarrow> nat list \<Rightarrow> 'a list \<Rightarrow> 'a list" where
  "arrival w trace pos xs =
     (let p = ww_order w trace pos
      in if mset p = mset [0..<length xs] then map (\<lambda>i. xs ! i) p else xs)"

section \<open>The walk\<close>

definition skip_arm :: "walk_world \<Rightarrow> run_ctx \<Rightarrow> step list \<Rightarrow> event list" where
  "skip_arm w ctx skipped =
     map (\<lambda>n. EvSkip n (markSkipped (step_world.truncate w) (rc_trace ctx) (rc_defs ctx) n (rc_actor ctx)))
       (flattenJobNodes skipped)"

definition skip_results :: "step list \<Rightarrow> results \<Rightarrow> results" where
  "skip_results skipped results =
     foldl (\<lambda>res n. put res (s_name n) \<lparr>r_Status = ''skipped'', r_Outputs = None, r_TraceID = s_id n\<rparr>)
       results (flattenJobNodes skipped)"

definition logged :: "event list \<Rightarrow> event list \<times> string \<times> results \<Rightarrow> event list \<times> string \<times> results" where
  "logged evs out = (case out of (log, verdict, results) \<Rightarrow> (evs @ log, verdict, results))"

definition halts :: "string list \<Rightarrow> run_ctx \<Rightarrow> step \<Rightarrow> string \<Rightarrow> bool" where
  "halts refs ctx s status \<longleftrightarrow>
     status = ''danger'' \<and> s_name s \<notin> set refs \<and> \<not> effectiveContinueOnError s (def_of (rc_defs ctx) s)"

definition run_leaf :: "walk_world \<Rightarrow> run_ctx \<Rightarrow> step \<Rightarrow> results \<Rightarrow> event \<times> string \<times> string" where
  "run_leaf w ctx s results =
     (let inputEnv = resolveInputs s results;
          (rows, status, tid) = runStep (step_world.truncate w) (rc_trace ctx) (rc_workflow ctx) (rc_defs ctx) s
                                  (rc_scope ctx) (rc_actor ctx) inputEnv
      in (EvStep s inputEnv (map fst results) rows status, status, tid))"

fun walk_loop :: "walk_world \<Rightarrow> run_ctx \<Rightarrow> walker \<Rightarrow> string list \<Rightarrow> nat list \<Rightarrow> nat \<Rightarrow> step list \<Rightarrow> results \<Rightarrow>
      event list \<times> string \<times> results"
  and walk_arms :: "walk_world \<Rightarrow> run_ctx \<Rightarrow> walker \<Rightarrow> nat list \<Rightarrow> nat \<Rightarrow> step list \<Rightarrow> results \<Rightarrow> arm_outcome list" where
  "walk_loop w ctx walker refs pos i [] results = ([], ''success'', results)"
| "walk_loop w ctx walker refs pos i (s # ss) results =
     (if ww_cancelled w (rc_trace ctx) (i # pos) then ([], ''danger'', results)
      else case stepKind s of
        KJob \<Rightarrow>
          (let (ev, status, tid) = run_leaf w ctx s results;
               results' = put results (s_name s) \<lparr>r_Status = status, r_Outputs = q_outputs w tid, r_TraceID = tid\<rparr>
           in if halts refs ctx s status then ([ev], ''danger'', results')
              else logged [ev] (walk_loop w ctx walker refs pos (Suc i) ss results'))
      | KWorkflow \<Rightarrow>
          (let inputEnv = resolveInputs s results;
               (log, status, childID, outputs) = runWorkflowStep w ctx walker s inputEnv;
               ev = EvSub s inputEnv (map fst results) log status;
               results' = put results (s_name s) \<lparr>r_Status = status, r_Outputs = outputs, r_TraceID = childID\<rparr>
           in if halts refs ctx s status then ([ev], ''danger'', results')
              else logged [ev] (walk_loop w ctx walker refs pos (Suc i) ss results'))
      | KSequence \<Rightarrow>
          (let (log, verdict, results') =
             walk_loop w ctx walker (collectBranchRefs (s_steps s)) (i # pos) 0 (s_steps s) results
           in if verdict = ''danger'' then (log, ''danger'', results')
              else logged log (walk_loop w ctx walker refs pos (Suc i) ss results'))
      | KParallel \<Rightarrow>
          (let outs = walk_arms w ctx walker (i # pos) 0 (s_jobs s) results;
               results' = foldl (\<lambda>res o'. collect_one w (map fst results) o' res) results (arrival w (rc_trace ctx) (i # pos) outs);
               log = concat (map a_log outs)
           in if list_ex (a_fatal refs) outs then (log, ''danger'', results')
              else logged log (walk_loop w ctx walker refs pos (Suc i) ss results'))
      | KBranch \<Rightarrow>
          (if st_Condition (si s) = None \<or> s_pass s = None \<or> s_fail s = None
           then walk_loop w ctx walker refs pos (Suc i) ss results
           else if EvaluateCondition (st_Condition (si s)) results
           then (let (log, verdict, results') =
                   walk_loop w ctx walker (collectBranchRefs (arm (s_pass s))) (i # pos) 0 (arm (s_pass s))
                     (skip_results (arm (s_fail s)) results)
                 in if verdict = ''danger'' then (skip_arm w ctx (arm (s_fail s)) @ log, ''danger'', results')
                    else logged (skip_arm w ctx (arm (s_fail s)) @ log) (walk_loop w ctx walker refs pos (Suc i) ss results'))
           else (let (log, verdict, results') =
                   walk_loop w ctx walker (collectBranchRefs (arm (s_fail s))) (i # pos) 0 (arm (s_fail s))
                     (skip_results (arm (s_pass s)) results)
                 in if verdict = ''danger'' then (skip_arm w ctx (arm (s_pass s)) @ log, ''danger'', results')
                    else logged (skip_arm w ctx (arm (s_pass s)) @ log) (walk_loop w ctx walker refs pos (Suc i) ss results')))
      | KOther \<Rightarrow> walk_loop w ctx walker refs pos (Suc i) ss results)"
| "walk_arms w ctx walker pos k [] results = []"
| "walk_arms w ctx walker pos k (a # as) results =
     (if st_Type (si a) = ''sequence''
      then (case walk_loop w ctx walker (collectBranchRefs (s_steps a)) (k # pos) 0 (s_steps a) results of
              (log, verdict, produced) \<Rightarrow> ASeq log verdict produced)
      else (case run_leaf w ctx a results of
              (ev, status, tid) \<Rightarrow>
                ALeaf [ev] (s_name a) status tid (effectiveContinueOnError a (def_of (rc_defs ctx) a))))
     # walk_arms w ctx walker pos (Suc k) as results"

definition walkSteps :: "walk_world \<Rightarrow> run_ctx \<Rightarrow> walker \<Rightarrow> nat list \<Rightarrow> step list \<Rightarrow> results \<Rightarrow>
    event list \<times> string \<times> results" where
  "walkSteps w ctx walker pos steps results =
     walk_loop w ctx walker (collectBranchRefs steps) pos 0 steps results"

text \<open>\<open>runWorkflow\<close> with the walker of the children of the run; its last event is the finalization.\<close>

definition run_with :: "walk_world \<Rightarrow> walker \<Rightarrow> walker" where
  "run_with w walker ctx steps =
     (case walkSteps w ctx walker [] steps [] of
        (log, verdict, _) \<Rightarrow>
          (let final = (if verdict = ''danger'' then ''danger'' else ''success'')
           in (log @ [EvFinish (rc_trace ctx) final], final)))"

text \<open>The levels below a run: \<open>d\<close> is how many remain. At none, a child is refused before its walker is
  used (\<open>DepthExceeded\<close>), so the walker of that level is never called.\<close>

primrec runWorkflow :: "nat \<Rightarrow> walk_world \<Rightarrow> walker" where
  "runWorkflow 0 w = run_with w (\<lambda>_ _. ([], ''danger''))"
| "runWorkflow (Suc d) w = run_with w (runWorkflow d w)"

definition start_run :: "walk_world \<Rightarrow> wf_row \<Rightarrow> string \<Rightarrow> step list \<Rightarrow> (event \<times> string) option" where
  "start_run w row scope steps = Trigger w (runWorkflow (MaxWorkflowDepth - wr_depth row) w) row scope steps"

end
