(* ===== verification/Workflow_Walk_Props.thy ===== *)
theory Workflow_Walk_Props
  imports Workflow_Walk
begin

text \<open>
  Laws of every event of a walk, at every level of nesting: a locale proves once that a law of the single
  events holds of a whole run, and its interpretations give the depth bound and the finalization.
  Then the levels are shown to be enough.
\<close>

section \<open>Laws of events\<close>

fun all_ev :: "(event \<Rightarrow> bool) \<Rightarrow> event \<Rightarrow> bool" where
  "all_ev P (EvSub s env seen es st) \<longleftrightarrow> P (EvSub s env seen es st) \<and> list_all (all_ev P) es"
| "all_ev P (EvChild row es st) \<longleftrightarrow> P (EvChild row es st) \<and> list_all (all_ev P) es"
| "all_ev P e \<longleftrightarrow> P e"

lemma list_all_concat: "list_all P (concat xss) \<longleftrightarrow> (\<forall>xs \<in> set xss. list_all P xs)"
  by (induction xss) auto

lemma retry_loop_logs:
  assumes "\<And>k. list_all P (fst (run k))" "list_all P (fst a)"
  shows "list_all P (fst (retry_loop run stop left k a))"
  using assms(2)
proof (induction left arbitrary: k a)
  case (Suc left)
  obtain log status tid refused where a: "a = (log, status, tid, refused)" by (cases a)
  obtain log' status' tid' refused' where r: "run k = (log', status', tid', refused')" by (cases "run k")
  have "list_all P log'" using assms(1) [of k] r by simp
  then show ?case using Suc.prems Suc.IH [of "(log @ log', status', tid', refused')" "Suc k"] by (simp add: a r)
qed (cases a; simp)

lemma fst_logged [simp]: "fst (logged evs out) = evs @ fst out"
  by (simp add: logged_def split_beta)

lemma walk_events:
  assumes leaf: "\<And>s env seen rows st. Q (EvStep s env seen rows st)"
    and skip: "\<And>n r. Q (EvSkip n r)"
    and sub: "\<And>s env seen st. Q (EvSub s env seen (fst (runWorkflowStep w ctx walker s env)) st)"
  shows "list_all Q (fst (walk_loop w ctx walker refs pos i g results)) \<and>
    (\<forall>o' \<in> set (walk_arms w ctx walker pos i g results). list_all Q (a_log o'))"
proof (induction g arbitrary: refs pos i results rule: graph_induct)
  case (Step s ss)
  have lf: "Q (fst (run_leaf w ctx s results))" for s results by (simp add: run_leaf_def leaf Let_def split_beta)
  have sk: "list_all Q (skip_arm w ctx g)" for g by (simp add: skip_arm_def list_all_iff skip)
  have "list_all Q (fst (walk_loop w ctx walker refs pos i (s # ss) results))"
    using Step sub lf sk
    by (cases "stepKind s") (simp_all add: Let_def split_beta list_all_concat)
  moreover have "\<forall>o' \<in> set (walk_arms w ctx walker pos i (s # ss) results). list_all Q (a_log o')"
    using Step lf by (simp add: split_beta)
  ultimately show ?case by blast
qed simp

lemma runChildOnce_log:
  fixes w ctx walker s env k
  defines "log \<equiv> fst (runChildWorkflowOnce w ctx walker s env k)"
  shows "(\<exists>n r. log = recordRefusedChild w ctx s k n (rc_depth ctx + 1) r) \<or> log = [] \<or>
    (\<exists>row steps ev final src wfID. \<not> DepthExceeded (rc_depth ctx + 1) \<and> row = child_run w ctx s env k src wfID \<and>
       Trigger w walker row [] steps = Some (ev, final) \<and> log = [ev] \<and>
       ww_load w (trim_space (st_Workflow (si s)), trim_space (st_WorkflowUID (si s))) (rc_source ctx) (ww_home w (rc_workflow ctx)) = Some (src, steps, wfID))"
proof (cases "DepthExceeded (rc_depth ctx + 1)")
  case True
  then show ?thesis by (auto simp: log_def runChildWorkflowOnce_def Let_def)
next
  case nd: False
  let ?l = "ww_load w (trim_space (st_Workflow (si s)), trim_space (st_WorkflowUID (si s))) (rc_source ctx) (ww_home w (rc_workflow ctx))"
  show ?thesis
  proof (cases ?l)
    case None
    with nd show ?thesis by (auto simp: log_def runChildWorkflowOnce_def Let_def)
  next
    case (Some l)
    obtain src steps wfID where l: "?l = Some (src, steps, wfID)" using Some by (cases l) auto
    let ?a = "if rc_workflow ctx \<noteq> 0 then ww_sameAgency w (rc_workflow ctx) wfID else Some True"
    consider "?a = None" | "?a = Some False" | "?a = Some True" by (cases ?a) auto
    then show ?thesis
    proof cases
      case 3
      let ?row = "child_run w ctx s env k src wfID"
      have log: "log = (case Trigger w walker ?row [] steps of None \<Rightarrow> [] | Some (ev, final) \<Rightarrow> [ev])"
        using nd l 3 unfolding log_def runChildWorkflowOnce_def Let_def by (simp split: option.split)
      show ?thesis
      proof (cases "Trigger w walker ?row [] steps")
        case None
        with log show ?thesis by simp
      next
        case (Some t)
        obtain ev final where "t = (ev, final)" by (cases t)
        with Some log have "Trigger w walker ?row [] steps = Some (ev, final)" "log = [ev]" by auto
        with nd l show ?thesis by blast
      qed
    qed (use nd l in \<open>auto simp: log_def runChildWorkflowOnce_def Let_def\<close>)
  qed
qed

text \<open>A law of events of a world: of the events of a walk, and of a child whose walk is run at a depth
  within the ceiling.\<close>

locale event_law =
  fixes w :: walk_world and P :: "event \<Rightarrow> bool"
  assumes leaf: "P (EvStep s env seen rows st)"
    and skip: "P (EvSkip n r)"
    and sub: "P (EvSub s env seen es st)"
    and refused: "P (EvRefused row)"
    and finish: "P (EvFinish t st)"
    and child: "wr_depth row \<le> MaxWorkflowDepth \<Longrightarrow> rc_trace ctx = wr_id row \<Longrightarrow> rc_depth ctx = wr_depth row \<Longrightarrow>
      rc_actor ctx = wr_actor row \<Longrightarrow> rc_reaction_depth ctx = wr_reaction_depth row \<Longrightarrow>
      run_with w walker ctx g = (log, final) \<Longrightarrow> P (EvChild row log final)"
begin

lemma run_with_law:
  assumes "\<And>s env. list_all (all_ev P) (fst (runWorkflowStep w ctx walker s env))"
  shows "list_all (all_ev P) (fst (run_with w walker ctx g))"
proof -
  have "list_all (all_ev P) (fst (walk_loop w ctx walker (collectBranchRefs g) [] 0 g []))"
    using walk_events [of "all_ev P" w ctx walker] leaf skip sub assms by simp
  then show ?thesis by (simp add: run_with_def walkSteps_def split_beta Let_def finish)
qed

lemma Trigger_law:
  assumes "\<And>ctx g. rc_depth ctx = wr_depth row \<Longrightarrow>
      list_all (all_ev P) (fst (walker ctx g)) \<and> (\<exists>sub. walker ctx g = run_with w sub ctx g)"
    and "wr_depth row \<le> MaxWorkflowDepth" "Trigger w walker row scope steps = Some (ev, final)"
  shows "all_ev P ev"
proof -
  obtain row' ctx g log where ev: "ev = EvChild row' log final" "walker ctx g = (log, final)"
    "wr_depth row' = wr_depth row" "wr_id row' = wr_id row" "rc_trace ctx = wr_id row" "rc_depth ctx = wr_depth row"
    "rc_actor ctx = wr_actor row'" "rc_reaction_depth ctx = wr_reaction_depth row'"
    using assms(3) by (auto simp: Trigger_def Let_def split_beta split: if_splits prod.splits)
  moreover have "list_all (all_ev P) log" using assms(1) [of ctx g] ev(2,6) by simp
  moreover obtain sub where "run_with w sub ctx g = (log, final)" using assms(1) [of ctx g] ev(2,6) by auto
  ultimately show ?thesis using child [of row' ctx sub g log final] assms(2) by simp
qed

lemma child_law:
  assumes "DepthExceeded (rc_depth ctx + 1) \<or>
    (\<forall>ctx' g. rc_depth ctx' = rc_depth ctx + 1 \<longrightarrow>
       list_all (all_ev P) (fst (walker ctx' g)) \<and> (\<exists>sub. walker ctx' g = run_with w sub ctx' g))"
  shows "list_all (all_ev P) (fst (runWorkflowStep w ctx walker s env))"
proof -
  have "list_all (all_ev P) (fst (runChildWorkflowOnce w ctx walker s env k))" for k
    using runChildOnce_log [of w ctx walker s env k]
  proof (elim disjE exE conjE)
    fix row steps ev final src wfID
    assume r: "\<not> DepthExceeded (rc_depth ctx + 1)" "row = child_run w ctx s env k src wfID"
      "Trigger w walker row [] steps = Some (ev, final)" "fst (runChildWorkflowOnce w ctx walker s env k) = [ev]"
    have "all_ev P ev" by (rule Trigger_law [OF _ _ r(3)]) (use assms r(1,2) in \<open>auto simp: DepthExceeded_def child_run_def\<close>)
    with r(4) show ?thesis by simp
  qed (simp_all add: recordRefusedChild_def refused)
  then show ?thesis unfolding runWorkflowStep_def Let_def split_beta by (simp add: retry_loop_logs)
qed

lemma runWorkflow_is_run_with: "\<exists>sub. runWorkflow d w ctx g = run_with w sub ctx g"
  by (cases d) auto

lemma runWorkflow_law: "rc_depth ctx + d \<ge> MaxWorkflowDepth \<Longrightarrow> list_all (all_ev P) (fst (runWorkflow d w ctx g))"
proof (induction d arbitrary: ctx g)
  case 0
  then show ?case by (auto intro!: run_with_law child_law simp: DepthExceeded_def)
next
  case (Suc d)
  with runWorkflow_is_run_with show ?case by (auto intro!: run_with_law child_law)
qed

lemma start_run_law:
  assumes "start_run w row scope steps = Some (ev, final)" "wr_depth row \<le> MaxWorkflowDepth"
  shows "all_ev P ev"
proof (rule Trigger_law)
  show "Trigger w (runWorkflow (MaxWorkflowDepth - wr_depth row) w) row scope steps = Some (ev, final)"
    using assms(1) by (simp add: start_run_def)
  fix ctx :: run_ctx and g assume "rc_depth ctx = wr_depth row"
  with assms(2) runWorkflow_law [of ctx "MaxWorkflowDepth - wr_depth row" g] runWorkflow_is_run_with
  show "list_all (all_ev P) (fst (runWorkflow (MaxWorkflowDepth - wr_depth row) w ctx g)) \<and>
      (\<exists>sub. runWorkflow (MaxWorkflowDepth - wr_depth row) w ctx g = run_with w sub ctx g)" by simp
qed (rule assms(2))

end

section \<open>Depth, inheritance, finalization\<close>

definition depth_ok :: "event \<Rightarrow> bool" where
  "depth_ok e = (case e of EvChild row _ _ \<Rightarrow> wr_depth row \<le> MaxWorkflowDepth | _ \<Rightarrow> True)"

interpretation depth_law: event_law w depth_ok for w
  by unfold_locales (auto simp: depth_ok_def)

text \<open>however the catalogue's workflows refer to one another (a cycle included), no run is started
  deeper than \<open>MaxWorkflowDepth\<close> levels below the first, so every walk ends.\<close>

theorem nesting_is_bounded:
  assumes "start_run w row scope steps = Some (ev, final)" "wr_depth row \<le> MaxWorkflowDepth"
  shows "all_ev depth_ok ev"
  using assms by (rule depth_law.start_run_law)

definition is_finish :: "event \<Rightarrow> bool" where
  "is_finish e = (case e of EvFinish _ _ \<Rightarrow> True | _ \<Rightarrow> False)"

definition finalized :: "event \<Rightarrow> bool" where
  "finalized e = (case e of EvChild row log final \<Rightarrow>
      final \<in> {''success'', ''danger''} \<and>
      (\<exists>log0. log = log0 @ [EvFinish (wr_id row) final] \<and> list_all (\<lambda>e. \<not> is_finish e) log0)
    | _ \<Rightarrow> True)"

lemma run_with_finalized:
  assumes "run_with w walker ctx g = (log, final)" "rc_trace ctx = wr_id row"
  shows "finalized (EvChild row log final)"
proof -
  have "list_all (\<lambda>e. \<not> is_finish e) (fst (walk_loop w ctx walker (collectBranchRefs g) [] 0 g []))"
    using walk_events [of "\<lambda>e. \<not> is_finish e" w ctx walker] by (simp add: is_finish_def)
  with assms show ?thesis
    by (auto simp: finalized_def run_with_def walkSteps_def split_beta Let_def split: if_splits)
qed

interpretation final_law: event_law w finalized for w
  by unfold_locales (auto intro: run_with_finalized simp: finalized_def [where e = "EvStep _ _ _ _ _"]
      finalized_def [where e = "EvSkip _ _"] finalized_def [where e = "EvSub _ _ _ _ _"]
      finalized_def [where e = "EvRefused _"] finalized_def [where e = "EvFinish _ _"])

text \<open>C24: every run of the tree, the first and each of its sub-workflows at any level, is finalized exactly
  once, as the last event of its own walk, with the status its parent then reads.\<close>

theorem every_run_finalized_once:
  assumes "start_run w row scope steps = Some (ev, final)" "wr_depth row \<le> MaxWorkflowDepth"
  shows "all_ev finalized ev"
  using assms by (rule final_law.start_run_law)

definition child_of :: "wf_row \<Rightarrow> step \<Rightarrow> string gomap \<Rightarrow> event \<Rightarrow> bool" where
  "child_of row s env c = (case c of EvChild r _ _ \<Rightarrow>
      wr_depth r = wr_depth row + 1 \<and> wr_parent r = wr_id row \<and> wr_node r = s_id s \<and> wr_actor r = wr_actor row \<and>
      wr_reaction_depth r = wr_reaction_depth row \<and> wr_kind r = ''workflow'' \<and> wr_env r = env
    | EvRefused r \<Rightarrow> wr_depth r = wr_depth row + 1 \<and> wr_parent r = wr_id row \<and> wr_status r = ''skipped''
    | _ \<Rightarrow> False)"

definition inherits_from :: "wf_row \<Rightarrow> event \<Rightarrow> bool" where
  "inherits_from row e = (case e of EvSub s env _ es _ \<Rightarrow> list_all (child_of row s env) es | _ \<Rightarrow> True)"

definition inheritance :: "event \<Rightarrow> bool" where
  "inheritance e = (case e of EvChild row log _ \<Rightarrow> list_all (inherits_from row) log | _ \<Rightarrow> True)"

definition context_of :: "wf_row \<Rightarrow> run_ctx \<Rightarrow> bool" where
  "context_of row ctx \<longleftrightarrow> rc_trace ctx = wr_id row \<and> rc_depth ctx = wr_depth row \<and> rc_actor ctx = wr_actor row \<and>
     rc_reaction_depth ctx = wr_reaction_depth row"

lemma children_inherit:
  assumes "context_of p ctx"
  shows "list_all (child_of p s env) (fst (runWorkflowStep w ctx walker s env))"
proof -
  have "list_all (child_of p s env) (fst (runChildWorkflowOnce w ctx walker s env k))" for k
    using runChildOnce_log [of w ctx walker s env k]
  proof (elim disjE exE conjE)
    fix row steps ev final src wfID
    assume r: "row = child_run w ctx s env k src wfID" "Trigger w walker row [] steps = Some (ev, final)"
      "fst (runChildWorkflowOnce w ctx walker s env k) = [ev]"
    from r(2) obtain log where "ev = EvChild (row\<lparr>wr_source := if wr_source row = [] then ''git'' else wr_source row,
        wr_kind := if wr_kind row = [] then ''manual'' else wr_kind row, wr_status := ''running''\<rparr>) log final"
      unfolding Trigger_def Let_def split_beta by (auto split: if_splits)
    then show ?thesis using r(1,3) assms by (simp add: child_of_def child_run_def context_of_def)
  qed (use assms in \<open>simp_all add: recordRefusedChild_def child_of_def context_of_def\<close>)
  then show ?thesis unfolding runWorkflowStep_def Let_def split_beta by (simp add: retry_loop_logs)
qed

lemma run_with_inheritance:
  assumes "run_with w walker ctx g = (log, final)" "context_of row ctx"
  shows "inheritance (EvChild row log final)"
proof -
  have i: "inherits_from row (EvSub s env seen es st) = list_all (child_of row s env) es"
    "inherits_from row (EvStep s' env' seen' rows st')" "inherits_from row (EvSkip n r)" "inherits_from row (EvFinish t st)"
    for s env seen es st s' env' seen' rows st' n r t
    by (simp_all add: inherits_from_def)
  have "list_all (inherits_from row) (fst (walk_loop w ctx walker (collectBranchRefs g) [] 0 g []))"
    using walk_events [of "inherits_from row" w ctx walker] children_inherit [OF assms(2)] by (simp add: i)
  with assms(1) show ?thesis
    by (auto simp: inheritance_def i run_with_def walkSteps_def split_beta Let_def)
qed

interpretation inheritance_law: event_law w inheritance for w
  by unfold_locales (auto intro: run_with_inheritance simp: context_of_def inheritance_def [of "EvStep _ _ _ _ _"]
      inheritance_def [of "EvSkip _ _"] inheritance_def [of "EvSub _ _ _ _ _"]
      inheritance_def [of "EvRefused _"] inheritance_def [of "EvFinish _ _"])

text \<open>what crosses a sub-workflow boundary, at every level of the tree, is the table of the design: the
  child's environment is the step's inputs and nothing else, the actor and the reaction depth are the
  parent's, the workflow depth is the parent's plus one, and the row names its parent and the node.\<close>

theorem sub_workflow_inheritance:
  assumes "start_run w row scope steps = Some (ev, final)" "wr_depth row \<le> MaxWorkflowDepth"
  shows "all_ev inheritance ev"
  using assms by (rule inheritance_law.start_run_law)

section \<open>The levels are enough\<close>

lemma child_once_cong:
  assumes "\<And>ctx' g. rc_depth ctx' = rc_depth ctx + 1 \<Longrightarrow> \<not> DepthExceeded (rc_depth ctx + 1) \<Longrightarrow> walker ctx' g = walker' ctx' g"
  shows "runChildWorkflowOnce w ctx walker s env k = runChildWorkflowOnce w ctx walker' s env k"
proof (cases "DepthExceeded (rc_depth ctx + 1)")
  case False
  have "Trigger w walker (child_run w ctx s env k src wfID) [] steps = Trigger w walker' (child_run w ctx s env k src wfID) [] steps"
    for src wfID steps
    using assms False by (simp add: Trigger_def Let_def child_run_def)
  then show ?thesis unfolding runChildWorkflowOnce_def Let_def by (simp only:)
qed (simp add: runChildWorkflowOnce_def)

lemma walk_cong:
  assumes "\<And>s env. runWorkflowStep w ctx walker s env = runWorkflowStep w ctx walker' s env"
  shows "walk_loop w ctx walker refs pos i g res = walk_loop w ctx walker' refs pos i g res \<and>
    walk_arms w ctx walker pos i g res = walk_arms w ctx walker' pos i g res"
proof (induction g arbitrary: refs pos i res rule: graph_induct)
  case (Step s ss)
  then show ?case using assms by (cases "stepKind s") (simp_all add: Let_def split_beta)
qed simp

lemma run_with_cong:
  assumes "\<And>ctx' g. rc_depth ctx' = rc_depth ctx + 1 \<Longrightarrow> \<not> DepthExceeded (rc_depth ctx + 1) \<Longrightarrow> walker ctx' g = walker' ctx' g"
  shows "run_with w walker ctx g = run_with w walker' ctx g"
proof -
  have "runChildWorkflowOnce w ctx walker s env = runChildWorkflowOnce w ctx walker' s env" for s env
    using assms by (intro ext child_once_cong)
  then have "runWorkflowStep w ctx walker s env = runWorkflowStep w ctx walker' s env" for s env
    unfolding runWorkflowStep_def by (simp only:)
  from walk_cong [OF this] show ?thesis by (simp add: run_with_def walkSteps_def)
qed

definition below :: "walk_world \<Rightarrow> nat \<Rightarrow> walker" where
  "below w d = (case d of 0 \<Rightarrow> (\<lambda>_ _. ([], ''danger'')) | Suc d \<Rightarrow> runWorkflow d w)"

lemma runWorkflow_below: "runWorkflow d w = run_with w (below w d)"
  by (cases d) (simp_all add: below_def)

text \<open>The number of levels a walk is given does not matter once it covers the ceiling: at the last
  one a child is refused before its walker would be called.\<close>

lemma levels_enough:
  "MaxWorkflowDepth \<le> rc_depth ctx + d \<Longrightarrow> MaxWorkflowDepth \<le> rc_depth ctx + d' \<Longrightarrow>
   runWorkflow d w ctx g = runWorkflow d' w ctx g"
proof (induction d arbitrary: d' ctx g)
  case 0
  then show ?case unfolding runWorkflow_below by (intro run_with_cong) (simp add: DepthExceeded_def)
next
  case (Suc d)
  show ?case unfolding runWorkflow_below
  proof (rule run_with_cong)
    fix ctx' :: run_ctx and g
    assume c: "rc_depth ctx' = rc_depth ctx + 1" "\<not> DepthExceeded (rc_depth ctx + 1)"
    then obtain e where "d' = Suc e" using Suc.prems(2) by (cases d') (auto simp: DepthExceeded_def)
    with Suc.IH [of ctx' e g] Suc.prems c(1) show "below w (Suc d) ctx' g = below w d' ctx' g"
      by (simp add: below_def)
  qed
qed

text \<open>The recursion as the source writes it, without levels: \<open>runWorkflow\<close> calls itself for the children of its steps.\<close>

definition go_run :: "walk_world \<Rightarrow> walker" where
  "go_run w ctx g = runWorkflow (MaxWorkflowDepth - rc_depth ctx) w ctx g"

lemma go_run_solves: "run_with w (go_run w) = go_run w"
proof (intro ext)
  fix ctx :: run_ctx and g
  have "run_with w (go_run w) ctx g = run_with w (below w (MaxWorkflowDepth - rc_depth ctx)) ctx g"
  proof (rule run_with_cong)
    fix ctx' :: run_ctx and g
    assume c: "rc_depth ctx' = rc_depth ctx + 1" "\<not> DepthExceeded (rc_depth ctx + 1)"
    then obtain d where "MaxWorkflowDepth - rc_depth ctx = Suc d" "d = MaxWorkflowDepth - rc_depth ctx'"
      by (cases "MaxWorkflowDepth - rc_depth ctx") (auto simp: DepthExceeded_def)
    then show "go_run w ctx' g = below w (MaxWorkflowDepth - rc_depth ctx) ctx' g" by (simp add: go_run_def below_def)
  qed
  then show "run_with w (go_run w) ctx g = go_run w ctx g" by (simp add: go_run_def runWorkflow_below)
qed

lemma one_solution:
  assumes "R = run_with w R"
  shows "R ctx g = go_run w ctx g"
proof (induction "MaxWorkflowDepth - rc_depth ctx" arbitrary: ctx g rule: less_induct)
  case less
  have "run_with w R ctx g = run_with w (go_run w) ctx g"
    by (rule run_with_cong, rule less) (simp add: DepthExceeded_def)
  then show ?case using assms go_run_solves by metis
qed

text \<open>C37: the recursion of a run over its sub-workflows is well founded. Read as an equation, the way the source writes it (a
  run is its steps walked, with the same function called for each child), it has exactly one solution, whatever the catalogue's
  workflows refer to (a cycle included): the levelled function of the model. A recursion that could go on for ever would leave the
  equation without one determined value. And a run that is started is started with it.\<close>

theorem the_recursion_is_well_founded:
  "(R = run_with w R \<longleftrightarrow> R = go_run w) \<and> start_run w row scope steps = Trigger w (go_run w) row scope steps"
proof
  show "R = run_with w R \<longleftrightarrow> R = go_run w" using one_solution [of R w] go_run_solves [of w] by (metis ext)
  show "start_run w row scope steps = Trigger w (go_run w) row scope steps"
    by (simp add: start_run_def Trigger_def Let_def go_run_def)
qed

section \<open>Witnesses\<close>

text \<open>A catalogue with one workflow, \<open>loop\<close>, whose only step runs \<open>loop\<close> again.\<close>

definition sub_step :: "string \<Rightarrow> string \<Rightarrow> step" where
  "sub_step n target = Step \<lparr>st_Type = ''workflow'', st_Name = n, st_Label = [], st_Source = [], st_JobUID = [],
     st_Inputs = [], st_Condition = None, st_Retries = None, st_BackoffSeconds = None, st_ContinueOnError = None,
     st_Workflow = target, st_WorkflowUID = [], st_NodeID = []\<rparr> [] [] None None"

definition cyclic_world :: walk_world where
  "cyclic_world = step_world.extend (demo_world (\<lambda>_. ''success''))
     (walk_world.fields (\<lambda>_ _. False) (\<lambda>_ _. []) (\<lambda>_. ''a1'')
       (\<lambda>r src home. if fst r = ''loop'' then Some (''git'', [sub_step ''again'' ''loop''], 1) else None)
       (\<lambda>_ _. Some True) (\<lambda>p n k. p @ ''/'' @ n) (\<lambda>t k. t @ ''#'') (\<lambda>_. True) (\<lambda>_ _ _. [])
       (\<lambda>t final. [WTick (QRow (if final = ''success'' then ''success'' else ''failure'', False))]) (\<lambda>_. None))"

definition first_row :: wf_row where
  "first_row = \<lparr>wr_id = ''t'', wr_workflow = 1, wr_name = ''loop'', wr_source = [], wr_status = [], wr_reason = [],
     wr_actor = ''me'', wr_kind = [], wr_env = [], wr_reaction_depth = 0, wr_parent = [], wr_node = [], wr_depth = 0\<rparr>"

lemma cyclic_ends: "map_option snd (start_run cyclic_world first_row [] [sub_step ''again'' ''loop'']) = Some ''danger''"
  by code_simp

lemma cyclic_run: "\<exists>ev. start_run cyclic_world first_row [] [sub_step ''again'' ''loop''] = Some (ev, ''danger'')"
  using cyclic_ends by (auto simp: map_option_eq_Some)

lemma first_depth: "wr_depth first_row \<le> MaxWorkflowDepth"
  by (simp add: first_row_def)

theorem nesting_is_bounded_witness:
  "\<exists>ev. start_run cyclic_world first_row [] [sub_step ''again'' ''loop''] = Some (ev, ''danger'') \<and> all_ev depth_ok ev"
  using cyclic_run nesting_is_bounded [OF _ first_depth] by blast

theorem every_run_finalized_once_witness:
  "\<exists>ev. start_run cyclic_world first_row [] [sub_step ''again'' ''loop''] = Some (ev, ''danger'') \<and> all_ev finalized ev"
  using cyclic_run every_run_finalized_once [OF _ first_depth] by blast

theorem sub_workflow_inheritance_witness:
  "\<exists>ev. start_run cyclic_world first_row [] [sub_step ''again'' ''loop''] = Some (ev, ''danger'') \<and> all_ev inheritance ev"
  using cyclic_run sub_workflow_inheritance [OF _ first_depth] by blast

definition child_ctx :: run_ctx where
  "child_ctx = \<lparr>rc_trace = ''t/'', rc_name = ''loop'', rc_workflow = 1, rc_source = ''git'', rc_depth = 1,
     rc_reaction_depth = 0, rc_scope = [], rc_actor = ''me'', rc_defs = []\<rparr>"

lemma levels_enough_example:
  "runWorkflow 2 cyclic_world child_ctx [sub_step ''again'' ''loop''] =
   runWorkflow 40 cyclic_world child_ctx [sub_step ''again'' ''loop'']"
  by (rule levels_enough) (simp_all add: MaxWorkflowDepth_def child_ctx_def)

end
