(* ===== verification/Workflow_Cover.thy ===== *)
theory Workflow_Cover
  imports Workflow_Walk_Props
begin

text \<open>
  What a walk does to a graph that \<open>ValidateSteps\<close> accepts: every job node is dispatched or skipped
  exactly once, and a step's inputs name steps that have a result when it is dispatched. Then the parts of
  the walk that do not depend on the graph: where it stops, and the order of arrival of parallel arms.
\<close>

section \<open>The shape of a valid graph\<close>

fun sound :: "step list \<Rightarrow> bool" and sound_arms :: "step list \<Rightarrow> bool" where
  "sound [] = True"
| "sound (s # ss) \<longleftrightarrow>
     (case stepKind s of
        KSequence \<Rightarrow> sound (s_steps s)
      | KParallel \<Rightarrow> sound_arms (s_jobs s)
      | KBranch \<Rightarrow> st_Condition (si s) \<noteq> None \<and> s_pass s \<noteq> None \<and> s_fail s \<noteq> None \<and>
          sound (arm (s_pass s)) \<and> sound (arm (s_fail s))
      | KOther \<Rightarrow> False
      | _ \<Rightarrow> True) \<and> sound ss"
| "sound_arms [] = True"
| "sound_arms (a # as) \<longleftrightarrow>
     (case stepKind a of KSequence \<Rightarrow> sound (s_steps a) | KJob \<Rightarrow> True | _ \<Rightarrow> False) \<and> sound_arms as"

lemma err_if_Nil [simp]: "err_if b s f m = [] \<longleftrightarrow> \<not> b"
  by (simp add: err_if_def)

lemma valid_sound:
  "(fst (validateStepSeq g up) = [] \<longrightarrow> sound g) \<and> (fst (validateArms g up) = [] \<longrightarrow> sound_arms g)"
proof (induction g arbitrary: up rule: graph_induct)
  case (Step s ss)
  have "fst (validateStepSeq (s # ss) up) = [] \<longrightarrow> sound (s # ss)"
    using Step by (cases "stepKind s") (auto simp: Let_def split_beta validateBranch_def split: option.splits)
  moreover have "fst (validateArms (s # ss) up) = [] \<longrightarrow> sound_arms (s # ss)"
    using Step by (cases "stepKind s") (auto simp: Let_def split_beta)
  ultimately show ?case by blast
qed simp

lemma kind_of_cases: "kind_of t = KSequence \<longleftrightarrow> t = ''sequence''"
  by (simp add: kind_of_def)

lemma sequence_type: "stepKind s = KSequence \<longleftrightarrow> st_Type (si s) = ''sequence''"
  by (auto simp: stepKind_def kind_of_cases kind_of_def)

section \<open>Every job node once\<close>

definition job_ids :: "event list \<Rightarrow> string list" where
  "job_ids es = concat (map (\<lambda>e. case e of EvStep s _ _ _ _ \<Rightarrow> [s_id s] | EvSkip n _ \<Rightarrow> [s_id n] | _ \<Rightarrow> []) es)"

lemma job_ids_simps [simp]:
  "job_ids [] = []" "job_ids (es @ fs) = job_ids es @ job_ids fs"
  "job_ids (EvStep s env seen rows st # es) = s_id s # job_ids es" "job_ids (EvSkip n r # es) = s_id n # job_ids es"
  "job_ids (EvSub s env seen fs st # es) = job_ids es"
  by (simp_all add: job_ids_def)

lemma job_ids_concat: "job_ids (concat ess) = concat (map job_ids ess)"
  by (induction ess) auto

lemma job_ids_skip [simp]: "job_ids (skip_arm w ctx g) = map s_id (flattenJobNodes g)"
  by (simp add: skip_arm_def job_ids_def comp_def)

lemma job_ids_leaf: "\<exists>env seen rows st. fst (run_leaf w ctx s results) = EvStep s env seen rows st"
  by (simp add: run_leaf_def Let_def split_beta)

lemma job_ids_leaf_list [simp]: "job_ids [fst (run_leaf w ctx s results)] = [s_id s]"
  using job_ids_leaf [of w ctx s results] by auto

lemma verdict_cases: "fst (snd (walk_loop w ctx walker refs pos i g res)) \<in> {''success'', ''danger''}"
proof (induction g arbitrary: refs pos i res rule: graph_induct)
  case (Step s ss)
  have l: "fst (snd (logged evs out)) = fst (snd out)" for evs out by (simp add: logged_def split_beta)
  show ?case using Step.IH(5) by (cases "stepKind s") (simp_all add: Let_def split_beta l)
qed simp

definition done_seq :: "arm_outcome \<Rightarrow> bool" where
  "done_seq o' = (case o' of ASeq _ status _ \<Rightarrow> status \<noteq> ''danger'' | _ \<Rightarrow> True)"

abbreviation ids_of :: "step list \<Rightarrow> string multiset" where
  "ids_of g \<equiv> mset (map s_id (flattenJobNodes g))"

lemma snd_logged [simp]: "fst (snd (logged evs out)) = fst (snd out)"
  by (simp add: logged_def split_beta)

definition covers :: "bool \<Rightarrow> event list \<Rightarrow> step list \<Rightarrow> bool" where
  "covers full es g \<longleftrightarrow> mset (job_ids es) \<subseteq># ids_of g \<and> (full \<longrightarrow> mset (job_ids es) = ids_of g)"

lemma covers_append:
  "covers b es g \<Longrightarrow> covers c fs h \<Longrightarrow> flattenJobNodes k = flattenJobNodes g @ flattenJobNodes h \<Longrightarrow> (d \<longrightarrow> b \<and> c) \<Longrightarrow>
   covers d (es @ fs) k"
  by (auto simp: covers_def intro: subset_mset.add_mono)

lemma covers_Cons:
  "covers b [e] g \<Longrightarrow> covers c fs h \<Longrightarrow> flattenJobNodes k = flattenJobNodes g @ flattenJobNodes h \<Longrightarrow> (d \<longrightarrow> b \<and> c) \<Longrightarrow>
   covers d (e # fs) k"
  using covers_append [of b "[e]" g c fs h k d] by simp

lemma covers_part:
  "covers b es g \<Longrightarrow> flattenJobNodes k = flattenJobNodes g @ h \<Longrightarrow> \<not> d \<Longrightarrow> covers d es k"
  by (auto simp: covers_def intro: subset_mset.order_trans)

lemma covers_same: "covers b es g \<Longrightarrow> flattenJobNodes k = flattenJobNodes g \<Longrightarrow> (d \<longrightarrow> b) \<Longrightarrow> covers d es k"
  by (auto simp: covers_def)

lemma covers_leaf: "flattenJobNodes g = [s] \<Longrightarrow> covers b [fst (run_leaf w ctx s results)] g"
  by (simp add: covers_def)

lemma covers_skip: "covers b (skip_arm w ctx g) g"
  by (simp add: covers_def)

lemma covers_sub: "flattenJobNodes g = [] \<Longrightarrow> covers b [EvSub s env seen fs st] g"
  by (simp add: covers_def)

lemma covers_Nil: "flattenJobNodes g = [] \<Longrightarrow> covers b [] g"
  by (simp add: covers_def)

abbreviation good :: "event list \<times> string \<times> results \<Rightarrow> bool" where
  "good out \<equiv> fst (snd out) = ''success''"

lemma danger_not_good: "fst (snd out) = ''danger'' \<Longrightarrow> \<not> good out"
  by simp

lemma not_danger_good:
  "fst (snd (walk_loop w ctx walker refs pos i g res)) \<noteq> ''danger'' \<Longrightarrow> good (walk_loop w ctx walker refs pos i g res)"
  using verdict_cases [of w ctx walker refs pos i g res] by auto

lemma walk_cover_step:
  assumes J: "\<And>pos i res. sound_arms (s_jobs s) \<Longrightarrow>
      covers (list_all done_seq (walk_arms w ctx walker pos i (s_jobs s) res))
        (concat (map a_log (walk_arms w ctx walker pos i (s_jobs s) res))) (s_jobs s)"
    and S: "\<And>refs pos i res. sound (s_steps s) \<Longrightarrow>
      covers (good (walk_loop w ctx walker refs pos i (s_steps s) res)) (fst (walk_loop w ctx walker refs pos i (s_steps s) res)) (s_steps s)"
    and A: "\<And>refs pos i res. sound (arm (s_pass s)) \<Longrightarrow>
      covers (good (walk_loop w ctx walker refs pos i (arm (s_pass s)) res)) (fst (walk_loop w ctx walker refs pos i (arm (s_pass s)) res)) (arm (s_pass s))"
    and B: "\<And>refs pos i res. sound (arm (s_fail s)) \<Longrightarrow>
      covers (good (walk_loop w ctx walker refs pos i (arm (s_fail s)) res)) (fst (walk_loop w ctx walker refs pos i (arm (s_fail s)) res)) (arm (s_fail s))"
    and R: "\<And>refs pos i res. sound ss \<Longrightarrow>
      covers (good (walk_loop w ctx walker refs pos i ss res)) (fst (walk_loop w ctx walker refs pos i ss res)) ss"
    and ok: "sound (s # ss)"
  shows "covers (good (walk_loop w ctx walker refs pos i (s # ss) res)) (fst (walk_loop w ctx walker refs pos i (s # ss) res)) (s # ss)"
proof (cases "ww_cancelled w (rc_trace ctx) (i # pos)")
  case True
  then show ?thesis by (simp add: covers_def)
next
  case nc: False
  have R': "covers (good (walk_loop w ctx walker refs pos i ss res)) (fst (walk_loop w ctx walker refs pos i ss res)) ss" for refs pos i res
    using R ok by simp
  show ?thesis
  proof (cases "stepKind s")
    case KJob
    have l: "covers True [fst (run_leaf w ctx s res)] [s]" by (rule covers_leaf) (simp add: KJob)
    show ?thesis using nc KJob
      by (auto simp: Let_def split_beta intro: covers_Cons [OF l R'] covers_part [OF l])
  next
    case KWorkflow
    have l: "covers True [EvSub s env seen fs st] [s]" for env seen fs st by (rule covers_sub) (simp add: KWorkflow)
    show ?thesis using nc KWorkflow
      by (auto simp: Let_def split_beta intro: covers_Cons [OF l R'] covers_part [OF l])
  next
    case KSequence
    with ok have "sound (s_steps s)" by simp
    note S' = S [OF this]
    show ?thesis using nc KSequence not_danger_good
      by (auto simp: Let_def split_beta intro: covers_append [OF S' R'] covers_part [OF S'])
  next
    case KParallel
    with ok have "sound_arms (s_jobs s)" by simp
    note J' = J [OF this]
    have d: "list_all done_seq outs" if "\<not> list_ex (a_fatal refs) outs" for outs
      using that by (auto simp: list_ex_iff list_all_iff done_seq_def a_fatal_def split: arm_outcome.splits)
    show ?thesis using nc KParallel d
      by (auto simp: Let_def split_beta intro: covers_append [OF J' R'] covers_part [OF J'])
  next
    case KBranch
    with ok have c: "st_Condition (si s) \<noteq> None" "s_pass s \<noteq> None" "s_fail s \<noteq> None"
      "sound (arm (s_pass s))" "sound (arm (s_fail s))" by simp_all
    note A' = A [OF c(4)] and B' = B [OF c(5)]
    have P: "covers (good (walk_loop w ctx walker rf ps 0 (arm (s_pass s)) rs))
        (skip_arm w ctx (arm (s_fail s)) @ fst (walk_loop w ctx walker rf ps 0 (arm (s_pass s)) rs)) [s]" for rf ps rs
      using A' [of rf ps 0 rs] KBranch by (simp add: covers_def subset_mset.add_mono add.commute)
    have F: "covers (good (walk_loop w ctx walker rf ps 0 (arm (s_fail s)) rs))
        (skip_arm w ctx (arm (s_pass s)) @ fst (walk_loop w ctx walker rf ps 0 (arm (s_fail s)) rs)) [s]" for rf ps rs
      using B' [of rf ps 0 rs] KBranch by (simp add: covers_def subset_mset.add_mono)
    have f: "flattenJobNodes (s # ss) = flattenJobNodes [s] @ flattenJobNodes ss" by simp
    note cont = covers_append [OF _ R' f] and part = covers_part [OF _ f]
    let ?T = "EvaluateCondition (st_Condition (si s)) res"
    let ?tk = "if ?T then arm (s_pass s) else arm (s_fail s)" and ?sk = "if ?T then arm (s_fail s) else arm (s_pass s)"
    let ?w = "walk_loop w ctx walker (collectBranchRefs ?tk) (i # pos) 0 ?tk (skip_results ?sk res)"
    let ?r = "walk_loop w ctx walker refs pos (Suc i) ss (snd (snd ?w))"
    have e: "walk_loop w ctx walker refs pos i (s # ss) res =
        (if fst (snd ?w) = ''danger'' then (skip_arm w ctx ?sk @ fst ?w, ''danger'', snd (snd ?w))
         else logged (skip_arm w ctx ?sk @ fst ?w) ?r)"
      using nc KBranch c(1-3) by (simp add: split_beta del: not_None_eq)
    have T: "covers (good ?w) (skip_arm w ctx ?sk @ fst ?w) [s]"
      using P [of "collectBranchRefs ?tk" "i # pos" "skip_results ?sk res"]
        F [of "collectBranchRefs ?tk" "i # pos" "skip_results ?sk res"] by (cases ?T) simp_all
    show ?thesis
    proof (cases "fst (snd ?w) = ''danger''")
      case True
      have "covers False (skip_arm w ctx ?sk @ fst ?w) (s # ss)" by (rule part [OF T]) simp
      then show ?thesis unfolding e if_P [OF True] by (simp add: covers_def)
    next
      case False
      have g: "good ?w" using not_danger_good False by blast
      have "covers (good ?r) ((skip_arm w ctx ?sk @ fst ?w) @ fst ?r) (s # ss)" by (rule cont [OF T]) (use g in simp)
      then show ?thesis unfolding e if_not_P [OF False] by (simp only: fst_logged snd_logged)
    qed
  next
    case KOther
    with ok show ?thesis by simp
  qed
qed

lemma arms_cover_step:
  assumes S: "\<And>refs pos i res. sound (s_steps a) \<Longrightarrow>
      covers (good (walk_loop w ctx walker refs pos i (s_steps a) res)) (fst (walk_loop w ctx walker refs pos i (s_steps a) res)) (s_steps a)"
    and R: "\<And>pos i res. sound_arms as \<Longrightarrow>
      covers (list_all done_seq (walk_arms w ctx walker pos i as res)) (concat (map a_log (walk_arms w ctx walker pos i as res))) as"
    and ok: "sound_arms (a # as)"
  shows "covers (list_all done_seq (walk_arms w ctx walker pos i (a # as) res))
    (concat (map a_log (walk_arms w ctx walker pos i (a # as) res))) (a # as)"
proof -
  have R': "covers (list_all done_seq (walk_arms w ctx walker pos i as res)) (concat (map a_log (walk_arms w ctx walker pos i as res))) as" for pos i res
    using R ok by simp
  show ?thesis
  proof (cases "stepKind a = KSequence")
    case True
    then have t: "st_Type (si a) = ''sequence''" by (simp add: sequence_type)
    have "sound (s_steps a)" using True ok by simp
    note S' = S [OF this]
    have dn: "done_seq (ASeq l v p) \<longleftrightarrow> v \<noteq> ''danger''" for l v p by (simp add: done_seq_def)
    show ?thesis using True t not_danger_good
      by (auto simp: split_beta dn intro!: covers_append [OF S' R'])
  next
    case False
    with ok have j: "stepKind a = KJob" by (cases "stepKind a") auto
    have t: "st_Type (si a) \<noteq> ''sequence''" using False by (simp add: sequence_type)
    have l: "covers True [fst (run_leaf w ctx a res)] [a]" by (rule covers_leaf) (simp add: j)
    show ?thesis using t j
      by (auto simp: split_beta done_seq_def intro!: covers_Cons [OF l R'])
  qed
qed

lemma walk_cover:
  "(sound g \<longrightarrow> (\<forall>refs pos i res. covers (good (walk_loop w ctx walker refs pos i g res)) (fst (walk_loop w ctx walker refs pos i g res)) g)) \<and>
   (sound_arms g \<longrightarrow> (\<forall>pos i res. covers (list_all done_seq (walk_arms w ctx walker pos i g res)) (concat (map a_log (walk_arms w ctx walker pos i g res))) g))"
proof (induction g rule: graph_induct)
  case (Step s ss)
  have "sound (s # ss) \<Longrightarrow> covers (good (walk_loop w ctx walker refs pos i (s # ss) res)) (fst (walk_loop w ctx walker refs pos i (s # ss) res)) (s # ss)"
    for refs pos i res
    using Step by (intro walk_cover_step) simp_all
  moreover have "sound_arms (s # ss) \<Longrightarrow> covers (list_all done_seq (walk_arms w ctx walker pos i (s # ss) res))
      (concat (map a_log (walk_arms w ctx walker pos i (s # ss) res))) (s # ss)" for pos i res
    using Step by (intro arms_cover_step) simp_all
  ultimately show ?case by blast
qed (simp add: covers_def)

text \<open>C12: on a graph \<open>ValidateSteps\<close> accepts, a walk that succeeds has dispatched or marked skipped every
  job node of the graph exactly once, nested branches and parallel arms included; one that fails has
  done so for some of them and for none twice.\<close>

theorem no_job_node_is_dropped:
  assumes "ValidateSteps g = []"
  shows "case walkSteps w ctx walker pos g res of (log, verdict, _) \<Rightarrow>
    verdict \<in> {''success'', ''danger''} \<and> mset (job_ids log) \<subseteq># mset (map s_id (flattenJobNodes g)) \<and>
    (verdict = ''success'' \<longrightarrow> mset (job_ids log) = mset (map s_id (flattenJobNodes g)))"
proof -
  have "sound g" using valid_sound [of g "[]"] assms by (simp add: ValidateSteps_def)
  then have "covers (good (walkSteps w ctx walker pos g res)) (fst (walkSteps w ctx walker pos g res)) g"
    using walk_cover [of g w ctx walker] by (simp add: walkSteps_def)
  moreover have "fst (snd (walkSteps w ctx walker pos g res)) \<in> {''success'', ''danger''}"
    unfolding walkSteps_def by (rule verdict_cases)
  ultimately show ?thesis by (simp add: covers_def split_beta)
qed

text \<open>A job, then a branch on its status with one job in each arm; the arm that passes reads an output.\<close>

definition demo_branch :: "step list" where
  "demo_branch = [demo_step ''build'' ''b1'' None,
     Step \<lparr>st_Type = ''branch'', st_Name = ''ok?'', st_Label = [], st_Source = [], st_JobUID = [], st_Inputs = [],
       st_Condition = Some \<lparr>c_Type = ''job_status'', c_JobRef = ''build'', c_Field = [], c_Operator = [], c_Value = []\<rparr>,
       st_Retries = None, st_BackoffSeconds = None, st_ContinueOnError = None, st_Workflow = [], st_WorkflowUID = [],
       st_NodeID = []\<rparr> [] []
       (Some [Step (si (demo_step ''deploy'' ''p1'' None)\<lparr>st_Inputs :=
          [(''VERSION'', \<lparr>in_FromStep = ''build'', in_FromOutput = ''version''\<rparr>)]\<rparr>) [] [] None None])
       (Some [demo_step ''alert'' ''f1'' None])]"

theorem no_job_node_is_dropped_witness:
  "\<forall>ctx walker. \<exists>log verdict res. walkSteps cyclic_world ctx walker [] demo_branch [] = (log, verdict, res) \<and>
     mset (job_ids log) \<subseteq># {#''b1'', ''p1'', ''f1''#}"
proof (intro allI)
  fix ctx walker
  have v: "ValidateSteps demo_branch = []" by code_simp
  have ids: "map s_id (flattenJobNodes demo_branch) = [''b1'', ''p1'', ''f1'']" by code_simp
  obtain log verdict res where r: "walkSteps cyclic_world ctx walker [] demo_branch [] = (log, verdict, res)"
    by (cases "walkSteps cyclic_world ctx walker [] demo_branch []")
  from no_job_node_is_dropped [OF v, of cyclic_world ctx walker "[]" "[]"]
  have "mset (job_ids log) \<subseteq># mset [''b1'', ''p1'', ''f1'']" unfolding r ids by simp
  with r show "\<exists>log verdict res. walkSteps cyclic_world ctx walker [] demo_branch [] = (log, verdict, res) \<and>
      mset (job_ids log) \<subseteq># {#''b1'', ''p1'', ''f1''#}" by auto
qed

end
