(* ===== verification/Workflow_Inputs.thy ===== *)
theory Workflow_Inputs
  imports Workflow_Cover
begin

text \<open>
  The data flow of a walk: on a graph \<open>ValidateSteps\<close> accepts whose branch arms hold no sub-workflow step,
  every input of a dispatched step names a step that has a result by then. The names that have a result
  grow along the walk at least as the validator's set of upstream names does.
\<close>

section \<open>Names that have a result\<close>

definition names :: "results \<Rightarrow> string set" where
  "names res = fst ` set res"

lemma names_set: "fst ` set res = names res"
  by (simp add: names_def)

lemma names_put [simp]: "names (put res k v) = insert k (names res)"
  by (simp add: put_def names_def)

lemma names_lookup: "map_of res k = None \<longleftrightarrow> k \<notin> names res"
  by (simp add: names_def map_of_eq_None_iff)

lemma names_skip [simp]: "names (skip_results g res) = names res \<union> s_name ` set (flattenJobNodes g)"
proof -
  have "names (foldl (\<lambda>res n. put res (s_name n) (v n)) res ns) = names res \<union> s_name ` set ns" for v ns
    by (induction ns arbitrary: res) auto
  then show ?thesis by (simp add: skip_results_def)
qed

lemma names_add_new: "names (add_new pre produced res) \<supseteq> names res"
  "set pre \<subseteq> names res \<Longrightarrow> names (add_new pre produced res) \<supseteq> names produced"
proof -
  let ?f = "\<lambda>k res. if k \<in> set pre \<or> map_of res k \<noteq> None then res else put res k (the (map_of produced k))"
  have m: "names (foldr ?f ks res) \<supseteq> names res" for ks by (induction ks) auto
  have a: "set pre \<subseteq> names res \<Longrightarrow> set ks \<subseteq> names (foldr ?f ks res)" for ks
  proof (induction ks)
    case (Cons k ks)
    with m [of ks] show ?case by (auto simp: names_lookup)
  qed simp
  show "names (add_new pre produced res) \<supseteq> names res" unfolding add_new_def by (rule m)
  show "set pre \<subseteq> names res \<Longrightarrow> names (add_new pre produced res) \<supseteq> names produced"
    using a [of "remdups (map fst produced)"] by (simp add: add_new_def names_def)
qed

text \<open>The names an arm's outcome contributes.\<close>

definition gives :: "arm_outcome \<Rightarrow> string set" where
  "gives o' = (case o' of ALeaf _ n _ _ _ \<Rightarrow> {n} | ASeq _ _ produced \<Rightarrow> names produced)"

lemma names_collect_one: "set pre \<subseteq> names res \<Longrightarrow> names res \<union> gives o' \<subseteq> names (collect_one w pre o' res)"
  using names_add_new by (cases o') (auto simp: collect_one_def gives_def)

lemma names_collect:
  "set pre \<subseteq> names res \<Longrightarrow> names res \<union> \<Union> (gives ` set outs) \<subseteq> names (foldl (\<lambda>res o'. collect_one w pre o' res) res outs)"
proof (induction outs arbitrary: res)
  case (Cons o' outs)
  have c: "names res \<union> gives o' \<subseteq> names (collect_one w pre o' res)" using Cons.prems by (rule names_collect_one)
  with Cons.prems have "set pre \<subseteq> names (collect_one w pre o' res)" by blast
  from Cons.IH [OF this] c show ?case by auto
qed simp

lemma set_arrival [simp]: "set (arrival w t pos xs) = set xs"
proof -
  have "set (map (\<lambda>i. xs ! i) p) = set xs" if "mset p = mset [0..<length xs]" for p
  proof -
    have "set p = {0..<length xs}" using mset_eq_setD [OF that] by simp
    then show ?thesis by (simp add: nth_image)
  qed
  then show ?thesis by (simp add: arrival_def Let_def)
qed

lemma snd_snd_logged [simp]: "snd (snd (logged evs out)) = snd (snd out)"
  by (simp add: logged_def split_beta)

lemma names_mono: "names res \<subseteq> names (snd (snd (walk_loop w ctx walker refs pos i g res)))"
proof (induction g arbitrary: refs pos i res rule: graph_induct)
  case (Step s ss)
  let ?r = "\<lambda>refs pos i g res. snd (snd (walk_loop w ctx walker refs pos i g res))"
  have t: "names res \<subseteq> names (?r refs pos i ss res')" if "names res \<subseteq> names res'" for refs pos i res res'
    using that Step.IH(5) by blast
  have sk: "names res \<subseteq> names (?r refs pos i h (skip_results k res))"
    if "\<And>refs pos i res. names res \<subseteq> names (?r refs pos i h res)" for refs pos i h k res
    using that [of "skip_results k res"] by auto
  have c: "names res \<subseteq> names (foldl (\<lambda>res o'. collect_one w (map fst res0) o' res) res outs)"
    if "set (map fst res0) \<subseteq> names res" for res0 res outs
    using names_collect [OF that, where w = w and outs = outs] by blast
  have c': "names res \<subseteq> names (foldl (\<lambda>r o'. collect_one w (map fst res) o' r) res outs)" for outs
    by (rule c) (simp add: names_def)
  have p: "names res \<subseteq> names (put res k v)" for k v by auto
  show ?case
  proof (cases "stepKind s")
    case KJob
    show ?thesis using t [OF p] p by (simp add: KJob Let_def split_beta)
  next
    case KWorkflow
    show ?thesis using t [OF p] p by (simp add: KWorkflow Let_def split_beta)
  next
    case KSequence
    show ?thesis using t [OF Step.IH(2)] Step.IH(2) by (simp add: KSequence Let_def split_beta)
  next
    case KParallel
    show ?thesis using t [OF c'] c' by (simp add: KParallel Let_def split_beta)
  next
    case KBranch
    note A = sk [OF Step.IH(3)] and B = sk [OF Step.IH(4)]
    show ?thesis using t [OF A] t [OF B] A B Step.IH(5) [where res = res]
      by (simp add: KBranch Let_def split_beta del: not_None_eq)
  next
    case KOther
    then show ?thesis using Step.IH(5) [where res = res] by simp
  qed
qed simp

section \<open>What validation promises\<close>

text \<open>No sub-workflow step in an arm of a branch.\<close>

fun plain_arms :: "step list \<Rightarrow> bool" where
  "plain_arms [] = True"
| "plain_arms (s # ss) \<longleftrightarrow>
     (case stepKind s of
        KSequence \<Rightarrow> plain_arms (s_steps s)
      | KParallel \<Rightarrow> plain_arms (s_jobs s)
      | KBranch \<Rightarrow> flattenWorkflowNodes (arm (s_pass s)) = [] \<and> flattenWorkflowNodes (arm (s_fail s)) = [] \<and>
          plain_arms (arm (s_pass s)) \<and> plain_arms (arm (s_fail s))
      | _ \<Rightarrow> True) \<and> plain_arms ss"

definition node_names :: "step list \<Rightarrow> string set" where
  "node_names g = s_name ` set (flattenJobNodes g) \<union> s_name ` set (flattenWorkflowNodes g)"

lemma node_names_Cons: "node_names (s # ss) = node_names [s] \<union> node_names ss"
  unfolding node_names_def by auto

lemma node_names_one:
  "stepKind s = KJob \<Longrightarrow> node_names [s] = {s_name s}"
  "stepKind s = KWorkflow \<Longrightarrow> node_names [s] = {s_name s}"
  "stepKind s = KSequence \<Longrightarrow> node_names [s] = node_names (s_steps s)"
  "stepKind s = KParallel \<Longrightarrow> node_names [s] = node_names (s_jobs s)"
  "stepKind s = KBranch \<Longrightarrow> node_names [s] = node_names (arm (s_pass s)) \<union> node_names (arm (s_fail s))"
  unfolding node_names_def by auto

lemma node_names_Nil [simp]: "node_names [] = {}"
  by (simp add: node_names_def)

lemma validated_names:
  "set (snd (validateStepSeq g up)) \<subseteq> set up \<union> node_names g \<and> set (snd (validateArms g up)) \<subseteq> node_names g"
proof (induction g arbitrary: up rule: graph_induct)
  case (Step s ss)
  have V: "set (snd (validateStepSeq h up)) \<subseteq> set up \<union> node_names h" if "h \<in> {s_steps s, arm (s_pass s), arm (s_fail s), ss}" for h up
    using that Step by blast
  note N = node_names_Cons [of s ss] and one = node_names_one [of s]
  have tail: "set (snd (validateStepSeq ss up')) \<subseteq> set up \<union> node_names (s # ss)" if "set up' \<subseteq> set up \<union> node_names [s]" for up'
    using V [of ss up'] that unfolding N by auto
  have l: "set (snd (validateStepSeq (s # ss) up)) \<subseteq> set up \<union> node_names (s # ss)"
  proof (cases "stepKind s")
    case KBranch
    let ?u1 = "snd (validateStepSeq (arm (s_pass s)) up)"
    let ?u2 = "snd (validateStepSeq (arm (s_fail s)) (?u1 @ up))"
    note n = one(5) [OF KBranch]
    have "set (?u2 @ ?u1 @ up) \<subseteq> set up \<union> node_names [s]"
      using V [of "arm (s_pass s)" up] V [of "arm (s_fail s)" "?u1 @ up"] unfolding n by auto
    from tail [OF this] show ?thesis using KBranch by (simp add: Let_def split_beta)
  next
    case KSequence
    have "set (snd (validateStepSeq (s_steps s) up)) \<subseteq> set up \<union> node_names [s]"
      using V [of "s_steps s" up] one(3) [OF KSequence] by simp
    from tail [OF this] show ?thesis using KSequence by (simp add: Let_def split_beta)
  next
    case KParallel
    have "set (snd (validateArms (s_jobs s) up) @ up) \<subseteq> set up \<union> node_names [s]"
      using Step.IH(1) [of up] one(4) [OF KParallel] by auto
    from tail [OF this] show ?thesis using KParallel by (simp add: Let_def split_beta)
  next
    case KJob
    have "set (produce s @ up) \<subseteq> set up \<union> node_names [s]" using one(1) [OF KJob] by (auto simp: produce_def)
    from tail [OF this] show ?thesis using KJob by (simp add: Let_def split_beta)
  next
    case KWorkflow
    have "set (produce s @ up) \<subseteq> set up \<union> node_names [s]" using one(2) [OF KWorkflow] by (auto simp: produce_def)
    from tail [OF this] show ?thesis using KWorkflow by (simp add: Let_def split_beta)
  next
    case KOther
    then show ?thesis using V [of ss up] N by (auto simp: Let_def split_beta)
  qed
  moreover have "set (snd (validateArms (s # ss) up)) \<subseteq> node_names (s # ss)"
  proof -
    have "set (snd (validateArms ss up)) \<subseteq> node_names ss" using Step.IH(5) by blast
    then show ?thesis using V [of "s_steps s" up] unfolding N
      by (cases "stepKind s") (auto simp: Let_def split_beta produce_def one)
  qed
  ultimately show ?case by blast
qed simp

definition inputs_seen :: "event \<Rightarrow> bool" where
  "inputs_seen e = (case e of
      EvStep s env seen _ _ \<Rightarrow> (\<forall>kr \<in> set (st_Inputs (si s)). in_FromStep (snd kr) \<in> set seen)
    | EvSub s env seen _ _ \<Rightarrow> (\<forall>kr \<in> set (st_Inputs (si s)). in_FromStep (snd kr) \<in> set seen)
    | _ \<Rightarrow> True)"

lemma validInputs_seen: "validateInputs s up = [] \<Longrightarrow> kr \<in> set (st_Inputs (si s)) \<Longrightarrow> in_FromStep (snd kr) \<in> set up"
  by (cases kr) (auto simp: validateInputs_def validateInput_def split: if_splits)

lemma leaf_seen:
  assumes "validateInputs s up = []" "set up \<subseteq> names res"
  shows "inputs_seen (fst (run_leaf w ctx s res))" "inputs_seen (EvSub s env (map fst res) es st)"
  using validInputs_seen [OF assms(1)] assms(2)
  by (auto simp: inputs_seen_def run_leaf_def Let_def split_beta names_set)

lemma skip_seen [simp]: "list_all inputs_seen (skip_arm w ctx g)"
  by (simp add: skip_arm_def list_all_iff inputs_seen_def)

text \<open>A walk feeds a graph validated against \<open>up\<close>.\<close>

definition feeds :: "walk_world \<Rightarrow> run_ctx \<Rightarrow> walker \<Rightarrow> step list \<Rightarrow> bool" where
  "feeds w ctx walker g \<longleftrightarrow> (\<forall>up refs pos i res.
     fst (validateStepSeq g up) = [] \<and> plain_arms g \<and> set up \<subseteq> names res \<longrightarrow>
     (let out = walk_loop w ctx walker refs pos i g res
      in list_all inputs_seen (fst out) \<and> (good out \<longrightarrow> set (snd (validateStepSeq g up)) \<subseteq> names (snd (snd out)))))"

definition feeds_arms :: "walk_world \<Rightarrow> run_ctx \<Rightarrow> walker \<Rightarrow> step list \<Rightarrow> bool" where
  "feeds_arms w ctx walker g \<longleftrightarrow> (\<forall>up pos i res.
     fst (validateArms g up) = [] \<and> plain_arms g \<and> set up \<subseteq> names res \<longrightarrow>
     (let outs = walk_arms w ctx walker pos i g res
      in list_all inputs_seen (concat (map a_log outs)) \<and>
         (list_all done_seq outs \<longrightarrow> set (snd (validateArms g up)) \<subseteq> \<Union> (gives ` set outs))))"

lemma feedsD:
  assumes "feeds w ctx walker g" "fst (validateStepSeq g up) = []" "plain_arms g" "set up \<subseteq> names res"
  shows "list_all inputs_seen (fst (walk_loop w ctx walker refs pos i g res))"
    and "good (walk_loop w ctx walker refs pos i g res) \<Longrightarrow>
      set (snd (validateStepSeq g up)) \<subseteq> names (snd (snd (walk_loop w ctx walker refs pos i g res)))"
  using assms unfolding feeds_def Let_def by blast+

lemma feeds_armsD:
  assumes "feeds_arms w ctx walker g" "fst (validateArms g up) = []" "plain_arms g" "set up \<subseteq> names res"
  shows "list_all inputs_seen (concat (map a_log (walk_arms w ctx walker pos i g res)))"
    and "list_all done_seq (walk_arms w ctx walker pos i g res) \<Longrightarrow>
      set (snd (validateArms g up)) \<subseteq> \<Union> (gives ` set (walk_arms w ctx walker pos i g res))"
proof -
  from assms have "let outs = walk_arms w ctx walker pos i g res
      in list_all inputs_seen (concat (map a_log outs)) \<and>
         (list_all done_seq outs \<longrightarrow> set (snd (validateArms g up)) \<subseteq> \<Union> (gives ` set outs))"
    unfolding feeds_arms_def by (simp only: simp_thms HOL.all_simps)
  then show "list_all inputs_seen (concat (map a_log (walk_arms w ctx walker pos i g res)))"
    and "list_all done_seq (walk_arms w ctx walker pos i g res) \<Longrightarrow>
      set (snd (validateArms g up)) \<subseteq> \<Union> (gives ` set (walk_arms w ctx walker pos i g res))"
    by (simp_all only: Let_def simp_thms)
qed

lemma feeds_Nil [simp]: "feeds w ctx walker []" "feeds_arms w ctx walker []"
  by (simp_all add: feeds_def feeds_arms_def)

text \<open>The walk goes on after a step whose log is \<open>evs\<close> with the results \<open>res'\<close>, or stops there.\<close>

lemma feeds_on:
  assumes "feeds w ctx walker ss" "fst (validateStepSeq ss up) = []" "plain_arms ss"
    and "list_all inputs_seen evs" "\<not> stop \<Longrightarrow> set up \<subseteq> names res'"
    and "out = (if stop then (evs, ''danger'', res') else logged evs (walk_loop w ctx walker refs pos i ss res'))"
  shows "list_all inputs_seen (fst out) \<and> (good out \<longrightarrow> set (snd (validateStepSeq ss up)) \<subseteq> names (snd (snd out)))"
  using feedsD [OF assms(1-3), of res' refs pos i] assms(4-6) by (cases stop) simp_all

lemma feeds_step:
  assumes J: "feeds_arms w ctx walker (s_jobs s)" and S: "feeds w ctx walker (s_steps s)"
    and A: "feeds w ctx walker (arm (s_pass s))" and B: "feeds w ctx walker (arm (s_fail s))" and R: "feeds w ctx walker ss"
    and v: "fst (validateStepSeq (s # ss) up) = []" and pl: "plain_arms (s # ss)" and up: "set up \<subseteq> names res"
    and out: "out = walk_loop w ctx walker refs pos i (s # ss) res"
  shows "list_all inputs_seen (fst out) \<and> (good out \<longrightarrow> set (snd (validateStepSeq (s # ss) up)) \<subseteq> names (snd (snd out)))"
proof (cases "ww_cancelled w (rc_trace ctx) (i # pos)")
  case True
  then show ?thesis by (simp add: out)
next
  case nc: False
  have pss: "plain_arms ss" using pl by simp
  show ?thesis
  proof (cases "stepKind s")
    case KJob
    from v KJob have i0: "validateInputs s up = []" and v': "fst (validateStepSeq ss (produce s @ up)) = []"
      by (simp_all add: Let_def split_beta validateJob_def)
    have e: "snd (validateStepSeq (s # ss) up) = snd (validateStepSeq ss (produce s @ up))" using KJob by (simp add: split_beta)
    show ?thesis unfolding e
      by (rule feeds_on [OF R v' pss, of "[fst (run_leaf w ctx s res)]" "halts refs ctx s (fst (snd (run_leaf w ctx s res)))"])
        (use nc up leaf_seen [OF i0 up] KJob in \<open>auto simp: out Let_def split_beta produce_def\<close>)
  next
    case KWorkflow
    from v KWorkflow have i0: "validateInputs s up = []" and v': "fst (validateStepSeq ss (produce s @ up)) = []"
      by (simp_all add: Let_def split_beta validateWorkflowStep_def)
    have e: "snd (validateStepSeq (s # ss) up) = snd (validateStepSeq ss (produce s @ up))" using KWorkflow by (simp add: split_beta)
    let ?x = "runWorkflowStep w ctx walker s (resolveInputs s res)"
    show ?thesis unfolding e
      by (rule feeds_on [OF R v' pss, of "[EvSub s (resolveInputs s res) (map fst res) (fst ?x) (fst (snd ?x))]" "halts refs ctx s (fst (snd ?x))"])
        (use nc up leaf_seen [OF i0 up] KWorkflow in \<open>auto simp: out Let_def split_beta produce_def\<close>)
  next
    case KSequence
    let ?u = "snd (validateStepSeq (s_steps s) up)"
    let ?w = "walk_loop w ctx walker (collectBranchRefs (s_steps s)) (i # pos) 0 (s_steps s) res"
    from v KSequence have v1: "fst (validateStepSeq (s_steps s) up) = []" and v': "fst (validateStepSeq ss ?u) = []"
      by (simp_all add: Let_def split_beta)
    from pl KSequence have p1: "plain_arms (s_steps s)" by simp
    note d = feedsD [OF S v1 p1 up]
    have e: "snd (validateStepSeq (s # ss) up) = snd (validateStepSeq ss ?u)" using KSequence by (simp add: split_beta)
    show ?thesis unfolding e
      by (rule feeds_on [OF R v' pss, of "fst ?w" "fst (snd ?w) = ''danger''" "snd (snd ?w)"])
        (use nc d not_danger_good KSequence in \<open>auto simp: out Let_def split_beta\<close>)
  next
    case KParallel
    let ?u = "snd (validateArms (s_jobs s) up)" and ?o = "walk_arms w ctx walker (i # pos) 0 (s_jobs s) res"
    let ?r = "foldl (\<lambda>r o'. collect_one w (map fst res) o' r) res (arrival w (rc_trace ctx) (i # pos) ?o)"
    from v KParallel have v1: "fst (validateArms (s_jobs s) up) = []" and v': "fst (validateStepSeq ss (?u @ up)) = []"
      by (simp_all add: Let_def split_beta)
    from pl KParallel have p1: "plain_arms (s_jobs s)" by simp
    have d: "list_all inputs_seen (concat (map a_log ?o))" "list_all done_seq ?o \<Longrightarrow> set ?u \<subseteq> \<Union> (gives ` set ?o)"
      by (rule feeds_armsD [OF J v1 p1 up], rule feeds_armsD(2) [OF J v1 p1 up])
    have r: "names res \<union> \<Union> (gives ` set ?o) \<subseteq> names ?r"
      using names_collect [where w = w and pre = "map fst res" and res = res and outs = "arrival w (rc_trace ctx) (i # pos) ?o"] by (simp add: names_def)
    have f: "list_all done_seq ?o" if "\<not> list_ex (a_fatal refs) ?o"
      using that by (auto simp: list_ex_iff list_all_iff done_seq_def a_fatal_def split: arm_outcome.splits)
    have e: "snd (validateStepSeq (s # ss) up) = snd (validateStepSeq ss (?u @ up))" using KParallel by (simp add: split_beta)
    have n: "set (?u @ up) \<subseteq> names ?r" if "\<not> list_ex (a_fatal refs) ?o" using d(2) [OF f [OF that]] r up by auto
    show ?thesis unfolding e
      by (rule feeds_on [OF R v' pss d(1) n]) (use nc KParallel in \<open>auto simp: out Let_def split_beta\<close>)
  next
    case KBranch
    let ?u1 = "snd (validateStepSeq (arm (s_pass s)) up)"
    let ?u2 = "snd (validateStepSeq (arm (s_fail s)) (?u1 @ up))"
    from v KBranch have v1: "fst (validateStepSeq (arm (s_pass s)) up) = []" and v2: "fst (validateStepSeq (arm (s_fail s)) (?u1 @ up)) = []"
      and v': "fst (validateStepSeq ss (?u2 @ ?u1 @ up)) = []" and b: "validateBranch s = []"
      by (simp_all add: Let_def split_beta)
    from pl KBranch have p1: "plain_arms (arm (s_pass s))" "plain_arms (arm (s_fail s))"
      "flattenWorkflowNodes (arm (s_pass s)) = []" "flattenWorkflowNodes (arm (s_fail s)) = []" by simp_all
    have c: "st_Condition (si s) \<noteq> None" "s_pass s \<noteq> None" "s_fail s \<noteq> None"
      using b by (auto simp: validateBranch_def split: option.splits)
    let ?T = "EvaluateCondition (st_Condition (si s)) res"
    let ?tk = "if ?T then arm (s_pass s) else arm (s_fail s)" and ?sk = "if ?T then arm (s_fail s) else arm (s_pass s)"
    let ?w = "walk_loop w ctx walker (collectBranchRefs ?tk) (i # pos) 0 ?tk (skip_results ?sk res)"
    have N: "node_names (arm (s_pass s)) = s_name ` set (flattenJobNodes (arm (s_pass s)))"
      "node_names (arm (s_fail s)) = s_name ` set (flattenJobNodes (arm (s_fail s)))"
      using p1(3,4) by (simp_all add: node_names_def)
    have V1: "set ?u1 \<subseteq> set up \<union> node_names (arm (s_pass s))" using validated_names by blast
    have V2: "set ?u2 \<subseteq> set (?u1 @ up) \<union> node_names (arm (s_fail s))" using validated_names by blast
    have sk: "node_names ?sk = s_name ` set (flattenJobNodes ?sk)" using N by (simp split: if_splits)
    have M: "names res \<union> node_names ?sk \<subseteq> names (snd (snd ?w))"
      using names_mono [of "skip_results ?sk res" w ctx walker "collectBranchRefs ?tk" "i # pos" 0 ?tk] by (simp only: names_skip sk)
    have W: "list_all inputs_seen (fst ?w) \<and> (good ?w \<longrightarrow> set (?u2 @ ?u1 @ up) \<subseteq> names (snd (snd ?w)))"
    proof (cases ?T)
      case True
      then have u: "set up \<subseteq> names (skip_results ?sk res)" using up by auto
      note d = feedsD [OF A v1 p1(1) u, of "collectBranchRefs ?tk" "i # pos" 0]
      define X where "X = names (snd (snd ?w))"
      have g: "set ?u1 \<subseteq> X" if "good ?w" using d(2) that True unfolding X_def by simp
      have m: "set up \<subseteq> X" "node_names (arm (s_fail s)) \<subseteq> X" using M up True unfolding X_def by auto
      have "set ?u2 \<subseteq> X" if "good ?w" using g [OF that] m V2 unfolding set_append by blast
      then show ?thesis using d(1) g m True unfolding X_def [symmetric] set_append by simp
    next
      case False
      then have u: "set (?u1 @ up) \<subseteq> names (skip_results ?sk res)" using up V1 N by auto
      note d = feedsD [OF B v2 p1(2) u, of "collectBranchRefs ?tk" "i # pos" 0]
      define X where "X = names (snd (snd ?w))"
      have g: "set ?u2 \<subseteq> X" if "good ?w" using d(2) that False unfolding X_def by simp
      have m: "set up \<subseteq> X" "node_names (arm (s_pass s)) \<subseteq> X" using M up False unfolding X_def by auto
      have "set ?u1 \<subseteq> X" using m V1 by blast
      then show ?thesis using d(1) g m False unfolding X_def [symmetric] set_append by simp
    qed
    have e: "snd (validateStepSeq (s # ss) up) = snd (validateStepSeq ss (?u2 @ ?u1 @ up))" using KBranch by (simp add: split_beta)
    have o': "out = (if fst (snd ?w) = ''danger'' then (skip_arm w ctx ?sk @ fst ?w, ''danger'', snd (snd ?w))
         else logged (skip_arm w ctx ?sk @ fst ?w) (walk_loop w ctx walker refs pos (Suc i) ss (snd (snd ?w))))"
      using nc KBranch c by (simp add: out split_beta del: not_None_eq)
    have g: "good ?w" if "fst (snd ?w) \<noteq> ''danger''" using that by (rule not_danger_good)
    show ?thesis unfolding e
      by (rule feeds_on [OF R v' pss _ _ o']) (use W g in auto)
  next
    case KOther
    with v show ?thesis by (simp add: Let_def split_beta)
  qed
qed

lemma feeds_arms_step:
  assumes S: "feeds w ctx walker (s_steps a)" and R: "feeds_arms w ctx walker as"
  shows "feeds_arms w ctx walker (a # as)"
  unfolding feeds_arms_def
proof (intro allI impI, elim conjE)
  fix up pos i res
  assume v: "fst (validateArms (a # as) up) = []" and pl: "plain_arms (a # as)" and up: "set up \<subseteq> names res"
  let ?o = "walk_arms w ctx walker pos (Suc i) as res"
  from v have v': "fst (validateArms as up) = []" by (simp add: Let_def split_beta)
  from pl have p': "plain_arms as" by simp
  have r: "list_all inputs_seen (concat (map a_log ?o))" "list_all done_seq ?o \<Longrightarrow> set (snd (validateArms as up)) \<subseteq> \<Union> (gives ` set ?o)"
    by (rule feeds_armsD [OF R v' p' up], rule feeds_armsD(2) [OF R v' p' up])
  show "let outs = walk_arms w ctx walker pos i (a # as) res
      in list_all inputs_seen (concat (map a_log outs)) \<and>
         (list_all done_seq outs \<longrightarrow> set (snd (validateArms (a # as) up)) \<subseteq> \<Union> (gives ` set outs))"
  proof (cases "stepKind a = KSequence")
    case True
    then have t: "st_Type (si a) = ''sequence''" by (simp add: sequence_type)
    let ?w = "walk_loop w ctx walker (collectBranchRefs (s_steps a)) (i # pos) 0 (s_steps a) res"
    from v True have v1: "fst (validateStepSeq (s_steps a) up) = []" by (simp add: Let_def split_beta)
    from pl True have p1: "plain_arms (s_steps a)" by simp
    note d = feedsD [OF S v1 p1 up, of "collectBranchRefs (s_steps a)" "i # pos" 0]
    show ?thesis using d r t True not_danger_good by (auto simp: Let_def split_beta done_seq_def gives_def)
  next
    case False
    with v have j: "stepKind a = KJob" by (cases "stepKind a") (auto simp: Let_def split_beta)
    have t: "st_Type (si a) \<noteq> ''sequence''" using False by (simp add: sequence_type)
    from v j have i0: "validateInputs a up = []" by (simp add: Let_def split_beta validateArmJob_def)
    show ?thesis using leaf_seen [OF i0 up] r t j
      by (auto simp: Let_def split_beta done_seq_def gives_def produce_def)
  qed
qed

lemma walk_feeds: "feeds w ctx walker g \<and> feeds_arms w ctx walker g"
proof (induction g rule: graph_induct)
  case (Step s ss)
  then have "feeds w ctx walker (s # ss)"
    unfolding feeds_def [of w ctx walker "s # ss"] Let_def by (intro allI impI feeds_step) (auto simp only:)
  moreover have "feeds_arms w ctx walker (s # ss)" using Step by (intro feeds_arms_step) simp_all
  ultimately show ?case by blast
qed simp

text \<open>C7: on a graph \<open>ValidateSteps\<close> accepts whose branch arms hold no sub-workflow step, every job or
  sub-workflow step the walk dispatches finds, at that moment, a result recorded under the name of each
  step its inputs read from: no input of a validated graph is silently empty for want of its producer.\<close>

theorem inputs_have_their_producer:
  assumes "ValidateSteps g = []" and "plain_arms g"
  shows "list_all inputs_seen (fst (walkSteps w ctx walker pos g []))"
  using walk_feeds [of w ctx walker g] assms feedsD(1) [of w ctx walker g "[]" "[]"]
  by (simp add: walkSteps_def ValidateSteps_def)

theorem inputs_have_their_producer_witness:
  "\<forall>ctx walker. list_all inputs_seen (fst (walkSteps cyclic_world ctx walker [] demo_branch []))"
proof -
  have "ValidateSteps demo_branch = []" "plain_arms demo_branch" by code_simp+
  from inputs_have_their_producer [OF this] show ?thesis by blast
qed

end
