(* ===== verification/Workflow_Resolve.thy ===== *)
theory Workflow_Resolve
  imports Workflow_Walk_Props
begin

text \<open>
  How the names of a graph are resolved (\<open>backend/internal/workflow/engine.go\<close>, \<open>subworkflow.go\<close>,
  \<open>agencyid/sql.go\<close>): the home of a workflow, the job a step means, the workflow a sub-workflow step
  means, and the walk that lists what a run may reach, on which authorization is asked. The database
  is the three tables the queries read, in the order of their rows; a query does not fail. The JSON
  codec of a graph is the argument \<open>parse\<close>.
\<close>

section \<open>Tables\<close>

record def_row = job_row +
  dr_scope :: string
  dr_targetHost :: string
  dr_timeout :: int
  dr_concurrencyKey :: string
  dr_retries :: int
  dr_backoff :: int
  dr_continue :: bool
  dr_sshUser :: string
  dr_sshCred :: string
  dr_enabled :: bool
  dr_deleted :: bool
  dr_owner :: "string option"

record wf_def =
  wd_rowid :: int
  wd_uid :: string
  wd_name :: string
  wd_source :: string
  wd_repo :: "string option"
  wd_owner :: string
  wd_steps :: string
  wd_enabled :: bool
  wd_deleted :: bool

record defs_db =
  db_jobs :: "def_row list"
  db_workflows :: "wf_def list"
  db_repos :: "(string \<times> string) list"

definition Global :: string where "Global = ''global''"

definition coalesce :: "'a option \<Rightarrow> 'a \<Rightarrow> 'a" where
  "coalesce x d = (case x of None \<Rightarrow> d | Some y \<Rightarrow> y)"

lemma coalesce_simps [simp]: "coalesce None d = d" "coalesce (Some x) d = x"
  by (simp_all add: coalesce_def)

definition Owner :: "string option \<Rightarrow> string" where
  "Owner e = (case e of None \<Rightarrow> Global | Some a \<Rightarrow> if a = [] then Global else a)"

definition JobSQL :: "defs_db \<Rightarrow> def_row \<Rightarrow> string option" where
  "JobSQL db j = (if j_source j = ''git'' \<and> j_repo_id j \<noteq> None then map_of (db_repos db) (the (j_repo_id j)) else dr_owner j)"

definition JobOwnerSQL :: "defs_db \<Rightarrow> def_row \<Rightarrow> string" where
  "JobOwnerSQL db j = Owner (JobSQL db j)"

definition WorkflowSQL :: "defs_db \<Rightarrow> wf_def \<Rightarrow> string option" where
  "WorkflowSQL db w = (if wd_source w = ''git'' then map_of (db_repos db) (coalesce (wd_repo w) Global) else Some (wd_owner w))"

definition workflow_at :: "defs_db \<Rightarrow> int \<Rightarrow> wf_def option" where
  "workflow_at db rowid = List.find (\<lambda>w. wd_rowid w = rowid) (db_workflows db)"

text \<open>An SQL comparison with NULL on either side is not true.\<close>

definition sameAgency :: "defs_db \<Rightarrow> int \<Rightarrow> int \<Rightarrow> bool" where
  "sameAgency db a b =
     (case (Option.bind (workflow_at db a) (WorkflowSQL db), Option.bind (workflow_at db b) (WorkflowSQL db)) of
        (Some x, Some y) \<Rightarrow> x = y | _ \<Rightarrow> False)"

section \<open>Homes\<close>

definition agencyHomePrefix :: string where "agencyHomePrefix = CHR 0x00 # ''agency:''"

definition AgencyHome :: "string \<Rightarrow> string" where "AgencyHome agency = agencyHomePrefix @ agency"

definition homeAgency :: "string \<Rightarrow> string option" where
  "homeAgency home = (if has_prefix home agencyHomePrefix then Some (drop (length agencyHomePrefix) home) else None)"

definition homeRepoSQL :: "defs_db \<Rightarrow> string \<Rightarrow> string option \<Rightarrow> bool" where
  "homeRepoSQL db home repo =
     (case homeAgency home of
        Some a \<Rightarrow> \<exists>g \<in> set (db_repos db). snd g = a \<and> fst g = coalesce repo Global
      | None \<Rightarrow> coalesce repo Global = home)"

definition Home :: "defs_db \<Rightarrow> int \<Rightarrow> string" where
  "Home db rowid =
     (case workflow_at db rowid of None \<Rightarrow> []
      | Some w \<Rightarrow> if wd_source w = ''git'' then coalesce (wd_repo w) Global
                  else AgencyHome (if wd_owner w = [] then Global else wd_owner w))"

definition agencyOfHome :: "defs_db \<Rightarrow> string \<Rightarrow> string" where
  "agencyOfHome db home =
     (if home = [] then []
      else case homeAgency home of Some a \<Rightarrow> a
           | None \<Rightarrow> coalesce (map_of (db_repos db) home) (CHR 0x00 # ''no-agency''))"

lemma homeAgency_AgencyHome [simp]: "homeAgency (AgencyHome a) = Some a"
  by (simp add: homeAgency_def AgencyHome_def)

section \<open>The job a step means\<close>

definition IdentityCapableRunType :: "string \<Rightarrow> bool" where
  "IdentityCapableRunType rt \<longleftrightarrow> rt \<in> {''bash'', ''perl'', ''powershell'', ''python'', ''ansible''}"

definition ReasonBinned :: string where "ReasonBinned = ''Refused: the referenced job is in the recycle bin''"
definition ReasonDisabled :: string where "ReasonDisabled = ''Refused: the referenced job is disabled''"
definition ReasonDangling :: string where "ReasonDangling = ''Refused: the job this step points to no longer exists''"
definition ReasonAmbiguous :: string where
  "ReasonAmbiguous = ''Refused: this name matches more than one job; qualify the step by identity''"

text \<open>The closure \<open>scan\<close>, on the row it found.\<close>

definition job_def_of :: "defs_db \<Rightarrow> def_row \<Rightarrow> jobDef" where
  "job_def_of db j =
     (let ident = IdentityCapableRunType (j_run_type j)
      in \<lparr>jd_runType = j_run_type j, jd_scope = dr_scope j, jd_source = [], jd_targetHost = dr_targetHost j,
          jd_sshUser = (if ident then dr_sshUser j else []), jd_sshCred = (if ident then dr_sshCred j else []),
          jd_timeout = dr_timeout j, jd_uid = j_uid j, jd_agency = coalesce (JobSQL db j) Global,
          jd_concurrencyKey = dr_concurrencyKey j, jd_retries = dr_retries j, jd_backoffSeconds = dr_backoff j,
          jd_continueOnError = dr_continue j,
          jd_unavailable = (if dr_deleted j then ReasonBinned else if \<not> dr_enabled j then ReasonDisabled else [])\<rparr>)"

definition refused_def :: "string \<Rightarrow> string \<Rightarrow> jobDef" where
  "refused_def src reason = no_def\<lparr>jd_runType := ''bash'', jd_source := src, jd_unavailable := reason\<rparr>"

definition of_home :: "defs_db \<Rightarrow> string \<Rightarrow> string \<Rightarrow> def_row \<Rightarrow> bool" where
  "of_home db name home j \<longleftrightarrow> j_name j = name \<and> j_source j = ''git'' \<and> homeRepoSQL db home (j_repo_id j)"

definition of_agency :: "defs_db \<Rightarrow> string \<Rightarrow> string \<Rightarrow> def_row \<Rightarrow> bool" where
  "of_agency db name agency j \<longleftrightarrow> j_name j = name \<and> j_source j = ''cronomicon'' \<and> JobOwnerSQL db j = agency"

definition of_source :: "string \<Rightarrow> string \<Rightarrow> def_row \<Rightarrow> bool" where
  "of_source name src j \<longleftrightarrow> j_name j = name \<and> j_source j = src"

text \<open>The one row a name means among those that match: none, the row, or a refusal.\<close>

definition the_one :: "defs_db \<Rightarrow> string \<Rightarrow> (def_row \<Rightarrow> bool) \<Rightarrow> jobDef option" where
  "the_one db src match =
     (case filter match (db_jobs db) of [] \<Rightarrow> None | [j] \<Rightarrow> Some (job_def_of db j)
      | _ \<Rightarrow> Some (refused_def src ReasonAmbiguous))"

definition resolve_source :: "defs_db \<Rightarrow> string \<Rightarrow> string \<Rightarrow> string \<Rightarrow> jobDef option" where
  "resolve_source db name home src =
     (if src = ''git'' \<and> home \<noteq> [] then map_option (job_def_of db) (List.find (of_home db name home) (db_jobs db))
      else if src = ''cronomicon'' \<and> agencyOfHome db home \<noteq> [] then the_one db src (of_agency db name (agencyOfHome db home))
      else the_one db src (of_source name src))"

fun resolve_order :: "defs_db \<Rightarrow> string \<Rightarrow> string \<Rightarrow> string list \<Rightarrow> (string \<times> jobDef) option" where
  "resolve_order db name home [] = None"
| "resolve_order db name home (src # srcs) =
     (case resolve_source db name home src of Some jd \<Rightarrow> Some (src, jd) | None \<Rightarrow> resolve_order db name home srcs)"

definition resolveJobDef :: "defs_db \<Rightarrow> step_ref \<Rightarrow> string \<Rightarrow> string \<Rightarrow> (string \<times> jobDef) option" where
  "resolveJobDef db ref wfSource home =
     (if ref_UID ref \<noteq> []
      then (case List.find (\<lambda>j. j_uid j = ref_UID ref) (db_jobs db) of
              Some j \<Rightarrow> Some (j_source j, job_def_of db j)
            | None \<Rightarrow> Some (hd (StepSourceOrder (ref_Source ref) wfSource), no_def\<lparr>jd_runType := ''bash'', jd_unavailable := ReasonDangling\<rparr>))
      else resolve_order db (ref_Name ref) home (StepSourceOrder (ref_Source ref) wfSource))"

definition lookupJobDefs :: "defs_db \<Rightarrow> step list \<Rightarrow> string \<Rightarrow> string \<Rightarrow> job_defs" where
  "lookupJobDefs db steps wfSource home =
     (let src = (if wfSource = [] then ''git'' else wfSource)
      in List.map_filter (\<lambda>ref. map_option (\<lambda>(s, jd). (ref_Key ref, jd\<lparr>jd_source := s\<rparr>)) (resolveJobDef db ref src home))
           (collectStepRefs steps))"

section \<open>The workflow a sub-workflow step means\<close>

type_synonym steps_codec = "string \<Rightarrow> step list option"

definition ParseSteps :: "steps_codec \<Rightarrow> string \<Rightarrow> step list option" where
  "ParseSteps parse raw = (if raw = [] \<or> raw = ''[]'' then Some [] else parse raw)"

definition off :: "wf_def \<Rightarrow> bool" where "off w \<longleftrightarrow> \<not> wd_enabled w \<or> wd_deleted w"

text \<open>Where a child's own names are looked up.\<close>

definition childHome :: "string \<Rightarrow> wf_def \<Rightarrow> string" where
  "childHome src w =
     (if src = ''git'' then (case wd_repo w of None \<Rightarrow> Global | Some r \<Rightarrow> if r = [] then Global else r)
      else AgencyHome (if wd_owner w = [] then Global else wd_owner w))"

type_synonym loaded = "string \<times> step list \<times> int \<times> string"

datatype found = Missing | Barred | Found wf_def

definition first_where :: "defs_db \<Rightarrow> (wf_def \<Rightarrow> bool) \<Rightarrow> found" where
  "first_where db match = (case List.find match (db_workflows db) of None \<Rightarrow> Missing | Some w \<Rightarrow> Found w)"

definition barred_if_off :: "found \<Rightarrow> found" where
  "barred_if_off f = (case f of Found w \<Rightarrow> if off w then Barred else Found w | _ \<Rightarrow> f)"

text \<open>One source of the precedence; \<open>Barred\<close> ends the search.\<close>

definition find_child :: "defs_db \<Rightarrow> string \<Rightarrow> string \<Rightarrow> string \<Rightarrow> found" where
  "find_child db name home src =
     (let agency = agencyOfHome db home in
      if src = ''git'' \<and> home \<noteq> [] then
        barred_if_off (first_where db (\<lambda>w. wd_name w = name \<and> wd_source w = ''git'' \<and> homeRepoSQL db home (wd_repo w)))
      else if src = ''cronomicon'' \<and> agency \<noteq> [] then
        first_where db (\<lambda>w. wd_name w = name \<and> wd_source w = ''cronomicon'' \<and> \<not> off w \<and> wd_owner w = agency)
      else if src = ''cronomicon'' then
        (case filter (\<lambda>w. wd_name w = name \<and> wd_source w = ''cronomicon'') (db_workflows db) of
           [] \<Rightarrow> Missing | [w] \<Rightarrow> if off w then Barred else Found w | _ \<Rightarrow> Barred)
      else
        barred_if_off (first_where db (\<lambda>w. wd_name w = name \<and> wd_source w = ''git'' \<and> coalesce (wd_repo w) Global = Global)))"

fun load_order :: "defs_db \<Rightarrow> steps_codec \<Rightarrow> string \<Rightarrow> string \<Rightarrow> string list \<Rightarrow> loaded option" where
  "load_order db parse name home [] = None"
| "load_order db parse name home (src # srcs) =
     (case find_child db name home src of
        Missing \<Rightarrow> load_order db parse name home srcs
      | Barred \<Rightarrow> None
      | Found w \<Rightarrow> (case ParseSteps parse (wd_steps w) of
           None \<Rightarrow> load_order db parse name home srcs
         | Some steps \<Rightarrow> Some (src, steps, wd_rowid w, childHome src w)))"

definition loadChildWorkflow :: "defs_db \<Rightarrow> steps_codec \<Rightarrow> workflow_ref \<Rightarrow> string \<Rightarrow> string \<Rightarrow> loaded option" where
  "loadChildWorkflow db parse ref parentSource home =
     (if snd ref \<noteq> []
      then (case List.find (\<lambda>w. wd_uid w = snd ref) (db_workflows db) of
              None \<Rightarrow> None
            | Some w \<Rightarrow> if off w then None
                else map_option (\<lambda>steps. (wd_source w, steps, wd_rowid w, childHome (wd_source w) w)) (ParseSteps parse (wd_steps w)))
      else load_order db parse (fst ref) home
             (if parentSource = ''git'' then [''git'', ''cronomicon''] else [parentSource, ''git'']))"

text \<open>\<open>LoadForFire\<close>: what a schedule entry or a parked run starts.\<close>

datatype fire_error = NoSuchWorkflow | AmbiguousWorkflow | BadSteps

definition LoadForFire :: "defs_db \<Rightarrow> steps_codec \<Rightarrow> string \<Rightarrow> string \<Rightarrow> string \<Rightarrow> fire_error + int \<times> step list" where
  "LoadForFire db parse uid source name =
     (let named = filter (\<lambda>w. wd_source w = source \<and> wd_name w = name) (db_workflows db);
          row = (if uid \<noteq> [] then List.find (\<lambda>w. wd_uid w = uid) (db_workflows db) else List.find (\<lambda>_. True) named)
      in if uid = [] \<and> length named > 1 then Inl AmbiguousWorkflow
         else case row of None \<Rightarrow> Inl NoSuchWorkflow
           | Some w \<Rightarrow> (case ParseSteps parse (wd_steps w) of None \<Rightarrow> Inl BadSteps | Some steps \<Rightarrow> Inr (wd_rowid w, steps)))"

section \<open>What a run may reach\<close>

text \<open>The nested function \<open>walk\<close>, over the references of one graph: \<open>walkedAt\<close> and what was visited.\<close>

type_synonym walked = "(int \<Rightarrow> nat option) \<times> jobDef list"

function walk_refs :: "defs_db \<Rightarrow> steps_codec \<Rightarrow> workflow_ref list \<Rightarrow> string \<Rightarrow> string \<Rightarrow> nat \<Rightarrow> walked \<Rightarrow> walked" where
  "walk_refs db parse [] source home depth st = st"
| "walk_refs db parse (r # rs) source home depth st =
     walk_refs db parse rs source home depth
       (case loadChildWorkflow db parse r source home of
          None \<Rightarrow> st
        | Some (src', steps', rowid, home') \<Rightarrow>
            (if (case fst st rowid of None \<Rightarrow> False | Some prev \<Rightarrow> prev \<le> depth) then st
             else
               let st' = ((fst st)(rowid \<mapsto> depth), snd st @ map snd (lookupJobDefs db steps' src' home'))
               in if DepthExceeded (depth + 1) then st'
                  else walk_refs db parse (collectWorkflowRefs steps') (if src' = [] then ''git'' else src') home' (depth + 1) st'))"
  by pat_completeness auto
termination
  by (relation "measures [\<lambda>(db, parse, rs, source, home, depth, st). MaxWorkflowDepth + 1 - depth,
        \<lambda>(db, parse, rs, source, home, depth, st). length rs]") (auto simp: DepthExceeded_def)

definition walkSubWorkflowJobs :: "defs_db \<Rightarrow> steps_codec \<Rightarrow> step list \<Rightarrow> string \<Rightarrow> string \<Rightarrow> jobDef list" where
  "walkSubWorkflowJobs db parse steps wfSource home =
     snd (walk_refs db parse (collectWorkflowRefs steps) (if wfSource = [] then ''git'' else wfSource) home 1 (\<lambda>_. None, []))"

definition agency_scope :: "jobDef \<Rightarrow> string \<times> string" where
  "agency_scope jd = (jd_agency jd, jd_scope jd)"

definition SubWorkflowJobAgencyScopesAt :: "defs_db \<Rightarrow> steps_codec \<Rightarrow> step list \<Rightarrow> string \<Rightarrow> string \<Rightarrow> (string \<times> string) list" where
  "SubWorkflowJobAgencyScopesAt db parse steps wfSource home =
     rev (remdups (rev (map agency_scope (walkSubWorkflowJobs db parse steps wfSource home))))"

definition JobAgencyScopesAt :: "defs_db \<Rightarrow> steps_codec \<Rightarrow> step list \<Rightarrow> string \<Rightarrow> string \<Rightarrow> (string \<times> string) list" where
  "JobAgencyScopesAt db parse steps wfSource home =
     rev (remdups (rev (map agency_scope (map snd (lookupJobDefs db steps wfSource home) @ walkSubWorkflowJobs db parse steps wfSource home))))"

end
