(* ===== verification/Workflow_Authorize.thy ===== *)
theory Workflow_Authorize
  imports Workflow_Resolve Workflow_Inputs
begin

text \<open>
  Authorization asks what execution answers: the list of agencies and scopes on which a trigger is
  authorized is shown to hold those of every job definition that a run, with all its sub-workflows to the
  depth ceiling, may dispatch. The search that computes it prunes by the shallowest depth at which a
  workflow was walked; it is compared with plain reachability.
\<close>

section \<open>Loading\<close>

definition sources :: "string set" where "sources = {''git'', ''cronomicon''}"

definition wf_db :: "defs_db \<Rightarrow> bool" where
  "wf_db db \<longleftrightarrow> distinct (map wd_rowid (db_workflows db)) \<and> (\<forall>w \<in> set (db_workflows db). wd_source w \<in> sources)"

abbreviation l_src :: "loaded \<Rightarrow> string" where "l_src l \<equiv> fst l"
abbreviation l_steps :: "loaded \<Rightarrow> step list" where "l_steps l \<equiv> fst (snd l)"
abbreviation l_row :: "loaded \<Rightarrow> int" where "l_row l \<equiv> fst (snd (snd l))"
abbreviation l_home :: "loaded \<Rightarrow> string" where "l_home l \<equiv> snd (snd (snd l))"

definition loaded_of :: "steps_codec \<Rightarrow> wf_def \<Rightarrow> loaded option" where
  "loaded_of parse w = map_option (\<lambda>steps. (wd_source w, steps, wd_rowid w, childHome (wd_source w) w)) (ParseSteps parse (wd_steps w))"

lemma find_child_Found:
  "find_child db name home src = Found w \<Longrightarrow> src \<in> sources \<Longrightarrow> w \<in> set (db_workflows db) \<and> wd_source w = src \<and> wd_name w = name \<and> \<not> off w"
  by (auto simp: find_child_def first_where_def barred_if_off_def Let_def sources_def find_Some_iff
      split: option.splits if_splits list.splits found.splits dest!: filter_eq_ConsD)

lemma load_order_Some:
  "load_order db parse name home srcs = Some l \<Longrightarrow> set srcs \<subseteq> sources \<Longrightarrow>
   \<exists>w \<in> set (db_workflows db). loaded_of parse w = Some l \<and> \<not> off w"
proof (induction srcs)
  case (Cons src srcs)
  show ?case
  proof (cases "find_child db name home src")
    case (Found w)
    with Cons.prems find_child_Found [of db name home src w]
    have w: "w \<in> set (db_workflows db)" "wd_source w = src" "\<not> off w" by auto
    show ?thesis
    proof (cases "ParseSteps parse (wd_steps w)")
      case None
      with Found Cons show ?thesis by simp
    next
      case (Some steps)
      with Found Cons.prems w show ?thesis by (auto simp: loaded_of_def)
    qed
  qed (use Cons in auto)
qed simp

lemma load_Some:
  assumes "loadChildWorkflow db parse r source home = Some l" "source \<in> sources"
  shows "\<exists>w \<in> set (db_workflows db). loaded_of parse w = Some l \<and> \<not> off w"
proof (cases "snd r = []")
  case True
  with assms show ?thesis
    unfolding loadChildWorkflow_def by (intro load_order_Some) (auto simp: sources_def split: if_splits)
next
  case False
  with assms(1) show ?thesis
    by (auto simp: loadChildWorkflow_def loaded_of_def find_Some_iff split: option.splits if_splits)
qed

definition loads :: "defs_db \<Rightarrow> steps_codec \<Rightarrow> loaded set" where
  "loads db parse = {l. \<exists>r s h. s \<in> sources \<and> loadChildWorkflow db parse r s h = Some l}"

lemma loads_unique: "wf_db db \<Longrightarrow> l \<in> loads db parse \<Longrightarrow> l' \<in> loads db parse \<Longrightarrow> l_row l = l_row l' \<Longrightarrow> l = l'"
proof -
  assume wf: "wf_db db" and l: "l \<in> loads db parse" "l' \<in> loads db parse" "l_row l = l_row l'"
  from l obtain w w' where w: "w \<in> set (db_workflows db)" "loaded_of parse w = Some l" "w' \<in> set (db_workflows db)" "loaded_of parse w' = Some l'"
    unfolding loads_def using load_Some by blast
  then have "wd_rowid w = wd_rowid w'" using l(3) by (auto simp: loaded_of_def)
  with wf w(1,3) have "w = w'" unfolding wf_db_def by (auto simp: distinct_map inj_on_def)
  with w show "l = l'" by simp
qed

lemma loads_src: "wf_db db \<Longrightarrow> l \<in> loads db parse \<Longrightarrow> l_src l \<in> sources \<and> l_src l \<noteq> []"
proof -
  assume wf: "wf_db db" and "l \<in> loads db parse"
  then obtain w where w: "w \<in> set (db_workflows db)" "loaded_of parse w = Some l"
    unfolding loads_def using load_Some by blast
  have "wd_source w \<in> sources" using wf w(1) by (simp add: wf_db_def)
  then show ?thesis using w(2) by (auto simp: loaded_of_def sources_def)
qed

lemma loadsI: "loadChildWorkflow db parse r s h = Some l \<Longrightarrow> s \<in> sources \<Longrightarrow> l \<in> loads db parse"
  unfolding loads_def by blast

section \<open>Reachability\<close>

definition defs_of :: "defs_db \<Rightarrow> loaded \<Rightarrow> jobDef set" where
  "defs_of db l = snd ` set (lookupJobDefs db (l_steps l) (l_src l) (l_home l))"

definition child :: "defs_db \<Rightarrow> steps_codec \<Rightarrow> step list \<Rightarrow> string \<Rightarrow> string \<Rightarrow> loaded \<Rightarrow> bool" where
  "child db parse steps source home l \<longleftrightarrow>
     (\<exists>r \<in> set (collectWorkflowRefs steps). loadChildWorkflow db parse r source home = Some l)"

text \<open>A workflow loaded by a chain of \<open>n\<close> references from a graph.\<close>

inductive reaches :: "defs_db \<Rightarrow> steps_codec \<Rightarrow> step list \<Rightarrow> string \<Rightarrow> string \<Rightarrow> nat \<Rightarrow> loaded \<Rightarrow> bool"
  for db parse steps source home where
  first: "child db parse steps source home l \<Longrightarrow> reaches db parse steps source home 1 l"
| next_level: "reaches db parse steps source home n l \<Longrightarrow> child db parse (l_steps l) (l_src l) (l_home l) l' \<Longrightarrow>
    reaches db parse steps source home (Suc n) l'"

section \<open>The pruned search is complete\<close>

definition earlier :: "(int \<Rightarrow> nat option) \<Rightarrow> (int \<Rightarrow> nat option) \<Rightarrow> bool" where
  "earlier at at' \<longleftrightarrow> (\<forall>r d. at r = Some d \<longrightarrow> (\<exists>d' \<le> d. at' r = Some d'))"

lemma earlier_refl [simp]: "earlier at at" and earlier_trans: "earlier at at1 \<Longrightarrow> earlier at1 at2 \<Longrightarrow> earlier at at2"
  unfolding earlier_def using order_trans by (blast, metis)

text \<open>What was walked at depth \<open>d\<close> is visited, and its children were walked at depth \<open>d + 1\<close> or above.\<close>

definition closed :: "defs_db \<Rightarrow> steps_codec \<Rightarrow> walked \<Rightarrow> int \<Rightarrow> nat \<Rightarrow> bool" where
  "closed db parse st r d \<longleftrightarrow> (\<forall>l \<in> loads db parse. l_row l = r \<longrightarrow>
     defs_of db l \<subseteq> set (snd st) \<and>
     (\<not> DepthExceeded (d + 1) \<longrightarrow> (\<forall>l'. child db parse (l_steps l) (l_src l) (l_home l) l' \<longrightarrow> (\<exists>d' \<le> d + 1. fst st (l_row l') = Some d'))))"

lemma closed_mono:
  "closed db parse st r d \<Longrightarrow> earlier (fst st) (fst st') \<Longrightarrow> set (snd st) \<subseteq> set (snd st') \<Longrightarrow> closed db parse st' r d"
  unfolding closed_def earlier_def by (meson order_trans subset_trans)

definition walked_ok :: "defs_db \<Rightarrow> steps_codec \<Rightarrow> workflow_ref list \<Rightarrow> string \<Rightarrow> string \<Rightarrow> nat \<Rightarrow> walked \<Rightarrow> walked \<Rightarrow> bool" where
  "walked_ok db parse rs source home depth st st' \<longleftrightarrow>
     earlier (fst st) (fst st') \<and> set (snd st) \<subseteq> set (snd st') \<and>
     (\<forall>r \<in> set rs. \<forall>l. loadChildWorkflow db parse r source home = Some l \<longrightarrow> (\<exists>d \<le> depth. fst st' (l_row l) = Some d)) \<and>
     (\<forall>c d. fst st' c = Some d \<longrightarrow> fst st c = Some d \<or> closed db parse st' c d)"

lemma walked_okD:
  assumes "walked_ok db parse rs source home depth st st'"
  shows "earlier (fst st) (fst st')" "set (snd st) \<subseteq> set (snd st')"
    "r \<in> set rs \<Longrightarrow> loadChildWorkflow db parse r source home = Some l \<Longrightarrow> \<exists>d \<le> depth. fst st' (l_row l) = Some d"
    "fst st' c = Some d \<Longrightarrow> fst st c = Some d \<or> closed db parse st' c d"
  using assms unfolding walked_ok_def by blast+

lemma walked_ok_Cons:
  assumes 1: "earlier (fst st) (fst st1)" "set (snd st) \<subseteq> set (snd st1)"
    and r: "\<And>l. loadChildWorkflow db parse r source home = Some l \<Longrightarrow> \<exists>d \<le> depth. fst st1 (l_row l) = Some d"
    and c: "\<And>c d. fst st1 c = Some d \<Longrightarrow> fst st c = Some d \<or> closed db parse st1 c d"
    and rest: "walked_ok db parse rs source home depth st1 st2"
  shows "walked_ok db parse (r # rs) source home depth st st2"
  unfolding walked_ok_def
proof (intro conjI ballI allI impI)
  note w = walked_okD [OF rest]
  show "earlier (fst st) (fst st2)" using 1(1) w(1) by (rule earlier_trans)
  show "set (snd st) \<subseteq> set (snd st2)" using 1(2) w(2) by blast
  show "\<exists>d \<le> depth. fst st2 (l_row l) = Some d" if "r' \<in> set (r # rs)" "loadChildWorkflow db parse r' source home = Some l" for r' l
  proof (cases "r' = r")
    case True
    with r that(2) obtain d where "d \<le> depth" "fst st1 (l_row l) = Some d" by blast
    with w(1) show ?thesis unfolding earlier_def by (meson order_trans)
  qed (use w(3) that in auto)
  show "fst st c' = Some d \<or> closed db parse st2 c' d" if "fst st2 c' = Some d" for c' d
    using w(4) [OF that] c [of c' d] closed_mono [OF _ w(1,2)] by blast
qed

lemma walk_refs_ok:
  "wf_db db \<Longrightarrow> source \<in> sources \<Longrightarrow> \<not> DepthExceeded depth \<Longrightarrow>
    walked_ok db parse rs source home depth st (walk_refs db parse rs source home depth st)"
proof (induction db parse rs source home depth st rule: walk_refs.induct)
  case (1 db parse source home depth st)
  then show ?case by (simp add: walked_ok_def)
next
  case (2 db parse r rs source home depth st)
  show ?case
  proof (cases "loadChildWorkflow db parse r source home")
    case None
    with 2 show ?thesis by (auto intro!: walked_ok_Cons [of st st])
  next
    case l: (Some l)
    obtain src' steps' rowid home' where t: "l = (src', steps', rowid, home')" by (cases l)
    have lin: "l \<in> loads db parse" using l 2(4) by (rule loadsI)
    have src': "src' \<in> sources" "src' \<noteq> []" using loads_src [OF 2(3) lin] t by auto
    let ?prune = "case fst st rowid of None \<Rightarrow> False | Some prev \<Rightarrow> prev \<le> depth"
    let ?st' = "((fst st)(rowid \<mapsto> depth), snd st @ map snd (lookupJobDefs db steps' src' home'))"
    show ?thesis
    proof (cases ?prune)
      case True
      then obtain prev where "fst st rowid = Some prev" "prev \<le> depth" by (auto split: option.splits)
      with True l t 2 show ?thesis by (auto intro!: walked_ok_Cons [of st st])
    next
      case np: False
      have e: "earlier (fst st) (fst ?st')" using np by (auto simp: earlier_def split: option.splits)
      have own: "closed db parse st1 rowid depth"
        if "set (snd ?st') \<subseteq> set (snd st1)"
          "\<not> DepthExceeded (depth + 1) \<Longrightarrow> (\<forall>l'. child db parse steps' src' home' l' \<longrightarrow> (\<exists>d' \<le> depth + 1. fst st1 (l_row l') = Some d'))" for st1
        unfolding closed_def
      proof (intro ballI impI)
        fix k assume "k \<in> loads db parse" "l_row k = rowid"
        then have "k = l" using loads_unique [OF 2(3) _ lin] t by auto
        then show "defs_of db k \<subseteq> set (snd st1) \<and> (\<not> DepthExceeded (depth + 1) \<longrightarrow>
            (\<forall>l'. child db parse (l_steps k) (l_src k) (l_home k) l' \<longrightarrow> (\<exists>d' \<le> depth + 1. fst st1 (l_row l') = Some d')))"
          using that t by (auto simp: defs_of_def)
      qed
      define st1 where "st1 = (if DepthExceeded (depth + 1) then ?st'
        else walk_refs db parse (collectWorkflowRefs steps') (if src' = [] then ''git'' else src') home' (depth + 1) ?st')"
      have eq: "walk_refs db parse (r # rs) source home depth st = walk_refs db parse rs source home depth st1"
        using l t np by (simp add: st1_def Let_def)
      have s1: "earlier (fst ?st') (fst st1) \<and> set (snd ?st') \<subseteq> set (snd st1) \<and>
        (\<forall>c d. fst st1 c = Some d \<longrightarrow> (fst ?st' c = Some d \<and> c \<noteq> rowid) \<or> closed db parse st1 c d)"
      proof (cases "DepthExceeded (depth + 1)")
        case True
        then have "st1 = ?st'" by (simp add: st1_def)
        with own [of st1] True show ?thesis by auto
      next
        case False
        have w: "walked_ok db parse (collectWorkflowRefs steps') src' home' (depth + 1) ?st' st1"
          using 2(1) [OF l t [symmetric] refl refl np refl False] 2(3) src' False by (simp add: st1_def)
        note d = walked_okD [OF w]
        have o: "closed db parse st1 rowid depth" by (rule own) (use d(2,3) in \<open>auto simp: child_def\<close>)
        have "fst ?st' c = Some x \<and> c \<noteq> rowid \<or> closed db parse st1 c x" if "fst st1 c = Some x" for c x
          using d(4) [OF that] o by (cases "c = rowid") auto
        with d(1,2) show ?thesis by blast
      qed
      have w2: "walked_ok db parse rs source home depth st1 (walk_refs db parse rs source home depth st1)"
      proof -
        have "(case loadChildWorkflow db parse r source home of None \<Rightarrow> st
          | Some (src', steps', rowid, home') \<Rightarrow>
            (if (case fst st rowid of None \<Rightarrow> False | Some prev \<Rightarrow> prev \<le> depth) then st
             else let st' = ((fst st)(rowid \<mapsto> depth), snd st @ map snd (lookupJobDefs db steps' src' home'))
               in if DepthExceeded (depth + 1) then st'
                  else walk_refs db parse (collectWorkflowRefs steps') (if src' = [] then ''git'' else src') home' (depth + 1) st')) = st1"
          using l t np by (simp add: st1_def Let_def)
        from 2(2) [OF 2(3-5), unfolded this] show ?thesis .
      qed
      show ?thesis unfolding eq
      proof (rule walked_ok_Cons [OF _ _ _ _ w2])
        show "earlier (fst st) (fst st1)" using e s1 earlier_trans by blast
        show "set (snd st) \<subseteq> set (snd st1)" using s1 by auto
        show "\<exists>d \<le> depth. fst st1 (l_row k) = Some d" if "loadChildWorkflow db parse r source home = Some k" for k
          using that l t s1 by (auto simp: earlier_def)
        show "fst st c = Some d \<or> closed db parse st1 c d" if "fst st1 c = Some d" for c d
        proof -
          have "(fst ?st' c = Some d \<and> c \<noteq> rowid) \<or> closed db parse st1 c d" using s1 that by blast
          then show ?thesis by auto
        qed
      qed
    qed
  qed
qed

lemma walk_refs_sound:
  assumes step: "\<And>n l l'. R n l \<Longrightarrow> child db parse (l_steps l) (l_src l) (l_home l) l' \<Longrightarrow> R (Suc n) l'"
    and wf: "wf_db db"
  shows "source \<in> sources \<Longrightarrow> \<not> DepthExceeded depth \<Longrightarrow>
    (\<forall>r \<in> set rs. \<forall>l. loadChildWorkflow db parse r source home = Some l \<longrightarrow> R depth l) \<Longrightarrow>
    set (snd (walk_refs db parse rs source home depth st)) \<subseteq>
      set (snd st) \<union> {jd. \<exists>n l. n \<le> MaxWorkflowDepth \<and> R n l \<and> jd \<in> defs_of db l}"
  using step wf
proof (induction db parse rs source home depth st rule: walk_refs.induct)
  case (2 db parse r rs source home depth st)
  define V where "V = {jd. \<exists>n l. n \<le> MaxWorkflowDepth \<and> R n l \<and> jd \<in> defs_of db l}"
  let ?s = "\<lambda>l. case l of None \<Rightarrow> st
          | Some (src', steps', rowid, home') \<Rightarrow>
            (if (case fst st rowid of None \<Rightarrow> False | Some prev \<Rightarrow> prev \<le> depth) then st
             else let st' = ((fst st)(rowid \<mapsto> depth), snd st @ map snd (lookupJobDefs db steps' src' home'))
               in if DepthExceeded (depth + 1) then st'
                  else walk_refs db parse (collectWorkflowRefs steps') (if src' = [] then ''git'' else src') home' (depth + 1) st')"
  have st1: "set (snd (?s (loadChildWorkflow db parse r source home))) \<subseteq> set (snd st) \<union> V"
  proof (cases "loadChildWorkflow db parse r source home")
    case l: (Some l)
    obtain src' steps' rowid home' where t: "l = (src', steps', rowid, home')" by (cases l)
    have src': "src' \<in> sources" "src' \<noteq> []" using loads_src [OF 2(7) loadsI [OF l 2(3)]] t by auto
    have Rl: "R depth l" by (rule 2(5) [THEN bspec, rule_format, OF _ l]) simp
    have "depth \<le> MaxWorkflowDepth" using 2(4) by (simp add: DepthExceeded_def)
    with Rl have "defs_of db l \<subseteq> V" unfolding V_def by blast
    then have own: "snd ` set (lookupJobDefs db steps' src' home') \<subseteq> V" by (simp add: t defs_of_def)
    let ?st' = "((fst st)(rowid \<mapsto> depth), snd st @ map snd (lookupJobDefs db steps' src' home'))"
    show ?thesis
    proof (cases "case fst st rowid of None \<Rightarrow> False | Some prev \<Rightarrow> prev \<le> depth")
      case True
      with l t show ?thesis by simp
    next
      case np: False
      show ?thesis
      proof (cases "DepthExceeded (depth + 1)")
        case True
        with l t np own show ?thesis by (auto simp: Let_def)
      next
        case False
        have "\<forall>r \<in> set (collectWorkflowRefs steps'). \<forall>l'. loadChildWorkflow db parse r src' home' = Some l' \<longrightarrow> R (depth + 1) l'"
          using 2(6) [OF Rl] unfolding child_def t fst_conv snd_conv Suc_eq_plus1 by blast
        from 2(1) [OF l t [symmetric] refl refl np refl False] this src' False 2(6,7)
        have "set (snd (walk_refs db parse (collectWorkflowRefs steps') src' home' (depth + 1) ?st')) \<subseteq> set (snd ?st') \<union> V" by (simp add: V_def)
        moreover have "set (snd ?st') \<subseteq> set (snd st) \<union> V" using own by auto
        ultimately have "set (snd (walk_refs db parse (collectWorkflowRefs steps') src' home' (depth + 1) ?st')) \<subseteq> set (snd st) \<union> V" by blast
        with l t np False src' show ?thesis by (simp add: Let_def)
      qed
    qed
  qed simp
  have "set (snd (walk_refs db parse (r # rs) source home depth st)) \<subseteq> set (snd (?s (loadChildWorkflow db parse r source home))) \<union> V"
    using 2(2) [OF 2(3,4) _ 2(6,7)] 2(5) by (simp add: V_def)
  with st1 show ?case unfolding V_def by blast
qed simp

lemma walkSubWorkflowJobs_reaches:
  assumes wf: "wf_db db" and src: "source \<in> sources"
  shows "set (walkSubWorkflowJobs db parse steps source home) =
    {jd. \<exists>n l. n \<le> MaxWorkflowDepth \<and> reaches db parse steps source home n l \<and> jd \<in> defs_of db l}"
proof -
  define st where "st = walk_refs db parse (collectWorkflowRefs steps) source home 1 (\<lambda>_. None, [])"
  have d1: "\<not> DepthExceeded 1" by (simp add: DepthExceeded_def MaxWorkflowDepth_def)
  have s: "walkSubWorkflowJobs db parse steps source home = snd st"
    using src by (auto simp: walkSubWorkflowJobs_def st_def sources_def)
  note w = walked_okD [OF walk_refs_ok [OF wf src d1, of parse "collectWorkflowRefs steps" home "(\<lambda>_. None, [])"], folded st_def]
  have cl: "closed db parse st c d" if "fst st c = Some d" for c d using w(4) [OF that] by simp
  have at: "l \<in> loads db parse \<and> (n \<le> MaxWorkflowDepth \<longrightarrow> (\<exists>d \<le> n. fst st (l_row l) = Some d))"
    if "reaches db parse steps source home n l" for n l using that
  proof induction
    case (first l)
    then obtain r where r: "r \<in> set (collectWorkflowRefs steps)" "loadChildWorkflow db parse r source home = Some l"
      unfolding child_def by blast
    from w(3) [OF this] loadsI [OF r(2) src] show ?case by auto
  next
    case (next_level n l l')
    have "l_src l \<in> sources" using next_level.IH loads_src [OF wf] by blast
    then have l': "l' \<in> loads db parse" using next_level.hyps(2) loadsI unfolding child_def by blast
    moreover have "\<exists>d \<le> Suc n. fst st (l_row l') = Some d" if n: "Suc n \<le> MaxWorkflowDepth"
    proof -
      obtain d where d: "d \<le> n" "fst st (l_row l) = Some d" using next_level.IH n by auto
      have "\<not> DepthExceeded (d + 1)" using d(1) n by (simp add: DepthExceeded_def)
      with cl [OF d(2)] next_level obtain d' where "d' \<le> d + 1" "fst st (l_row l') = Some d'" unfolding closed_def by blast
      with d(1) show ?thesis by (auto intro!: exI [of _ d'])
    qed
    ultimately show ?case by blast
  qed
  show ?thesis unfolding s
  proof
    show "set (snd st) \<subseteq> {jd. \<exists>n l. n \<le> MaxWorkflowDepth \<and> reaches db parse steps source home n l \<and> jd \<in> defs_of db l}"
    proof -
      have "\<forall>r \<in> set (collectWorkflowRefs steps). \<forall>l. loadChildWorkflow db parse r source home = Some l \<longrightarrow> reaches db parse steps source home 1 l"
        using reaches.first unfolding child_def by blast
      from walk_refs_sound [OF reaches.next_level wf src d1 this, where st = "(\<lambda>_. None, [])"] show ?thesis by (simp add: st_def)
    qed
    show "{jd. \<exists>n l. n \<le> MaxWorkflowDepth \<and> reaches db parse steps source home n l \<and> jd \<in> defs_of db l} \<subseteq> set (snd st)"
      using at cl unfolding closed_def by blast
  qed
qed

section \<open>What a queued row was made of\<close>

lemma queued_row_job:
  assumes "runJob w wfTrace wfID defs s tid scope actor inputEnv = (rows, status, refused)"
    and "row \<in> set rows" "w_Status row = ''queued''"
  shows "\<exists>jd. map_of defs (StepKey s) = Some jd \<and>
    e_Scope (w_params row) = (if jd_scope jd \<noteq> [] then jd_scope jd else scope) \<and>
    q_scopeAgencies w (jd_agency jd) (e_Scope (w_params row)) = Some (e_Agencies (w_params row))"
proof -
  obtain agency name where an: "workflowAgencyOf w wfID = Some (agency, name)"
    using assms(1,2) by (cases "workflowAgencyOf w wfID") (auto simp: runJob_def)
  let ?p = "step_plan defs s scope agency"
  let ?ags = "if p_refusal ?p \<noteq> [] then Some [name] else q_scopeAgencies w (jd_agency (p_def ?p)) (p_scope ?p)"
  obtain ags where ags: "?ags = Some ags"
    using assms(1,2) an by (cases ?ags) (simp_all add: runJob_def dispatch_row_def Let_def)
  obtain r where r: "step_gates w wfID (the_job ?p s) (p_def ?p) (p_scope ?p) ags (first_reason ?p) = Some r"
    using assms(1,2) an ags
    by (cases "step_gates w wfID (the_job ?p s) (p_def ?p) (p_scope ?p) ags (first_reason ?p)") (simp_all add: runJob_def dispatch_row_def Let_def the_job_def)
  have "rows = [] \<or> (\<exists>ag q. (rows = [child_row w wfTrace s tid actor inputEnv ?p ag r] \<or>
      rows = [child_row w wfTrace s tid actor inputEnv ?p ag r\<lparr>w_QueuedReason := q\<rparr>]) \<and> (r = None \<longrightarrow> ag = ags))"
    using assms(1) an ags r
    by (simp add: runJob_def dispatch_row_def Let_def the_job_def split: if_splits option.splits) auto
  then obtain ag q where rows: "rows = [child_row w wfTrace s tid actor inputEnv ?p ag r] \<or>
      rows = [child_row w wfTrace s tid actor inputEnv ?p ag r\<lparr>w_QueuedReason := q\<rparr>]" and ag: "r = None \<longrightarrow> ag = ags"
    using assms(2) by fastforce
  then have row: "row = child_row w wfTrace s tid actor inputEnv ?p ag r \<or>
      row = child_row w wfTrace s tid actor inputEnv ?p ag r\<lparr>w_QueuedReason := q\<rparr>"
    using assms(2) by auto
  have rn: "r = None" using row assms(3) by (auto split: if_splits)
  have q: "first_reason ?p = None" using r rn by (simp add: step_gates_queued)
  have nr: "p_refusal ?p = []" using q by (simp add: first_reason_def split: if_splits)
  then obtain jd where jd: "map_of defs (StepKey s) = Some jd" "p_def ?p = jd"
    "p_scope ?p = (if jd_scope jd \<noteq> [] then jd_scope jd else scope)"
    by (auto simp: step_plan_def Let_def reason_defs split: option.splits if_splits)
  have "e_Agencies (w_params row) = ags" "e_Scope (w_params row) = p_scope ?p"
    using row ag rn by (auto simp: child_row_def Let_def queued_row_def)
  with jd ags nr show ?thesis by auto
qed

section \<open>Authorized rows\<close>

text \<open>A queued row runs a job of a pair of \<open>A\<close>: on the pair's scope, or on one of \<open>own\<close> (the trigger's)
  when the job has none, for the agencies of that scope as the pair's agency holds it.\<close>

definition authorized :: "step_world \<Rightarrow> (string \<times> string) set \<Rightarrow> string set \<Rightarrow> run_row \<Rightarrow> bool" where
  "authorized w A own row \<longleftrightarrow> (w_Status row = ''queued'' \<longrightarrow>
     (\<exists>ag sc. (ag, sc) \<in> A \<and> (e_Scope (w_params row) = sc \<or> sc = [] \<and> e_Scope (w_params row) \<in> own) \<and>
        q_scopeAgencies w ag (e_Scope (w_params row)) = Some (e_Agencies (w_params row))))"

definition authorized_event :: "walk_world \<Rightarrow> (string \<times> string) set \<Rightarrow> string set \<Rightarrow> event \<Rightarrow> bool" where
  "authorized_event w A own e = (case e of EvStep _ _ _ rows _ \<Rightarrow> list_all (authorized (step_world.truncate w) A own) rows | _ \<Rightarrow> True)"

lemma authorized_event_simps [simp]:
  "authorized_event w A own (EvStep s env seen rows st) = list_all (authorized (step_world.truncate w) A own) rows"
  "authorized_event w A own (EvSkip n r)" "authorized_event w A own (EvSub s env seen es st)"
  "authorized_event w A own (EvChild row es st)" "authorized_event w A own (EvRefused row)"
  "authorized_event w A own (EvFinish t st)"
  by (simp_all add: authorized_event_def)

lemma runStep_authorized:
  assumes "agency_scope ` snd ` set defs \<subseteq> A" "scope \<in> own"
  shows "list_all (authorized w A own) (fst (runStep w wfTrace wfID defs s scope actor env))"
proof -
  have "list_all (authorized w A own) (fst (job_attempt w wfTrace wfID defs s scope actor env t))" for t
  proof (cases "runJob w wfTrace wfID defs s t scope actor env")
    case (fields rows status refused)
    have "authorized w A own row" if row: "row \<in> set rows" for row
    proof (cases "w_Status row = ''queued''")
      case True
      from queued_row_job [OF fields row True] obtain jd where jd: "map_of defs (StepKey s) = Some jd"
        "e_Scope (w_params row) = (if jd_scope jd \<noteq> [] then jd_scope jd else scope)"
        "q_scopeAgencies w (jd_agency jd) (e_Scope (w_params row)) = Some (e_Agencies (w_params row))" by blast
      have "agency_scope jd \<in> A" using map_of_SomeD [OF jd(1)] assms(1) by force
      with jd(2,3) assms(2) show ?thesis by (auto simp: authorized_def agency_scope_def split: if_splits)
    qed (simp add: authorized_def)
    then show ?thesis by (simp add: job_attempt_def fields list_all_iff)
  qed
  then show ?thesis unfolding runStep_def Let_def split_beta by (simp add: retry_loop_logs)
qed

lemma walk_events_in:
  assumes leaf: "\<And>s res. Q (fst (run_leaf w ctx s res))" and skip: "\<And>n r. Q (EvSkip n r)"
    and sub: "\<And>s env seen st. s \<in> set (flattenWorkflowNodes g) \<Longrightarrow> Q (EvSub s env seen (fst (runWorkflowStep w ctx walker s env)) st)"
  shows "list_all Q (fst (walk_loop w ctx walker refs pos i g results)) \<and>
    (\<forall>o' \<in> set (walk_arms w ctx walker pos i g results). list_all Q (a_log o'))"
  using sub
proof (induction g arbitrary: refs pos i results rule: graph_induct)
  case (Step s ss)
  have sk: "list_all Q (skip_arm w ctx g)" for g by (simp add: skip_arm_def list_all_iff skip)
  have lf: "list_all Q (a_log (case run_leaf w ctx s results of (ev, status, tid) \<Rightarrow> ALeaf [ev] n status tid c))" for s results n c
    using leaf [of s results] by (simp add: split_beta)
  have ss: "list_all Q (fst (walk_loop w ctx walker refs pos i ss results))"
      "\<forall>o' \<in> set (walk_arms w ctx walker pos i ss results). list_all Q (a_log o')" for refs pos i results
    using Step.IH(5) Step.prems by simp_all
  have "list_all Q (fst (walk_loop w ctx walker refs pos i (s # ss) results))"
    using Step leaf sk ss by (cases "stepKind s") (simp_all add: Let_def split_beta list_all_concat)
  moreover have "\<forall>o' \<in> set (walk_arms w ctx walker pos i (s # ss) results). list_all Q (a_log o')"
  proof (cases "st_Type (si s) = ''sequence''")
    case True
    then have "stepKind s = KSequence" by (simp add: sequence_type)
    with True Step ss show ?thesis by (simp add: split_beta)
  next
    case False
    with ss lf show ?thesis by (simp add: split_beta)
  qed
  ultimately show ?case by blast
qed simp

section \<open>Ids do not matter to references\<close>

lemma assign_anonymous:
  "leaf_kind k \<Longrightarrow> map anonymous (nodes_of k (assignNodeIDs gen g)) = map anonymous (nodes_of k g)"
  by (simp add: assignNodeIDs_def split_beta relabel_anonymous leaf_kind_def)

lemma anonymous_fields:
  "st_Name (anonymous s) = s_name s" "st_Source (anonymous s) = st_Source (si s)" "st_JobUID (anonymous s) = st_JobUID (si s)"
  "st_Workflow (anonymous s) = st_Workflow (si s)" "st_WorkflowUID (anonymous s) = st_WorkflowUID (si s)"
  by (simp_all add: anonymous_def)

lemma collectStepRefs_assign [simp]: "collectStepRefs (assignNodeIDs gen g) = collectStepRefs g"
proof -
  have f: "map StepRefOf (filter (\<lambda>s. s_name s \<noteq> []) ns) =
      map (\<lambda>i. \<lparr>ref_Name = st_Name i, ref_Source = st_Source i, ref_UID = st_JobUID i\<rparr>) (filter (\<lambda>i. st_Name i \<noteq> []) (map anonymous ns))" for ns
    by (induction ns) (simp_all add: StepRefOf_def anonymous_fields)
  show ?thesis
    unfolding collectStepRefs_def collect_walk_foldl flattenJobNodes_nodes f
    by (simp add: assign_anonymous leaf_kind_def)
qed

definition add_wf :: "workflow_ref list \<Rightarrow> step_info \<Rightarrow> workflow_ref list" where
  "add_wf out i = (let r = (st_Workflow i, st_WorkflowUID i)
     in if st_Workflow i \<noteq> [] \<and> r \<notin> set out then out @ [r] else out)"

lemma collect_wf_foldl: "collect_wf_walk out g = foldl add_wf out (map anonymous (flattenWorkflowNodes g))"
  by (induction out g rule: collect_wf_walk.induct) (simp_all add: add_wf_def Let_def anonymous_fields split: kind.splits)

lemma collectWorkflowRefs_assign [simp]: "collectWorkflowRefs (assignNodeIDs gen g) = collectWorkflowRefs g"
  unfolding collectWorkflowRefs_def collect_wf_foldl flattenWorkflowNodes_nodes
  by (simp add: assign_anonymous leaf_kind_def)

lemma set_add_wf: "set (foldl add_wf out is) = set out \<union> {(st_Workflow i, st_WorkflowUID i) | i. i \<in> set is \<and> st_Workflow i \<noteq> []}"
  by (induction "is" arbitrary: out) (auto simp: add_wf_def Let_def)

lemma set_collectWorkflowRefs: "set (collectWorkflowRefs g) =
    {(st_Workflow (si s), st_WorkflowUID (si s)) | s. s \<in> set (flattenWorkflowNodes g) \<and> st_Workflow (si s) \<noteq> []}"
  by (auto simp: collectWorkflowRefs_def collect_wf_foldl set_add_wf anonymous_fields) (metis anonymous_fields(4,5) imageI)

lemma lookupJobDefs_assign [simp]: "lookupJobDefs db (assignNodeIDs gen g) = lookupJobDefs db g"
  by (intro ext) (simp add: lookupJobDefs_def)

lemma child_assign [simp]: "child db parse (assignNodeIDs gen g) = child db parse g"
  by (intro ext) (simp add: child_def)

section \<open>A run on a catalogue\<close>

text \<open>A reference is tidy when it has a name and no spaces around it: the engine trims it at run time,
  and the authorization reads it as it stands.\<close>

definition tidy :: "step list \<Rightarrow> bool" where
  "tidy g \<longleftrightarrow> (\<forall>s \<in> set (nodes_of KWorkflow g). st_Workflow (si s) \<noteq> [] \<and>
     trim_space (st_Workflow (si s)) = st_Workflow (si s) \<and> trim_space (st_WorkflowUID (si s)) = st_WorkflowUID (si s))"

lemma tidy_assign [simp]: "tidy (assignNodeIDs gen g) = tidy g"
proof -
  have t: "tidy h \<longleftrightarrow> (\<forall>i \<in> set (map anonymous (nodes_of KWorkflow h)). st_Workflow i \<noteq> [] \<and>
     trim_space (st_Workflow i) = st_Workflow i \<and> trim_space (st_WorkflowUID i) = st_WorkflowUID i)" for h
    unfolding tidy_def by (simp add: anonymous_fields)
  show ?thesis unfolding t by (simp only: assign_anonymous leaf_kind_def simp_thms)
qed

lemma tidy_child:
  assumes "tidy g" "s \<in> set (flattenWorkflowNodes g)"
    "loadChildWorkflow db parse (trim_space (st_Workflow (si s)), trim_space (st_WorkflowUID (si s))) source home = Some l"
  shows "child db parse g source home l"
  using assms unfolding child_def tidy_def set_collectWorkflowRefs flattenWorkflowNodes_nodes by auto

definition tidy_db :: "defs_db \<Rightarrow> steps_codec \<Rightarrow> bool" where
  "tidy_db db parse \<longleftrightarrow> wf_db db \<and> (\<forall>w \<in> set (db_workflows db). wd_repo w \<noteq> Some [] \<and>
     (\<forall>g. ParseSteps parse (wd_steps w) = Some g \<longrightarrow> tidy g))"

text \<open>The world of a walk whose catalogue is the database.\<close>

definition runs_on :: "walk_world \<Rightarrow> defs_db \<Rightarrow> steps_codec \<Rightarrow> bool" where
  "runs_on w db parse \<longleftrightarrow> ww_home w = Home db \<and> ww_defs w = lookupJobDefs db \<and>
     ww_load w = (\<lambda>r source home. map_option (\<lambda>(src, steps, rowid, _). (src, steps, rowid)) (loadChildWorkflow db parse r source home))"

lemma find_distinct:
  "distinct (map f xs) \<Longrightarrow> x \<in> set xs \<Longrightarrow> List.find (\<lambda>y. f y = f x) xs = Some x"
  by (induction xs) (auto dest: imageI)

lemma loaded_home:
  assumes "tidy_db db parse" "l \<in> loads db parse"
  shows "Home db (l_row l) = l_home l \<and> tidy (l_steps l)"
proof -
  obtain w where w: "w \<in> set (db_workflows db)" "loaded_of parse w = Some l"
    using assms(2) load_Some unfolding loads_def by blast
  have "workflow_at db (wd_rowid w) = Some w"
    using assms(1) w(1) find_distinct [of wd_rowid "db_workflows db" w] by (auto simp: workflow_at_def tidy_db_def wf_db_def)
  moreover have "wd_repo w \<noteq> Some []" using assms(1) w(1) by (simp add: tidy_db_def)
  ultimately have "Home db (wd_rowid w) = childHome (wd_source w) w"
    by (auto simp: Home_def childHome_def coalesce_def split: option.splits)
  with w assms(1) show ?thesis by (auto simp: loaded_of_def tidy_db_def)
qed

lemma reaches_below: "reaches db parse (l_steps l) (l_src l) (l_home l) n l' \<Longrightarrow> child db parse g source home l \<Longrightarrow>
    reaches db parse g source home (Suc n) l'"
proof (induction rule: reaches.induct)
  case (first l')
  from reaches.next_level [OF reaches.first [OF first(2)] first(1)] show ?case by simp
next
  case (next_level n k l')
  from reaches.next_level [OF next_level.IH [OF next_level.prems] next_level.hyps(2)] show ?case .
qed

section \<open>Nothing runs unauthorized\<close>

definition permitted :: "defs_db \<Rightarrow> steps_codec \<Rightarrow> step list \<Rightarrow> string \<Rightarrow> string \<Rightarrow> nat \<Rightarrow> (string \<times> string) set \<Rightarrow> bool" where
  "permitted db parse g source home depth A \<longleftrightarrow>
     agency_scope ` snd ` set (lookupJobDefs db g source home) \<subseteq> A \<and>
     (\<forall>n l. n + depth \<le> MaxWorkflowDepth \<longrightarrow> reaches db parse g source home n l \<longrightarrow> agency_scope ` defs_of db l \<subseteq> A)"

lemma permitted_child:
  assumes "permitted db parse g source home depth A" "child db parse g source home l" "\<not> DepthExceeded (depth + 1)"
  shows "permitted db parse (l_steps l) (l_src l) (l_home l) (depth + 1) A"
  unfolding permitted_def
proof (intro conjI allI impI)
  have r: "reaches db parse g source home 1 l" using assms(2) by (rule reaches.first)
  have "1 + depth \<le> MaxWorkflowDepth" using assms(3) by (simp add: DepthExceeded_def)
  with assms(1) r show "agency_scope ` snd ` set (lookupJobDefs db (l_steps l) (l_src l) (l_home l)) \<subseteq> A"
    unfolding permitted_def defs_of_def by blast
  show "agency_scope ` defs_of db l' \<subseteq> A" if "n + (depth + 1) \<le> MaxWorkflowDepth" "reaches db parse (l_steps l) (l_src l) (l_home l) n l'" for n l'
    using assms(1) reaches_below [OF that(2) assms(2)] that(1) unfolding permitted_def by (metis add_Suc_shift Suc_eq_plus1)
qed

lemma permitted_assign [simp]: "permitted db parse (assignNodeIDs gen g) source home depth A = permitted db parse g source home depth A"
proof -
  have "reaches db parse (assignNodeIDs gen g) source home n l = reaches db parse g source home n l" for n l
  proof
    show "reaches db parse g source home n l" if "reaches db parse (assignNodeIDs gen g) source home n l"
      using that by induction (auto intro: reaches.intros simp del: One_nat_def)
    show "reaches db parse (assignNodeIDs gen g) source home n l" if "reaches db parse g source home n l"
      using that by induction (auto intro: reaches.intros simp del: One_nat_def)
  qed
  then show ?thesis by (simp add: permitted_def)
qed

text \<open>The context of a run on the catalogue, of a graph whose jobs \<open>A\<close> covers.\<close>

definition covered :: "defs_db \<Rightarrow> steps_codec \<Rightarrow> (string \<times> string) set \<Rightarrow> string set \<Rightarrow> run_ctx \<Rightarrow> step list \<Rightarrow> bool" where
  "covered db parse A own ctx g \<longleftrightarrow> tidy g \<and> rc_source ctx \<in> sources \<and> rc_scope ctx \<in> own \<and>
     rc_defs ctx = lookupJobDefs db g (rc_source ctx) (Home db (rc_workflow ctx)) \<and>
     permitted db parse g (rc_source ctx) (Home db (rc_workflow ctx)) (rc_depth ctx) A"

lemma Trigger_covered:
  assumes "runs_on w db parse" "Trigger w walker row scope steps = Some (ev, final)"
    and "wr_source row \<in> sources" "scope \<in> own" "tidy steps"
    and "permitted db parse steps (wr_source row) (Home db (wr_workflow row)) (wr_depth row) A"
  shows "\<exists>ctx g row' log. ev = EvChild row' log final \<and> walker ctx g = (log, final) \<and> covered db parse A own ctx g \<and> rc_depth ctx = wr_depth row"
proof -
  have ns: "wr_source row \<noteq> []" using assms(3) by (auto simp: sources_def)
  define g where "g = assignNodeIDs (ww_node w (wr_id row)) steps"
  define ctx where "ctx = \<lparr>rc_trace = wr_id row, rc_name = wr_name row, rc_workflow = wr_workflow row, rc_source = wr_source row,
    rc_depth = wr_depth row, rc_reaction_depth = wr_reaction_depth row, rc_scope = scope, rc_actor = wr_actor row,
    rc_defs = ww_defs w g (wr_source row) (ww_home w (wr_workflow row))\<rparr>"
  have "covered db parse A own ctx g" using assms(1,3-6) by (simp add: covered_def ctx_def g_def runs_on_def)
  moreover have "\<exists>row'. ev = EvChild row' (fst (walker ctx g)) final \<and> snd (walker ctx g) = final"
    using assms(2) ns unfolding Trigger_def Let_def g_def [symmetric] by (auto simp: split_beta ctx_def split: if_splits)
  ultimately show ?thesis
    by (intro exI [of _ ctx] exI [of _ g]) (auto simp: ctx_def prod_eq_iff)
qed

lemma sub_step_authorized:
  assumes w: "runs_on w db parse" and db: "tidy_db db parse" and c: "covered db parse A own ctx g"
    and s: "s \<in> set (flattenWorkflowNodes g)" and own: "[] \<in> own"
    and sub: "\<And>ctx' g'. \<not> DepthExceeded (rc_depth ctx + 1) \<Longrightarrow> covered db parse A own ctx' g' \<Longrightarrow> rc_depth ctx' = rc_depth ctx + 1 \<Longrightarrow>
      list_all (all_ev (authorized_event w A own)) (fst (walker ctx' g'))"
  shows "list_all (all_ev (authorized_event w A own)) (fst (runWorkflowStep w ctx walker s env))"
proof -
  have "list_all (all_ev (authorized_event w A own)) (fst (runChildWorkflowOnce w ctx walker s env k))" for k
    using runChildOnce_log [of w ctx walker s env k]
  proof (elim disjE exE conjE)
    fix row steps ev final src wfID
    assume nd: "\<not> DepthExceeded (rc_depth ctx + 1)" and row: "row = child_run w ctx s env k src wfID"
      and t: "Trigger w walker row [] steps = Some (ev, final)" and log: "fst (runChildWorkflowOnce w ctx walker s env k) = [ev]"
      and ld: "ww_load w (trim_space (st_Workflow (si s)), trim_space (st_WorkflowUID (si s))) (rc_source ctx) (ww_home w (rc_workflow ctx)) =
        Some (src, steps, wfID)"
    have src: "rc_source ctx \<in> sources" using c by (simp add: covered_def)
    obtain h where l: "loadChildWorkflow db parse (trim_space (st_Workflow (si s)), trim_space (st_WorkflowUID (si s)))
        (rc_source ctx) (Home db (rc_workflow ctx)) = Some (src, steps, wfID, h)"
      using w ld by (auto simp: runs_on_def map_option_eq_Some)
    have lin: "(src, steps, wfID, h) \<in> loads db parse" using loadsI [OF l src] .
    have h: "Home db wfID = h" "tidy steps" using loaded_home [OF db lin] by simp_all
    have wf: "wf_db db" using db by (simp add: tidy_db_def)
    have ch: "child db parse g (rc_source ctx) (Home db (rc_workflow ctx)) (src, steps, wfID, h)"
      using c s l by (auto simp: covered_def intro: tidy_child)
    have "permitted db parse steps src h (rc_depth ctx + 1) A"
      using permitted_child [OF _ ch nd, of A] c by (simp add: covered_def)
    then have p: "permitted db parse steps (wr_source row) (Home db (wr_workflow row)) (wr_depth row) A"
      using row h by (simp add: child_run_def)
    have "wr_source row \<in> sources" using row loads_src [OF wf lin] by (simp add: child_run_def)
    from Trigger_covered [OF w t this own h(2) p] obtain ctx' g' row' log where
      e: "ev = EvChild row' log final" "walker ctx' g' = (log, final)" "covered db parse A own ctx' g'" "rc_depth ctx' = wr_depth row" by blast
    have "rc_depth ctx' = rc_depth ctx + 1" using e(4) row by (simp add: child_run_def)
    from sub [OF nd e(3) this] e(1,2) log show ?thesis by simp
  qed (simp_all add: recordRefusedChild_def)
  then show ?thesis unfolding runWorkflowStep_def Let_def split_beta by (simp add: retry_loop_logs)
qed

lemma run_with_authorized:
  assumes "runs_on w db parse" "tidy_db db parse" "covered db parse A own ctx g" "[] \<in> own"
    and "\<And>ctx' g'. \<not> DepthExceeded (rc_depth ctx + 1) \<Longrightarrow> covered db parse A own ctx' g' \<Longrightarrow> rc_depth ctx' = rc_depth ctx + 1 \<Longrightarrow>
      list_all (all_ev (authorized_event w A own)) (fst (walker ctx' g'))"
  shows "list_all (all_ev (authorized_event w A own)) (fst (run_with w walker ctx g))"
proof -
  have leaf: "all_ev (authorized_event w A own) (fst (run_leaf w ctx s res))" for s res
    using runStep_authorized [of "rc_defs ctx" A "rc_scope ctx" own] assms(3)
    by (simp add: run_leaf_def Let_def split_beta covered_def permitted_def)
  have "list_all (all_ev (authorized_event w A own)) (fst (walk_loop w ctx walker (collectBranchRefs g) [] 0 g []))"
    using walk_events_in [of "all_ev (authorized_event w A own)" w ctx g walker] leaf sub_step_authorized [OF assms(1-3) _ assms(4,5)] by simp
  then show ?thesis by (simp add: run_with_def walkSteps_def split_beta Let_def)
qed

lemma runWorkflow_authorized:
  assumes "runs_on w db parse" "tidy_db db parse" "[] \<in> own"
  shows "covered db parse A own ctx g \<Longrightarrow> MaxWorkflowDepth \<le> rc_depth ctx + d \<Longrightarrow>
    list_all (all_ev (authorized_event w A own)) (fst (runWorkflow d w ctx g))"
proof (induction d arbitrary: ctx g)
  case 0
  then show ?case using assms by (auto intro!: run_with_authorized simp: DepthExceeded_def)
next
  case (Suc d)
  then show ?case using assms by (auto intro!: run_with_authorized)
qed

text \<open>C1: a trigger is authorized on the agencies and scopes \<open>JobAgencyScopesAt\<close> lists, and nothing else is
  run: every row the run queues, at any level of its tree of sub-workflows, is of a listed agency, on the
  listed scope or, for a job with none, on the trigger's. This holds of graphs, here and in the catalogue, whose sub-workflow
  steps carry a name and no spaces around their names and ids. \<open>ValidateSteps\<close> does not ask for the latter, and for a padded name the claim is false:
  \<open>padded_name_escapes\<close> runs a job nobody was asked about.\<close>

theorem nothing_runs_unauthorized:
  assumes "runs_on w db parse" "tidy_db db parse" "tidy steps" "wr_source row \<in> {''git'', ''cronomicon''}"
    and "start_run w row scope steps = Some (ev, final)"
  shows "all_ev (authorized_event w (set (JobAgencyScopesAt db parse steps (wr_source row) (Home db (wr_workflow row)))) {[], scope}) ev"
proof -
  let ?A = "set (JobAgencyScopesAt db parse steps (wr_source row) (Home db (wr_workflow row)))"
  have src: "wr_source row \<in> sources" using assms(4) by (simp add: sources_def)
  have wf: "wf_db db" using assms(2) by (simp add: tidy_db_def)
  have A: "?A = agency_scope ` (snd ` set (lookupJobDefs db steps (wr_source row) (Home db (wr_workflow row))) \<union>
      set (walkSubWorkflowJobs db parse steps (wr_source row) (Home db (wr_workflow row))))"
    by (auto simp: JobAgencyScopesAt_def image_Un image_image)
  have "permitted db parse steps (wr_source row) (Home db (wr_workflow row)) (wr_depth row) ?A"
    unfolding permitted_def A
  proof (intro conjI allI impI image_mono)
    show "defs_of db l \<subseteq> snd ` set (lookupJobDefs db steps (wr_source row) (Home db (wr_workflow row))) \<union>
        set (walkSubWorkflowJobs db parse steps (wr_source row) (Home db (wr_workflow row)))"
      if "n + wr_depth row \<le> MaxWorkflowDepth" "reaches db parse steps (wr_source row) (Home db (wr_workflow row)) n l" for n l
    proof -
      have "n \<le> MaxWorkflowDepth" using that(1) by simp
      with that(2) show ?thesis unfolding walkSubWorkflowJobs_reaches [OF wf src] by blast
    qed
  qed simp
  from Trigger_covered [OF assms(1) assms(5) [unfolded start_run_def] src _ assms(3) this, of "{[], scope}"]
  obtain ctx g row' log where t: "ev = EvChild row' log final"
    "runWorkflow (MaxWorkflowDepth - wr_depth row) w ctx g = (log, final)" "covered db parse ?A {[], scope} ctx g" "rc_depth ctx = wr_depth row"
    by auto
  have "list_all (all_ev (authorized_event w ?A {[], scope})) (fst (runWorkflow (MaxWorkflowDepth - wr_depth row) w ctx g))"
    by (rule runWorkflow_authorized [OF assms(1,2) _ t(3)]) (use t(4) in auto)
  with t(1,2) show ?thesis by simp
qed

text \<open>C27: the search that lists what a trigger reaches prunes a workflow it has walked at the same depth or a
  shallower one; it still visits exactly the job definitions of the workflows that are reached by a chain
  of at most \<open>MaxWorkflowDepth\<close> references, cycles and shared sub-workflows included.\<close>

theorem pruned_search_is_reachability:
  assumes "wf_db db" "source \<in> {''git'', ''cronomicon''}"
  shows "set (SubWorkflowJobAgencyScopesAt db parse steps source home) =
    agency_scope ` {jd. \<exists>n l. n \<le> MaxWorkflowDepth \<and> reaches db parse steps source home n l \<and> jd \<in> defs_of db l}"
  using walkSubWorkflowJobs_reaches [of db source parse steps home] assms
  by (simp add: SubWorkflowJobAgencyScopesAt_def sources_def)

section \<open>Witnesses\<close>

definition plain_def :: "string \<Rightarrow> string \<Rightarrow> def_row" where
  "plain_def name scope = \<lparr>j_uid = ''uid-'' @ name, j_name = name, j_source = ''git'', j_run_type = ''bash'', j_script_ref = None,
     j_script_uid = None, j_content_hash = None, j_project_root = [], j_repo_id = Some ''r1'', j_script_path = None,
     j_requires = None, j_become_secret = [], dr_scope = scope, dr_targetHost = [], dr_timeout = 0, dr_concurrencyKey = [],
     dr_retries = 0, dr_backoff = 0, dr_continue = False, dr_sshUser = [], dr_sshCred = [], dr_enabled = True,
     dr_deleted = False, dr_owner = Some ''a1''\<rparr>"

definition plain_wf :: "int \<Rightarrow> string \<Rightarrow> wf_def" where
  "plain_wf rowid name = \<lparr>wd_rowid = rowid, wd_uid = ''uid-'' @ name, wd_name = name, wd_source = ''git'', wd_repo = Some ''r1'',
     wd_owner = ''a1'', wd_steps = name, wd_enabled = True, wd_deleted = False\<rparr>"

text \<open>A repository with a job on \<open>prod\<close>, a workflow \<open>ship\<close> that runs it and a workflow \<open>main\<close> that runs \<open>ship\<close>.\<close>

definition demo_db :: defs_db where
  "demo_db = \<lparr>db_jobs = [plain_def ''deploy'' ''prod''], db_workflows = [plain_wf 1 ''main'', plain_wf 2 ''ship''],
     db_repos = [(''r1'', ''a1'')]\<rparr>"

definition demo_parse :: steps_codec where
  "demo_parse raw = (if raw = ''ship'' then Some [demo_step ''deploy'' [] None]
     else if raw = ''main'' then Some [sub_step ''s'' ''ship''] else None)"

definition demo_run_world :: walk_world where
  "demo_run_world = cyclic_world\<lparr>ww_home := Home demo_db, ww_defs := lookupJobDefs demo_db,
     ww_load := (\<lambda>r source home. map_option (\<lambda>(src, steps, rowid, _). (src, steps, rowid)) (loadChildWorkflow demo_db demo_parse r source home))\<rparr>"

definition git_row :: wf_row where "git_row = first_row\<lparr>wr_source := ''git''\<rparr>"

text \<open>The scopes of the rows a run queued.\<close>

fun queued_scopes :: "event \<Rightarrow> string list" where
  "queued_scopes (EvStep s env seen rows st) = map (\<lambda>r. e_Scope (w_params r)) (filter (\<lambda>r. w_Status r = ''queued'') rows)"
| "queued_scopes (EvSub s env seen es st) = concat (map queued_scopes es)"
| "queued_scopes (EvChild row es st) = concat (map queued_scopes es)"
| "queued_scopes _ = []"

lemma demo_run: "map_option (\<lambda>(ev, st). (queued_scopes ev, st)) (start_run demo_run_world git_row [] [sub_step ''s'' ''ship'']) = Some ([''prod''], ''success'')"
  by code_simp

lemma demo_runs_on: "runs_on demo_run_world demo_db demo_parse"
  by (simp add: runs_on_def demo_run_world_def)

lemma demo_wf: "wf_db demo_db"
  by (simp add: wf_db_def demo_db_def plain_wf_def sources_def)

lemma demo_tidy: "tidy_db demo_db demo_parse" "tidy [sub_step ''s'' ''ship'']"
proof -
  have t: "tidy [demo_step ''deploy'' [] None]" "tidy [sub_step ''s'' ''ship'']" by code_simp+
  then show "tidy_db demo_db demo_parse"
    using demo_wf by (auto simp: tidy_db_def demo_db_def plain_wf_def ParseSteps_def demo_parse_def split: if_splits)
  show "tidy [sub_step ''s'' ''ship'']" by (rule t(2))
qed

theorem nothing_runs_unauthorized_witness:
  "\<exists>ev. start_run demo_run_world git_row [] [sub_step ''s'' ''ship''] = Some (ev, ''success'') \<and> queued_scopes ev = [''prod''] \<and>
     all_ev (authorized_event demo_run_world {(''a1'', ''prod'')} {[]}) ev"
proof -
  obtain ev where ev: "start_run demo_run_world git_row [] [sub_step ''s'' ''ship''] = Some (ev, ''success'')" "queued_scopes ev = [''prod'']"
    using demo_run by (auto simp: map_option_eq_Some)
  have A: "JobAgencyScopesAt demo_db demo_parse [sub_step ''s'' ''ship''] (wr_source git_row) (Home demo_db (wr_workflow git_row)) = [(''a1'', ''prod'')]"
    by code_simp
  have "wr_source git_row \<in> {''git'', ''cronomicon''}" by (simp add: git_row_def)
  from nothing_runs_unauthorized [OF demo_runs_on demo_tidy this ev(1), unfolded A] ev show ?thesis by auto
qed

theorem pruned_search_is_reachability_witness:
  "agency_scope ` {jd. \<exists>n l. n \<le> MaxWorkflowDepth \<and> reaches demo_db demo_parse [sub_step ''s'' ''ship''] ''git'' ''r1'' n l \<and> jd \<in> defs_of demo_db l} = {(''a1'', ''prod'')}"
proof -
  have A: "SubWorkflowJobAgencyScopesAt demo_db demo_parse [sub_step ''s'' ''ship''] ''git'' ''r1'' = [(''a1'', ''prod'')]" by code_simp
  from pruned_search_is_reachability [OF demo_wf, of "''git''" demo_parse "[sub_step ''s'' ''ship'']" "''r1''"] show ?thesis by (simp add: A)
qed

text \<open>A reference with a space in front is accepted by \<open>ValidateSteps\<close> and run (it is trimmed then), and the
  authorization finds nothing to ask about.\<close>

lemma padded_name_escapes:
  "ValidateSteps [sub_step ''s'' '' ship''] = []"
  "JobAgencyScopesAt demo_db demo_parse [sub_step ''s'' '' ship''] ''git'' (Home demo_db 1) = []"
  "map_option (\<lambda>(ev, st). (queued_scopes ev, st)) (start_run demo_run_world git_row [] [sub_step ''s'' '' ship'']) = Some ([''prod''], ''success'')"
  by code_simp+

text \<open>An unpinned child built in the app that is off is replaced, for a parent at home in an agency, by the
  workflow of the name in the agency's repository.\<close>

lemma off_child_is_replaced:
  "let off_ship = (plain_wf 3 ''ship'')\<lparr>wd_source := ''cronomicon'', wd_repo := None, wd_deleted := True\<rparr>;
     db = demo_db\<lparr>db_workflows := off_ship # db_workflows demo_db\<rparr>
   in map_option (\<lambda>l. l_row l) (loadChildWorkflow db demo_parse (''ship'', []) ''cronomicon'' (AgencyHome ''a1'')) = Some 2 \<and>
      loadChildWorkflow db demo_parse (''ship'', []) ''cronomicon'' [] = None"
  by code_simp

end
