(* ===== verification/Workflow_Resolve_Props.thy ===== *)
theory Workflow_Resolve_Props
  imports Workflow_Authorize
begin

text \<open>
  What a name means: at a home, a job of the home's agency, from the first source of the precedence that
  holds the name there, whether or not that job may run; a pinned step means its job and no other.
\<close>

section \<open>Names at a home\<close>

text \<open>The rows of \<open>jobs\<close> as the migrations leave them: a Git job records its repository.\<close>

definition stamped :: "defs_db \<Rightarrow> bool" where
  "stamped db \<longleftrightarrow> distinct (map fst (db_repos db)) \<and> (\<forall>g \<in> set (db_repos db). snd g \<noteq> []) \<and>
     (\<forall>j \<in> set (db_jobs db). j_source j = ''git'' \<longrightarrow> j_repo_id j \<noteq> None)"

definition is_home :: "defs_db \<Rightarrow> string \<Rightarrow> bool" where
  "is_home db home \<longleftrightarrow> home \<noteq> [] \<and>
     (case homeAgency home of Some a \<Rightarrow> a \<noteq> [] | None \<Rightarrow> home \<in> fst ` set (db_repos db))"

definition at_home :: "defs_db \<Rightarrow> string \<Rightarrow> string \<Rightarrow> string \<Rightarrow> def_row \<Rightarrow> bool" where
  "at_home db name home src j \<longleftrightarrow> j_name j = name \<and> j_source j = src \<and>
     (if src = ''git'' then homeRepoSQL db home (j_repo_id j) else JobOwnerSQL db j = agencyOfHome db home)"

lemma agencyOfHome_repo:
  "stamped db \<Longrightarrow> is_home db home \<Longrightarrow> agencyOfHome db home \<noteq> [] \<and>
   (homeRepoSQL db home (Some r) \<longrightarrow> map_of (db_repos db) r = Some (agencyOfHome db home))"
proof -
  assume s: "stamped db" and h: "is_home db home"
  show ?thesis
  proof (cases "homeAgency home")
    case (Some a)
    have "map_of (db_repos db) r = Some a" if "g \<in> set (db_repos db)" "snd g = a" "fst g = r" for g
      using that s by (cases g) (auto simp: stamped_def)
    with Some h show ?thesis by (auto simp: homeRepoSQL_def agencyOfHome_def is_home_def)
  next
    case None
    then obtain a where "(home, a) \<in> set (db_repos db)" using h by (auto simp: is_home_def)
    then have "map_of (db_repos db) home = Some a" "a \<noteq> []" using s by (auto simp: stamped_def)
    with None h show ?thesis by (auto simp: homeRepoSQL_def agencyOfHome_def is_home_def)
  qed
qed

lemma resolve_source_at_home:
  assumes "stamped db" "is_home db home" "src \<in> sources"
  shows "case resolve_source db name home src of
      None \<Rightarrow> \<forall>j \<in> set (db_jobs db). \<not> at_home db name home src j
    | Some jd \<Rightarrow> (\<exists>j \<in> set (db_jobs db). at_home db name home src j \<and> (jd = job_def_of db j \<or> jd = refused_def src ReasonAmbiguous))"
proof (cases "src = ''git''")
  case True
  have h: "home \<noteq> []" using assms(2) by (simp add: is_home_def)
  have e: "at_home db name home src j \<longleftrightarrow> of_home db name home j" for j using True by (simp add: at_home_def of_home_def)
  show ?thesis
  proof (cases "List.find (of_home db name home) (db_jobs db)")
    case None
    then have "\<forall>j \<in> set (db_jobs db). \<not> of_home db name home j" by (simp add: find_None_iff)
    then have "\<forall>j \<in> set (db_jobs db). \<not> at_home db name home src j" by (simp only: e simp_thms)
    then show ?thesis using True h None by (simp add: resolve_source_def)
  next
    case (Some j)
    then have "j \<in> set (db_jobs db)" "at_home db name home src j" by (auto simp: find_Some_iff e)
    then show ?thesis using True h Some by (auto simp: resolve_source_def)
  qed
next
  case False
  then have s: "src = ''cronomicon''" using assms(3) by (simp add: sources_def)
  have a: "agencyOfHome db home \<noteq> []" using agencyOfHome_repo [OF assms(1,2)] by blast
  have e: "at_home db name home src = of_agency db name (agencyOfHome db home)"
    using s by (intro ext) (auto simp: at_home_def of_agency_def)
  let ?f = "filter (of_agency db name (agencyOfHome db home)) (db_jobs db)"
  have m: "j \<in> set ?f \<longleftrightarrow> j \<in> set (db_jobs db) \<and> at_home db name home src j" for j by (simp add: e)
  consider "?f = []" | j where "?f = [j]" | j k js where "?f = j # k # js" by (metis list.exhaust)
  then show ?thesis
  proof cases
    case 1
    then show ?thesis using s a m by (auto simp: resolve_source_def the_one_def filter_empty_conv e)
  next
    case (2 j)
    then show ?thesis using s a m [of j] by (auto simp: resolve_source_def the_one_def)
  next
    case (3 j k js)
    then show ?thesis using s a m [of j] by (auto simp: resolve_source_def the_one_def)
  qed
qed

lemma resolve_order_at_home:
  assumes "stamped db" "is_home db home"
  shows "set srcs \<subseteq> sources \<Longrightarrow> resolve_order db name home srcs = Some (src, jd) \<Longrightarrow>
    \<exists>before after j. srcs = before @ src # after \<and> (\<forall>s \<in> set before. \<forall>k \<in> set (db_jobs db). \<not> at_home db name home s k) \<and>
      j \<in> set (db_jobs db) \<and> at_home db name home src j \<and> (jd = job_def_of db j \<or> jd = refused_def src ReasonAmbiguous)"
proof (induction srcs)
  case (Cons s srcs)
  have r: "case resolve_source db name home s of
      None \<Rightarrow> \<forall>j \<in> set (db_jobs db). \<not> at_home db name home s j
    | Some jd \<Rightarrow> (\<exists>j \<in> set (db_jobs db). at_home db name home s j \<and> (jd = job_def_of db j \<or> jd = refused_def s ReasonAmbiguous))"
    using Cons.prems(1) by (intro resolve_source_at_home [OF assms]) simp
  show ?case
  proof (cases "resolve_source db name home s")
    case None
    with Cons obtain before after j where h: "srcs = before @ src # after"
      "\<forall>s \<in> set before. \<forall>k \<in> set (db_jobs db). \<not> at_home db name home s k"
      "j \<in> set (db_jobs db)" "at_home db name home src j" "jd = job_def_of db j \<or> jd = refused_def src ReasonAmbiguous" by auto
    show ?thesis by (rule exI [of _ "s # before"]) (use h r None in auto)
  next
    case (Some x)
    with Cons.prems(2) have x: "s = src" "x = jd" by simp_all
    from r Some x obtain j where "j \<in> set (db_jobs db)" "at_home db name home src j" "jd = job_def_of db j \<or> jd = refused_def src ReasonAmbiguous"
      by auto
    then show ?thesis using x(1) by (intro exI [of _ "[]"] exI [of _ srcs] exI [of _ j]) auto
  qed
qed simp

lemma at_home_owner:
  assumes "stamped db" "is_home db home" "j \<in> set (db_jobs db)" "at_home db name home src j"
  shows "JobOwnerSQL db j = agencyOfHome db home"
proof (cases "src = ''git''")
  case True
  with assms obtain r where "j_repo_id j = Some r" "j_source j = ''git''" "homeRepoSQL db home (Some r)"
    by (auto simp: at_home_def stamped_def)
  then show ?thesis using agencyOfHome_repo [OF assms(1,2), of r] by (simp add: JobOwnerSQL_def JobSQL_def Owner_def)
qed (use assms in \<open>simp add: at_home_def\<close>)

text \<open>for a workflow with a home, a step that names a job without pinning it means a job of the home's
  agency, from the first source of its precedence that holds the name there, in whatever state that
  job is: one that is disabled or binned is not replaced by a job of the name at a later source. What is found may be refused as
  ambiguous instead.\<close>

theorem name_resolves_at_home:
  assumes "stamped db" "is_home db home" "wfSource \<in> {''git'', ''cronomicon''}" "ref_Source ref \<in> {[], ''git'', ''cronomicon''}"
    and "ref_UID ref = []" "resolveJobDef db ref wfSource home = Some (src, jd)"
  shows "\<exists>j \<in> set (db_jobs db). j_name j = ref_Name ref \<and> j_source j = src \<and> JobOwnerSQL db j = agencyOfHome db home \<and>
    (jd = job_def_of db j \<or> jd_unavailable jd = ReasonAmbiguous) \<and>
    (\<exists>before after. StepSourceOrder (ref_Source ref) wfSource = before @ src # after \<and>
       (\<forall>s \<in> set before. \<not> (\<exists>k \<in> set (db_jobs db). at_home db (ref_Name ref) home s k)))"
proof -
  have "set (StepSourceOrder (ref_Source ref) wfSource) \<subseteq> sources"
    using assms(3,4) by (auto simp: StepSourceOrder_def sources_def)
  from resolve_order_at_home [OF assms(1,2) this, of "ref_Name ref" src jd] assms(5,6)
  obtain before after j where h: "StepSourceOrder (ref_Source ref) wfSource = before @ src # after"
    "\<forall>s \<in> set before. \<forall>k \<in> set (db_jobs db). \<not> at_home db (ref_Name ref) home s k"
    "j \<in> set (db_jobs db)" "at_home db (ref_Name ref) home src j" "jd = job_def_of db j \<or> jd = refused_def src ReasonAmbiguous"
    by (auto simp: resolveJobDef_def)
  have "jd = job_def_of db j \<or> jd_unavailable jd = ReasonAmbiguous" using h(5) by (auto simp: refused_def_def no_def_def)
  moreover have "j_name j = ref_Name ref" "j_source j = src" using h(4) by (auto simp: at_home_def)
  ultimately show ?thesis using h at_home_owner [OF assms(1,2) h(3,4)] by blast
qed

theorem name_resolves_at_home_witness:
  "\<exists>src jd. resolveJobDef demo_db \<lparr>ref_Name = ''deploy'', ref_Source = [], ref_UID = []\<rparr> ''git'' ''r1'' = Some (src, jd) \<and>
     (\<exists>j. j \<in> set (db_jobs demo_db) \<and> JobOwnerSQL demo_db j = ''a1'' \<and> j_source j = src)"
proof -
  have "map_option fst (resolveJobDef demo_db \<lparr>ref_Name = ''deploy'', ref_Source = [], ref_UID = []\<rparr> ''git'' ''r1'') = Some ''git''"
    by code_simp
  then obtain jd where r: "resolveJobDef demo_db \<lparr>ref_Name = ''deploy'', ref_Source = [], ref_UID = []\<rparr> ''git'' ''r1'' = Some (''git'', jd)"
    by (auto simp: map_option_eq_Some)
  have h: "stamped demo_db" "is_home demo_db ''r1''" by code_simp+
  have a: "agencyOfHome demo_db ''r1'' = ''a1''" by code_simp
  from name_resolves_at_home [OF h _ _ _ r] r show ?thesis by (auto simp: a)
qed

end
