(* ===== verification/Workflow_Runs.thy ===== *)
theory Workflow_Runs
  imports Workflow_Walk
begin

text \<open>
  The life of a workflow run (\<open>backend/internal/workflow/engine.go\<close>, \<open>subworkflow.go\<close>): the rows of
  \<open>workflow_runs\<close>, the rows of \<open>runs\<close> that are their steps, and the activity log, with the operations
  that change them: the insert of \<open>Trigger\<close>, the row of a refused child, \<open>finishWorkflow\<close>, \<open>Cancel\<close>,
  \<open>CancelTree\<close>, \<open>reconcileWorkflowOrphan\<close> and its two callers. A query does not fail. The walks, the
  operator and the reapers act in any order: the operations are the labels of a step relation.
\<close>

section \<open>State\<close>

record wf_run =
  x_id :: string
  x_status :: string
  x_cancelled :: bool
  x_cancelled_at :: string
  x_started :: string
  x_completed :: string
  x_parent :: string
  x_depth :: nat

record step_run =
  k_id :: string
  k_run :: string
  k_status :: string
  k_reason :: "string option"
  k_completed :: "string option"

datatype activity = WorkflowStart string | WorkflowEnd string string string

record runs_db =
  es_runs :: "wf_run list"
  es_steps :: "step_run list"
  es_activity :: "activity list"

definition live :: "wf_run \<Rightarrow> bool" where "live r \<longleftrightarrow> x_status r = ''running''"

text \<open>\<open>UPDATE workflow_runs SET ... WHERE id = ? AND ...\<close> and the rows it affects.\<close>

definition affected :: "runs_db \<Rightarrow> string \<Rightarrow> (wf_run \<Rightarrow> bool) \<Rightarrow> bool" where
  "affected st t p \<longleftrightarrow> (\<exists>r \<in> set (es_runs st). x_id r = t \<and> p r)"

definition update_run :: "string \<Rightarrow> (wf_run \<Rightarrow> bool) \<Rightarrow> (wf_run \<Rightarrow> wf_run) \<Rightarrow> wf_run list \<Rightarrow> wf_run list" where
  "update_run t p f rs = map (\<lambda>r. if x_id r = t \<and> p r then f r else r) rs"

section \<open>Operations\<close>

definition start_row :: "runs_db \<Rightarrow> string \<Rightarrow> string \<Rightarrow> nat \<Rightarrow> string \<Rightarrow> runs_db" where
  "start_row st t parent depth now = st
     \<lparr>es_runs := es_runs st @ [\<lparr>x_id = t, x_status = ''running'', x_cancelled = False, x_cancelled_at = [], x_started = now,
        x_completed = [], x_parent = parent, x_depth = depth\<rparr>],
      es_activity := es_activity st @ [WorkflowStart t]\<rparr>"

definition refused_row :: "runs_db \<Rightarrow> string \<Rightarrow> string \<Rightarrow> nat \<Rightarrow> string \<Rightarrow> runs_db" where
  "refused_row st t parent depth now = st
     \<lparr>es_runs := es_runs st @ [\<lparr>x_id = t, x_status = ''skipped'', x_cancelled = False, x_cancelled_at = [], x_started = now,
        x_completed = now, x_parent = parent, x_depth = depth\<rparr>]\<rparr>"

definition finishWorkflow :: "runs_db \<Rightarrow> string \<Rightarrow> string \<Rightarrow> string \<Rightarrow> runs_db" where
  "finishWorkflow st t finalStatus now =
     (let dbStatus = (if finalStatus = ''danger'' then ''failure'' else finalStatus);
          outcome = (if finalStatus = ''danger'' then ''failure'' else ''success'')
      in if affected st t live
         then st\<lparr>es_runs := update_run t live (\<lambda>r. r\<lparr>x_status := dbStatus, x_completed := now\<rparr>) (es_runs st),
                 es_activity := es_activity st @ [WorkflowEnd outcome t []]\<rparr>
         else st)"

definition ReasonCancelled :: string where
  "ReasonCancelled = ''Skipped: the workflow was cancelled before this step started''"

definition cancellable :: "wf_run \<Rightarrow> bool" where "cancellable r \<longleftrightarrow> live r \<and> \<not> x_cancelled r"

definition cancel_run :: "string \<Rightarrow> wf_run \<Rightarrow> wf_run" where
  "cancel_run now r = r\<lparr>x_cancelled := True, x_cancelled_at := now\<rparr>"

definition skip_step :: "string \<Rightarrow> step_run \<Rightarrow> step_run" where
  "skip_step now k = k\<lparr>k_status := ''skipped'', k_completed := Some now,
     k_reason := (case k_reason k of None \<Rightarrow> Some ReasonCancelled | Some r \<Rightarrow> Some r)\<rparr>"

definition Cancel :: "runs_db \<Rightarrow> string \<Rightarrow> string \<Rightarrow> bool \<times> runs_db" where
  "Cancel st t now =
     (if affected st t cancellable
      then (True, st\<lparr>es_runs := update_run t cancellable (cancel_run now) (es_runs st),
              es_steps := map (\<lambda>k. if k_run k = t \<and> k_status k = ''queued'' then skip_step now k else k) (es_steps st)\<rparr>)
      else (False, st))"

text \<open>A run with no parent has NULL there, the empty string here, which no query finds.\<close>

definition childWorkflowRuns :: "runs_db \<Rightarrow> string \<Rightarrow> string list" where
  "childWorkflowRuns st t = map x_id (filter (\<lambda>r. x_parent r \<noteq> [] \<and> x_parent r = t) (es_runs st))"

text \<open>\<open>CancelTree\<close> with \<open>n\<close> levels of recursion; \<open>now\<close> is the time at which a run of the tree is reached.\<close>

primrec CancelTree :: "nat \<Rightarrow> (string \<Rightarrow> string) \<Rightarrow> runs_db \<Rightarrow> string \<Rightarrow> (bool \<times> runs_db) option" where
  "CancelTree 0 now st t = None"
| "CancelTree (Suc n) now st t =
     (let (cancelled, st1) = Cancel st t (now t)
      in map_option (\<lambda>st'. (cancelled, st'))
           (foldl (\<lambda>acc c. Option.bind acc (\<lambda>s. map_option snd (CancelTree n now s c))) (Some st1) (childWorkflowRuns st1 t)))"

definition reconcileWorkflowOrphan :: "string \<Rightarrow> string \<Rightarrow> runs_db \<Rightarrow> string \<Rightarrow> runs_db" where
  "reconcileWorkflowOrphan reason now st t =
     (if affected st t live
      then st\<lparr>es_runs := update_run t live (\<lambda>r. r\<lparr>x_status := ''failure'', x_completed := now\<rparr>) (es_runs st),
              es_activity := es_activity st @ [WorkflowEnd ''failure'' t reason],
              es_steps := map (\<lambda>k. if k_run k = t \<and> k_status k \<in> {''queued'', ''running''}
                 then k\<lparr>k_status := ''failure'', k_reason := Some reason, k_completed := Some now\<rparr> else k) (es_steps st)\<rparr>
      else st)"

definition sweepOrphansOnStartup :: "string \<Rightarrow> runs_db \<Rightarrow> runs_db" where
  "sweepOrphansOnStartup now st =
     foldl (reconcileWorkflowOrphan ''orchestrator_lost'' now) st (map x_id (filter live (es_runs st)))"

definition reapOrphansOnce :: "string \<Rightarrow> string \<Rightarrow> runs_db \<Rightarrow> runs_db" where
  "reapOrphansOnce cutoff now st =
     foldl (reconcileWorkflowOrphan ''orchestrator_lost'' now) st
       (map x_id (filter (\<lambda>r. live r \<and> x_started r < cutoff) (es_runs st)))"

section \<open>Steps\<close>

text \<open>What may happen next: a run or a sub-workflow is started, a child is refused, a walk ends, an
  operator cancels, a reaper reconciles, a step's row is inserted, a runner moves a step's row on.\<close>

datatype wf_label =
    LTrigger string string nat string
  | LRefuse string string nat string
  | LFinish string string string
  | LCancel string string
  | LReconcile string string string
  | LStep step_run
  | LMove string string

definition child_of_run :: "runs_db \<Rightarrow> string \<Rightarrow> nat \<Rightarrow> bool" where
  "child_of_run st parent depth \<longleftrightarrow> (\<exists>p \<in> set (es_runs st). x_id p = parent \<and> depth = x_depth p + 1)"

definition move_step :: "runs_db \<Rightarrow> string \<Rightarrow> string \<Rightarrow> runs_db" where
  "move_step st t status = st\<lparr>es_steps :=
     map (\<lambda>k. if k_id k = t \<and> k_status k \<in> {''queued'', ''running''} then k\<lparr>k_status := status\<rparr> else k) (es_steps st)\<rparr>"

inductive wf_step :: "runs_db \<Rightarrow> wf_label \<Rightarrow> runs_db \<Rightarrow> bool" where
  trigger: "t \<noteq> [] \<Longrightarrow> t \<notin> x_id ` set (es_runs st) \<Longrightarrow>
    parent = [] \<and> depth = 0 \<or> child_of_run st parent depth \<and> \<not> DepthExceeded depth \<Longrightarrow>
    wf_step st (LTrigger t parent depth now) (start_row st t parent depth now)"
| refuse: "t \<noteq> [] \<Longrightarrow> t \<notin> x_id ` set (es_runs st) \<Longrightarrow> child_of_run st parent depth \<Longrightarrow> depth \<le> MaxWorkflowDepth + 1 \<Longrightarrow>
    wf_step st (LRefuse t parent depth now) (refused_row st t parent depth now)"
| finish: "final \<in> {''success'', ''danger''} \<Longrightarrow> wf_step st (LFinish t final now) (finishWorkflow st t final now)"
| cancel: "wf_step st (LCancel t now) (snd (Cancel st t now))"
| reconcile: "wf_step st (LReconcile t reason now) (reconcileWorkflowOrphan reason now st t)"
| insert_step: "wf_step st (LStep k) (st\<lparr>es_steps := es_steps st @ [k]\<rparr>)"
| move: "wf_step st (LMove t status) (move_step st t status)"

inductive_cases wf_stepE: "wf_step st l st'"

definition empty_db :: runs_db where "empty_db = \<lparr>es_runs = [], es_steps = [], es_activity = []\<rparr>"

inductive reachable :: "runs_db \<Rightarrow> bool" where
  init: "reachable empty_db"
| step: "reachable st \<Longrightarrow> wf_step st l st' \<Longrightarrow> reachable st'"

text \<open>The executable transition: \<open>None\<close> where the label is not enabled.\<close>

definition do_label :: "runs_db \<Rightarrow> wf_label \<Rightarrow> runs_db option" where
  "do_label st l = (case l of
      LTrigger t parent depth now \<Rightarrow>
        if t \<noteq> [] \<and> t \<notin> x_id ` set (es_runs st) \<and>
           (parent = [] \<and> depth = 0 \<or> child_of_run st parent depth \<and> \<not> DepthExceeded depth)
        then Some (start_row st t parent depth now) else None
    | LRefuse t parent depth now \<Rightarrow>
        if t \<noteq> [] \<and> t \<notin> x_id ` set (es_runs st) \<and> child_of_run st parent depth \<and> depth \<le> MaxWorkflowDepth + 1
        then Some (refused_row st t parent depth now) else None
    | LFinish t final now \<Rightarrow> if final \<in> {''success'', ''danger''} then Some (finishWorkflow st t final now) else None
    | LCancel t now \<Rightarrow> Some (snd (Cancel st t now))
    | LReconcile t reason now \<Rightarrow> Some (reconcileWorkflowOrphan reason now st t)
    | LStep k \<Rightarrow> Some (st\<lparr>es_steps := es_steps st @ [k]\<rparr>)
    | LMove t status \<Rightarrow> Some (move_step st t status))"

lemma do_label_step: "do_label st l = Some st' \<longleftrightarrow> wf_step st l st'"
  by (cases l) (auto simp: do_label_def intro: wf_step.intros elim: wf_stepE split: if_splits)

definition run_labels :: "wf_label list \<Rightarrow> runs_db option" where
  "run_labels ls = foldl (\<lambda>o' l. Option.bind o' (\<lambda>st. do_label st l)) (Some empty_db) ls"

lemma run_labels_reachable: "run_labels ls = Some st \<Longrightarrow> reachable st"
proof (induction ls arbitrary: st rule: rev_induct)
  case Nil
  then show ?case by (simp add: run_labels_def reachable.init)
next
  case (snoc l ls)
  then obtain st0 where "run_labels ls = Some st0" "do_label st0 l = Some st"
    by (auto simp: run_labels_def bind_eq_Some_conv)
  with snoc.IH show ?case by (auto simp: do_label_step intro: reachable.step)
qed

end
