(* ===== verification/Workflow_Runs_Props.thy ===== *)
theory Workflow_Runs_Props
  imports Workflow_Runs
begin

text \<open>
  Invariants of the reachable states, by rule induction: one \<open>workflow-end\<close> for each run that ended,
  terminal rows that never change, a tree of bounded depth. Cancelling a tree is compared with marking
  the run and its descendants at once, and its recursion is shown to end.
\<close>

lemma update_run_ids [simp]: "(\<And>r. x_id (f r) = x_id r) \<Longrightarrow> map x_id (update_run t p f rs) = map x_id rs"
  by (induction rs) (auto simp: update_run_def)

lemma cancel_run_simps [simp]:
  "x_id (cancel_run now r) = x_id r" "x_status (cancel_run now r) = x_status r" "x_parent (cancel_run now r) = x_parent r"
  "x_depth (cancel_run now r) = x_depth r" "x_cancelled (cancel_run now r)"
  by (simp_all add: cancel_run_def)

lemma skip_step_simps [simp]: "k_run (skip_step now k) = k_run k" "k_status (skip_step now k) = ''skipped''" "k_id (skip_step now k) = k_id k"
  by (simp_all add: skip_step_def)

section \<open>One end for each run\<close>

definition ends :: "runs_db \<Rightarrow> string \<Rightarrow> nat" where
  "ends st t = length (filter (\<lambda>a. case a of WorkflowEnd _ t' _ \<Rightarrow> t' = t | _ \<Rightarrow> False) (es_activity st))"

definition ended :: "wf_run \<Rightarrow> bool" where "ended r \<longleftrightarrow> x_status r \<in> {''success'', ''failure''}"

definition good_status :: "wf_run \<Rightarrow> bool" where
  "good_status r \<longleftrightarrow> x_status r \<in> {''running'', ''success'', ''failure'', ''skipped''}"

definition tree_ok :: "wf_run list \<Rightarrow> bool" where
  "tree_ok rs \<longleftrightarrow> (\<forall>r \<in> set rs. x_id r \<noteq> [] \<and> x_depth r \<le> MaxWorkflowDepth + 1 \<and>
     (x_parent r = [] \<longrightarrow> x_depth r = 0) \<and> (x_parent r \<noteq> [] \<longrightarrow> (\<exists>p \<in> set rs. x_id p = x_parent r \<and> x_depth r = x_depth p + 1)))"

definition runs_inv :: "runs_db \<Rightarrow> bool" where
  "runs_inv st \<longleftrightarrow> distinct (map x_id (es_runs st)) \<and> tree_ok (es_runs st) \<and> list_all good_status (es_runs st) \<and>
     (\<forall>t. ends st t = (if \<exists>r \<in> set (es_runs st). x_id r = t \<and> ended r then 1 else 0))"

lemma tree_ok_update:
  assumes "\<And>r. x_id (f r) = x_id r \<and> x_parent (f r) = x_parent r \<and> x_depth (f r) = x_depth r"
  shows "tree_ok (update_run t p f rs) = tree_ok rs"
proof -
  let ?g = "\<lambda>r. if x_id r = t \<and> p r then f r else r"
  have g: "x_id (?g r) = x_id r" "x_parent (?g r) = x_parent r" "x_depth (?g r) = x_depth r" for r using assms by simp_all
  show ?thesis unfolding tree_ok_def update_run_def set_map ball_simps bex_simps g ..
qed

lemma tree_ok_insert:
  assumes "tree_ok rs" "x_id r \<noteq> []" "x_depth r \<le> MaxWorkflowDepth + 1"
    and "x_parent r = [] \<and> x_depth r = 0 \<or> (\<exists>p \<in> set rs. x_id p = x_parent r \<and> x_depth r = x_depth p + 1)"
  shows "tree_ok (rs @ [r])"
  using assms unfolding tree_ok_def by fastforce

lemma ended_update:
  assumes d: "distinct (map x_id rs)" and a: "r0 \<in> set rs" "x_id r0 = t" "live r0"
    and f: "\<And>r. x_id (f r) = x_id r \<and> ended (f r)"
  shows "(\<exists>r \<in> set (update_run t live f rs). x_id r = u \<and> ended r) \<longleftrightarrow> u = t \<or> (\<exists>r \<in> set rs. x_id r = u \<and> ended r)"
proof -
  have only: "r = r0" if "r \<in> set rs" "x_id r = t" for r
    using d a(1,2) that by (auto simp: distinct_map inj_on_def)
  have ne: "\<not> ended r0" using a(3) by (simp add: live_def ended_def)
  show ?thesis
  proof (cases "u = t")
    case True
    have "f r0 \<in> set (update_run t live f rs)" using a by (force simp: update_run_def)
    with f [of r0] a(2) True show ?thesis by auto
  next
    case False
    then show ?thesis using f by (auto simp: update_run_def)
  qed
qed

lemma runs_inv_end:
  assumes inv: "runs_inv st" and aff: "affected st t live"
    and f: "\<And>r. x_id (f r) = x_id r \<and> x_parent (f r) = x_parent r \<and> x_depth (f r) = x_depth r \<and> ended (f r)"
    and st': "es_runs st' = update_run t live f (es_runs st)" "es_activity st' = es_activity st @ [WorkflowEnd oc t d]"
  shows "runs_inv st'"
proof -
  obtain r0 where r0: "r0 \<in> set (es_runs st)" "x_id r0 = t" "live r0" using aff by (auto simp: affected_def)
  have only: "r = r0" if "r \<in> set (es_runs st)" "x_id r = t" for r
    using inv r0(1,2) that by (auto simp: runs_inv_def distinct_map inj_on_def)
  have ne: "\<not> (\<exists>r \<in> set (es_runs st). x_id r = t \<and> ended r)" using only r0(3) by (auto simp: live_def ended_def)
  have e: "ends st' u = ends st u + (if u = t then 1 else 0)" for u by (simp add: ends_def st'(2))
  have "ends st' u = (if \<exists>r \<in> set (es_runs st'). x_id r = u \<and> ended r then 1 else 0)" for u
    unfolding e st'(1) ended_update [OF inv [unfolded runs_inv_def, THEN conjunct1] r0, of f u, OF conjI [OF f [THEN conjunct1] f [THEN conjunct2, THEN conjunct2, THEN conjunct2]]]
    using inv ne by (auto simp: runs_inv_def)
  moreover have "list_all good_status (es_runs st')"
    using inv f by (auto simp: runs_inv_def st'(1) update_run_def list_all_iff good_status_def ended_def)
  ultimately show ?thesis using inv f tree_ok_update [of f] by (auto simp: runs_inv_def st'(1))
qed

lemma runs_inv_insert:
  assumes "runs_inv st" "x_id r \<notin> x_id ` set (es_runs st)" "tree_ok (es_runs st @ [r])" "good_status r" "\<not> ended r"
    and "es_runs st' = es_runs st @ [r]" "\<And>t. ends st' t = ends st t"
  shows "runs_inv st'"
  using assms by (auto simp: runs_inv_def)

lemma runs_inv_steps: "runs_inv (st\<lparr>es_steps := ks\<rparr>) = runs_inv st"
  by (simp add: runs_inv_def ends_def)

lemma runs_inv_cancel:
  assumes "runs_inv st" "es_runs st' = update_run t cancellable (cancel_run now) (es_runs st)" "es_activity st' = es_activity st"
  shows "runs_inv st'"
proof -
  let ?g = "\<lambda>r. if x_id r = t \<and> cancellable r then cancel_run now r else r"
  have g: "x_id (?g r) = x_id r" "ended (?g r) = ended r" "good_status (?g r) = good_status r" for r
    by (simp_all add: ended_def good_status_def)
  have "(\<exists>r \<in> set (es_runs st'). x_id r = u \<and> ended r) = (\<exists>r \<in> set (es_runs st). x_id r = u \<and> ended r)"
    "list_all good_status (es_runs st') = list_all good_status (es_runs st)" for u
    unfolding assms(2) update_run_def set_map bex_simps list_all_iff ball_simps g by (rule refl)+
  moreover have "tree_ok (es_runs st') = tree_ok (es_runs st)" unfolding assms(2) by (rule tree_ok_update) simp
  moreover have "map x_id (es_runs st') = map x_id (es_runs st)" unfolding assms(2) by simp
  moreover have "ends st' = ends st" by (intro ext) (simp add: ends_def assms(3))
  ultimately show ?thesis using assms(1) by (simp add: runs_inv_def)
qed

lemma finish_inv:
  assumes "runs_inv st" "final \<in> {''success'', ''danger''}"
  shows "runs_inv (finishWorkflow st t final now)"
proof (cases "affected st t live")
  case True
  show ?thesis
    by (rule runs_inv_end [OF assms(1) True,
          where f = "\<lambda>r. r\<lparr>x_status := (if final = ''danger'' then ''failure'' else final), x_completed := now\<rparr>"])
      (use assms(2) True in \<open>auto simp: finishWorkflow_def ended_def\<close>)
qed (use assms in \<open>simp add: finishWorkflow_def\<close>)

lemma reconcile_inv:
  assumes "runs_inv st"
  shows "runs_inv (reconcileWorkflowOrphan reason now st t)"
proof (cases "affected st t live")
  case True
  show ?thesis
    by (rule runs_inv_end [OF assms(1) True, where f = "\<lambda>r. r\<lparr>x_status := ''failure'', x_completed := now\<rparr>"])
      (use True in \<open>auto simp: reconcileWorkflowOrphan_def ended_def\<close>)
qed (use assms in \<open>simp add: reconcileWorkflowOrphan_def\<close>)

lemma cancel_inv: "runs_inv st \<Longrightarrow> runs_inv (snd (Cancel st t now))"
  by (auto simp: Cancel_def intro: runs_inv_cancel)

lemma start_inv:
  assumes "runs_inv st" "t \<noteq> []" "t \<notin> x_id ` set (es_runs st)" "parent = [] \<and> depth = 0 \<or> child_of_run st parent depth \<and> \<not> DepthExceeded depth"
  shows "runs_inv (start_row st t parent depth now)"
proof (rule runs_inv_insert [OF assms(1)])
  let ?r = "\<lparr>x_id = t, x_status = ''running'', x_cancelled = False, x_cancelled_at = [], x_started = now,
        x_completed = [], x_parent = parent, x_depth = depth\<rparr>"
  show "x_id ?r \<notin> x_id ` set (es_runs st)" using assms(3) by simp
  show "tree_ok (es_runs st @ [?r])"
    by (rule tree_ok_insert) (use assms in \<open>auto simp: runs_inv_def child_of_run_def DepthExceeded_def\<close>)
  show "ends (start_row st t parent depth now) u = ends st u" for u by (simp add: ends_def start_row_def)
qed (simp_all add: start_row_def good_status_def ended_def)

lemma refused_inv:
  assumes "runs_inv st" "t \<noteq> []" "t \<notin> x_id ` set (es_runs st)" "child_of_run st parent depth" "depth \<le> MaxWorkflowDepth + 1"
  shows "runs_inv (refused_row st t parent depth now)"
proof (rule runs_inv_insert [OF assms(1)])
  let ?r = "\<lparr>x_id = t, x_status = ''skipped'', x_cancelled = False, x_cancelled_at = [], x_started = now,
        x_completed = now, x_parent = parent, x_depth = depth\<rparr>"
  show "x_id ?r \<notin> x_id ` set (es_runs st)" using assms(3) by simp
  show "tree_ok (es_runs st @ [?r])"
    by (rule tree_ok_insert) (use assms in \<open>auto simp: runs_inv_def child_of_run_def\<close>)
  show "ends (refused_row st t parent depth now) u = ends st u" for u by (simp add: ends_def refused_row_def)
qed (simp_all add: refused_row_def good_status_def ended_def)

lemma wf_step_inv: "wf_step st l st' \<Longrightarrow> runs_inv st \<Longrightarrow> runs_inv st'"
  by (induction rule: wf_step.induct)
    (simp_all add: start_inv refused_inv finish_inv reconcile_inv cancel_inv runs_inv_steps move_step_def)

lemma reachable_inv: "reachable st \<Longrightarrow> runs_inv st"
proof (induction rule: reachable.induct)
  case init
  then show ?case by (simp add: runs_inv_def empty_db_def tree_ok_def ends_def)
qed (rule wf_step_inv)

text \<open>C6: whatever order walks, cancels, sweeps and reapers act in, the activity log has exactly one
  \<open>workflow-end\<close> for a run that succeeded or failed and none for one that is still running or was refused;
  a run is one row, of a legal status.\<close>

theorem one_workflow_end:
  assumes "reachable st"
  shows "distinct (map x_id (es_runs st)) \<and> list_all good_status (es_runs st) \<and>
    ends st t = (if \<exists>r \<in> set (es_runs st). x_id r = t \<and> ended r then 1 else 0)"
  using reachable_inv [OF assms] by (simp add: runs_inv_def)

text \<open>A row and what it becomes: its identity stays, a cancel is never taken back, an ended or refused row stays as it is.\<close>

definition follows :: "wf_run \<Rightarrow> wf_run \<Rightarrow> bool" where
  "follows r r' \<longleftrightarrow> x_id r' = x_id r \<and> x_parent r' = x_parent r \<and> x_depth r' = x_depth r \<and>
     (x_cancelled r \<longrightarrow> x_cancelled r') \<and> (\<not> live r \<longrightarrow> r' = r)"

lemma follows_refl [simp]: "follows r r"
  by (simp add: follows_def)

lemma follows_update:
  assumes "r \<in> set rs" "\<And>q. p q \<Longrightarrow> live q" "\<And>q. live q \<Longrightarrow> follows q (f q)"
  shows "\<exists>r' \<in> set (update_run t p f rs). follows r r'"
proof -
  have "(if x_id r = t \<and> p r then f r else r) \<in> set (update_run t p f rs)" using assms(1) by (auto simp: update_run_def)
  moreover have "follows r (if x_id r = t \<and> p r then f r else r)" using assms(2,3) [of r] by simp
  ultimately show ?thesis by blast
qed

lemma end_follows:
  "r \<in> set rs \<Longrightarrow> \<exists>r' \<in> set (update_run t live (\<lambda>r. r\<lparr>x_status := status, x_completed := now\<rparr>) rs). follows r r'"
  by (rule follows_update) (simp_all add: follows_def)

lemma stays: "r \<in> set rs \<Longrightarrow> \<exists>r' \<in> set rs. follows r r'"
  using follows_refl by blast

lemma finish_follows: "r \<in> set (es_runs st) \<Longrightarrow> \<exists>r' \<in> set (es_runs (finishWorkflow st t final now)). follows r r'"
  by (simp add: finishWorkflow_def Let_def end_follows stays)

lemma cancel_follows: "r \<in> set (es_runs st) \<Longrightarrow> \<exists>r' \<in> set (es_runs (snd (Cancel st t now))). follows r r'"
  by (auto simp: Cancel_def stays intro!: follows_update) (simp_all add: cancellable_def follows_def)

lemma reconcile_follows: "r \<in> set (es_runs st) \<Longrightarrow> \<exists>r' \<in> set (es_runs (reconcileWorkflowOrphan reason now st t)). follows r r'"
  by (simp add: reconcileWorkflowOrphan_def end_follows stays)

lemma step_follows:
  "wf_step st l st' \<Longrightarrow> r \<in> set (es_runs st) \<Longrightarrow> \<exists>r' \<in> set (es_runs st'). follows r r'"
proof (induction rule: wf_step.induct)
  case (trigger t st parent depth now)
  then show ?case by (intro bexI [of _ r]) (simp_all add: start_row_def)
next
  case (refuse t st parent depth now)
  then show ?case by (intro bexI [of _ r]) (simp_all add: refused_row_def)
next
  case (insert_step st k)
  then show ?case by (intro bexI [of _ r]) simp_all
next
  case (move st t status)
  then show ?case by (intro bexI [of _ r]) (simp_all add: move_step_def)
qed (simp_all add: finish_follows cancel_follows reconcile_follows)

text \<open>C23: a run that has ended or was refused never changes again, in any column, whatever happens next, and a
  cancel is never taken back.\<close>

theorem terminal_rows_are_final:
  assumes "(\<lambda>a b. \<exists>l. wf_step a l b)\<^sup>*\<^sup>* st st'" "r \<in> set (es_runs st)"
  shows "\<exists>r' \<in> set (es_runs st'). follows r r'"
  using assms(1)
proof (induction rule: rtranclp_induct)
  case base
  show ?case using assms(2) by (rule stays)
next
  case (step st1 st2)
  then obtain r1 where r1: "r1 \<in> set (es_runs st1)" "follows r r1" by blast
  obtain l where "wf_step st1 l st2" using step.hyps(2) by blast
  from step_follows [OF this r1(1)] obtain r2 where "r2 \<in> set (es_runs st2)" "follows r1 r2" by blast
  with r1(2) show ?case by (intro bexI [of _ r2]) (auto simp: follows_def)
qed

section \<open>Cancelling a tree\<close>

text \<open>Marking a set of runs at once: each that runs and is not cancelled is flagged, and its queued steps are skipped.\<close>

definition hit :: "string set \<Rightarrow> runs_db \<Rightarrow> string set" where
  "hit S st = {x_id r | r. r \<in> set (es_runs st) \<and> x_id r \<in> S \<and> cancellable r}"

definition mark :: "(string \<Rightarrow> string) \<Rightarrow> string set \<Rightarrow> runs_db \<Rightarrow> runs_db" where
  "mark now S st = st
     \<lparr>es_runs := map (\<lambda>r. if x_id r \<in> S \<and> cancellable r then cancel_run (now (x_id r)) r else r) (es_runs st),
      es_steps := map (\<lambda>k. if k_run k \<in> hit S st \<and> k_status k = ''queued'' then skip_step (now (k_run k)) k else k) (es_steps st)\<rparr>"

lemma Cancel_mark: "Cancel st t (now t) = (affected st t cancellable, mark now {t} st)"
proof (cases "affected st t cancellable")
  case True
  then have "hit {t} st = {t}" by (auto simp: hit_def affected_def)
  with True show ?thesis by (auto simp: Cancel_def mark_def update_run_def)
next
  case False
  then have h: "hit {t} st = {}" "\<And>r. r \<in> set (es_runs st) \<Longrightarrow> \<not> (x_id r = t \<and> cancellable r)" by (auto simp: hit_def affected_def)
  have "map (\<lambda>r. if x_id r \<in> {t} \<and> cancellable r then cancel_run (now (x_id r)) r else r) (es_runs st) = es_runs st"
    using h(2) by (intro map_idI) auto
  with False h(1) show ?thesis by (simp add: Cancel_def mark_def)
qed

lemma hit_mark: "hit S (mark now T st) = hit (S - T) st"
proof -
  define g where "g = (\<lambda>r. if x_id r \<in> T \<and> cancellable r then cancel_run (now (x_id r)) r else r)"
  have g: "x_id (g r) = x_id r" "cancellable (g r) \<longleftrightarrow> cancellable r \<and> x_id r \<notin> T" for r
    by (auto simp: g_def cancellable_def live_def)
  have m: "es_runs (mark now T st) = map g (es_runs st)" by (simp add: mark_def g_def)
  have "hit S (mark now T st) = {x_id (g r) | r. r \<in> set (es_runs st) \<and> x_id (g r) \<in> S \<and> cancellable (g r)}"
    unfolding hit_def m set_map by blast
  also have "\<dots> = hit (S - T) st" unfolding g hit_def by blast
  finally show ?thesis .
qed

lemma mark_mark: "mark now S (mark now T st) = mark now (T \<union> S) st"
proof -
  have h: "hit (T \<union> S) st = hit T st \<union> hit (S - T) st" by (auto simp: hit_def)
  have "es_runs (mark now S (mark now T st)) = es_runs (mark now (T \<union> S) st)"
    by (auto simp: mark_def cancellable_def live_def)
  moreover have "es_steps (mark now S (mark now T st)) = es_steps (mark now (T \<union> S) st)"
    unfolding mark_def [of now S] hit_mark by (auto simp: mark_def h)
  moreover have "es_activity (mark now S (mark now T st)) = es_activity (mark now (T \<union> S) st)" by (simp add: mark_def)
  ultimately show ?thesis by (metis runs_db.equality unit.exhaust)
qed

lemma children_mark [simp]: "childWorkflowRuns (mark now S st) = childWorkflowRuns st"
proof (intro ext)
  fix t
  have p: "x_parent (if b then cancel_run n r else r) = x_parent r" "x_id (if b then cancel_run n r else r) = x_id r" for b n r by simp_all
  show "childWorkflowRuns (mark now S st) t = childWorkflowRuns st t"
    by (simp add: childWorkflowRuns_def mark_def filter_map comp_def p)
qed

text \<open>\<open>n\<close> levels reach every descendant.\<close>

primrec deep :: "nat \<Rightarrow> runs_db \<Rightarrow> string \<Rightarrow> bool" where
  "deep 0 st t = False"
| "deep (Suc n) st t \<longleftrightarrow> (\<forall>c \<in> set (childWorkflowRuns st t). deep n st c)"

primrec subtree :: "nat \<Rightarrow> runs_db \<Rightarrow> string \<Rightarrow> string set" where
  "subtree 0 st t = {}"
| "subtree (Suc n) st t = insert t (\<Union>c \<in> set (childWorkflowRuns st t). subtree n st c)"

lemma deep_mark [simp]: "deep n (mark now S st) = deep n st" and subtree_mark [simp]: "subtree n (mark now S st) = subtree n st"
  by (induction n) (auto intro!: ext)

lemma CancelTree_mark:
  "deep n st t \<Longrightarrow> CancelTree n now st t = Some (affected st t cancellable, mark now (subtree n st t) st)"
proof (induction n arbitrary: st t)
  case (Suc n)
  have f: "foldl (\<lambda>acc c. Option.bind acc (\<lambda>s. map_option snd (CancelTree n now s c))) (Some (mark now S st)) cs =
      Some (mark now (S \<union> (\<Union>c \<in> set cs. subtree n st c)) st)" if "\<forall>c \<in> set cs. deep n st c" for S cs
    using that
  proof (induction cs arbitrary: S)
    case (Cons c cs)
    have "CancelTree n now (mark now S st) c = Some (affected (mark now S st) c cancellable, mark now (S \<union> subtree n st c) st)"
      using Suc.IH [of "mark now S st" c] Cons.prems by (simp add: mark_mark)
    with Cons show ?case by (simp add: Un_assoc)
  qed simp
  from Suc.prems have d: "\<forall>c \<in> set (childWorkflowRuns st t). deep n st c" by simp
  show ?case using f [OF d, of "{t}"] by (simp add: Cancel_mark)
qed simp

inductive descends :: "runs_db \<Rightarrow> string \<Rightarrow> string \<Rightarrow> bool" for st where
  self: "descends st t t"
| down: "c \<in> set (childWorkflowRuns st t) \<Longrightarrow> descends st c u \<Longrightarrow> descends st t u"

lemma subtree_descends:
  assumes "deep n st t"
  shows "subtree n st t = {u. descends st t u}"
proof
  show "subtree n st t \<subseteq> {u. descends st t u}"
    by (induction n arbitrary: t) (auto intro: descends.intros)
  have "u \<in> subtree n st t" if "descends st t u" "deep n st t" for u
    using that
  proof (induction arbitrary: n)
    case (self t)
    then show ?case by (cases n) auto
  next
    case (down c t u)
    then show ?case by (cases n) auto
  qed
  with assms show "{u. descends st t u} \<subseteq> subtree n st t" by blast
qed

lemma tree_deep:
  assumes "tree_ok (es_runs st)"
  shows "\<forall>r \<in> set (es_runs st). x_id r = t \<longrightarrow> MaxWorkflowDepth + 2 \<le> x_depth r + n \<Longrightarrow> t \<in> x_id ` set (es_runs st) \<Longrightarrow> distinct (map x_id (es_runs st)) \<Longrightarrow> deep n st t"
proof (induction n arbitrary: t)
  case 0
  then show ?case using assms unfolding tree_ok_def by fastforce
next
  case (Suc n)
  have "deep n st c" if "c \<in> set (childWorkflowRuns st t)" for c
  proof -
    from that obtain r where r: "r \<in> set (es_runs st)" "x_id r = c" "x_parent r = t" "t \<noteq> []" by (auto simp: childWorkflowRuns_def)
    then obtain p where p: "p \<in> set (es_runs st)" "x_id p = t" "x_depth r = x_depth p + 1" using assms unfolding tree_ok_def by fastforce
    have only: "r' = r" if "r' \<in> set (es_runs st)" "x_id r' = c" for r'
      using Suc.prems(3) r(1,2) that by (auto simp: distinct_map inj_on_def)
    show ?thesis
    proof (rule Suc.IH)
      show "\<forall>r \<in> set (es_runs st). x_id r = c \<longrightarrow> MaxWorkflowDepth + 2 \<le> x_depth r + n"
        using only p Suc.prems(1) by fastforce
    qed (use r Suc.prems in auto)
  qed
  then show ?case by simp
qed

text \<open>C22: cancelling a run from the operator's side ends: five levels of recursion reach every descendant,
  because the walk never nests deeper. It flags the run and each descendant that is running and not yet
  cancelled, skips with a reason the steps of those that are still queued, and touches nothing else.\<close>

theorem CancelTree_cancels_the_tree:
  assumes "reachable st" "t \<in> x_id ` set (es_runs st)"
  shows "CancelTree (MaxWorkflowDepth + 2) now st t = Some (affected st t cancellable, mark now {u. descends st t u} st)"
proof -
  have inv: "runs_inv st" using assms(1) by (rule reachable_inv)
  have "deep (MaxWorkflowDepth + 2) st t"
    by (rule tree_deep) (use inv assms(2) in \<open>auto simp: runs_inv_def\<close>)
  from CancelTree_mark [OF this] subtree_descends [OF this] show ?thesis by simp
qed

section \<open>The startup sweep\<close>

definition lost :: "string \<Rightarrow> wf_run \<Rightarrow> wf_run" where
  "lost now r = r\<lparr>x_status := ''failure'', x_completed := now\<rparr>"

definition lost_step :: "string \<Rightarrow> step_run \<Rightarrow> step_run" where
  "lost_step now k = k\<lparr>k_status := ''failure'', k_reason := Some ''orchestrator_lost'', k_completed := Some now\<rparr>"

definition live_ids :: "string set \<Rightarrow> runs_db \<Rightarrow> string set" where
  "live_ids S st = {x_id r | r. r \<in> set (es_runs st) \<and> x_id r \<in> S \<and> live r}"

lemma reconcile_runs: "es_runs (reconcileWorkflowOrphan reason now st t) = map (\<lambda>r. if x_id r = t \<and> live r then lost now r else r) (es_runs st)"
proof (cases "affected st t live")
  case False
  then have "\<forall>r \<in> set (es_runs st). \<not> (x_id r = t \<and> live r)" by (auto simp: affected_def)
  then have "map (\<lambda>r. if x_id r = t \<and> live r then lost now r else r) (es_runs st) = es_runs st" by (intro map_idI) auto
  with False show ?thesis by (simp add: reconcileWorkflowOrphan_def)
qed (simp add: reconcileWorkflowOrphan_def update_run_def lost_def)

lemma reconcile_steps: "es_steps (reconcileWorkflowOrphan ''orchestrator_lost'' now st t) =
    map (\<lambda>k. if k_run k \<in> live_ids {t} st \<and> k_status k \<in> {''queued'', ''running''} then lost_step now k else k) (es_steps st)"
proof (cases "affected st t live")
  case True
  then have "live_ids {t} st = {t}" by (auto simp: live_ids_def affected_def)
  with True show ?thesis by (auto simp: reconcileWorkflowOrphan_def lost_step_def)
next
  case False
  then have "live_ids {t} st = {}" by (auto simp: live_ids_def affected_def)
  with False show ?thesis by (simp add: reconcileWorkflowOrphan_def)
qed

lemma lost_simps [simp]: "x_id (lost now r) = x_id r" "\<not> live (lost now r)"
  "k_run (lost_step now k) = k_run k" "k_status (lost_step now k) = ''failure''"
  by (simp_all add: lost_def live_def lost_step_def)

lemma sweep_list:
  defines "rec now \<equiv> reconcileWorkflowOrphan ''orchestrator_lost'' now"
  shows "es_runs (foldl (rec now) st ts) = map (\<lambda>r. if x_id r \<in> set ts \<and> live r then lost now r else r) (es_runs st) \<and>
    es_steps (foldl (rec now) st ts) =
      map (\<lambda>k. if k_run k \<in> live_ids (set ts) st \<and> k_status k \<in> {''queued'', ''running''} then lost_step now k else k) (es_steps st)"
proof (induction ts arbitrary: st)
  case (Cons t ts)
  let ?st1 = "rec now st t"
  have l: "live_ids (set (t # ts)) st = live_ids {t} st \<union> live_ids (set ts) ?st1"
  proof
    show "live_ids (set (t # ts)) st \<subseteq> live_ids {t} st \<union> live_ids (set ts) ?st1"
      unfolding rec_def live_ids_def reconcile_runs by force
    show "live_ids {t} st \<union> live_ids (set ts) ?st1 \<subseteq> live_ids (set (t # ts)) st"
      unfolding rec_def live_ids_def reconcile_runs by (auto split: if_splits)
  qed
  show ?case using Cons [of ?st1] unfolding l
    by (auto simp: rec_def reconcile_runs reconcile_steps)
qed (simp add: live_ids_def)

lemma sweep_reachable: "reachable st \<Longrightarrow> reachable (foldl (reconcileWorkflowOrphan reason now) st ts)"
  by (induction ts arbitrary: st) (auto intro: reachable.step wf_step.reconcile)

text \<open>C25: after the startup sweep no workflow run is running: each that was is a failure, its steps that were
  queued or running are failures with the reason, and the other rows are as they were.\<close>

theorem startup_sweep_clears:
  assumes "reachable st"
  shows "let st' = sweepOrphansOnStartup now st; was = {x_id r | r. r \<in> set (es_runs st) \<and> live r}
    in reachable st' \<and> list_all (\<lambda>r. \<not> live r) (es_runs st') \<and>
       es_runs st' = map (\<lambda>r. if live r then lost now r else r) (es_runs st) \<and>
       es_steps st' = map (\<lambda>k. if k_run k \<in> was \<and> k_status k \<in> {''queued'', ''running''} then lost_step now k else k) (es_steps st)"
proof -
  define ts where "ts = map x_id (filter live (es_runs st))"
  have d: "x_id r \<in> set ts \<and> live r \<longleftrightarrow> live r" if "r \<in> set (es_runs st)" for r using that by (auto simp: ts_def)
  have l: "live_ids (set ts) st = {x_id r | r. r \<in> set (es_runs st) \<and> live r}" by (auto simp: live_ids_def ts_def)
  have r: "es_runs (sweepOrphansOnStartup now st) = map (\<lambda>r. if live r then lost now r else r) (es_runs st)"
    using sweep_list [of now st ts] d by (simp add: sweepOrphansOnStartup_def ts_def cong: map_cong)
  have s: "es_steps (sweepOrphansOnStartup now st) =
      map (\<lambda>k. if k_run k \<in> {x_id r | r. r \<in> set (es_runs st) \<and> live r} \<and> k_status k \<in> {''queued'', ''running''} then lost_step now k else k) (es_steps st)"
    using sweep_list [of now st ts] unfolding l [symmetric] by (simp add: sweepOrphansOnStartup_def ts_def)
  have "reachable (sweepOrphansOnStartup now st)" using assms by (simp add: sweepOrphansOnStartup_def sweep_reachable)
  moreover have "list_all (\<lambda>r. \<not> live r) (es_runs (sweepOrphansOnStartup now st))" by (auto simp: r list_all_iff)
  ultimately show ?thesis using r s by (simp add: Let_def)
qed

section \<open>Witnesses\<close>

text \<open>A run with a sub-workflow whose step is queued: the child is cancelled with its parent, the child's walk
  ends, and the parent is found running at the next start.\<close>

definition demo_labels :: "wf_label list" where
  "demo_labels = [LTrigger ''p'' [] 0 ''t0'', LTrigger ''c'' ''p'' 1 ''t1'',
     LStep \<lparr>k_id = ''s'', k_run = ''c'', k_status = ''queued'', k_reason = None, k_completed = None\<rparr>]"

definition demo_state :: runs_db where
  "demo_state = (case run_labels demo_labels of None \<Rightarrow> empty_db | Some st \<Rightarrow> st)"

lemma demo_reachable: "reachable demo_state"
  by (auto simp: demo_state_def reachable.init split: option.splits intro: run_labels_reachable)

lemma demo_ids: "map x_id (es_runs demo_state) = [''p'', ''c'']" "map x_status (es_runs demo_state) = [''running'', ''running'']"
  by code_simp+

theorem one_workflow_end_witness:
  "ends (sweepOrphansOnStartup ''t9'' demo_state) ''p'' = 1 \<and> distinct (map x_id (es_runs (sweepOrphansOnStartup ''t9'' demo_state)))"
proof -
  have "\<exists>r \<in> set (es_runs (sweepOrphansOnStartup ''t9'' demo_state)). x_id r = ''p'' \<and> ended r" by code_simp
  moreover have "reachable (sweepOrphansOnStartup ''t9'' demo_state)"
    unfolding sweepOrphansOnStartup_def by (rule sweep_reachable [OF demo_reachable])
  ultimately show ?thesis using one_workflow_end by simp
qed

theorem terminal_rows_are_final_witness:
  "\<exists>r \<in> set (es_runs (finishWorkflow demo_state ''c'' ''success'' ''t2'')). \<not> live r \<and>
     (\<exists>r' \<in> set (es_runs (snd (Cancel (finishWorkflow demo_state ''c'' ''success'' ''t2'') ''c'' ''t3''))). follows r r')"
proof -
  let ?st = "finishWorkflow demo_state ''c'' ''success'' ''t2''"
  have "list_ex (\<lambda>r. \<not> live r) (es_runs ?st)" by code_simp
  then obtain r where r: "r \<in> set (es_runs ?st)" "\<not> live r" by (auto simp: list_ex_iff)
  have "(\<lambda>a b. \<exists>l. wf_step a l b)\<^sup>*\<^sup>* ?st (snd (Cancel ?st ''c'' ''t3''))" using wf_step.cancel by blast
  from terminal_rows_are_final [OF this r(1)] r show ?thesis by blast
qed

theorem CancelTree_cancels_the_tree_witness:
  "\<exists>st'. CancelTree (MaxWorkflowDepth + 2) (\<lambda>_. ''t3'') demo_state ''p'' = Some (True, st') \<and>
     map x_cancelled (es_runs st') = [True, True] \<and> map k_status (es_steps st') = [''skipped'']"
proof -
  have "''p'' \<in> x_id ` set (es_runs demo_state)" using demo_ids(1) by (metis list.set_intros(1) list.set_map)
  from CancelTree_cancels_the_tree [OF demo_reachable this, of "\<lambda>_. ''t3''"]
  obtain b st' where "CancelTree (MaxWorkflowDepth + 2) (\<lambda>_. ''t3'') demo_state ''p'' = Some (b, st')" by blast
  moreover have "map_option (\<lambda>(b, st). (b, map x_cancelled (es_runs st), map k_status (es_steps st)))
      (CancelTree (MaxWorkflowDepth + 2) (\<lambda>_. ''t3'') demo_state ''p'') = Some (True, [True, True], [''skipped''])" by code_simp
  ultimately show ?thesis by auto
qed

theorem startup_sweep_clears_witness:
  "list_all (\<lambda>r. \<not> live r) (es_runs (sweepOrphansOnStartup ''t9'' demo_state)) \<and> list_all live (es_runs demo_state)"
proof -
  have "list_all live (es_runs demo_state)" by code_simp
  then show ?thesis using startup_sweep_clears [OF demo_reachable, of "''t9''"] unfolding Let_def by blast
qed

end
