(* ===== verification/Claim.thy ===== *)
theory Claim
  imports Run_Row Workflow_Resolve "HOL-Library.Product_Lexorder"
begin

text \<open>
  Dispatch: the concurrency caps (\<open>backend/internal/runcap\<close>), the claim rules
  (\<open>backend/internal/execspec/claimrule.go\<close>) and \<open>Claim\<close> of \<open>backend/internal/runner/poll.go\<close>, the one
  statement that moves a queued run to running, for an agent's poll and for the local runner. The
  tables are lists of rows in the order of their rowids; the JSON arrays of a runner are lists. The
  envelope of a run's override is read by the argument \<open>cl_override\<close> (the kinds of its references).
\<close>

section \<open>Tables\<close>

record agency =
  ag_id :: string
  ag_name :: string
  ag_cap :: "int option"

record runner =
  rn_id :: string
  rn_name :: string
  rn_kind :: string
  rn_status :: string
  rn_capabilities :: "string list"
  rn_mask :: "string list"
  rn_owner :: string
  rn_allow :: bool
  rn_load :: int

record scope_row =
  sc_id :: string
  sc_name :: string
  sc_owner :: string

record ref_binding =
  rb_ref_kind :: string
  rb_owner_kind :: string
  rb_owner_uid :: "string option"
  rb_owner_source :: string
  rb_owner_name :: string

text \<open>A row of \<open>runs\<close> with the columns that are filled after its insert: the agency that owns it, and
  the runner that took it.\<close>

record live_run = db_run +
  lr_owner :: "string option"
  lr_runner :: "string option"
  lr_runner_name :: "string option"

record claim_db =
  cl_runs :: "live_run list"
  cl_agencies :: "agency list"
  cl_runners :: "runner list"
  cl_runner_agencies :: "(string \<times> string) list"
  cl_run_agencies :: "(string \<times> string) list"
  cl_scopes :: "scope_row list"
  cl_scope_agencies :: "(string \<times> string) list"
  cl_scope_runners :: "(string \<times> string \<times> string) list"
  cl_bindings :: "ref_binding list"
  cl_maxConcurrent :: "string option"
  cl_injection :: bool
  cl_override :: "string \<Rightarrow> string list"
  cl_log :: "(string \<times> string) list"

definition the_agency :: "claim_db \<Rightarrow> string \<Rightarrow> agency option" where
  "the_agency db a = List.find (\<lambda>x. ag_id x = a) (cl_agencies db)"

definition the_runner :: "claim_db \<Rightarrow> string \<Rightarrow> runner option" where
  "the_runner db rid = List.find (\<lambda>x. rn_id x = rid) (cl_runners db)"

section \<open>The caps\<close>

text \<open>\<open>fmt.Sscanf(s, "%d", &n)\<close>: blanks, a sign, digits; what follows is not read.\<close>

definition scan_int :: "string \<Rightarrow> int option" where
  "scan_int s =
     (let t = dropWhile is_space s;
          (neg, u) = (case t of [] \<Rightarrow> (False, [])
                      | c # r \<Rightarrow> if c = CHR ''-'' then (True, r) else if c = CHR ''+'' then (False, r) else (False, t));
          ds = takeWhile is_digit u;
          v = (if neg then - digits_val ds else digits_val ds)
      in if ds = [] \<or> v < minInt64 \<or> v > maxInt64 then None else Some v)"

definition DefaultMax :: int where "DefaultMax = 5"

definition Max_of :: "string option \<Rightarrow> int" where
  "Max_of setting =
     (case setting of None \<Rightarrow> DefaultMax
      | Some s \<Rightarrow> (case scan_int s of None \<Rightarrow> DefaultMax | Some n \<Rightarrow> if s \<noteq> [] \<and> n > 0 then n else DefaultMax))"

definition count_runs :: "(live_run \<Rightarrow> bool) \<Rightarrow> live_run list \<Rightarrow> int" where
  "count_runs p rs = int (length (filter p rs))"

abbreviation running :: "live_run \<Rightarrow> bool" where "running r \<equiv> d_status r = ''running''"
abbreviation waiting :: "live_run \<Rightarrow> bool" where "waiting r \<equiv> d_status r = ''queued''"
abbreviation owned :: "string \<Rightarrow> live_run \<Rightarrow> bool" where "owned a r \<equiv> lr_owner r = Some a"

datatype cap_verdict = NotReached | InstallationCap int | AgencyCap string int

definition nameOr :: "string option \<Rightarrow> string \<Rightarrow> string" where
  "nameOr name i = (case name of None \<Rightarrow> i | Some n \<Rightarrow> if n \<noteq> [] then n else i)"

definition AtProduction :: "claim_db \<Rightarrow> string \<Rightarrow> cap_verdict" where
  "AtProduction db a =
     (let limit = Max_of (cl_maxConcurrent db);
          active = count_runs running (cl_runs db);
          waitingHere = count_runs (\<lambda>r. waiting r \<and> owned a r) (cl_runs db);
          activeHere = count_runs (\<lambda>r. (waiting r \<or> running r) \<and> owned a r) (cl_runs db);
          ag = the_agency db a
      in if active + waitingHere \<ge> limit then InstallationCap limit
         else case Option.bind ag ag_cap of
           None \<Rightarrow> NotReached
         | Some c \<Rightarrow> if activeHere \<ge> c then AgencyCap (nameOr (map_option ag_name ag) a) c else NotReached)"

definition itoa :: "int \<Rightarrow> string" where
  "itoa n = (if n < 0 then ''-'' @ digits_of (nat (- n)) else digits_of (nat n))"

definition HeldAtClaim :: "claim_db \<Rightarrow> string \<Rightarrow> string" where
  "HeldAtClaim db a =
     (let limit = Max_of (cl_maxConcurrent db);
          ag = the_agency db a
      in if count_runs running (cl_runs db) \<ge> limit
         then ''Waiting for a slot: the installation's concurrency cap ('' @ itoa limit @ '') is reached by running runs''
         else case Option.bind ag ag_cap of
           None \<Rightarrow> []
         | Some c \<Rightarrow> if count_runs (\<lambda>r. running r \<and> owned a r) (cl_runs db) \<ge> c
                     then ''Waiting for a slot: '' @ nameOr (map_option ag_name ag) a @ [CHR 0x27] @ ''s concurrency cap ('' @ itoa c @ '') is reached by its running runs''
                     else [])"

text \<open>\<open>ClaimSQL\<close>: the two clauses of the claim.\<close>

definition ClaimSQL :: "claim_db \<Rightarrow> live_run \<Rightarrow> bool" where
  "ClaimSQL db r \<longleftrightarrow>
     count_runs running (cl_runs db) < Max_of (cl_maxConcurrent db) \<and>
     \<not> list_ex (\<lambda>a. owned (ag_id a) r \<and>
          (case ag_cap a of None \<Rightarrow> False
           | Some c \<Rightarrow> c \<le> count_runs (\<lambda>x. running x \<and> owned (ag_id a) x) (cl_runs db))) (cl_agencies db)"

section \<open>The claim's rules\<close>

definition EffectiveCaps :: "string list \<Rightarrow> string list \<Rightarrow> string list" where
  "EffectiveCaps caps without = (if without = [] then caps else filter (\<lambda>c. c \<notin> set without) caps)"

text \<open>\<open>EffectiveCapsSQL\<close>: the same over a runner's row.\<close>

definition EffectiveCapsSQL :: "runner \<Rightarrow> string list" where
  "EffectiveCapsSQL rn = filter (\<lambda>c. c \<notin> set (rn_mask rn)) (rn_capabilities rn)"

text \<open>What a run requires: the values of its list. A NULL value is required of nobody.\<close>

definition tokens :: "json_text option \<Rightarrow> string list" where
  "tokens t = (case t of Some (JList xs) \<Rightarrow> xs | Some (JScalar (Some s)) \<Rightarrow> [s] | _ \<Rightarrow> [])"

definition readable :: "json_text option \<Rightarrow> bool" where
  "readable t \<longleftrightarrow> (case t of None \<Rightarrow> True | Some j \<Rightarrow> json_each j \<noteq> None)"

text \<open>A declared binding of the run's job or script: by the identity the run froze.\<close>

definition binding_of :: "live_run \<Rightarrow> ref_binding \<Rightarrow> bool" where
  "binding_of r b \<longleftrightarrow>
     rb_owner_kind b = ''job'' \<and>
       (if coalesce (d_job_uid r) [] \<noteq> [] then rb_owner_uid b = d_job_uid r
        else rb_owner_source b = (if coalesce (d_job_source r) [] = [] then ''git'' else coalesce (d_job_source r) []) \<and>
             rb_owner_name b = d_job_name r) \<or>
     rb_owner_kind b = ''script'' \<and> rb_owner_uid b \<noteq> None \<and> rb_owner_uid b = d_script_uid r"

definition RunBindsKeySQL :: "claim_db \<Rightarrow> live_run \<Rightarrow> bool" where
  "RunBindsKeySQL db r \<longleftrightarrow>
     (case d_override r of None \<Rightarrow> False | Some o' \<Rightarrow> ''key'' \<in> set (cl_override db o')) \<or>
     list_ex (\<lambda>b. rb_ref_kind b = ''key'' \<and> binding_of r b) (cl_bindings db)"

definition injects :: "claim_db \<Rightarrow> live_run \<Rightarrow> bool" where
  "injects db r \<longleftrightarrow> coalesce (d_ssh_credential r) [] \<noteq> [] \<or> list_ex (binding_of r) (cl_bindings db)"

text \<open>\<open>RunScopeOwnerSQL\<close> and \<open>RunScopeOwner\<close>: the agency a run's scope is looked for in.\<close>

definition RunScopeOwner :: "claim_db \<Rightarrow> string list \<Rightarrow> string" where
  "RunScopeOwner db names =
     (case names of [n] \<Rightarrow> (case List.find (\<lambda>a. ag_name a = n) (cl_agencies db) of Some a \<Rightarrow> ag_id a | None \<Rightarrow> Global)
      | _ \<Rightarrow> Global)"

definition served_names :: "claim_db \<Rightarrow> string \<Rightarrow> string list" where
  "served_names db rid =
     (case the_runner db rid of None \<Rightarrow> []
      | Some rn \<Rightarrow> map ag_name (filter (\<lambda>a. ag_id a = rn_owner rn \<and> (rid, ag_id a) \<in> set (cl_runner_agencies db)) (cl_agencies db)))"

text \<open>The runners a scope is bound to, by the scope's name in an agency.\<close>

definition bound_to :: "claim_db \<Rightarrow> string \<Rightarrow> string \<Rightarrow> string list" where
  "bound_to db name owner =
     concat (map (\<lambda>(sid, rid, _). map (\<lambda>_. rid) (filter (\<lambda>s. sc_id s = sid \<and> sc_name s = name \<and> sc_owner s = owner) (cl_scopes db)))
       (cl_scope_runners db))"

section \<open>The claim\<close>

record claim_request =
  rq_runner :: string
  rq_caps :: "string list"
  rq_injection :: bool
  rq_local :: bool
  rq_actor :: string

definition claimable :: "claim_db \<Rightarrow> claim_request \<Rightarrow> live_run \<Rightarrow> bool" where
  "claimable db req r \<longleftrightarrow>
     waiting r \<and> d_executor r = ''runner'' \<and>
     d_run_type r \<in> set (rq_caps req) \<and>
     list_all (\<lambda>t. t \<in> set (rq_caps req)) (tokens (d_requires r)) \<and>
     list_ex (\<lambda>(rid, name). rid = d_id r \<and> name \<in> set (served_names db (rq_runner req))) (cl_run_agencies db) \<and>
     (case d_scope r of None \<Rightarrow> True
      | Some s \<Rightarrow> let bs = bound_to db s (RunScopeOwner db (d_agencies r)) in bs = [] \<or> rq_runner req \<in> set bs) \<and>
     (rq_injection req \<or> \<not> injects db r) \<and>
     (\<not> rq_local req \<or> \<not> RunBindsKeySQL db r) \<and>
     ClaimSQL db r"

definition claim_order :: "live_run \<Rightarrow> int \<times> string" where
  "claim_order r = (- d_priority r, d_created_at r)"

definition take_run :: "claim_db \<Rightarrow> claim_request \<Rightarrow> string \<Rightarrow> live_run \<Rightarrow> live_run" where
  "take_run db req ts r =
     r\<lparr>d_status := ''running'', lr_runner := Some (rq_runner req),
       lr_runner_name := map_option rn_name (the_runner db (rq_runner req)),
       d_started_at := Some ts, d_queued_reason := None\<rparr>"

datatype claim_result = ClaimError | NoRun | Claimed string

text \<open>A requirements value that is not JSON fails the statement as soon as it is read.\<close>

definition Claim :: "claim_db \<Rightarrow> claim_request \<Rightarrow> string \<Rightarrow> claim_result \<times> claim_db" where
  "Claim db req ts =
     (if rq_caps req = [] then (NoRun, db)
      else if list_ex (\<lambda>r. waiting r \<and> d_executor r = ''runner'' \<and> d_run_type r \<in> set (rq_caps req) \<and> \<not> readable (d_requires r)) (cl_runs db)
      then (ClaimError, db)
      else case sort_key claim_order (filter (claimable db req) (cl_runs db)) of
        [] \<Rightarrow> (NoRun, db)
      | r # _ \<Rightarrow>
          (Claimed (d_id r),
           db\<lparr>cl_runs := map (\<lambda>x. if d_id x = d_id r then take_run db req ts x else x) (cl_runs db),
              cl_runners := map (\<lambda>rn. if rn_id rn = rq_runner req then rn\<lparr>rn_load := rn_load rn + 1\<rparr> else rn) (cl_runners db),
              cl_log := cl_log db @ [(rq_actor req, d_id r)]\<rparr>))"

text \<open>The two callers: \<open>claimRun\<close> of an agent's poll, and \<open>claim\<close> of the local runner.\<close>

definition claimRun :: "claim_db \<Rightarrow> runner \<Rightarrow> claim_request" where
  "claimRun db rn = \<lparr>rq_runner = rn_id rn, rq_caps = EffectiveCaps (rn_capabilities rn) (rn_mask rn),
     rq_injection = (\<not> cl_injection db \<or> rn_allow rn), rq_local = False, rq_actor = ''runner:'' @ rn_id rn\<rparr>"

definition local_claim :: "runner \<Rightarrow> claim_request" where
  "local_claim rn = \<lparr>rq_runner = rn_id rn, rq_caps = EffectiveCaps (rn_capabilities rn) (rn_mask rn),
     rq_injection = True, rq_local = True, rq_actor = ''local-runner''\<rparr>"

definition request_of :: "claim_db \<Rightarrow> runner \<Rightarrow> claim_request" where
  "request_of db rn = (if rn_kind rn = ''server'' then local_claim rn else claimRun db rn)"

end
