(* ===== verification/Claim_Props.thy ===== *)
theory Claim_Props
  imports Claim
begin

text \<open>
  What a claim does and what it never does: it takes the first of the runs it may take and changes that
  row only; the agency, the scope's binding, the credentials and the caps decide what it may take; and
  however claims, producers, runners and operators interleave, the caps hold and a run is taken once.
\<close>

section \<open>One claim\<close>

lemma sort_key_min:
  assumes "sort_key f xs = r # rs" and "x \<in> set xs"
  shows "r \<in> set xs \<and> f r \<le> f x"
proof -
  have s: "set (sort_key f xs) = set xs" and o': "sorted (map f (sort_key f xs))" by simp_all
  have "r \<in> set xs" using assms(1) s by (metis list.set_intros(1))
  moreover have "x = r \<or> x \<in> set rs" using assms s by auto
  ultimately show ?thesis using o' assms(1) by auto
qed

lemma sort_key_Nil: "sort_key f xs = [] \<longleftrightarrow> xs = []"
  by (metis length_0_conv length_sort)

lemma Claim_Claimed:
  assumes "Claim db req ts = (Claimed t, db')"
  obtains r where "r \<in> set (cl_runs db)" "d_id r = t" "claimable db req r"
    "\<forall>x \<in> set (cl_runs db). claimable db req x \<longrightarrow> claim_order r \<le> claim_order x"
    "db' = db\<lparr>cl_runs := map (\<lambda>x. if d_id x = t then take_run db req ts x else x) (cl_runs db),
              cl_runners := map (\<lambda>rn. if rn_id rn = rq_runner req then rn\<lparr>rn_load := rn_load rn + 1\<rparr> else rn) (cl_runners db),
              cl_log := cl_log db @ [(rq_actor req, t)]\<rparr>"
proof -
  define cs where "cs = sort_key claim_order (filter (claimable db req) (cl_runs db))"
  from assms obtain r rs where r: "cs = r # rs" "t = d_id r"
    "db' = db\<lparr>cl_runs := map (\<lambda>x. if d_id x = d_id r then take_run db req ts x else x) (cl_runs db),
              cl_runners := map (\<lambda>rn. if rn_id rn = rq_runner req then rn\<lparr>rn_load := rn_load rn + 1\<rparr> else rn) (cl_runners db),
              cl_log := cl_log db @ [(rq_actor req, d_id r)]\<rparr>"
    by (auto simp: Claim_def simp flip: cs_def split: if_splits list.splits)
  have m: "x \<in> set (filter (claimable db req) (cl_runs db)) \<Longrightarrow>
      r \<in> set (filter (claimable db req) (cl_runs db)) \<and> claim_order r \<le> claim_order x" for x
    using sort_key_min [OF r(1) [unfolded cs_def]] .
  have "r \<in> set (filter (claimable db req) (cl_runs db))"
    using r(1) by (metis cs_def list.set_intros(1) set_sort)
  then have "r \<in> set (cl_runs db)" "claimable db req r" by simp_all
  with that m r(2,3) show ?thesis by auto
qed

text \<open>Who may take a run: the rules of the claim as one statement over the runner and the run.\<close>

lemma claimable_serves:
  assumes "claimable db req r"
  shows "\<exists>rn a. the_runner db (rq_runner req) = Some rn \<and> a \<in> set (cl_agencies db) \<and> ag_id a = rn_owner rn \<and>
    (rq_runner req, ag_id a) \<in> set (cl_runner_agencies db) \<and> (d_id r, ag_name a) \<in> set (cl_run_agencies db)"
proof -
  from assms obtain name where n: "(d_id r, name) \<in> set (cl_run_agencies db)" "name \<in> set (served_names db (rq_runner req))"
    by (auto simp: claimable_def list_ex_iff)
  then obtain rn where "the_runner db (rq_runner req) = Some rn" by (cases "the_runner db (rq_runner req)") (auto simp: served_names_def)
  with n show ?thesis by (auto simp: served_names_def)
qed

text \<open>C34: a claim takes a run that no other it may take precedes: every other has a lower priority, or the same
  priority and was created no earlier; the runner then serves, as its own agency's, an agency the run requires, and no key-bound run
  goes to the local runner, no run with credentials to a runner that may not have them; every other row
  is as it was.\<close>

theorem Claim_takes_the_first:
  assumes "Claim db req ts = (Claimed t, db')" and "distinct (map d_id (cl_runs db))"
  shows "\<exists>r rn a. r \<in> set (cl_runs db) \<and> d_id r = t \<and> waiting r \<and> claimable db req r \<and>
    (\<forall>x \<in> set (cl_runs db). claimable db req x \<longrightarrow>
       d_priority x < d_priority r \<or> d_priority x = d_priority r \<and> d_created_at r \<le> d_created_at x) \<and>
    the_runner db (rq_runner req) = Some rn \<and> a \<in> set (cl_agencies db) \<and> ag_id a = rn_owner rn \<and>
    (rq_runner req, ag_id a) \<in> set (cl_runner_agencies db) \<and> (t, ag_name a) \<in> set (cl_run_agencies db) \<and>
    \<not> (rq_local req \<and> RunBindsKeySQL db r) \<and> \<not> (injects db r \<and> \<not> rq_injection req) \<and>
    take_run db req ts r \<in> set (cl_runs db') \<and>
    filter (\<lambda>x. d_id x \<noteq> t) (cl_runs db') = filter (\<lambda>x. d_id x \<noteq> t) (cl_runs db)"
proof -
  from assms(1) obtain r where r: "r \<in> set (cl_runs db)" "d_id r = t" "claimable db req r"
    "\<forall>x \<in> set (cl_runs db). claimable db req x \<longrightarrow> claim_order r \<le> claim_order x"
    "db' = db\<lparr>cl_runs := map (\<lambda>x. if d_id x = t then take_run db req ts x else x) (cl_runs db),
              cl_runners := map (\<lambda>rn. if rn_id rn = rq_runner req then rn\<lparr>rn_load := rn_load rn + 1\<rparr> else rn) (cl_runners db),
              cl_log := cl_log db @ [(rq_actor req, t)]\<rparr>"
    by (rule Claim_Claimed)
  from claimable_serves [OF r(3)] obtain rn a where s: "the_runner db (rq_runner req) = Some rn"
    "a \<in> set (cl_agencies db)" "ag_id a = rn_owner rn" "(rq_runner req, ag_id a) \<in> set (cl_runner_agencies db)"
    "(t, ag_name a) \<in> set (cl_run_agencies db)" using r(2) by blast
  have "d_priority x < d_priority r \<or> d_priority x = d_priority r \<and> d_created_at r \<le> d_created_at x"
    if "x \<in> set (cl_runs db)" "claimable db req x" for x
    using r(4) that by (fastforce simp: claim_order_def)
  moreover have "take_run db req ts r \<in> set (cl_runs db')" using r(1,2,5) by force
  moreover have "filter (\<lambda>x. d_id x \<noteq> t) (map (\<lambda>x. if d_id x = t then take_run db req ts x else x) xs) =
      filter (\<lambda>x. d_id x \<noteq> t) xs" for xs :: "live_run list"
    by (induction xs) (auto simp: take_run_def)
  then have "filter (\<lambda>x. d_id x \<noteq> t) (cl_runs db') = filter (\<lambda>x. d_id x \<noteq> t) (cl_runs db)"
    by (simp add: r(5))
  moreover have "waiting r" "\<not> (rq_local req \<and> RunBindsKeySQL db r)" "\<not> (injects db r \<and> \<not> rq_injection req)"
    using r(3) by (auto simp: claimable_def)
  ultimately show ?thesis using r(1,2,3) s by blast
qed

section \<open>Any interleaving\<close>

text \<open>What happens to the queue: a claim; a producer inserts rows; a run ends or a waiting one is closed;
  the fleet and the scopes are administered. The caps themselves are left as they are.\<close>

definition close_run :: "string \<Rightarrow> string \<Rightarrow> live_run \<Rightarrow> live_run" where
  "close_run t status r = (if d_id r = t then r\<lparr>d_status := status\<rparr> else r)"

inductive disp_step :: "claim_db \<Rightarrow> claim_db \<Rightarrow> bool" where
  claim: "Claim db req ts = (Claimed t, db') \<Longrightarrow> disp_step db db'"
| produce: "d_id r \<notin> d_id ` set (cl_runs db) \<Longrightarrow> \<not> running r \<Longrightarrow>
    disp_step db (db\<lparr>cl_runs := cl_runs db @ [r], cl_run_agencies := cl_run_agencies db @ as\<rparr>)"
| close: "status \<notin> {''queued'', ''running''} \<Longrightarrow>
    disp_step db (db\<lparr>cl_runs := map (close_run t status) (cl_runs db)\<rparr>)"
| fleet: "disp_step db (db\<lparr>cl_runners := rns, cl_runner_agencies := ras, cl_scopes := scs, cl_scope_agencies := sas,
      cl_scope_runners := srs, cl_bindings := bs\<rparr>)"

inductive disp_reach :: "claim_db \<Rightarrow> claim_db \<Rightarrow> bool" for db0 where
  start: "disp_reach db0 db0"
| step: "disp_reach db0 db \<Longrightarrow> disp_step db db' \<Longrightarrow> disp_reach db0 db'"

definition within_caps :: "claim_db \<Rightarrow> bool" where
  "within_caps db \<longleftrightarrow>
     count_runs running (cl_runs db) \<le> Max_of (cl_maxConcurrent db) \<and>
     (\<forall>a \<in> set (cl_agencies db). \<forall>c. ag_cap a = Some c \<longrightarrow>
        count_runs (\<lambda>r. running r \<and> owned (ag_id a) r) (cl_runs db) \<le> c)"

definition taken :: "claim_db \<Rightarrow> string \<Rightarrow> nat" where
  "taken db t = length (filter (\<lambda>e. snd e = t) (cl_log db))"

definition disp_inv :: "claim_db \<Rightarrow> bool" where
  "disp_inv db \<longleftrightarrow> distinct (map d_id (cl_runs db)) \<and> within_caps db \<and>
     (\<forall>t. taken db t \<le> 1) \<and>
     (\<forall>t. 0 < taken db t \<longrightarrow> (\<exists>r \<in> set (cl_runs db). d_id r = t \<and> \<not> waiting r))"

lemma count_runs_simps [simp]:
  "count_runs p [] = 0" "count_runs p (r # rs) = (if p r then 1 else 0) + count_runs p rs"
  "count_runs p (rs @ ss) = count_runs p rs + count_runs p ss"
  by (simp_all add: count_runs_def)

lemma count_runs_map_le: "(\<And>r. r \<in> set rs \<Longrightarrow> p (f r) \<Longrightarrow> p r) \<Longrightarrow> count_runs p (map f rs) \<le> count_runs p rs"
  by (induction rs) auto

lemma count_runs_take:
  "distinct (map d_id rs) \<Longrightarrow>
   count_runs p (map (\<lambda>x. if d_id x = t then take_run db req ts x else x) rs) \<le> count_runs p rs + 1"
proof (induction rs)
  case (Cons r rs)
  show ?case
  proof (cases "d_id r = t")
    case True
    then have "map (\<lambda>x. if d_id x = t then take_run db req ts x else x) rs = rs"
      using Cons.prems True by (intro map_idI) (metis (no_types, lifting) distinct.simps(2) image_eqI list.map(2) list.set_map)
    then show ?thesis using True by auto
  next
    case False
    then show ?thesis using Cons by auto
  qed
qed simp

lemma ids_take [simp]: "d_id (take_run db req ts r) = d_id r"
  and owner_take [simp]: "lr_owner (take_run db req ts r) = lr_owner r"
  and status_take [simp]: "d_status (take_run db req ts r) = ''running''"
  by (simp_all add: take_run_def)

lemma taken_snoc [simp]: "taken (db\<lparr>cl_log := cl_log db @ [(a, t)]\<rparr>) u = taken db u + (if u = t then 1 else 0)"
  by (simp add: taken_def)

lemma claim_within:
  assumes "disp_inv db" and "Claim db req ts = (Claimed t, db')"
  shows "within_caps db'"
proof -
  from assms(2) obtain r where r: "r \<in> set (cl_runs db)" "d_id r = t" "claimable db req r"
    "db' = db\<lparr>cl_runs := map (\<lambda>x. if d_id x = t then take_run db req ts x else x) (cl_runs db),
              cl_runners := map (\<lambda>rn. if rn_id rn = rq_runner req then rn\<lparr>rn_load := rn_load rn + 1\<rparr> else rn) (cl_runners db),
              cl_log := cl_log db @ [(rq_actor req, t)]\<rparr>"
    by (rule Claim_Claimed)
  let ?take = "map (\<lambda>x. if d_id x = t then take_run db req ts x else x)"
  have dist: "distinct (map d_id (cl_runs db))" using assms(1) by (simp add: disp_inv_def)
  have gate: "ClaimSQL db r" using r(3) by (simp add: claimable_def)
  have "count_runs running (?take (cl_runs db)) \<le> Max_of (cl_maxConcurrent db)"
    using count_runs_take [OF dist, of running t db req ts] gate by (simp add: ClaimSQL_def)
  moreover have "count_runs (\<lambda>x. running x \<and> owned (ag_id a) x) (?take (cl_runs db)) \<le> c"
    if a: "a \<in> set (cl_agencies db)" "ag_cap a = Some c" for a c
  proof (cases "owned (ag_id a) r")
    case True
    then have "count_runs (\<lambda>x. running x \<and> owned (ag_id a) x) (cl_runs db) < c"
      using gate a by (auto simp: ClaimSQL_def list_ex_iff)
    then show ?thesis
      using count_runs_take [OF dist, of "\<lambda>x. running x \<and> owned (ag_id a) x" t db req ts] by simp
  next
    case False
    have "x = r" if "x \<in> set (cl_runs db)" "d_id x = t" for x
      using that r(1,2) dist by (metis inj_on_eq_iff distinct_map)
    then have "count_runs (\<lambda>x. running x \<and> owned (ag_id a) x) (?take (cl_runs db)) \<le>
        count_runs (\<lambda>x. running x \<and> owned (ag_id a) x) (cl_runs db)"
      using False by (intro count_runs_map_le) (auto split: if_splits)
    then show ?thesis using assms(1) a by (fastforce simp: disp_inv_def within_caps_def)
  qed
  ultimately show ?thesis by (simp add: within_caps_def r(4))
qed

lemma claim_inv:
  assumes "disp_inv db" and "Claim db req ts = (Claimed t, db')"
  shows "disp_inv db'"
proof -
  from assms(2) obtain r where r: "r \<in> set (cl_runs db)" "d_id r = t" "claimable db req r"
    "db' = db\<lparr>cl_runs := map (\<lambda>x. if d_id x = t then take_run db req ts x else x) (cl_runs db),
              cl_runners := map (\<lambda>rn. if rn_id rn = rq_runner req then rn\<lparr>rn_load := rn_load rn + 1\<rparr> else rn) (cl_runners db),
              cl_log := cl_log db @ [(rq_actor req, t)]\<rparr>"
    by (rule Claim_Claimed)
  have dist: "distinct (map d_id (cl_runs db))" using assms(1) by (simp add: disp_inv_def)
  have ids: "map d_id (cl_runs db') = map d_id (cl_runs db)" by (simp add: r(4))
  have uniq: "x = r" if "x \<in> set (cl_runs db)" "d_id x = t" for x
    using that r(1,2) dist by (metis inj_on_eq_iff distinct_map)
  have "waiting r" using r(3) by (simp add: claimable_def)
  then have none: "taken db t = 0" using assms(1) uniq by (auto simp: disp_inv_def)
  have tk: "taken db' u = taken db u + (if u = t then 1 else 0)" for u by (simp add: taken_def r(4))
  have keep: "\<exists>x \<in> set (cl_runs db'). d_id x = u \<and> \<not> waiting x" if "0 < taken db' u" for u
  proof (cases "u = t")
    case True
    have "take_run db req ts r \<in> set (cl_runs db')" using r(1,2,4) by force
    then show ?thesis using True r(2) by (intro bexI [of _ "take_run db req ts r"]) simp_all
  next
    case False
    with that tk have "0 < taken db u" by simp
    then obtain x where "x \<in> set (cl_runs db)" "d_id x = u" "\<not> waiting x" using assms(1) by (auto simp: disp_inv_def)
    then show ?thesis using False r(4) by force
  qed
  show ?thesis using claim_within [OF assms] dist ids tk none keep assms(1) by (simp add: disp_inv_def)
qed

lemma close_ids [simp]: "d_id (close_run t s r) = d_id r" and close_owner [simp]: "lr_owner (close_run t s r) = lr_owner r"
  by (simp_all add: close_run_def)

lemma step_inv:
  assumes "disp_step db db'" and "disp_inv db"
  shows "disp_inv db'"
  using assms(1)
proof cases
  case (claim req ts t)
  then show ?thesis using claim_inv assms(2) by blast
next
  case (produce r as)
  then show ?thesis using assms(2) by (auto simp: disp_inv_def within_caps_def taken_def)
next
  case (close status t)
  have nr: "\<not> running (close_run t status r) \<or> running r" for r using close by (auto simp: close_run_def)
  have "within_caps db'"
    using assms(2) close(1)
    by (auto simp: disp_inv_def within_caps_def intro!: order.trans [OF count_runs_map_le] dest: nr [THEN disjE] split: if_splits)
      (use nr in fastforce)+
  moreover have "\<exists>x \<in> set (cl_runs db'). d_id x = u \<and> \<not> waiting x" if pos: "0 < taken db u" for u
  proof -
    obtain x where "x \<in> set (cl_runs db)" "d_id x = u" "\<not> waiting x" using pos assms(2) by (auto simp: disp_inv_def)
    moreover have "\<not> waiting (close_run t status x)" using \<open>\<not> waiting x\<close> close by (simp add: close_run_def)
    ultimately show ?thesis by (intro bexI [of _ "close_run t status x"]) (simp_all add: close(1))
  qed
  ultimately show ?thesis using assms(2) close(1) by (simp add: disp_inv_def taken_def comp_def)
next
  case fleet
  then show ?thesis using assms(2) by (auto simp: disp_inv_def within_caps_def taken_def)
qed

lemma reach_inv: "disp_reach db0 db \<Longrightarrow> disp_inv db0 \<Longrightarrow> disp_inv db"
  by (induction rule: disp_reach.induct) (auto intro: step_inv)

text \<open>C2: starting from any state within its caps with no run yet taken, in every state that claims,
  producers, ends and administration lead to, the installation and every agency with a cap of its own
  run no more at once than their caps, and no run has been taken twice.\<close>

theorem caps_hold_and_runs_are_taken_once:
  assumes "disp_reach db0 db" and "distinct (map d_id (cl_runs db0))" and "within_caps db0" and "cl_log db0 = []"
  shows "within_caps db \<and> taken db t \<le> 1"
proof -
  have "disp_inv db0" using assms(2-4) by (simp add: disp_inv_def taken_def)
  from reach_inv [OF assms(1) this] show ?thesis by (simp add: disp_inv_def)
qed

section \<open>A small installation\<close>

definition demo_run :: "string \<Rightarrow> string \<Rightarrow> live_run" where
  "demo_run i created = db_run.extend
     (run_columns demo_catalog i created
        (queued_row (no_params\<lparr>e_JobName := ''deploy'', e_RunType := ''bash'', e_Agencies := [''Tax'']\<rparr>)) [] None)
     \<lparr>lr_owner = Some ''tax'', lr_runner = None, lr_runner_name = None\<rparr>"

definition demo_runner :: runner where
  "demo_runner = \<lparr>rn_id = ''r1'', rn_name = ''tax-agent'', rn_kind = ''agent'', rn_status = ''online'',
     rn_capabilities = [''bash'', ''perl''], rn_mask = [''perl''], rn_owner = ''tax'', rn_allow = False, rn_load = 0\<rparr>"

definition demo_dispatch :: claim_db where
  "demo_dispatch = \<lparr>cl_runs = [demo_run ''a'' ''10:05'', demo_run ''b'' ''10:01''],
     cl_agencies = [\<lparr>ag_id = ''global'', ag_name = ''Administration'', ag_cap = None\<rparr>,
                    \<lparr>ag_id = ''tax'', ag_name = ''Tax'', ag_cap = Some 1\<rparr>],
     cl_runners = [demo_runner], cl_runner_agencies = [(''r1'', ''tax'')],
     cl_run_agencies = [(''a'', ''Tax''), (''b'', ''Tax'')], cl_scopes = [], cl_scope_agencies = [], cl_scope_runners = [],
     cl_bindings = [], cl_maxConcurrent = Some ''2'', cl_injection = True, cl_override = (\<lambda>_. []), cl_log = []\<rparr>"

definition demo_request :: claim_request where "demo_request = claimRun demo_dispatch demo_runner"

lemma demo_claim: "fst (Claim demo_dispatch demo_request ''10:06'') = Claimed ''b''"
  by code_simp

lemma demo_distinct: "distinct (map d_id (cl_runs demo_dispatch))"
  by code_simp

theorem Claim_takes_the_first_witness:
  "\<exists>db'. Claim demo_dispatch demo_request ''10:06'' = (Claimed ''b'', db') \<and>
     filter (\<lambda>x. d_id x \<noteq> ''b'') (cl_runs db') = filter (\<lambda>x. d_id x \<noteq> ''b'') (cl_runs demo_dispatch)"
proof -
  obtain db' where c: "Claim demo_dispatch demo_request ''10:06'' = (Claimed ''b'', db')"
    using demo_claim by (metis prod.collapse)
  from Claim_takes_the_first [OF c demo_distinct] c show ?thesis by blast
qed

theorem caps_hold_and_runs_are_taken_once_witness:
  "within_caps (snd (Claim demo_dispatch demo_request ''10:06'')) \<and>
   fst (Claim (snd (Claim demo_dispatch demo_request ''10:06'')) demo_request ''10:07'') = NoRun \<and>
   taken (snd (Claim demo_dispatch demo_request ''10:06'')) ''b'' \<le> 1"
proof -
  obtain db' where c: "Claim demo_dispatch demo_request ''10:06'' = (Claimed ''b'', db')"
    using demo_claim by (metis prod.collapse)
  then have r: "disp_reach demo_dispatch db'"
    by (intro disp_reach.step [OF disp_reach.start] disp_step.claim)
  have w: "within_caps demo_dispatch"
    unfolding within_caps_def by (auto simp: demo_dispatch_def) code_simp+
  have l: "cl_log demo_dispatch = []" by (simp add: demo_dispatch_def)
  have "fst (Claim (snd (Claim demo_dispatch demo_request ''10:06'')) demo_request ''10:07'') = NoRun" by code_simp
  with caps_hold_and_runs_are_taken_once [OF r demo_distinct w l, of "''b''"] c show ?thesis by simp
qed

end
