(* ===== verification/Claim_Mirror.thy ===== *)
theory Claim_Mirror
  imports Claim_Props
begin

text \<open>
  The two mirrors of the claim (\<open>backend/internal/execspec\<close>: \<open>EligibleOnlineRunnerForRun\<close> of
  \<open>execspec.go\<close>, \<open>UnclaimableReason\<close> and \<open>StampUnclaimableReason\<close> of \<open>unclaimable.go\<close>) and the scope
  bindings they explain (\<open>scopebinding.go\<close>): why a waiting run is not taken, asked of the fleet from the
  run's side. The theorem is that the sentence is there exactly when no online runner's claim could take
  the run.
\<close>

definition the_run :: "claim_db \<Rightarrow> string \<Rightarrow> live_run option" where
  "the_run db i = List.find (\<lambda>r. d_id r = i) (cl_runs db)"

section \<open>The rules from the run's side\<close>

definition runNeedsInjectionRunner :: "claim_db \<Rightarrow> live_run \<Rightarrow> bool" where
  "runNeedsInjectionRunner db r \<longleftrightarrow> cl_injection db \<and> injects db r"

definition can_type :: "live_run \<Rightarrow> runner \<Rightarrow> bool" where
  "can_type r rn \<longleftrightarrow> d_run_type r \<in> set (EffectiveCapsSQL rn)"

definition has_tokens :: "live_run \<Rightarrow> runner \<Rightarrow> bool" where
  "has_tokens r rn \<longleftrightarrow> list_all (\<lambda>t. t \<in> set (EffectiveCapsSQL rn)) (tokens (d_requires r))"

definition serves :: "claim_db \<Rightarrow> string list \<Rightarrow> runner \<Rightarrow> bool" where
  "serves db names rn \<longleftrightarrow>
     list_ex (\<lambda>a. ag_id a = rn_owner rn \<and> (rn_id rn, ag_id a) \<in> set (cl_runner_agencies db) \<and> ag_name a \<in> set names) (cl_agencies db)"

definition scope_admits :: "claim_db \<Rightarrow> string \<Rightarrow> string \<Rightarrow> runner \<Rightarrow> bool" where
  "scope_admits db scope owner rn \<longleftrightarrow> bound_to db scope owner = [] \<or> rn_id rn \<in> set (bound_to db scope owner)"

definition key_ok :: "bool \<Rightarrow> runner \<Rightarrow> bool" where
  "key_ok bindsKey rn \<longleftrightarrow> \<not> bindsKey \<or> rn_kind rn \<noteq> ''server''"

definition online :: "runner \<Rightarrow> bool" where "online rn \<longleftrightarrow> rn_status rn = ''online''"

definition scope_of :: "live_run \<Rightarrow> string" where "scope_of r = coalesce (d_scope r) []"

definition scope_owner_of :: "claim_db \<Rightarrow> live_run \<Rightarrow> string" where
  "scope_owner_of db r = RunScopeOwner db (d_agencies r)"

definition EligibleOnlineRunnerForRun :: "claim_db \<Rightarrow> string \<Rightarrow> bool \<times> string list" where
  "EligibleOnlineRunnerForRun db i =
     (case the_run db i of None \<Rightarrow> (False, [])
      | Some r \<Rightarrow>
         (list_ex (\<lambda>rn. online rn \<and> can_type r rn \<and> has_tokens r rn \<and> serves db (d_agencies r) rn \<and>
              scope_admits db (scope_of r) (scope_owner_of db r) rn \<and>
              (\<not> runNeedsInjectionRunner db r \<or> rn_allow rn) \<and> key_ok (RunBindsKeySQL db r) rn) (cl_runners db),
          requires_tokens (d_requires r)))"

definition AgenciesHaveOnlineRunner :: "claim_db \<Rightarrow> string list \<Rightarrow> bool" where
  "AgenciesHaveOnlineRunner db names \<longleftrightarrow>
     names \<noteq> [] \<and> list_ex (\<lambda>rn. online rn \<and> serves db names rn) (cl_runners db)"

section \<open>Scope bindings\<close>

record bound_runner =
  br_id :: string
  br_name :: string
  br_registered :: bool
  br_status :: string
  br_eligible :: bool

text \<open>One row of \<open>boundRunnersSelect\<close>.\<close>

definition bound_runner_of :: "claim_db \<Rightarrow> string \<times> string \<times> string \<Rightarrow> bound_runner" where
  "bound_runner_of db b = (case b of (sid, rid, snapshot) \<Rightarrow>
     (case the_runner db rid of
        None \<Rightarrow> \<lparr>br_id = rid, br_name = snapshot, br_registered = False, br_status = [], br_eligible = False\<rparr>
      | Some rn \<Rightarrow> \<lparr>br_id = rid, br_name = rn_name rn, br_registered = True, br_status = rn_status rn,
          br_eligible = list_ex (\<lambda>(s, a). s = sid \<and> a = rn_owner rn \<and> (rid, a) \<in> set (cl_runner_agencies db)) (cl_scope_agencies db)\<rparr>))"

definition bound_order :: "bound_runner \<Rightarrow> bool \<times> string \<times> string" where
  "bound_order b = (\<not> br_registered b, br_name b, br_id b)"

definition BoundRunners :: "claim_db \<Rightarrow> string \<Rightarrow> bound_runner list" where
  "BoundRunners db sid = sort_key bound_order (map (bound_runner_of db) (filter (\<lambda>b. fst b = sid) (cl_scope_runners db)))"

definition ownerOrGlobal :: "string \<Rightarrow> string" where
  "ownerOrGlobal a = (if a = [] then Global else a)"

definition BoundRunnersByScopeName :: "claim_db \<Rightarrow> string \<Rightarrow> string \<Rightarrow> bound_runner list" where
  "BoundRunnersByScopeName db agency scope =
     (if trim_space scope = [] then []
      else sort_key bound_order (concat (map (\<lambda>b. map (\<lambda>_. bound_runner_of db b)
        (filter (\<lambda>s. sc_id s = fst b \<and> sc_name s = scope \<and> sc_owner s = ownerOrGlobal agency) (cl_scopes db))) (cl_scope_runners db))))"

definition ScopeBindingPermits :: "claim_db \<Rightarrow> string \<Rightarrow> string \<Rightarrow> string \<Rightarrow> bool" where
  "ScopeBindingPermits db agency scope rid \<longleftrightarrow>
     trim_space scope = [] \<or> bound_to db scope (ownerOrGlobal agency) = [] \<or> rid \<in> set (bound_to db scope (ownerOrGlobal agency))"

definition RunnerEligibleForScope :: "claim_db \<Rightarrow> string \<Rightarrow> string \<Rightarrow> bool" where
  "RunnerEligibleForScope db sid rid \<longleftrightarrow>
     (case the_runner db rid of None \<Rightarrow> False
      | Some rn \<Rightarrow> list_ex (\<lambda>(s, a). s = sid \<and> a = rn_owner rn \<and> (rid, a) \<in> set (cl_runner_agencies db)) (cl_scope_agencies db))"

text \<open>The dash of the sentences, in UTF-8.\<close>

definition em_dash :: string where "em_dash = [CHR 0xE2, CHR 0x80, CHR 0x94]"

definition scopeBindingReason :: "string \<Rightarrow> bound_runner list \<Rightarrow> string" where
  "scopeBindingReason scope bound =
     ''scope '' @ scope @ '' is bound to '' @ join '', '' (map br_name bound) @ '', and no bound runner is '' @
     (if filter br_registered bound = [] then ''registered any more '' @ em_dash @ '' restore its placement or bind another runner''
      else if filter br_eligible bound = [] then ''in the scope's agency''
      else ''online and otherwise eligible'')"

section \<open>Why a run waits\<close>

definition ReasonLocalRunnerOff :: string where
  "ReasonLocalRunnerOff = ''the local runner would take this run and is not running '' @ em_dash @
     '' it is turned off, or forbidden on this host (a global administrator: Settings '' @ [CHR 0xE2, CHR 0x86, CHR 0x92] @ '' Local runner)''"
definition ReasonKeyNeedsAgent :: string where
  "ReasonKeyNeedsAgent = ''this job binds an SSH key, which the local runner cannot deliver, and no agent that could take the run is online''"
definition ReasonQueuedForSSHExecutor :: string where
  "ReasonQueuedForSSHExecutor = ''this run was queued for the SSH executor, which the local runner replaced in 2.3.0, so nothing will claim it '' @
     em_dash @ '' cancel it and run the job again''"

definition CurrentGlobalName :: "claim_db \<Rightarrow> string" where
  "CurrentGlobalName db = (case the_agency db Global of None \<Rightarrow> ''Global'' | Some a \<Rightarrow> if ag_name a = [] then ''Global'' else ag_name a)"

definition agency_reason :: "claim_db \<Rightarrow> string list \<Rightarrow> string" where
  "agency_reason db names =
     (if names = [] then ''this run carries no agency at all, so no runner can claim it (an internal error: every run belongs to its job's agency)''
      else if names = [CurrentGlobalName db]
      then ''this run belongs to '' @ hd names @ '', which runs nothing since 2.5.3, so no runner takes it '' @ em_dash @
           '' cancel it and run the job in the agency whose work it is (Notices lists what '' @ hd names @ '' still holds)''
      else ''no online runner serves '' @ join '', '' names)"

definition token_reason :: "string list \<Rightarrow> string" where
  "token_reason missing =
     ''no eligible runner advertises '' @ join '', '' missing @
     (if ''checkout'' \<in> set missing
      then '' '' @ em_dash @ '' this is a project's run, which only an agent started with -allow-checkout takes'' else [])"

text \<open>The gates in the order an operator would check them, asked when no runner takes the run.\<close>

definition first_gate :: "claim_db \<Rightarrow> live_run \<Rightarrow> string" where
  "first_gate db r =
     (let names = d_agencies r; scope = scope_of r; owner = scope_owner_of db r; key = RunBindsKeySQL db r;
          typed = can_type r;
          agencied = (\<lambda>rn. typed rn \<and> serves db names rn);
          bound = (\<lambda>rn. agencied rn \<and> scope_admits db scope owner rn);
          keyed = (\<lambda>rn. bound rn \<and> key_ok key rn);
          injected = (\<lambda>rn. keyed rn \<and> (\<not> runNeedsInjectionRunner db r \<or> rn_allow rn));
          some = (\<lambda>p. list_ex (\<lambda>rn. online rn \<and> p rn) (cl_runners db));
          missing = filter (\<lambda>t. \<not> some (\<lambda>rn. injected rn \<and> t \<in> set (EffectiveCapsSQL rn))) (requires_tokens (d_requires r))
      in if list_ex (\<lambda>rn. rn_kind rn = ''server'' \<and> \<not> online rn \<and> can_type r rn \<and> has_tokens r rn \<and>
              serves db names rn \<and> scope_admits db scope owner rn \<and> \<not> key) (cl_runners db) then ReasonLocalRunnerOff
         else if \<not> some (\<lambda>_. True) then ''no runner is online''
         else if \<not> some typed then ''no online runner can run '' @ d_run_type r @ '' jobs''
         else if \<not> some agencied then agency_reason db names
         else if \<not> some bound then scopeBindingReason scope (BoundRunnersByScopeName db owner scope)
         else if \<not> some keyed then ReasonKeyNeedsAgent
         else if \<not> some injected then ''this run carries credentials, and no eligible runner is flagged for secret injection''
         else if missing \<noteq> [] then token_reason missing
         else ''no single online runner satisfies all of this run's requirements'')"

definition UnclaimableReason :: "claim_db \<Rightarrow> string \<Rightarrow> string" where
  "UnclaimableReason db i =
     (case the_run db i of None \<Rightarrow> []
      | Some r \<Rightarrow> if d_executor r = ''ssh'' then ReasonQueuedForSSHExecutor
                  else if fst (EligibleOnlineRunnerForRun db i) then [] else first_gate db r)"

definition StampUnclaimableReason :: "claim_db \<Rightarrow> string \<Rightarrow> string \<times> claim_db" where
  "StampUnclaimableReason db i =
     (let first = UnclaimableReason db i;
          reason = (if first \<noteq> [] then first
                    else case Option.bind (the_run db i) lr_owner of None \<Rightarrow> [] | Some a \<Rightarrow> HeldAtClaim db a)
      in if reason = [] then ([], db)
         else (reason, db\<lparr>cl_runs := map (\<lambda>r. if d_id r = i \<and> waiting r then r\<lparr>d_queued_reason := Some reason\<rparr> else r) (cl_runs db)\<rparr>))"

definition ScopeBindingBlock :: "claim_db \<Rightarrow> string \<Rightarrow> string" where
  "ScopeBindingBlock db i =
     (let reason = UnclaimableReason db i
      in case the_run db i of None \<Rightarrow> []
         | Some r \<Rightarrow>
             (let bound = BoundRunnersByScopeName db (scope_owner_of db r) (scope_of r)
              in if reason = [] \<or> bound = [] then []
                 else if reason = scopeBindingReason (scope_of r) bound then reason else []))"

section \<open>The mirrors agree with the claim\<close>

lemma EffectiveCaps_SQL: "EffectiveCaps (rn_capabilities rn) (rn_mask rn) = EffectiveCapsSQL rn"
  by (simp add: EffectiveCaps_def EffectiveCapsSQL_def)

lemma request_simps [simp]:
  "rq_runner (request_of db rn) = rn_id rn"
  "rq_caps (request_of db rn) = EffectiveCapsSQL rn"
  "rq_local (request_of db rn) = (rn_kind rn = ''server'')"
  "rq_injection (request_of db rn) = (rn_kind rn = ''server'' \<or> \<not> cl_injection db \<or> rn_allow rn)"
  by (simp_all add: request_of_def local_claim_def claimRun_def EffectiveCaps_SQL)

text \<open>What the schema keeps: ids are keys, a run's agencies are materialized from its snapshot, no scope
  has an empty name, and the local runner's row may always have secrets.\<close>

definition tables_ok :: "claim_db \<Rightarrow> bool" where
  "tables_ok db \<longleftrightarrow> distinct (map d_id (cl_runs db)) \<and> distinct (map rn_id (cl_runners db)) \<and>
     distinct (map ag_id (cl_agencies db)) \<and>
     list_all (\<lambda>rn. rn_kind rn \<noteq> ''server'' \<or> rn_allow rn) (cl_runners db) \<and>
     list_all (\<lambda>s. sc_name s \<noteq> []) (cl_scopes db) \<and>
     list_all (\<lambda>r. set (map snd (filter (\<lambda>p. fst p = d_id r) (cl_run_agencies db))) = set (d_agencies r)) (cl_runs db)"

lemma find_unique: "distinct (map f xs) \<Longrightarrow> x \<in> set xs \<Longrightarrow> List.find (\<lambda>y. f y = f x) xs = Some x"
  by (induction xs) (auto simp: image_iff)

lemma find_SomeD: "List.find p xs = Some x \<Longrightarrow> x \<in> set xs \<and> p x"
  by (induction xs) (auto split: if_splits)

lemma the_run_unique: "tables_ok db \<Longrightarrow> r \<in> set (cl_runs db) \<Longrightarrow> the_run db (d_id r) = Some r"
  by (simp add: the_run_def tables_ok_def find_unique)

lemma the_runner_unique: "tables_ok db \<Longrightarrow> rn \<in> set (cl_runners db) \<Longrightarrow> the_runner db (rn_id rn) = Some rn"
  by (simp add: the_runner_def tables_ok_def find_unique)

lemma bound_to_empty: "tables_ok db \<Longrightarrow> bound_to db [] owner = []"
  by (auto simp: bound_to_def tables_ok_def list_all_iff filter_empty_conv)

lemma tables_agencies:
  "tables_ok db \<Longrightarrow> r \<in> set (cl_runs db) \<Longrightarrow>
   set (map snd (filter (\<lambda>p. fst p = d_id r) (cl_run_agencies db))) = set (d_agencies r)"
  by (simp add: tables_ok_def list_all_iff)

lemma serves_claim:
  assumes "tables_ok db" "r \<in> set (cl_runs db)" "rn \<in> set (cl_runners db)"
  shows "list_ex (\<lambda>(rid, name). rid = d_id r \<and> name \<in> set (served_names db (rn_id rn))) (cl_run_agencies db) =
         serves db (d_agencies r) rn"
proof -
  have "set (d_agencies r) = snd ` {p \<in> set (cl_run_agencies db). fst p = d_id r}"
    using tables_agencies [OF assms(1,2)] by simp
  then have "set (d_agencies r) = {name. (d_id r, name) \<in> set (cl_run_agencies db)}" by force
  then have mine: "list_ex (\<lambda>(rid, name). rid = d_id r \<and> name \<in> set (served_names db (rn_id rn))) (cl_run_agencies db) \<longleftrightarrow>
      (\<exists>name \<in> set (served_names db (rn_id rn)). name \<in> set (d_agencies r))"
    by (simp only: list_ex_iff split_beta mem_Collect_eq) force
  have served: "set (served_names db (rn_id rn)) =
      ag_name ` {a \<in> set (cl_agencies db). ag_id a = rn_owner rn \<and> (rn_id rn, ag_id a) \<in> set (cl_runner_agencies db)}"
    by (simp add: served_names_def the_runner_unique [OF assms(1,3)])
  show ?thesis by (subst mine, subst served) (auto simp: serves_def list_ex_iff)
qed

lemma scope_claim:
  assumes "tables_ok db"
  shows "(case d_scope r of None \<Rightarrow> True
      | Some s \<Rightarrow> let bs = bound_to db s (RunScopeOwner db (d_agencies r)) in bs = [] \<or> rn_id rn \<in> set bs) =
     scope_admits db (scope_of r) (scope_owner_of db r) rn"
  by (cases "d_scope r")
    (simp_all add: scope_admits_def scope_of_def scope_owner_of_def bound_to_empty [OF assms] Let_def)

lemma HeldAtClaim_ClaimSQL:
  assumes "tables_ok db" and "lr_owner r = Some a"
  shows "HeldAtClaim db a = [] \<longleftrightarrow> ClaimSQL db r"
proof (cases "the_agency db a")
  case None
  then have "list_ex (\<lambda>x. owned (ag_id x) r \<and> q x) (cl_agencies db) = False" for q
    using assms(2) by (auto simp: the_agency_def find_None_iff list_ex_iff)
  then show ?thesis by (simp add: HeldAtClaim_def ClaimSQL_def None not_le Let_def)
next
  case (Some x)
  then have x: "x \<in> set (cl_agencies db)" "ag_id x = a" by (auto simp: the_agency_def dest: find_SomeD)
  have "inj_on ag_id (set (cl_agencies db))" using assms(1) by (simp add: tables_ok_def distinct_map)
  then have uniq: "y = x" if "y \<in> set (cl_agencies db)" "ag_id y = a" for y
    using x that by (metis inj_on_eq_iff)
  have own: "owned (ag_id y) r \<longleftrightarrow> ag_id y = a" for y using assms(2) by auto
  have "list_ex (\<lambda>y. owned (ag_id y) r \<and> q y) (cl_agencies db) = q x" for q
    unfolding list_ex_iff own using x uniq by blast
  then show ?thesis by (simp add: HeldAtClaim_def ClaimSQL_def Some x(2) not_le Let_def split: option.split)
qed

lemma eligible_claimable:
  assumes "tables_ok db" "r \<in> set (cl_runs db)" "waiting r" "d_executor r = ''runner''"
  shows "(fst (EligibleOnlineRunnerForRun db (d_id r)) \<and> ClaimSQL db r) =
    (\<exists>rn \<in> set (cl_runners db). online rn \<and> claimable db (request_of db rn) r)"
proof -
  have "(online rn \<and> can_type r rn \<and> has_tokens r rn \<and> serves db (d_agencies r) rn \<and>
      scope_admits db (scope_of r) (scope_owner_of db r) rn \<and>
      (\<not> runNeedsInjectionRunner db r \<or> rn_allow rn) \<and> key_ok (RunBindsKeySQL db r) rn) \<and> ClaimSQL db r \<longleftrightarrow>
    online rn \<and> claimable db (request_of db rn) r" if rn: "rn \<in> set (cl_runners db)" for rn
    unfolding claimable_def request_simps serves_claim [OF assms(1,2) rn] scope_claim [OF assms(1)]
    using assms(1,3,4) rn
    by (auto simp: can_type_def has_tokens_def runNeedsInjectionRunner_def key_ok_def tables_ok_def list_all_iff)
  then show ?thesis
    by (auto simp: EligibleOnlineRunnerForRun_def the_run_unique [OF assms(1,2)] list_ex_iff)
qed

lemma if_nonempty: "s \<noteq> [] \<Longrightarrow> t \<noteq> [] \<Longrightarrow> (if c then s else t) \<noteq> []"
  by simp

lemma first_gate_speaks: "first_gate db r \<noteq> []"
  unfolding first_gate_def Let_def
  by (intro if_nonempty)
    (simp_all add: ReasonLocalRunnerOff_def ReasonKeyNeedsAgent_def agency_reason_def scopeBindingReason_def token_reason_def)

lemma UnclaimableReason_eligible:
  assumes "the_run db i = Some r" and "d_executor r \<noteq> ''ssh''"
  shows "UnclaimableReason db i = [] \<longleftrightarrow> fst (EligibleOnlineRunnerForRun db i)"
  using assms first_gate_speaks by (simp add: UnclaimableReason_def)

text \<open>C8: the sentence stored on a waiting run of an agency says why it waits exactly when it must: there is
  none if and only if some online runner's own claim, made now, could take the run; the caps, the
  runner's masked capabilities, its agency, the scope's binding, the keys and the secrets included.\<close>

theorem a_reason_iff_nobody_can_claim:
  assumes "tables_ok db" and "r \<in> set (cl_runs db)" and "waiting r" and "d_executor r = ''runner''" and "lr_owner r = Some a"
  shows "(fst (StampUnclaimableReason db (d_id r)) \<noteq> []) =
    (filter (\<lambda>rn. online rn \<and> claimable db (request_of db rn) r) (cl_runners db) = [])"
proof -
  have run: "the_run db (d_id r) = Some r" by (rule the_run_unique [OF assms(1,2)])
  have "fst (StampUnclaimableReason db (d_id r)) = [] \<longleftrightarrow>
      UnclaimableReason db (d_id r) = [] \<and> HeldAtClaim db a = []"
    by (simp add: StampUnclaimableReason_def Let_def run assms(5))
  also have "\<dots> \<longleftrightarrow> fst (EligibleOnlineRunnerForRun db (d_id r)) \<and> ClaimSQL db r"
    using UnclaimableReason_eligible [OF run] HeldAtClaim_ClaimSQL [OF assms(1,5)] assms(4) by simp
  finally show ?thesis using eligible_claimable [OF assms(1-4)] by (auto simp: filter_empty_conv)
qed

theorem a_reason_iff_nobody_can_claim_witness:
  "fst (StampUnclaimableReason (demo_dispatch\<lparr>cl_runners := [demo_runner\<lparr>rn_mask := [''bash'']\<rparr>]\<rparr>) ''a'') =
     ''no online runner can run bash jobs'' \<and>
   filter (\<lambda>rn. online rn \<and> claimable demo_dispatch (request_of demo_dispatch rn) (demo_run ''a'' ''10:05''))
     (cl_runners demo_dispatch) \<noteq> [] \<and> fst (StampUnclaimableReason demo_dispatch ''a'') = []"
proof -
  have t: "tables_ok demo_dispatch" by code_simp
  have r: "demo_run ''a'' ''10:05'' \<in> set (cl_runs demo_dispatch)" by (simp add: demo_dispatch_def)
  have w: "waiting (demo_run ''a'' ''10:05'')" "d_executor (demo_run ''a'' ''10:05'') = ''runner''"
    "lr_owner (demo_run ''a'' ''10:05'') = Some ''tax''" "d_id (demo_run ''a'' ''10:05'') = ''a''" by code_simp+
  have "fst (StampUnclaimableReason (demo_dispatch\<lparr>cl_runners := [demo_runner\<lparr>rn_mask := [''bash'']\<rparr>]\<rparr>) ''a'') =
     ''no online runner can run bash jobs''" by code_simp
  moreover have "fst (StampUnclaimableReason demo_dispatch ''a'') = []" by code_simp
  ultimately show ?thesis using a_reason_iff_nobody_can_claim [OF t r w(1-3)] unfolding w(4) by simp
qed

end
