(* ===== verification/Sched_Gate.thy ===== *)
theory Sched_Gate
  imports Claim_Mirror Calendar_Catalogue Workflow_Resolve_Props
begin

text \<open>
  The admission gates (\<open>backend/internal/scheduler/gate.go\<close>, \<open>definition_calendars.go\<close>, the pause of
  \<open>scheduler.go\<close>): what each producer of runs must pass, as the table \<open>originPolicies\<close> and the one
  function \<open>Evaluate\<close>. A policy is ordered by what it asks. The instant of the question, its day in the
  application's zone and the RFC 3339 parser are the record \<open>clock\<close>.
\<close>

section \<open>Policies\<close>

datatype origin_policy = Policy (op_pause: bool) (op_globalFreeze: bool) (op_entryCalendars: bool)
  (op_definitionCalendars: bool) (op_fleetCap: bool) (op_enabledCheck: bool)

instantiation origin_policy :: order
begin

definition less_eq_origin_policy :: "origin_policy \<Rightarrow> origin_policy \<Rightarrow> bool" where
  "p \<le> q \<longleftrightarrow> (op_pause p \<le> op_pause q) \<and> (op_globalFreeze p \<le> op_globalFreeze q) \<and>
     (op_entryCalendars p \<le> op_entryCalendars q) \<and> (op_definitionCalendars p \<le> op_definitionCalendars q) \<and>
     (op_fleetCap p \<le> op_fleetCap q) \<and> (op_enabledCheck p \<le> op_enabledCheck q)"

definition less_origin_policy :: "origin_policy \<Rightarrow> origin_policy \<Rightarrow> bool" where
  "p < q \<longleftrightarrow> p \<le> q \<and> \<not> q \<le> (p :: origin_policy)"

instance
  by standard (auto simp: less_eq_origin_policy_def less_origin_policy_def intro: origin_policy.expand)

end

instantiation origin_policy :: order_top
begin

definition top_origin_policy :: origin_policy where
  "top_origin_policy = Policy True True True True True True"

instance
  by standard (simp add: less_eq_origin_policy_def top_origin_policy_def)

end

definition OriginCron :: string where "OriginCron = ''cron''"
definition OriginManual :: string where "OriginManual = ''manual''"
definition OriginToken :: string where "OriginToken = ''token''"
definition OriginReaction :: string where "OriginReaction = ''reaction''"
definition OriginPromotion :: string where "OriginPromotion = ''promotion''"
definition OriginPromotionAdHoc :: string where "OriginPromotionAdHoc = ''promotion-adhoc''"
definition OriginFileArrival :: string where "OriginFileArrival = ''file''"

lemmas origin_defs = OriginCron_def OriginManual_def OriginToken_def OriginReaction_def OriginPromotion_def
  OriginPromotionAdHoc_def OriginFileArrival_def

definition originPolicies :: "origin_policy gomap" where
  "originPolicies =
    [(OriginCron, Policy True True True True True True),
     (OriginManual, Policy False True False False True False),
     (OriginToken, Policy True True False True True False),
     (OriginReaction, Policy True True False True True True),
     (OriginPromotion, Policy True True False True True True),
     (OriginPromotionAdHoc, Policy True True False False True False),
     (OriginFileArrival, Policy True True False True True True)]"

definition PolicyFor :: "string \<Rightarrow> origin_policy" where
  "PolicyFor o' = (case map_of originPolicies o' of Some p \<Rightarrow> p | None \<Rightarrow> Policy True True True True True True)"

lemma PolicyFor_unknown: "map_of originPolicies o' = None \<Longrightarrow> PolicyFor o' = top"
  by (simp add: PolicyFor_def top_origin_policy_def)

section \<open>Tables\<close>

record gate_job = def_row +
  gj_forbid :: "string list"
  gj_allow :: "string list"
  gj_command :: string
  gj_script :: string
  gj_env :: "string gomap option"
  gj_policy :: string

record gate_wf = wf_def +
  gw_forbid :: "string list"
  gw_allow :: "string list"

record pause_row =
  pz_kind :: string
  pz_source :: string
  pz_name :: string
  pz_uid :: "string option"

text \<open>\<open>gd_readable\<close> is whether the calendars can be read; the columns of calendar names are the lists
  \<open>ParseNames\<close> reads from them.\<close>

record gate_db =
  gd_jobs :: "gate_job list"
  gd_workflows :: "gate_wf list"
  gd_repos :: "(string \<times> string) list"
  gd_paused :: "pause_row list"
  gd_freeze :: freeze
  gd_calendars :: cal_tables
  gd_readable :: bool
  gd_catalog :: catalog
  gd_dispatch :: claim_db

record clock =
  ck_now :: int
  ck_day :: string
  ck_parse :: "string \<Rightarrow> int option"

definition defs_of :: "gate_db \<Rightarrow> defs_db" where
  "defs_of db = \<lparr>db_jobs = map def_row.truncate (gd_jobs db), db_workflows = map wf_def.truncate (gd_workflows db),
     db_repos = gd_repos db\<rparr>"

definition job_agency :: "gate_db \<Rightarrow> gate_job \<Rightarrow> string option" where
  "job_agency db j = JobSQL (defs_of db) (def_row.truncate j)"

definition wf_agency :: "gate_db \<Rightarrow> gate_wf \<Rightarrow> string option" where
  "wf_agency db w = WorkflowSQL (defs_of db) (wf_def.truncate w)"

text \<open>\<open>ORDER BY deleted_at IS NOT NULL, rowid LIMIT 1\<close>.\<close>

definition live_first :: "('a \<Rightarrow> bool) \<Rightarrow> ('a \<Rightarrow> bool) \<Rightarrow> 'a list \<Rightarrow> 'a option" where
  "live_first deleted p xs =
     (case List.find (\<lambda>x. p x \<and> \<not> deleted x) xs of Some x \<Rightarrow> Some x | None \<Rightarrow> List.find p xs)"

definition the_job :: "gate_db \<Rightarrow> string \<Rightarrow> gate_job option" where
  "the_job db uid = List.find (\<lambda>j. j_uid j = uid) (gd_jobs db)"

definition the_workflow :: "gate_db \<Rightarrow> string \<Rightarrow> gate_wf option" where
  "the_workflow db uid = List.find (\<lambda>w. wd_uid w = uid) (gd_workflows db)"

definition named_job :: "gate_db \<Rightarrow> string \<Rightarrow> string \<Rightarrow> gate_job option" where
  "named_job db source name = live_first dr_deleted (\<lambda>j. j_source j = source \<and> j_name j = name) (gd_jobs db)"

definition named_workflow :: "gate_db \<Rightarrow> string \<Rightarrow> string \<Rightarrow> gate_wf option" where
  "named_workflow db source name = live_first wd_deleted (\<lambda>w. wd_source w = source \<and> wd_name w = name) (gd_workflows db)"

section \<open>What the gates ask\<close>

definition or_job :: "string \<Rightarrow> string" where "or_job kind = (if kind = [] then ''job'' else kind)"

definition definitionAgency :: "gate_db \<Rightarrow> string \<Rightarrow> string \<Rightarrow> string" where
  "definitionAgency db uid kind =
     (if uid = [] then Global
      else coalesce (if or_job kind = ''job'' then Option.bind (the_job db uid) (job_agency db)
                     else Option.bind (the_workflow db uid) (wf_agency db)) Global)"

definition jobAgencyFor :: "gate_db \<Rightarrow> string \<Rightarrow> string \<Rightarrow> string \<Rightarrow> string" where
  "jobAgencyFor db uid source name =
     coalesce (Option.bind (List.find (\<lambda>j. if uid \<noteq> [] then j_uid j = uid else j_name j = name \<and> j_source j = source) (gd_jobs db))
       (job_agency db)) Global"

definition keyAgency :: "gate_db \<Rightarrow> string \<Rightarrow> string \<Rightarrow> string \<Rightarrow> string \<Rightarrow> string" where
  "keyAgency db custom uid source name = (if custom = [] then [] else jobAgencyFor db uid source name)"

definition DefinitionIsCentral :: "gate_db \<Rightarrow> string \<Rightarrow> string \<Rightarrow> string \<Rightarrow> string \<Rightarrow> bool" where
  "DefinitionIsCentral db kind source name uid \<longleftrightarrow>
     (if kind = ''workflow''
      then Option.bind (if uid \<noteq> [] then the_workflow db uid else named_workflow db source name) (wf_agency db)
      else Option.bind (if uid \<noteq> [] then the_job db uid else named_job db source name) (job_agency db)) = Some Global"

definition definitionDisabled :: "gate_db \<Rightarrow> string \<Rightarrow> string \<Rightarrow> string \<Rightarrow> string \<Rightarrow> bool" where
  "definitionDisabled db kind source name uid \<longleftrightarrow>
     (if kind = ''workflow''
      then case (if uid \<noteq> [] then the_workflow db uid
                 else List.find (\<lambda>w. wd_source w = source \<and> wd_name w = name) (gd_workflows db)) of
             None \<Rightarrow> False | Some w \<Rightarrow> \<not> wd_enabled w
      else case (if uid \<noteq> [] then the_job db uid
                 else List.find (\<lambda>j. j_source j = source \<and> j_name j = name) (gd_jobs db)) of
             None \<Rightarrow> False | Some j \<Rightarrow> \<not> dr_enabled j)"

definition IsPausedUID :: "gate_db \<Rightarrow> string \<Rightarrow> string \<Rightarrow> string \<Rightarrow> string \<Rightarrow> bool" where
  "IsPausedUID db source kind name uid \<longleftrightarrow>
     list_ex (\<lambda>p. pz_kind p = kind \<and>
        (uid \<noteq> [] \<and> pz_uid p = Some uid \<or>
         (pz_uid p = None \<or> uid = []) \<and> pz_source p = source \<and> pz_name p = name)) (gd_paused db)"

definition no_bindings :: "string \<Rightarrow> bindings" where
  "no_bindings kind = \<lparr>b_kind = kind, b_def_forbid = [], b_def_allow = [], b_entry_skip = [], b_entry_only = []\<rparr>"

definition definitionBindings :: "gate_db \<Rightarrow> string \<Rightarrow> string \<Rightarrow> string \<Rightarrow> string \<Rightarrow> bindings \<times> string" where
  "definitionBindings db kind0 source name uid =
     (let kind = or_job kind0;
          row = (if kind = ''workflow''
                 then map_option (\<lambda>w. (gw_forbid w, gw_allow w, wd_uid w))
                        (if uid \<noteq> [] then the_workflow db uid else named_workflow db source name)
                 else map_option (\<lambda>j. (gj_forbid j, gj_allow j, j_uid j))
                        (if uid \<noteq> [] then the_job db uid else named_job db source name))
      in case row of None \<Rightarrow> (no_bindings kind, uid)
         | Some (forbid, allow, found) \<Rightarrow> ((no_bindings kind)\<lparr>b_def_forbid := forbid, b_def_allow := allow\<rparr>, found))"

definition DefinitionBindings :: "gate_db \<Rightarrow> string \<Rightarrow> string \<Rightarrow> string \<Rightarrow> string \<Rightarrow> bindings" where
  "DefinitionBindings db kind source name uid = fst (definitionBindings db kind source name uid)"

definition DefinitionVerdictAt :: "clock \<Rightarrow> gate_db \<Rightarrow> string \<Rightarrow> string \<Rightarrow> string \<Rightarrow> string \<Rightarrow> verdict option" where
  "DefinitionVerdictAt ck db kind source name uid =
     (let (b, found) = definitionBindings db kind source name uid
      in if b_def_forbid b = [] \<and> b_def_allow b = [] then Some zero_verdict
         else if \<not> gd_readable db then None
         else Some (EvaluateDefinition (Load (gd_calendars db) (definitionAgency db found kind) (binding_names b)) b (ck_day ck)))"

text \<open>The verdict of \<open>freezeTier\<close>, \<open>None\<close> when the calendars cannot be read: the gate is then open.\<close>

definition globalFreezeVerdict :: "clock \<Rightarrow> gate_db \<Rightarrow> string \<Rightarrow> bindings \<Rightarrow> verdict option" where
  "globalFreezeVerdict ck db agency b =
     (if gd_readable db then Some (freezeTier (ck_parse ck) (gd_freeze db) (gd_calendars db) agency b (ck_day ck) (ck_now ck))
      else None)"

definition calendarReason :: "verdict \<Rightarrow> string" where
  "calendarReason v =
     (let name = trim_space (v_calendar v); label = trim_space (v_label v); q = [CHR 0x22]
      in if name = [] \<and> label = [] then ''Skipped: suppressed by a working calendar''
         else if name = [] then ''Skipped: suppressed by a working calendar ('' @ label @ '')''
         else if label = [] then ''Skipped: suppressed by calendar '' @ q @ name @ q
         else ''Skipped: suppressed by calendar '' @ q @ name @ q @ '' ('' @ label @ '')'')"

section \<open>The decision\<close>

record gate_request =
  gr_Origin :: string
  gr_Source :: string
  gr_OwnerKind :: string
  gr_Name :: string
  gr_UID :: string
  gr_Hand :: bool

record gate_outcome =
  go_Allowed :: bool
  go_Gate :: string
  go_Reason :: string
  go_Calendar :: string
  go_CapAgency :: string
  go_Level :: string

definition gate_allowed :: gate_outcome where
  "gate_allowed = \<lparr>go_Allowed = True, go_Gate = [], go_Reason = [], go_Calendar = [], go_CapAgency = [], go_Level = []\<rparr>"

definition refused :: "string \<Rightarrow> string \<Rightarrow> gate_outcome" where
  "refused g reason = \<lparr>go_Allowed = False, go_Gate = g, go_Reason = reason, go_Calendar = [], go_CapAgency = [], go_Level = []\<rparr>"

definition reasonDefinitionDisabled :: string where "reasonDefinitionDisabled = ''Skipped: the definition is disabled''"
definition reasonCentralRunsNothing :: string where
  "reasonCentralRunsNothing = ''Skipped: the built-in administration agency runs nothing; move this definition to an agency''"
definition reasonJobPaused :: string where "reasonJobPaused = ''Skipped: the job is paused''"
definition reasonWorkflowPaused :: string where "reasonWorkflowPaused = ''Skipped: the workflow is paused''"
definition reasonConcurrencyCap :: string where "reasonConcurrencyCap = ''Skipped: the global concurrency cap was reached''"

definition capReason :: "cap_verdict \<Rightarrow> string" where
  "capReason v = (case v of AgencyCap name _ \<Rightarrow> ''Skipped: '' @ name @ [CHR 0x27] @ ''s concurrency cap was reached''
     | _ \<Rightarrow> reasonConcurrencyCap)"

definition cap_agency :: "cap_verdict \<Rightarrow> string" where
  "cap_agency v = (case v of AgencyCap name _ \<Rightarrow> name | _ \<Rightarrow> [])"

text \<open>The bindings an origin is judged by, and the uid whose agency's calendars are read.\<close>

definition gate_bindings :: "gate_db \<Rightarrow> gate_request \<Rightarrow> bindings \<times> string" where
  "gate_bindings db req =
     (if op_definitionCalendars (PolicyFor (gr_Origin req)) \<and> \<not> gr_Hand req
      then definitionBindings db (or_job (gr_OwnerKind req)) (gr_Source req) (gr_Name req) (gr_UID req)
      else (no_bindings [], gr_UID req))"

definition gate_verdict :: "clock \<Rightarrow> gate_db \<Rightarrow> gate_request \<Rightarrow> verdict option" where
  "gate_verdict ck db req =
     (let (b, uid) = gate_bindings db req
      in globalFreezeVerdict ck db (definitionAgency db uid (or_job (gr_OwnerKind req))) b)"

definition suppresses :: "verdict option \<Rightarrow> bool" where
  "suppresses v \<longleftrightarrow> (case v of None \<Rightarrow> False | Some x \<Rightarrow> v_suppressed x)"

definition gate_cap :: "gate_db \<Rightarrow> string \<Rightarrow> string \<Rightarrow> cap_verdict" where
  "gate_cap db uid kind = AtProduction (gd_dispatch db) (definitionAgency db uid kind)"

definition GateEvaluate :: "clock \<Rightarrow> gate_db \<Rightarrow> gate_request \<Rightarrow> gate_outcome" where
  "GateEvaluate ck db req =
     (let pol = PolicyFor (gr_Origin req); kind = or_job (gr_OwnerKind req);
          src = gr_Source req; name = gr_Name req; uid = gr_UID req;
          v = gate_verdict ck db req; cap = gate_cap db uid kind
      in if op_enabledCheck pol \<and> definitionDisabled db kind src name uid then refused ''disabled'' reasonDefinitionDisabled
         else if DefinitionIsCentral db kind src name uid then refused ''central'' reasonCentralRunsNothing
         else if op_pause pol \<and> IsPausedUID db src kind name uid then refused ''pause'' reasonJobPaused
         else if op_globalFreeze pol \<and> suppresses v then
           (let x = the v
            in (refused ''calendar'' (if v_level x \<noteq> [] \<or> v_also_allowed_by x \<noteq> [] then Reason x else calendarReason x))
                 \<lparr>go_Calendar := v_calendar x, go_Level := v_level x\<rparr>)
         else if op_fleetCap pol \<and> cap \<noteq> NotReached then (refused ''cap'' (capReason cap))\<lparr>go_CapAgency := cap_agency cap\<rparr>
         else gate_allowed)"

lemma refused_simps [simp]:
  "\<not> go_Allowed (refused g m)" "go_Gate (refused g m) = g" "go_Allowed gate_allowed"
  "go_Reason (refused g m) = m" "go_Level (refused g m) = []"
  by (simp_all add: refused_def gate_allowed_def)

lemma GateEvaluate_admits:
  "go_Allowed (GateEvaluate ck db req) \<longleftrightarrow>
     \<not> (op_enabledCheck (PolicyFor (gr_Origin req)) \<and>
        definitionDisabled db (or_job (gr_OwnerKind req)) (gr_Source req) (gr_Name req) (gr_UID req)) \<and>
     \<not> DefinitionIsCentral db (or_job (gr_OwnerKind req)) (gr_Source req) (gr_Name req) (gr_UID req) \<and>
     \<not> (op_pause (PolicyFor (gr_Origin req)) \<and>
        IsPausedUID db (gr_Source req) (or_job (gr_OwnerKind req)) (gr_Name req) (gr_UID req)) \<and>
     \<not> (op_globalFreeze (PolicyFor (gr_Origin req)) \<and> suppresses (gate_verdict ck db req)) \<and>
     \<not> (op_fleetCap (PolicyFor (gr_Origin req)) \<and> gate_cap db (gr_UID req) (or_job (gr_OwnerKind req)) \<noteq> NotReached)"
  by (simp add: GateEvaluate_def Let_def)

section \<open>A stricter policy admits less\<close>

lemma freezes_Load_mono:
  assumes "names_unique cals" and "freezes (Load cals a ns) a' n day"
  shows "freezes (Load cals a ns') a' n day"
  using assms Load_global_everywhere unfolding freezes_def by blast

lemma no_bindings_weakest:
  assumes "names_unique cals" and "v_suppressed (EvaluateBindings (Load cals a []) a (no_bindings k) day)"
  shows "v_suppressed (EvaluateBindings (Load cals a ns) a b day)"
proof -
  have "forbidden (Load cals a []) a (no_bindings k) day"
    using assms(2) by (simp add: suppressed_iff_not_may_fire may_fire_def no_bindings_def level_allows_def)
  then obtain n where "freezes (Load cals a []) (or_global a) n day"
    by (auto simp: forbidden_def no_bindings_def)
  from freezes_Load_mono [OF assms(1) this]
  show ?thesis unfolding suppressed_iff_not_may_fire may_fire_def forbidden_def by blast
qed

lemma definitionBindings_uid: "uid \<noteq> [] \<Longrightarrow> snd (definitionBindings db kind source name uid) = uid"
  by (auto simp: definitionBindings_def Let_def the_job_def the_workflow_def split: option.splits dest: find_SomeD)

lemma binding_names_none [simp]: "binding_names (no_bindings k) = []"
  by (simp add: binding_names_def no_bindings_def)

lemma gate_verdict_mono:
  assumes "names_unique (gd_calendars db)" and "gr_UID req \<noteq> []"
    and "op_definitionCalendars (PolicyFor o1) \<and> \<not> h1 \<longrightarrow> op_definitionCalendars (PolicyFor o2) \<and> \<not> h2"
    and "suppresses (gate_verdict ck db (req\<lparr>gr_Origin := o1, gr_Hand := h1\<rparr>))"
  shows "suppresses (gate_verdict ck db (req\<lparr>gr_Origin := o2, gr_Hand := h2\<rparr>))"
proof (cases "op_definitionCalendars (PolicyFor o1) \<and> \<not> h1")
  case True
  with assms(3,4) show ?thesis by (simp add: gate_verdict_def gate_bindings_def)
next
  case False
  let ?a = "definitionAgency db (gr_UID req) (or_job (gr_OwnerKind req))"
  let ?b = "fst (gate_bindings db (req\<lparr>gr_Origin := o2, gr_Hand := h2\<rparr>))"
  have u: "snd (gate_bindings db (req\<lparr>gr_Origin := o2, gr_Hand := h2\<rparr>)) = gr_UID req"
    using definitionBindings_uid [OF assms(2)] by (simp add: gate_bindings_def)
  have "suppresses (globalFreezeVerdict ck db ?a (no_bindings []))"
    using assms(4) False by (auto simp: gate_verdict_def gate_bindings_def)
  then have "suppresses (globalFreezeVerdict ck db ?a ?b)"
    using no_bindings_weakest [OF assms(1)]
    by (auto simp: suppresses_def globalFreezeVerdict_def freezeTier_def split: option.splits if_splits)
  then show ?thesis using u by (simp add: gate_verdict_def split_beta)
qed

text \<open>what is admitted under a policy is admitted under every weaker one, whoever starts it: by the table,
  a start the unknown origin or the clock would be let make, anyone is let make, a person's hand
  included, and no origin of the table asks for a gate the clock does not pass.\<close>

theorem stricter_policy_admits_less:
  assumes "names_unique (gd_calendars db)" and "gr_UID req \<noteq> []"
    and "PolicyFor o1 \<le> PolicyFor o2" and "h2 \<le> h1"
    and "go_Allowed (GateEvaluate ck db (req\<lparr>gr_Origin := o2, gr_Hand := h2\<rparr>))"
  shows "go_Allowed (GateEvaluate ck db (req\<lparr>gr_Origin := o1, gr_Hand := h1\<rparr>)) \<and>
    (\<forall>o'. PolicyFor o' \<le> PolicyFor OriginCron) \<and> op_globalFreeze (PolicyFor o1) \<and> op_fleetCap (PolicyFor o1)"
proof -
  have "PolicyFor o' \<le> PolicyFor OriginCron" for o'
    by (simp add: PolicyFor_def originPolicies_def origin_defs less_eq_origin_policy_def)
  moreover have "op_globalFreeze (PolicyFor o')" "op_fleetCap (PolicyFor o')" for o'
    by (simp_all add: PolicyFor_def originPolicies_def origin_defs)
  moreover have "op_definitionCalendars (PolicyFor o1) \<and> \<not> h1 \<longrightarrow> op_definitionCalendars (PolicyFor o2) \<and> \<not> h2"
    using assms(3,4) by (auto simp: less_eq_origin_policy_def)
  then have "suppresses (gate_verdict ck db (req\<lparr>gr_Origin := o1, gr_Hand := h1\<rparr>)) \<Longrightarrow>
      suppresses (gate_verdict ck db (req\<lparr>gr_Origin := o2, gr_Hand := h2\<rparr>))"
    by (rule gate_verdict_mono [OF assms(1,2)])
  then have "go_Allowed (GateEvaluate ck db (req\<lparr>gr_Origin := o1, gr_Hand := h1\<rparr>))"
    using assms(3,5) unfolding GateEvaluate_admits by (auto simp: less_eq_origin_policy_def)
  ultimately show ?thesis by blast
qed

section \<open>A small catalogue\<close>

definition demo_gate_job :: gate_job where
  "demo_gate_job = \<lparr>j_uid = ''u1'', j_name = ''nightly'', j_source = ''cronomicon'', j_run_type = ''bash'', j_script_ref = None,
     j_script_uid = None, j_content_hash = None, j_project_root = [], j_repo_id = None, j_script_path = None,
     j_requires = None, j_become_secret = [], dr_scope = ''edge'', dr_targetHost = [], dr_timeout = 0, dr_concurrencyKey = [],
     dr_retries = 0, dr_backoff = 0, dr_continue = False, dr_sshUser = [], dr_sshCred = [], dr_enabled = True,
     dr_deleted = False, dr_owner = Some ''tax'', gj_forbid = [''hol''], gj_allow = [], gj_command = [], gj_script = ''echo'', gj_env = None, gj_policy = []\<rparr>"

definition demo_gate :: gate_db where
  "demo_gate = \<lparr>gd_jobs = [demo_gate_job], gd_workflows = [], gd_repos = [], gd_paused = [],
     gd_freeze = \<lparr>fz_on = False, fz_reason = [], fz_from = [], fz_until = []\<rparr>, gd_calendars = witness_tables, gd_readable = True,
     gd_catalog = demo_catalog, gd_dispatch = demo_dispatch\<lparr>cl_runs := []\<rparr>\<rparr>"

definition demo_clock :: clock where
  "demo_clock = \<lparr>ck_now = 0, ck_day = ''2026-12-23'', ck_parse = (\<lambda>_. None)\<rparr>"

definition demo_gate_request :: gate_request where
  "demo_gate_request = \<lparr>gr_Origin = OriginCron, gr_Source = ''cronomicon'', gr_OwnerKind = ''job'', gr_Name = ''nightly'',
     gr_UID = ''u1'', gr_Hand = False\<rparr>"

theorem stricter_policy_admits_less_witness:
  "go_Allowed (GateEvaluate demo_clock demo_gate (demo_gate_request\<lparr>gr_Origin := OriginManual, gr_Hand := True\<rparr>)) \<and>
   go_Gate (GateEvaluate (demo_clock\<lparr>ck_day := ''2026-12-24''\<rparr>) demo_gate
     (demo_gate_request\<lparr>gr_Origin := OriginManual, gr_Hand := True\<rparr>)) = ''calendar''"
proof -
  have n: "names_unique (gd_calendars demo_gate)" by (simp add: names_unique_def demo_gate_def witness_tables_def)
  have u: "gr_UID demo_gate_request \<noteq> []" by (simp add: demo_gate_request_def)
  have p: "PolicyFor OriginManual \<le> PolicyFor OriginCron" by code_simp
  have a: "go_Allowed (GateEvaluate demo_clock demo_gate (demo_gate_request\<lparr>gr_Origin := OriginCron, gr_Hand := False\<rparr>))"
    by code_simp
  have "go_Gate (GateEvaluate (demo_clock\<lparr>ck_day := ''2026-12-24''\<rparr>) demo_gate
     (demo_gate_request\<lparr>gr_Origin := OriginManual, gr_Hand := True\<rparr>)) = ''calendar''" by code_simp
  with stricter_policy_admits_less [OF n u p _ a, of True] show ?thesis by simp
qed

end
