(* ===== verification/Sched_Skip.thy ===== *)
theory Sched_Skip
  imports Sched_Gate
begin

text \<open>
  The record of a start that did not happen (\<open>backend/internal/scheduler/scheduler.go\<close>): the state the
  scheduler's operations share, the insert of a run's row with the unique index it may violate, and
  \<open>recordSkippedFire\<close> and \<open>recordSkippedWorkflowFire\<close> with their de-dupe rules. What both arms keep of
  their log is proved once, in the locale \<open>skip_log\<close>.
\<close>

section \<open>The scheduler's state\<close>

text \<open>A row of \<open>workflow_runs\<close> as the scheduler reads and writes it.\<close>

record wf_entry =
  we_id :: string
  we_uid :: "string option"
  we_name :: string
  we_source :: "string option"
  we_schedule :: "string option"
  we_status :: string
  we_reason :: "string option"
  we_calendar :: "string option"
  we_created :: string
  we_by :: string
  we_kind :: string

text \<open>\<open>pending_runs.params_json\<close>: the frozen request, or a text that is not one, with what the decoder says.\<close>

datatype frozen = Frozen enqueue_params | Unreadable string

record pending_row =
  pd_id :: string
  pd_kind :: string
  pd_name :: string
  pd_source :: string
  pd_uid :: "string option"
  pd_runAt :: string
  pd_by :: string
  pd_params :: "frozen option"
  pd_originKind :: "string option"
  pd_originRef :: "string option"
  pd_originEnv :: "string option"
  pd_depth :: int
  pd_gate :: "string option"
  pd_scope :: "string option"
  pd_created :: string
  pd_status :: string
  pd_key :: "string option"
  pd_miss :: "string option"

record workflow_fire =
  wx_UID :: string
  wx_Source :: string
  wx_Name :: string
  wx_TriggeredBy :: string
  wx_TriggerKind :: string
  wx_EnvJSON :: string
  wx_Depth :: int
  wx_ReactedTo :: string
  wx_Schedule :: string

text \<open>What leaves the process: a notification of a suppression, and a missed-run alert.\<close>

datatype notice = Suppressed string string string | MissedRun string string string

record sched =
  ss_db :: gate_db
  ss_pending :: "pending_row list"
  ss_wfruns :: "wf_entry list"
  ss_fired :: "workflow_fire list"
  ss_notices :: "notice list"
  ss_minted :: nat

text \<open>The instant of an operation, the ids that are minted, and the answers of the parts outside this
  model. \<open>sw_owner\<close> is the column a trigger of the schema fills; \<open>None\<close> is a query that failed.\<close>

record sched_world =
  sw_clock :: clock
  sw_stamp :: string
  sw_dayof :: "string \<Rightarrow> string"
  sw_id :: "nat \<Rightarrow> string"
  sw_owner :: "db_run \<Rightarrow> string option"
  sw_sync :: "string \<Rightarrow> bool"

definition runs_of :: "sched \<Rightarrow> live_run list" where "runs_of st = cl_runs (gd_dispatch (ss_db st))"

definition with_runs :: "(live_run list \<Rightarrow> live_run list) \<Rightarrow> sched \<Rightarrow> sched" where
  "with_runs f st = st\<lparr>ss_db := (ss_db st)\<lparr>gd_dispatch := (gd_dispatch (ss_db st))\<lparr>cl_runs := f (runs_of st)\<rparr>\<rparr>\<rparr>"

definition catalog_of :: "sched \<Rightarrow> catalog" where
  "catalog_of st = (gd_catalog (ss_db st))\<lparr>c_jobs := map job_row.truncate (gd_jobs (ss_db st)),
     c_global_name := CurrentGlobalName (gd_dispatch (ss_db st))\<rparr>"

lemma runs_with_runs [simp]: "runs_of (with_runs f st) = f (runs_of st)"
  by (simp add: runs_of_def with_runs_def)

section \<open>Writing a run\<close>

datatype insert_error = KeyConflict | InsertFailed

text \<open>The partial unique index \<open>uq_runs_active_concurrency\<close>.\<close>

definition active :: "live_run \<Rightarrow> bool" where "active r \<longleftrightarrow> waiting r \<or> running r"

definition key_taken :: "live_run list \<Rightarrow> string \<Rightarrow> bool" where
  "key_taken rs key \<longleftrightarrow> list_ex (\<lambda>r. d_concurrency_key r = Some key \<and> active r) rs"

definition live_of :: "sched_world \<Rightarrow> db_run \<Rightarrow> live_run" where
  "live_of w r = db_run.extend r \<lparr>lr_owner = sw_owner w r, lr_runner = None, lr_runner_name = None\<rparr>"

definition insert_run :: "sched_world \<Rightarrow> sched \<Rightarrow> run_row \<Rightarrow> insert_error + string \<times> sched" where
  "insert_run w st r =
     (let key = e_ConcurrencyKey (w_params r)
      in if key \<noteq> [] \<and> statusOrDefault r \<in> {''queued'', ''running''} \<and> key_taken (runs_of st) key then Inl KeyConflict
         else case InsertRun (catalog_of st) (sw_id w (ss_minted st)) (sw_stamp w) (map db_run.truncate (runs_of st)) r of
           None \<Rightarrow> Inl InsertFailed
         | Some (t, rows) \<Rightarrow> Inr (t, (with_runs (\<lambda>rs. rs @ [live_of w (last rows)]) st)\<lparr>ss_minted := ss_minted st + 1\<rparr>))"

section \<open>De-duping\<close>

datatype skip_dedupe = DedupeEpisode | DedupeDay | DedupeEpisodeReason

record skip_record =
  sk_Reason :: string
  sk_Mode :: skip_dedupe
  sk_Calendar :: string
  sk_Day :: string
  sk_TriggerKind :: string
  sk_TriggeredBy :: string
  sk_At :: string

text \<open>What a de-dupe query reads of a row.\<close>

record outcome =
  oc_status :: string
  oc_reason :: string
  oc_calendar :: "string option"
  oc_created :: string

text \<open>\<open>ORDER BY created_at DESC, rowid DESC\<close>.\<close>

definition newest_first :: "outcome list \<Rightarrow> outcome list" where
  "newest_first es = rev (sort_key oc_created es)"

definition day_recorded :: "(string \<Rightarrow> string) \<Rightarrow> string \<Rightarrow> outcome list \<Rightarrow> bool" where
  "day_recorded dayof day es \<longleftrightarrow>
     list_ex (\<lambda>e. dayof (oc_created e) = day)
       (take 50 (newest_first (filter (\<lambda>e. oc_status e = ''skipped'' \<and> oc_calendar e \<noteq> None) es)))"

definition reason_recorded :: "(string \<Rightarrow> string) \<Rightarrow> string \<Rightarrow> string \<Rightarrow> outcome list \<Rightarrow> bool" where
  "reason_recorded dayof day reason es \<longleftrightarrow>
     (case newest_first (filter (\<lambda>e. oc_calendar e = None) es) of [] \<Rightarrow> False
      | e # _ \<Rightarrow> oc_status e = ''skipped'' \<and> oc_reason e = reason \<and> (day = [] \<or> dayof (oc_created e) = day))"

definition jobRowsOfEntrySQL :: "string \<Rightarrow> string \<Rightarrow> string \<Rightarrow> live_run \<Rightarrow> bool" where
  "jobRowsOfEntrySQL uid name source r \<longleftrightarrow>
     uid \<noteq> [] \<and> d_job_uid r = Some uid \<or>
     (d_job_uid r = None \<or> uid = []) \<and> d_job_name r = name \<and> coalesce (d_job_source r) ''git'' = source"

definition workflowRowsOfEntrySQL :: "string \<Rightarrow> string \<Rightarrow> string \<Rightarrow> wf_entry \<Rightarrow> bool" where
  "workflowRowsOfEntrySQL uid name source r \<longleftrightarrow>
     uid \<noteq> [] \<and> we_uid r = Some uid \<or>
     (we_uid r = None \<or> uid = []) \<and> we_name r = name \<and> coalesce (we_source r) ''git'' = source"

definition run_outcome :: "live_run \<Rightarrow> outcome" where
  "run_outcome r = \<lparr>oc_status = d_status r, oc_reason = coalesce (d_queued_reason r) [],
     oc_calendar = d_suppressed_by_calendar r, oc_created = d_created_at r\<rparr>"

definition wf_outcome :: "wf_entry \<Rightarrow> outcome" where
  "wf_outcome r = \<lparr>oc_status = we_status r, oc_reason = coalesce (we_reason r) [], oc_calendar = we_calendar r,
     oc_created = we_created r\<rparr>"

definition job_log :: "enqueue_params \<Rightarrow> live_run list \<Rightarrow> outcome list" where
  "job_log p rs = map run_outcome (filter (\<lambda>r. jobRowsOfEntrySQL (e_JobUID p) (e_JobName p) (jobSourceOrDefault p) r \<and>
     coalesce (d_schedule_name r) [] = e_ScheduleName p) rs)"

definition wf_log :: "string \<Rightarrow> string \<Rightarrow> string \<Rightarrow> string \<Rightarrow> wf_entry list \<Rightarrow> outcome list" where
  "wf_log uid source name schedule rs =
     map wf_outcome (filter (\<lambda>r. workflowRowsOfEntrySQL uid name source r \<and> coalesce (we_schedule r) [] = schedule) rs)"

definition key_log :: "string \<Rightarrow> live_run list \<Rightarrow> outcome list" where
  "key_log key rs = map run_outcome (filter (\<lambda>r. d_concurrency_key r = Some key) rs)"

definition skipAlreadyRecorded :: "sched_world \<Rightarrow> sched \<Rightarrow> enqueue_params \<Rightarrow> skip_record \<Rightarrow> bool" where
  "skipAlreadyRecorded w st p k =
     (case sk_Mode k of
        DedupeDay \<Rightarrow> sk_Day k \<noteq> [] \<and> day_recorded (sw_dayof w) (sk_Day k) (job_log p (runs_of st))
      | DedupeEpisodeReason \<Rightarrow> reason_recorded (sw_dayof w) (sk_Day k) (sk_Reason k) (job_log p (runs_of st))
      | DedupeEpisode \<Rightarrow>
          (case newest_first (filter (\<lambda>e. oc_calendar e = None) (key_log (e_ConcurrencyKey p) (runs_of st))) of
             [] \<Rightarrow> False | e # _ \<Rightarrow> oc_status e = ''skipped''))"

definition workflowSkipAlreadyRecorded :: "sched_world \<Rightarrow> sched \<Rightarrow> string \<Rightarrow> string \<Rightarrow> string \<Rightarrow> string \<Rightarrow> skip_record \<Rightarrow> bool" where
  "workflowSkipAlreadyRecorded w st uid source0 name schedule k =
     (let log = wf_log uid (if source0 = [] then ''git'' else source0) name schedule (ss_wfruns st)
      in if sk_Mode k = DedupeEpisodeReason then reason_recorded (sw_dayof w) [] (sk_Reason k) log
         else sk_Mode k = DedupeDay \<and> sk_Day k \<noteq> [] \<and> day_recorded (sw_dayof w) (sk_Day k) log)"

section \<open>Recording\<close>

definition orDefault :: "string \<Rightarrow> string \<Rightarrow> string" where "orDefault s d = (if s = [] then d else s)"

definition skipped_run :: "enqueue_params \<Rightarrow> skip_record \<Rightarrow> run_row" where
  "skipped_run p k = (queued_row (no_params
     \<lparr>e_JobName := e_JobName p, e_JobSource := e_JobSource p, e_JobUID := e_JobUID p, e_RunType := e_RunType p,
      e_Scope := e_Scope p, e_TargetHost := e_TargetHost p, e_TriggerKind := orDefault (sk_TriggerKind k) ''scheduled'',
      e_TriggeredBy := orDefault (sk_TriggeredBy k) ''scheduler'', e_ConcurrencyKey := e_ConcurrencyKey p,
      e_Executor := e_Executor p, e_ScheduleName := e_ScheduleName p\<rparr>))
     \<lparr>w_Status := ''skipped'', w_QueuedReason := sk_Reason k, w_Terminal := True,
      w_SuppressedByCalendar := sk_Calendar k, w_CreatedAt := sk_At k\<rparr>"

text \<open>\<open>None\<close> is an insert that failed; the boolean is whether a row was written.\<close>

definition recordSkippedFire :: "sched_world \<Rightarrow> sched \<Rightarrow> enqueue_params \<Rightarrow> skip_record \<Rightarrow> (bool \<times> sched) option" where
  "recordSkippedFire w st p k =
     (if skipAlreadyRecorded w st p k then Some (False, st)
      else case insert_run w st (skipped_run p k) of Inl _ \<Rightarrow> None | Inr (_, st') \<Rightarrow> Some (True, st'))"

definition reasonMissedFire :: string where
  "reasonMissedFire = ''Missed: the schedule expected a fire and no run appeared''"

definition notifySuppressed :: "string \<Rightarrow> string \<Rightarrow> skip_record \<Rightarrow> sched \<Rightarrow> sched" where
  "notifySuppressed kind name k st =
     (if sk_Reason k = reasonMissedFire \<or> sk_Mode k = DedupeEpisode then st
      else st\<lparr>ss_notices := ss_notices st @ [Suppressed kind name (sk_Reason k)]\<rparr>)"

definition recordSuppression :: "sched_world \<Rightarrow> enqueue_params \<Rightarrow> skip_record \<Rightarrow> sched \<Rightarrow> sched" where
  "recordSuppression w p k st =
     (case recordSkippedFire w st p k of
        Some (True, st') \<Rightarrow> notifySuppressed ''job'' (e_JobName p) k st'
      | _ \<Rightarrow> st)"

text \<open>The identity of a workflow's row: the caller's, else the one workflow of the name.\<close>

definition wf_row_uid :: "sched \<Rightarrow> string \<Rightarrow> string \<Rightarrow> string \<Rightarrow> string option" where
  "wf_row_uid st uid source name =
     (if uid \<noteq> [] then Some uid
      else case filter (\<lambda>x. wd_name x = name \<and> wd_source x = source) (gd_workflows (ss_db st)) of
        [x] \<Rightarrow> Some (wd_uid x) | _ \<Rightarrow> None)"

definition recordSkippedWorkflowFire :: "sched_world \<Rightarrow> sched \<Rightarrow> string \<Rightarrow> string \<Rightarrow> string \<Rightarrow> string \<Rightarrow> skip_record \<Rightarrow> bool \<times> sched" where
  "recordSkippedWorkflowFire w st uid source0 name schedule k =
     (if workflowSkipAlreadyRecorded w st uid source0 name schedule k then (False, st)
      else
        let source = (if source0 = [] then ''git'' else source0)
        in (True, st\<lparr>ss_wfruns := ss_wfruns st @ [\<lparr>we_id = sw_id w (ss_minted st),
              we_uid = wf_row_uid st uid source name, we_name = name, we_source = Some source,
              we_schedule = nullStr schedule, we_status = ''skipped'', we_reason = Some (sk_Reason k),
              we_calendar = nullStr (sk_Calendar k), we_created = orDefault (sk_At k) (sw_stamp w),
              we_by = orDefault (sk_TriggeredBy k) ''scheduler'', we_kind = orDefault (sk_TriggerKind k) ''scheduled''\<rparr>],
              ss_minted := ss_minted st + 1\<rparr>))"

definition recordWorkflowSuppression :: "sched_world \<Rightarrow> string \<Rightarrow> string \<Rightarrow> string \<Rightarrow> string \<Rightarrow> skip_record \<Rightarrow> sched \<Rightarrow> sched" where
  "recordWorkflowSuppression w uid source name schedule k st =
     (case recordSkippedWorkflowFire w st uid source name schedule k of
        (True, st') \<Rightarrow> notifySuppressed ''workflow'' name k st'
      | _ \<Rightarrow> st)"

text \<open>The two exported recorders of a refused trigger.\<close>

definition refused_start :: "gate_outcome \<Rightarrow> string \<Rightarrow> string \<Rightarrow> skip_record" where
  "refused_start g kind actor = \<lparr>sk_Reason = go_Reason g, sk_Mode = DedupeDay, sk_Calendar = go_Calendar g, sk_Day = [],
     sk_TriggerKind = kind, sk_TriggeredBy = actor, sk_At = []\<rparr>"

definition RecordRefusedStart :: "sched_world \<Rightarrow> sched \<Rightarrow> enqueue_params \<Rightarrow> string \<Rightarrow> string \<Rightarrow> gate_outcome \<Rightarrow> (bool \<times> sched) option" where
  "RecordRefusedStart w st p kind actor g = recordSkippedFire w st p (refused_start g kind actor)"

definition RecordRefusedWorkflowStart :: "sched_world \<Rightarrow> sched \<Rightarrow> string \<Rightarrow> string \<Rightarrow> string \<Rightarrow> string \<Rightarrow> string \<Rightarrow> gate_outcome \<Rightarrow> bool \<times> sched" where
  "RecordRefusedWorkflowStart w st uid source name kind actor g =
     recordSkippedWorkflowFire w st uid source name [] (refused_start g kind actor)"

end
