(* ===== verification/Ref_Resolve.thy ===== *)
theory Ref_Resolve
  imports Claim_Mirror Env_Ref
begin

text \<open>
  References at dispatch (\<open>backend/internal/runref\<close>): the bindings a job or script declares
  (\<open>runref.go\<close>, \<open>store.go\<close>, \<open>override.go\<close>), the predicate that says which row of the Env Vars tables a
  run may have (\<open>lookupScoped\<close>, \<open>lookupKeyID\<close>, \<open>pickOwned\<close> of \<open>resolve.go\<close>) and \<open>Resolve\<close>, which turns a
  run's bindings into what is injected. The value of a secret (the envelope store or a vault) and the
  material of a key are the arguments \<open>rw_reveal\<close> and \<open>rw_material\<close>.
\<close>

section \<open>Bindings\<close>

definition KindSecret :: string where "KindSecret = ''secret''"
definition KindVar :: string where "KindVar = ''var''"
definition KindKey :: string where "KindKey = ''key''"

lemmas ref_kinds = KindSecret_def KindVar_def KindKey_def

definition ValidKind :: "string \<Rightarrow> bool" where
  "ValidKind k \<longleftrightarrow> k = KindSecret \<or> k = KindVar \<or> k = KindKey"

definition Reference :: "string \<Rightarrow> string \<Rightarrow> string" where
  "Reference k bare =
     (if k = KindSecret then SecretReference bare
      else if k = KindVar then VarReference bare
      else if k = KindKey then KeyReference bare
      else [])"

definition KindForSection :: "env_section \<Rightarrow> string \<times> bool" where
  "KindForSection s =
     (case s of SectionSecret \<Rightarrow> (KindSecret, True) | SectionVariable \<Rightarrow> (KindVar, True)
      | SectionKey \<Rightarrow> (KindKey, True) | _ \<Rightarrow> ([], False))"

record binding =
  bd_Kind :: string
  bd_Name :: string
  bd_As :: string
  bd_File :: bool
  bd_Origin :: string

definition InjectName :: "binding \<Rightarrow> string" where
  "InjectName b = (if bd_As b \<noteq> [] then bd_As b else bd_Name b)"

definition InjectReference :: "binding \<Rightarrow> string" where
  "InjectReference b = Reference (bd_Kind b) (InjectName b)"

datatype binding_error = BadKind string | BadName name_error | BadAlias name_error
  | Collision binding binding | Delivery binding | TooMany nat

definition ValidateName :: "string \<Rightarrow> string \<Rightarrow> name_error option" where
  "ValidateName k n = (if k = KindSecret then ValidateSecretRowName n else ValidateRowName n)"

definition ValidateBinding :: "binding \<Rightarrow> binding_error option" where
  "ValidateBinding b =
     (if \<not> ValidKind (bd_Kind b) then Some (BadKind (bd_Kind b))
      else case ValidateName (bd_Kind b) (bd_Name b) of
        Some e \<Rightarrow> Some (BadName e)
      | None \<Rightarrow>
          if bd_As b = [] then None else map_option BadAlias (ValidateName (bd_Kind b) (bd_As b)))"

definition nul :: string where "nul = [CHR 0x00]"

definition DedupeKey :: "binding \<Rightarrow> string" where
  "DedupeKey b = bd_Kind b @ nul @ bd_Name b @ nul @ bd_As b @ (if bd_File b then nul @ ''file'' else [])"

definition inject_key :: "binding \<Rightarrow> string" where
  "inject_key b = bd_Kind b @ nul @ InjectName b"

fun collisions_from :: "binding gomap \<Rightarrow> binding list \<Rightarrow> binding_error option" where
  "collisions_from seen [] = None"
| "collisions_from seen (b # bs) =
     (case map_of seen (inject_key b) of
        Some prev \<Rightarrow>
          if bd_Name prev \<noteq> bd_Name b then Some (Collision prev b)
          else if bd_File prev \<noteq> bd_File b then Some (Delivery b)
          else collisions_from seen bs
      | None \<Rightarrow> collisions_from ((inject_key b, b) # seen) bs)"

definition CheckAliasCollisions :: "binding list \<Rightarrow> binding_error option" where
  "CheckAliasCollisions bs = collisions_from [] bs"

text \<open>The loop that keeps the first binding of each key, as three places of the package write it.\<close>

fun dedupe :: "string list \<Rightarrow> binding list \<Rightarrow> binding list" where
  "dedupe seen [] = []"
| "dedupe seen (b # bs) =
     (if DedupeKey b \<in> set seen then dedupe seen bs else b # dedupe (DedupeKey b # seen) bs)"

text \<open>The references of a run's override, decoded: kind, name and alias of each entry.\<close>

definition OriginOverride :: string where "OriginOverride = ''override''"

definition OverrideBindings :: "(string \<times> string \<times> string) list option \<Rightarrow> binding list" where
  "OverrideBindings envelope =
     (case envelope of None \<Rightarrow> []
      | Some refs \<Rightarrow>
          dedupe [] (map (\<lambda>(k, n, a). \<lparr>bd_Kind = k, bd_Name = n,
              bd_As = (if a \<noteq> [] \<and> ValidateName k a \<noteq> None then [] else a), bd_File = False, bd_Origin = OriginOverride\<rparr>)
            (filter (\<lambda>(k, n, a). ValidKind k \<and> n \<noteq> []) refs)))"

section \<open>The stored bindings\<close>

record ref_owner =
  ro_Kind :: string
  ro_Source :: string
  ro_Name :: string
  ro_UID :: string

record stored_binding = ref_binding +
  rb_ref_name :: string
  rb_alias :: string
  rb_created_by :: string

definition UIDKey :: "ref_owner \<Rightarrow> string" where
  "UIDKey ow = (if ro_Kind ow \<noteq> ''job'' \<and> ro_Kind ow \<noteq> ''script'' then [] else ro_UID ow)"

definition ownerMatch :: "ref_owner \<Rightarrow> stored_binding \<Rightarrow> bool" where
  "ownerMatch ow b \<longleftrightarrow>
     (if UIDKey ow \<noteq> [] then rb_owner_uid b = Some (UIDKey ow)
      else rb_owner_kind b = ro_Kind ow \<and> rb_owner_kind b \<noteq> ''script'' \<and> rb_owner_source b = ro_Source ow \<and>
           rb_owner_name b = ro_Name ow)"

definition resolveUniqueJobUID :: "(string \<times> string \<times> string) list \<Rightarrow> string \<Rightarrow> string \<Rightarrow> string" where
  "resolveUniqueJobUID jobs name source =
     (case filter (\<lambda>(n, s, u). n = name \<and> s = source) jobs of [(_, _, u)] \<Rightarrow> u | _ \<Rightarrow> [])"

definition binding_of_row :: "stored_binding \<Rightarrow> binding" where
  "binding_of_row b = \<lparr>bd_Kind = rb_ref_kind b, bd_Name = rb_ref_name b, bd_As = rb_alias b, bd_File = False, bd_Origin = []\<rparr>"

definition binding_order :: "stored_binding \<Rightarrow> string \<times> string \<times> string" where
  "binding_order b = (rb_ref_kind b, rb_ref_name b, rb_alias b)"

definition ListBindings :: "stored_binding list \<Rightarrow> ref_owner \<Rightarrow> binding list" where
  "ListBindings table ow = map binding_of_row (sort_key binding_order (filter (ownerMatch ow) table))"

definition MaxBindingsPerOwner :: nat where "MaxBindingsPerOwner = 256"

datatype replace_error = Rejected binding_error | ScriptUidRequired | Conflict

definition new_row :: "ref_owner \<Rightarrow> string \<Rightarrow> string \<Rightarrow> binding \<Rightarrow> stored_binding" where
  "new_row ow uid actor b = \<lparr>rb_ref_kind = bd_Kind b, rb_owner_kind = ro_Kind ow,
     rb_owner_uid = (if uid = [] then None else Some uid), rb_owner_source = ro_Source ow, rb_owner_name = ro_Name ow,
     rb_ref_name = bd_Name b, rb_alias = bd_As b, rb_created_by = actor\<rparr>"

text \<open>The unique index of the table, on the rows that carry an owner's uid.\<close>

definition same_binding :: "stored_binding \<Rightarrow> stored_binding \<Rightarrow> bool" where
  "same_binding a b \<longleftrightarrow> rb_owner_uid a \<noteq> None \<and> rb_owner_uid a = rb_owner_uid b \<and> rb_owner_kind a = rb_owner_kind b \<and>
     binding_order a = binding_order b"

fun insert_rows :: "stored_binding list \<Rightarrow> stored_binding list \<Rightarrow> stored_binding list option" where
  "insert_rows table [] = Some table"
| "insert_rows table (r # rs) = (if list_ex (same_binding r) table then None else insert_rows (table @ [r]) rs)"

definition ReplaceBindings :: "(string \<times> string \<times> string) list \<Rightarrow> stored_binding list \<Rightarrow> ref_owner \<Rightarrow> binding list \<Rightarrow> string \<Rightarrow>
    replace_error + stored_binding list" where
  "ReplaceBindings jobs table ow bs actor =
     (if length bs > MaxBindingsPerOwner then Inl (Rejected (TooMany (length bs)))
      else case List.find (\<lambda>b. ValidateBinding b \<noteq> None) bs of
        Some b \<Rightarrow> Inl (Rejected (the (ValidateBinding b)))
      | None \<Rightarrow>
          (let clean = dedupe [] bs;
               uid = (if UIDKey ow = [] \<and> ro_Kind ow = ''job'' then resolveUniqueJobUID jobs (ro_Name ow) (ro_Source ow) else UIDKey ow)
           in case CheckAliasCollisions clean of Some e \<Rightarrow> Inl (Rejected e)
              | None \<Rightarrow>
                  if uid = [] \<and> ro_Kind ow = ''script'' then Inl ScriptUidRequired
                  else case insert_rows (filter (\<lambda>b. \<not> ownerMatch ow b) table) (map (new_row ow uid actor) clean) of
                    None \<Rightarrow> Inl Conflict | Some t \<Rightarrow> Inr t))"

section \<open>The rows a run may have\<close>

record ref_row =
  rr_id :: string
  rr_key :: string
  rr_scope :: "string option"
  rr_owner :: string
  rr_members :: "string list"
  rr_value :: string
  rr_source :: string

datatype reveal = Revealed string | RevealGone | RevealFailed string
datatype material = Material string | NoMaterial | MaterialFailed string

record ref_world =
  rw_dispatch :: claim_db
  rw_secrets :: "ref_row list"
  rw_vars :: "ref_row list"
  rw_keys :: "ref_row list"
  rw_reveal :: "string \<Rightarrow> reveal"
  rw_material :: "string \<Rightarrow> material"
  rw_injection :: bool

definition run_names :: "claim_db \<Rightarrow> string list \<Rightarrow> string list" where
  "run_names db ags = (if ags = [] then [CurrentGlobalName db] else ags)"

definition usableByRun :: "claim_db \<Rightarrow> string list \<Rightarrow> ref_row \<Rightarrow> bool" where
  "usableByRun db ags r \<longleftrightarrow>
     list_ex (\<lambda>a. ag_id a \<in> set (rr_members r) \<and> ag_name a \<in> set (run_names db ags)) (cl_agencies db)"

definition danglingOwner :: string where "danglingOwner = '' (no such agency)''"

definition ownerName :: "claim_db \<Rightarrow> ref_row \<Rightarrow> string" where
  "ownerName db r = (if rr_owner r = Global then []
     else case the_agency db (rr_owner r) of None \<Rightarrow> danglingOwner | Some a \<Rightarrow> ag_name a)"

definition ownerInRun :: "claim_db \<Rightarrow> string list \<Rightarrow> ref_row \<Rightarrow> bool" where
  "ownerInRun db ags r \<longleftrightarrow>
     (case the_agency db (rr_owner r) of None \<Rightarrow> [] | Some a \<Rightarrow> ag_name a) \<in> set (run_names db ags)"

record candidate =
  ca_id :: string
  ca_scope :: string
  ca_owner :: string

datatype pick = NoRow | Ambiguous | Won candidate

definition pickOwned :: "candidate list \<Rightarrow> string list \<Rightarrow> string \<Rightarrow> string \<Rightarrow> pick" where
  "pickOwned cands ags scope globalName =
     (let globalRun = (ags = [] \<or> globalName \<in> set ags);
          owned = filter (\<lambda>c. if ca_owner c = [] then globalRun else ca_owner c \<in> set ags) cands;
          exact = filter (\<lambda>c. scope \<noteq> [] \<and> ca_scope c = scope) owned;
          tier = (if exact \<noteq> [] then exact else owned)
      in case tier of [] \<Rightarrow> NoRow | [c] \<Rightarrow> Won c | _ \<Rightarrow> Ambiguous)"

definition candidate_of :: "claim_db \<Rightarrow> ref_row \<Rightarrow> candidate" where
  "candidate_of db r = \<lparr>ca_id = rr_id r, ca_scope = coalesce (rr_scope r) [], ca_owner = ownerName db r\<rparr>"

definition scope_fits :: "claim_db \<Rightarrow> string \<Rightarrow> string list \<Rightarrow> ref_row \<Rightarrow> bool" where
  "scope_fits db scope ags r \<longleftrightarrow>
     coalesce (rr_scope r) [] = [] \<or>
     coalesce (rr_scope r) [] = scope \<and> (rr_owner r = RunScopeOwner db (run_names db ags) \<or> ownerInRun db ags r)"

definition lookupScoped :: "claim_db \<Rightarrow> ref_row list \<Rightarrow> string \<Rightarrow> string \<Rightarrow> string list \<Rightarrow> pick" where
  "lookupScoped db rows key scope ags =
     pickOwned (map (candidate_of db) (sort_key (\<lambda>r. (coalesce (rr_scope r) [] \<noteq> scope, rr_id r))
         (filter (\<lambda>r. rr_key r = key \<and> scope_fits db scope ags r \<and> usableByRun db ags r) rows)))
       ags scope (CurrentGlobalName db)"

text \<open>The query of \<open>lookupKeyID\<close> reads no scope.\<close>

definition lookupKeyID :: "claim_db \<Rightarrow> ref_row list \<Rightarrow> string \<Rightarrow> string list \<Rightarrow> pick" where
  "lookupKeyID db rows label ags =
     pickOwned (map (\<lambda>r. (candidate_of db r)\<lparr>ca_scope := []\<rparr>)
         (sort_key rr_id (filter (\<lambda>r. rr_key r = label \<and> usableByRun db ags r) rows)))
       ags [] (CurrentGlobalName db)"

definition LookupEntityID :: "ref_world \<Rightarrow> string \<Rightarrow> string \<Rightarrow> string \<Rightarrow> string list \<Rightarrow> pick" where
  "LookupEntityID w k name scope ags =
     (if k = KindSecret then lookupScoped (rw_dispatch w) (rw_secrets w) name scope ags
      else if k = KindVar then lookupScoped (rw_dispatch w) (rw_vars w) name scope ags
      else if k = KindKey then lookupKeyID (rw_dispatch w) (rw_keys w) name ags
      else NoRow)"

definition KeyIDUsable :: "claim_db \<Rightarrow> ref_row list \<Rightarrow> string \<Rightarrow> string list \<Rightarrow> bool" where
  "KeyIDUsable db keys i ags \<longleftrightarrow> list_ex (\<lambda>r. rr_id r = i \<and> usableByRun db ags r \<and> ownerInRun db ags r) keys"

definition keyInAgencies :: "claim_db \<Rightarrow> ref_row list \<Rightarrow> string \<Rightarrow> string list \<Rightarrow> bool" where
  "keyInAgencies db keys label ags \<longleftrightarrow> list_ex (\<lambda>r. rr_key r = label \<and> usableByRun db ags r \<and> ownerInRun db ags r) keys"

section \<open>Resolving\<close>

datatype ref_cause = OutOfScope | MissingReference | AmbiguousReference

datatype resolve_error =
    ReferenceError string ref_cause string
  | ActorScope string
  | Refused binding_error
  | RevealError string string
  | KeyError string string
  | KeyMissing string
  | InvalidKind string

record key_material = km_Reference :: string km_Name :: string km_Material :: string
record file_material = fm_Reference :: string fm_Name :: string fm_Value :: string

record resolved_ref =
  rf_Kind :: string
  rf_Name :: string
  rf_As :: string
  rf_Source :: string
  rf_RowID :: string
  rf_Owner :: string
  rf_Origin :: string

record resolved =
  rs_Env :: "string gomap"
  rs_Keys :: "key_material list"
  rs_Files :: "file_material list"
  rs_Redact :: "string list"
  rs_Refs :: "resolved_ref list"

definition nothing_resolved :: resolved where
  "nothing_resolved = \<lparr>rs_Env = [], rs_Keys = [], rs_Files = [], rs_Redact = [], rs_Refs = []\<rparr>"

text \<open>The detail of an error is for the server's log.\<close>

definition ambiguityErr :: "binding \<Rightarrow> resolve_error" where
  "ambiguityErr b = ReferenceError (Reference (bd_Kind b) (bd_Name b)) AmbiguousReference
     (bd_Kind b @ '' '' @ go_quote (bd_Name b) @ '' is owned by more than one of this run'' @ [CHR 0x27] @ ''s agencies'')"

definition scopeOrMissing :: "ref_row list \<Rightarrow> binding \<Rightarrow> string \<Rightarrow> resolve_error" where
  "scopeOrMissing rows b scope =
     (if list_ex (\<lambda>r. rr_key r = bd_Name b) rows
      then ReferenceError (Reference (bd_Kind b) (bd_Name b)) OutOfScope
        (bd_Kind b @ '' '' @ go_quote (bd_Name b) @ '' exists only outside run scope '' @ go_quote scope)
      else ReferenceError (Reference (bd_Kind b) (bd_Name b)) MissingReference (bd_Kind b @ '' '' @ go_quote (bd_Name b)))"

definition row_by_id :: "ref_row list \<Rightarrow> string \<Rightarrow> ref_row option" where
  "row_by_id rows i = List.find (\<lambda>r. rr_id r = i) rows"

definition stored_or :: "string \<Rightarrow> string" where "stored_or s = (if s = [] then ''stored'' else s)"

definition audit_of :: "ref_row list \<Rightarrow> binding \<Rightarrow> string \<Rightarrow> resolved_ref" where
  "audit_of rows b i = \<lparr>rf_Kind = bd_Kind b, rf_Name = bd_Name b, rf_As = bd_As b,
     rf_Source = (case row_by_id rows i of None \<Rightarrow> ''stored'' | Some r \<Rightarrow> stored_or (rr_source r)),
     rf_RowID = i, rf_Owner = (case row_by_id rows i of None \<Rightarrow> [] | Some r \<Rightarrow> rr_owner r), rf_Origin = bd_Origin b\<rparr>"

definition put_env :: "string \<Rightarrow> string \<Rightarrow> resolved \<Rightarrow> resolved" where
  "put_env k v out = out\<lparr>rs_Env := AList.update k v (rs_Env out)\<rparr>"

definition redact :: "string \<Rightarrow> resolved \<Rightarrow> resolved" where
  "redact v out = (if v = [] then out else out\<lparr>rs_Redact := rs_Redact out @ [v]\<rparr>)"

definition note_ref :: "resolved_ref \<Rightarrow> resolved \<Rightarrow> resolved" where
  "note_ref r out = out\<lparr>rs_Refs := rs_Refs out @ [r]\<rparr>"

definition resolveSecret :: "ref_world \<Rightarrow> string \<Rightarrow> string list \<Rightarrow> binding \<Rightarrow> resolved \<Rightarrow> resolve_error + resolved" where
  "resolveSecret w scope ags b out =
     (case lookupScoped (rw_dispatch w) (rw_secrets w) (bd_Name b) scope ags of
        Ambiguous \<Rightarrow> Inl (ambiguityErr b)
      | NoRow \<Rightarrow> Inl (scopeOrMissing (rw_secrets w) b scope)
      | Won c \<Rightarrow>
          (case rw_reveal w (ca_id c) of
             RevealGone \<Rightarrow> Inl (ReferenceError (Reference (bd_Kind b) (bd_Name b)) MissingReference (bd_Kind b @ '' '' @ go_quote (bd_Name b)))
           | RevealFailed e \<Rightarrow> Inl (RevealError (bd_Name b) e)
           | Revealed v \<Rightarrow>
               Inr (note_ref (audit_of (rw_secrets w) b (ca_id c)) (redact v
                 (if bd_File b
                  then out\<lparr>rs_Files := rs_Files out @ [\<lparr>fm_Reference = InjectReference b, fm_Name = bd_Name b, fm_Value = v\<rparr>]\<rparr>
                  else put_env (InjectReference b) v out)))))"

definition var_audit :: "binding \<Rightarrow> resolved_ref" where
  "var_audit b = \<lparr>rf_Kind = KindVar, rf_Name = bd_Name b, rf_As = bd_As b, rf_Source = ''stored'', rf_RowID = [], rf_Owner = [],
     rf_Origin = []\<rparr>"

definition resolveVar :: "ref_world \<Rightarrow> string \<Rightarrow> string list \<Rightarrow> binding \<Rightarrow> resolved \<Rightarrow> resolve_error + resolved" where
  "resolveVar w scope ags b out =
     (case lookupScoped (rw_dispatch w) (rw_vars w) (bd_Name b) scope ags of
        Ambiguous \<Rightarrow> Inl (ambiguityErr b)
      | NoRow \<Rightarrow> Inl (scopeOrMissing (rw_vars w) b scope)
      | Won c \<Rightarrow>
          (case row_by_id (rw_vars w) (ca_id c) of
             None \<Rightarrow> Inl (ReferenceError (Reference (bd_Kind b) (bd_Name b)) MissingReference (bd_Kind b @ '' '' @ go_quote (bd_Name b)))
           | Some r \<Rightarrow> Inr (note_ref (var_audit b) (put_env (InjectReference b) (rr_value r) out))))"

definition resolveKey :: "ref_world \<Rightarrow> string list \<Rightarrow> binding \<Rightarrow> resolved \<Rightarrow> resolve_error + resolved" where
  "resolveKey w ags b out =
     (case lookupKeyID (rw_dispatch w) (rw_keys w) (bd_Name b) ags of
        Ambiguous \<Rightarrow> Inl (ReferenceError (Reference (bd_Kind b) (bd_Name b)) AmbiguousReference
          (''key '' @ go_quote (bd_Name b) @ '' is owned by more than one of this run'' @ [CHR 0x27] @ ''s agencies''))
      | NoRow \<Rightarrow> Inl (ReferenceError (Reference (bd_Kind b) (bd_Name b)) OutOfScope
          (''key '' @ go_quote (bd_Name b) @ '' is not in this run'' @ [CHR 0x27] @ ''s agencies''))
      | Won c \<Rightarrow>
          (case rw_material w (ca_id c) of
             MaterialFailed e \<Rightarrow> Inl (KeyError (bd_Name b) e)
           | NoMaterial \<Rightarrow> Inl (KeyMissing (bd_Name b))
           | Material m \<Rightarrow>
               Inr (note_ref (audit_of (rw_keys w) b (ca_id c)) (redact m
                 (out\<lparr>rs_Keys := rs_Keys out @ [\<lparr>km_Reference = InjectReference b, km_Name = bd_Name b, km_Material = m\<rparr>]\<rparr>)))))"

definition resolve_one :: "ref_world \<Rightarrow> string \<Rightarrow> string list \<Rightarrow> binding \<Rightarrow> resolved \<Rightarrow> resolve_error + resolved" where
  "resolve_one w scope ags b out =
     (if bd_Kind b = KindSecret then resolveSecret w scope ags b out
      else if bd_Kind b = KindVar then resolveVar w scope ags b out
      else if bd_Kind b = KindKey then resolveKey w ags b out
      else Inl (InvalidKind (bd_Kind b)))"

fun resolve_all :: "ref_world \<Rightarrow> string \<Rightarrow> string list \<Rightarrow> binding list \<Rightarrow> resolved \<Rightarrow> resolve_error + resolved" where
  "resolve_all w scope ags [] out = Inr out"
| "resolve_all w scope ags (b # bs) out =
     (case resolve_one w scope ags b out of Inl e \<Rightarrow> Inl e | Inr out' \<Rightarrow> resolve_all w scope ags bs out')"

definition Resolve :: "ref_world \<Rightarrow> string list \<Rightarrow> string \<Rightarrow> string list \<Rightarrow> binding list \<Rightarrow> resolve_error + resolved" where
  "Resolve w actorScopes scope ags bs =
     (if \<not> rw_injection w then Inr nothing_resolved
      else if actorScopes \<noteq> [] \<and> scope \<noteq> [] \<and> scope \<notin> set actorScopes then Inl (ActorScope scope)
      else case CheckAliasCollisions bs of
        Some e \<Rightarrow> Inl (Refused e)
      | None \<Rightarrow> resolve_all w scope ags bs nothing_resolved)"

section \<open>What the operator is told\<close>

definition binding_error_text :: "binding_error \<Rightarrow> string" where
  "binding_error_text e =
     (case e of
        Collision a b \<Rightarrow> ''reference collision: '' @ Reference (bd_Kind a) (bd_Name a) @ '' and '' @ Reference (bd_Kind b) (bd_Name b) @
          '' both inject as '' @ InjectReference b @ '' '' @ em_dash @ '' give one of them a different alias''
      | Delivery b \<Rightarrow> ''reference collision: '' @ Reference (bd_Kind b) (bd_Name b) @
          '' is bound both as a value and as a file on the same key '' @ InjectReference b @ '' '' @ em_dash @
          '' alias one of them so each has its own name''
      | _ \<Rightarrow> [])"

definition OperatorMessage :: "resolve_error \<Rightarrow> string" where
  "OperatorMessage e =
     (case e of
        ReferenceError ref cause _ \<Rightarrow>
          if cause = AmbiguousReference
          then ''reference '' @ ref @ '' is ambiguous for this run: more than one '' @
            ''department in this run'' @ [CHR 0x27] @ ''s scope owns a row with that name '' @ em_dash @ '' select one '' @
            ''explicitly as a per-run reference, or bind it under an alias''
          else ''reference '' @ ref @ '' is unavailable for this run''
      | ActorScope scope \<Rightarrow> ''reference is not in the run'' @ [CHR 0x27] @ ''s scope: run scope '' @ go_quote scope @
          '' not in the actor'' @ [CHR 0x27] @ ''s allowed scopes''
      | Refused b \<Rightarrow> binding_error_text b
      | RevealError n m \<Rightarrow> ''reveal secret '' @ go_quote n @ '': '' @ m
      | KeyError n m \<Rightarrow> ''resolve key '' @ go_quote n @ '': '' @ m
      | KeyMissing n \<Rightarrow> ''referenced Env Vars row not found: key '' @ go_quote n
      | InvalidKind k \<Rightarrow> ''invalid reference kind '' @ go_quote k)"

section \<open>The run's own context\<close>

record run_context =
  rc_ID :: string
  rc_Job :: string
  rc_JobSource :: string
  rc_Scope :: string
  rc_Type :: string
  rc_TriggeredBy :: string
  rc_Executor :: string

definition RunContextEnv :: "run_context \<Rightarrow> string gomap" where
  "RunContextEnv rc =
     [(PrefixRun @ ''ID'', rc_ID rc), (PrefixRun @ ''JOB'', rc_Job rc), (PrefixRun @ ''JOB_SOURCE'', rc_JobSource rc),
      (PrefixRun @ ''SCOPE'', rc_Scope rc), (PrefixRun @ ''TYPE'', rc_Type rc),
      (PrefixRun @ ''TRIGGERED_BY'', rc_TriggeredBy rc), (PrefixRun @ ''EXECUTOR'', rc_Executor rc)]"

definition RunAgencies :: "claim_db \<Rightarrow> string \<Rightarrow> string list" where
  "RunAgencies db i = (case the_run db i of None \<Rightarrow> [] | Some r \<Rightarrow> d_agencies r)"

end
