(* ===== verification/Ref_Refuse.thy ===== *)
theory Ref_Refuse
  imports Ref_Resolve Sched_Skip
begin

text \<open>
  What stops a run because of where it would go or what it would need (\<open>backend/internal/runref\<close>):
  confinement to an agency (\<open>confine.go\<close>), the list of questions asked again at dispatch
  (\<open>dispatch.go\<close>), the runs no agent could ever take (\<open>keybinding.go\<close>, \<open>checkoutagent.go\<close>), the run that
  could resolve nothing (\<open>unbound.go\<close>), and the agencies a run is for (\<open>ScopeAgencies\<close> of
  \<open>execspec.go\<close>). No query fails in this model.
\<close>

section \<open>The agencies of a scope\<close>

definition scope_named :: "string \<Rightarrow> string \<Rightarrow> scope_row \<Rightarrow> bool" where
  "scope_named scope agency s \<longleftrightarrow> sc_name s = scope \<and> sc_owner s = agency"

text \<open>The agencies of the scope of a name in an agency (\<open>ScopeIn\<close>), one for each row of the join.\<close>

definition scope_agency_ids :: "claim_db \<Rightarrow> string \<Rightarrow> string \<Rightarrow> string list" where
  "scope_agency_ids db scope agency =
     concat (map (\<lambda>(sid, a). map (\<lambda>_. a) (filter (\<lambda>s. sc_id s = sid \<and> scope_named scope agency s) (cl_scopes db)))
       (cl_scope_agencies db))"

definition scope_known :: "claim_db \<Rightarrow> string \<Rightarrow> string \<Rightarrow> bool" where
  "scope_known db scope agency \<longleftrightarrow> list_ex (scope_named scope agency) (cl_scopes db)"

definition runAgencyName :: "claim_db \<Rightarrow> string \<Rightarrow> string list" where
  "runAgencyName db agency =
     (case (if agency = Global then None else the_agency db agency) of
        Some a \<Rightarrow> if ag_name a \<noteq> [] then [ag_name a] else [CurrentGlobalName db]
      | None \<Rightarrow> [CurrentGlobalName db])"

text \<open>\<open>None\<close> is \<open>ErrScopeHasNoAgency\<close>.\<close>

definition ScopeAgencies :: "claim_db \<Rightarrow> string \<Rightarrow> string \<Rightarrow> string list option" where
  "ScopeAgencies db agency0 scope =
     (let agency = (if agency0 = [] then Global else agency0);
          out = sort (concat (map (\<lambda>i. case the_agency db i of None \<Rightarrow> [] | Some a \<Rightarrow> [ag_name a]) (scope_agency_ids db scope agency)))
      in if scope = [] then Some (runAgencyName db agency)
         else if out \<noteq> [] then Some out
         else if scope_known db scope agency then None
         else Some (runAgencyName db agency))"

section \<open>Confinement\<close>

text \<open>The two counts of a row: the scope's agencies, and those that are the repository's.\<close>

definition scope_counts :: "gate_db \<Rightarrow> gate_job \<Rightarrow> string \<Rightarrow> string \<Rightarrow> nat \<times> nat" where
  "scope_counts db j scope repoAgency =
     (let ids = scope_agency_ids (gd_dispatch db) scope (coalesce (job_agency db j) Global)
      in (length ids, length (filter (\<lambda>a. a = repoAgency) ids)))"

definition mismatch_row :: "string \<Rightarrow> nat \<times> nat \<times> bool \<times> bool \<Rightarrow> bool" where
  "mismatch_row scope = (\<lambda>(agencies, own, global, onGlobalScript).
     if global \<and> scope = [] then False
     else if onGlobalScript then agencies > 0 \<and> (agencies \<noteq> 1 \<or> own \<noteq> 1)
     else scope = [] \<or> agencies \<noteq> 1 \<or> own \<noteq> 1)"

definition git_counts :: "gate_db \<Rightarrow> string \<Rightarrow> gate_job \<Rightarrow> (nat \<times> nat \<times> bool \<times> bool) option" where
  "git_counts db scope j =
     (case j_repo_id j of None \<Rightarrow> None
      | Some g \<Rightarrow> (case map_of (gd_repos db) g of None \<Rightarrow> None
          | Some a \<Rightarrow> (case scope_counts db j scope a of (n, own) \<Rightarrow> Some (n, own, g = Global, False))))"

definition app_counts :: "gate_db \<Rightarrow> string \<Rightarrow> gate_job \<Rightarrow> (nat \<times> nat \<times> bool \<times> bool) option" where
  "app_counts db scope j =
     (case Option.bind (Option.bind (j_script_uid j) (\<lambda>u. List.find (\<lambda>s. s_uid s = u) (c_scripts (gd_catalog db)))) s_repo_id of
        None \<Rightarrow> None
      | Some g \<Rightarrow> (case map_of (gd_repos db) g of None \<Rightarrow> None
          | Some a \<Rightarrow> (case scope_counts db j scope a of (n, own) \<Rightarrow> Some (n, own, g = Global, g = Global))))"

definition RepoScopeMismatch :: "gate_db \<Rightarrow> string \<Rightarrow> string \<Rightarrow> string \<Rightarrow> string \<Rightarrow> bool" where
  "RepoScopeMismatch db uid source name scope =
     (let byNameGit = (uid = [] \<and> (source = [] \<or> source = ''git''));
          byNameApp = (uid = [] \<and> \<not> (source = [] \<or> source = ''git''));
          gits = List.map_filter (git_counts db scope) (filter (\<lambda>j. j_source j = ''git'' \<and>
            (uid \<noteq> [] \<and> j_uid j = uid \<or> byNameGit \<and> j_name j = name)) (gd_jobs db));
          apps = List.map_filter (app_counts db scope) (filter (\<lambda>j. j_source j \<noteq> ''git'' \<and>
            (uid \<noteq> [] \<and> j_uid j = uid \<or> byNameApp \<and> j_name j = name \<and> j_source j = source)) (gd_jobs db))
      in list_ex (mismatch_row scope) (gits @ apps))"

definition ScopeOutsideAgency :: "claim_db \<Rightarrow> string \<Rightarrow> string \<Rightarrow> bool" where
  "ScopeOutsideAgency db agency scope =
     (if scope = [] then agency \<noteq> Global
      else let ids = scope_agency_ids db scope agency
           in length ids \<noteq> 1 \<or> length (filter (\<lambda>a. a = agency) ids) \<noteq> 1)"

definition ScopeOutsideRepository :: "gate_db \<Rightarrow> string \<Rightarrow> string \<Rightarrow> bool" where
  "ScopeOutsideRepository db repo scope =
     (if repo = [] then False
      else case map_of (gd_repos db) repo of None \<Rightarrow> True | Some a \<Rightarrow> ScopeOutsideAgency (gd_dispatch db) a scope)"

text \<open>The workflow of the workflow run a run is a step of.\<close>

definition workflow_of_run :: "gate_db \<Rightarrow> wf_entry list \<Rightarrow> live_run \<Rightarrow> gate_wf option" where
  "workflow_of_run db wfruns r =
     (case d_workflow_run_id r of None \<Rightarrow> None
      | Some i \<Rightarrow> Option.bind (Option.bind (List.find (\<lambda>x. we_id x = i) wfruns) we_uid) (the_workflow db))"

definition StepOutsideWorkflowRepository :: "gate_db \<Rightarrow> wf_entry list \<Rightarrow> string \<Rightarrow> string \<Rightarrow> bool" where
  "StepOutsideWorkflowRepository db wfruns i scope =
     (case Option.bind (the_run (gd_dispatch db) i) (workflow_of_run db wfruns) of
        None \<Rightarrow> False
      | Some w \<Rightarrow>
          (case wf_agency db w of None \<Rightarrow> True
           | Some a \<Rightarrow> if scope = [] then False else ScopeOutsideAgency (gd_dispatch db) a scope))"

definition PinOutsideRepository :: "gate_db \<Rightarrow> string \<Rightarrow> string \<Rightarrow> string \<Rightarrow> bool" where
  "PinOutsideRepository db repo runAgency scope =
     (if repo = [] then False
      else case map_of (gd_repos db) repo of
        None \<Rightarrow> False
      | Some a \<Rightarrow>
          if repo = Global then
            (if scope = [] then False
             else let ids = scope_agency_ids (gd_dispatch db) scope runAgency
                  in length ids > 0 \<and> (length ids \<noteq> 1 \<or> length (filter (\<lambda>x. x = Global) ids) \<noteq> 1))
          else if runAgency \<noteq> a then True
          else ScopeOutsideRepository db repo scope)"

section \<open>The decision at dispatch\<close>

definition script_gone :: "gate_db \<Rightarrow> gate_job \<Rightarrow> bool" where
  "script_gone db j \<longleftrightarrow> j_source j \<noteq> ''git'' \<and>
     (coalesce (j_script_ref j) [] \<noteq> [] \<or> gj_command j = [] \<and> gj_script j = [] \<and> coalesce (j_script_path j) [] \<noteq> []) \<and>
     (case j_script_uid j of None \<Rightarrow> True | Some u \<Rightarrow> \<not> list_ex (\<lambda>s. s_uid s = u) (c_scripts (gd_catalog db)))"

text \<open>The job a run is of: by its uid, else the one job of its name and source.\<close>

definition run_job :: "gate_db \<Rightarrow> string \<Rightarrow> string \<Rightarrow> string \<Rightarrow> gate_job option" where
  "run_job db uid source0 name =
     (let source = (if source0 = [] then ''git'' else source0)
      in if uid \<noteq> [] then the_job db uid
         else case filter (\<lambda>j. j_name j = name \<and> j_source j = source) (gd_jobs db) of [j] \<Rightarrow> Some j | _ \<Rightarrow> None)"

definition ScriptGone :: "gate_db \<Rightarrow> string \<Rightarrow> string \<Rightarrow> string \<Rightarrow> bool" where
  "ScriptGone db uid source name = (case run_job db uid source name of None \<Rightarrow> False | Some j \<Rightarrow> script_gone db j)"

definition CodeRepoScopeMismatch :: string where "CodeRepoScopeMismatch = ''repo_scope_mismatch''"
definition CodeScriptGone :: string where "CodeScriptGone = ''script_gone''"
definition ReasonScriptGone :: string where
  "ReasonScriptGone = ''the script this job is built on has been removed: build the job on a script that is there''"
definition CodeNoCheckoutSHA :: string where "CodeNoCheckoutSHA = ''no_checkout_sha''"
definition ReasonNoCheckoutSHA :: string where
  "ReasonNoCheckoutSHA = ''this run is of a project and was queued with no pinned commit: its repository had not been synced. '' @
     ''Sync the repository and run the job again''"

definition RefuseDispatch :: "gate_db \<Rightarrow> wf_entry list \<Rightarrow> string \<Rightarrow> (string \<times> string) option" where
  "RefuseDispatch db wfruns i =
     (case the_run (gd_dispatch db) i of None \<Rightarrow> None
      | Some r \<Rightarrow>
          (let scope = coalesce (d_scope r) []; uid = coalesce (d_job_uid r) []; source = coalesce (d_job_source r) [];
               repo = coalesce (d_checkout_repo r) [];
               pinOwner = RunScopeOwner (gd_dispatch db) (RunAgencies (gd_dispatch db) i)
           in if RepoScopeMismatch db uid source (d_job_name r) scope then Some (CodeRepoScopeMismatch, ReasonRepoScopeMismatch)
              else if StepOutsideWorkflowRepository db wfruns i scope then Some (CodeRepoScopeMismatch, ReasonWorkflowScopeMismatch)
              else if PinOutsideRepository db repo pinOwner scope then Some (CodeRepoScopeMismatch, ReasonRepoScopeMismatch)
              else if ScriptGone db uid source (d_job_name r) then Some (CodeScriptGone, ReasonScriptGone)
              else if coalesce (d_checkout_sha r) [] = [] \<and> (coalesce (d_checkout_entry r) [] \<noteq> [] \<or> repo \<noteq> [])
              then Some (CodeNoCheckoutSHA, ReasonNoCheckoutSHA)
              else None))"

section \<open>Runs nobody could take\<close>

definition SSHRunTypes :: "string list" where "SSHRunTypes = [''bash'', ''perl'', ''powershell'', ''python'']"

definition SupportedRunType :: "string \<Rightarrow> bool" where "SupportedRunType t \<longleftrightarrow> t \<in> set SSHRunTypes"

text \<open>A registered agent that serves an agency of the scope and passes the scope's binding.\<close>

definition agent_serves :: "claim_db \<Rightarrow> string \<Rightarrow> string \<Rightarrow> runner \<Rightarrow> bool" where
  "agent_serves db scope agency rn \<longleftrightarrow> rn_kind rn \<noteq> ''server'' \<and>
     list_ex (\<lambda>(rid, a). rid = rn_id rn \<and> a = rn_owner rn \<and>
        (\<not> scope_known db scope agency \<and> a = agency \<or> a \<in> set (scope_agency_ids db scope agency))) (cl_runner_agencies db) \<and>
     (bound_to db scope agency = [] \<or> rn_id rn \<in> set (bound_to db scope agency))"

definition scopeAgencyOr :: "string \<Rightarrow> string" where "scopeAgencyOr a = (if a = [] then Global else a)"

definition declared :: "stored_binding list \<Rightarrow> ref_owner list \<Rightarrow> binding list" where
  "declared table owners = concat (map (ListBindings table) owners)"

definition KeyBindingsNeedAgent :: "claim_db \<Rightarrow> stored_binding list \<Rightarrow> ref_owner list \<Rightarrow> binding list \<Rightarrow> string \<Rightarrow> string \<Rightarrow> string \<Rightarrow> binding list" where
  "KeyBindingsNeedAgent db table owners perRun runType agency scope =
     (let keys = filter (\<lambda>b. bd_Kind b = KindKey) (perRun @ declared table owners)
      in if \<not> SupportedRunType runType \<or> keys = [] then []
         else if list_ex (agent_serves db scope (scopeAgencyOr agency)) (cl_runners db) then []
         else keys)"

definition jobOwner :: "gate_db \<Rightarrow> string \<Rightarrow> string \<Rightarrow> string \<Rightarrow> string" where
  "jobOwner db uid source0 name =
     (let source = (if source0 = [] then ''git'' else source0)
      in coalesce (Option.bind (List.find (\<lambda>j. if uid \<noteq> [] then j_uid j = uid else j_name j = name \<and> j_source j = source) (gd_jobs db))
           (job_agency db)) Global)"

definition CheckoutNeedsAgent :: "gate_db \<Rightarrow> string \<Rightarrow> string \<Rightarrow> string \<Rightarrow> string \<Rightarrow> bool" where
  "CheckoutNeedsAgent db uid source name scope =
     (case run_job db uid source name of None \<Rightarrow> False
      | Some j \<Rightarrow> j_project_root j \<noteq> [] \<and>
          \<not> list_ex (\<lambda>rn. ''checkout'' \<in> set (EffectiveCapsSQL rn) \<and> agent_serves (gd_dispatch db) scope (jobOwner db uid source name) rn)
              (cl_runners (gd_dispatch db)))"

definition RunOwners :: "string \<Rightarrow> string \<Rightarrow> string \<Rightarrow> string \<Rightarrow> string \<Rightarrow> ref_owner list" where
  "RunOwners source name uid scriptRef scriptUID =
     \<lparr>ro_Kind = ''job'', ro_Source = (if source = [] then ''git'' else source), ro_Name = name, ro_UID = uid\<rparr> #
     (if scriptUID \<noteq> [] then [\<lparr>ro_Kind = ''script'', ro_Source = [], ro_Name = scriptRef, ro_UID = scriptUID\<rparr>] else [])"

definition UnresolvableBindings :: "ref_world \<Rightarrow> stored_binding list \<Rightarrow> ref_owner list \<Rightarrow> string \<Rightarrow> string list \<Rightarrow> binding list" where
  "UnresolvableBindings w table owners scope ags =
     filter (\<lambda>b. case LookupEntityID w (bd_Kind b) (bd_Name b) scope ags of Won _ \<Rightarrow> False | _ \<Rightarrow> True) (declared table owners)"

definition UnboundRunBlocked :: "ref_world \<Rightarrow> stored_binding list \<Rightarrow> ref_owner list \<Rightarrow> string \<Rightarrow> string list \<Rightarrow> binding list" where
  "UnboundRunBlocked w table owners scope ags =
     (if scope \<noteq> [] then [] else UnresolvableBindings w table owners [] ags)"

definition UnboundRefusal :: "binding list \<Rightarrow> string" where
  "UnboundRefusal blocked =
     (case blocked of [] \<Rightarrow> []
      | b # bs \<Rightarrow> ''this job consumes credentials its run cannot use '' @ em_dash @ '' '' @ bd_Kind b @ '' '' @ bd_Name b @
          (if bs = [] then [] else '' (and '' @ itoa (int (length bs)) @ '' more)'') @
          '' is not one its agency can use when the run has no scope: create it in the job'' @ [CHR 0x27] @ ''s agency, '' @
          ''or bind the job to the scope it belongs to'')"

definition KeyBindingRefusal :: "binding list \<Rightarrow> string" where
  "KeyBindingRefusal keys =
     (case keys of [] \<Rightarrow> []
      | b # bs \<Rightarrow> ''this job binds SSH key '' @ InjectReference b @
          (if bs = [] then [] else '' (and '' @ itoa (int (length bs)) @ '' more)'') @
          '', which only an agent can deliver as a file, and no agent serves this job'' @ [CHR 0x27] @ ''s scope '' @
          ''(the local runner connects from the server and cannot place a key on the target) '' @ em_dash @ '' '' @
          ''enrol an agent for the scope'' @ [CHR 0x27] @ ''s agency, or bind the key as a Secret and write the file in the job body'')"

end
