(* ===== verification/Sched_Queue.thy ===== *)
theory Sched_Queue
  imports Sched_Skip Ref_Refuse
begin

text \<open>
  Starting a run and parking one (\<open>backend/internal/scheduler\<close>): \<open>EnqueueRunWithID\<close>, the one way a queued
  row is written, and \<open>CheckForbid\<close> of \<open>scheduler.go\<close>; the Queue policy's bounded queue of \<open>queue.go\<close>;
  the deferred and reaction rows of \<open>pending.go\<close>. A row of \<open>pending_runs\<close> holds the frozen request.
\<close>

section \<open>Starting a run\<close>

datatype enqueue_error = InsertError insert_error | AgenciesUnwritten

definition ReasonRunAgenciesUnwritten :: string where
  "ReasonRunAgenciesUnwritten = ''Refused: the agencies this run runs for could not be recorded, so no runner could claim it''"

text \<open>\<open>SyncRunAgencies\<close>: \<open>INSERT OR IGNORE\<close> of each name; it fails when the argument \<open>sw_sync\<close> says so.\<close>

definition agency_rows :: "string \<Rightarrow> string list \<Rightarrow> (string \<times> string) list \<Rightarrow> (string \<times> string) list" where
  "agency_rows t ns rows = fold (\<lambda>n acc. if n = [] \<or> (t, n) \<in> set acc then acc else acc @ [(t, n)]) ns rows"

definition with_dispatch :: "(claim_db \<Rightarrow> claim_db) \<Rightarrow> sched \<Rightarrow> sched" where
  "with_dispatch f st = st\<lparr>ss_db := (ss_db st)\<lparr>gd_dispatch := f (gd_dispatch (ss_db st))\<rparr>\<rparr>"

definition close_unwritten :: "string \<Rightarrow> string \<Rightarrow> live_run \<Rightarrow> live_run" where
  "close_unwritten t now r =
     (if d_id r = t \<and> waiting r
      then r\<lparr>d_status := ''failure'', d_queued_reason := Some ReasonRunAgenciesUnwritten,
             d_started_at := (case d_started_at r of None \<Rightarrow> Some now | Some x \<Rightarrow> Some x), d_completed_at := Some now\<rparr>
      else r)"

definition EnqueueRunWithID :: "sched_world \<Rightarrow> sched \<Rightarrow> enqueue_params \<Rightarrow> (enqueue_error + string) \<times> sched" where
  "EnqueueRunWithID w st p =
     (case insert_run w st (queued_row p) of
        Inl e \<Rightarrow> (Inl (InsertError e), st)
      | Inr (t, st1) \<Rightarrow>
          (let st2 = with_dispatch (\<lambda>db. snd (StampUnclaimableReason db t)) st1
           in if sw_sync w t
              then (Inr t, with_dispatch (\<lambda>db. db\<lparr>cl_run_agencies :=
                     agency_rows t (agenciesJSONOrDefault (catalog_of st) p) (cl_run_agencies db)\<rparr>) st2)
              else (Inl AgenciesUnwritten, with_runs (map (close_unwritten t (sw_stamp w))) st2)))"

definition IsForbidConflict :: "enqueue_error \<Rightarrow> bool" where
  "IsForbidConflict e \<longleftrightarrow> e = InsertError KeyConflict"

definition CheckForbid :: "sched \<Rightarrow> string \<Rightarrow> bool" where
  "CheckForbid st key = key_taken (runs_of st) key"

section \<open>The queue behind a key\<close>

definition QueueCap :: nat where "QueueCap = 3"

definition QueueFullReason :: string where
  "QueueFullReason = ''Skipped: the concurrency queue for this job is full''"

definition gateConcurrency :: string where "gateConcurrency = ''concurrency''"

definition queued_behind :: "string \<Rightarrow> pending_row \<Rightarrow> bool" where
  "queued_behind key p \<longleftrightarrow> pd_key p = Some key \<and> pd_gate p = Some gateConcurrency \<and> pd_status p = ''pending''"

definition QueueDepth :: "sched \<Rightarrow> string \<Rightarrow> nat" where
  "QueueDepth st key = (if key = [] then 0 else length (filter (queued_behind key) (ss_pending st)))"

definition queuedBy :: "enqueue_params \<Rightarrow> string" where
  "queuedBy p = (if e_TriggeredBy p \<noteq> [] then e_TriggeredBy p else ''scheduler'')"

text \<open>An insert fails when the id is taken.\<close>

definition insert_pending :: "sched_world \<Rightarrow> sched \<Rightarrow> (string \<Rightarrow> pending_row) \<Rightarrow> (string \<times> sched) option" where
  "insert_pending w st row =
     (let i = sw_id w (ss_minted st)
      in if i \<in> pd_id ` set (ss_pending st) then None
         else Some (i, st\<lparr>ss_pending := ss_pending st @ [row i], ss_minted := ss_minted st + 1\<rparr>))"

definition job_uid_by_name :: "sched \<Rightarrow> string \<Rightarrow> string \<Rightarrow> string option" where
  "job_uid_by_name st name source =
     map_option j_uid (List.find (\<lambda>j. j_name j = name \<and> j_source j = source) (gd_jobs (ss_db st)))"

text \<open>The row of a parked request.\<close>

definition behind_row :: "sched_world \<Rightarrow> sched \<Rightarrow> enqueue_params \<Rightarrow> string \<Rightarrow> pending_row" where
  "behind_row w st p i =
     \<lparr>pd_id = i, pd_kind = ''job'', pd_name = e_JobName p, pd_source = jobSourceOrDefault p,
      pd_uid = (if e_JobUID p \<noteq> [] then Some (e_JobUID p) else job_uid_by_name st (e_JobName p) (jobSourceOrDefault p)),
      pd_runAt = sw_stamp w, pd_by = queuedBy p, pd_params = Some (Frozen (p\<lparr>e_Policy := PolicyQueue\<rparr>)),
      pd_originKind = None, pd_originRef = None, pd_originEnv = None, pd_depth = 0, pd_gate = Some gateConcurrency,
      pd_scope = nullStr (e_Scope p), pd_created = sw_stamp w, pd_status = ''pending'', pd_key = Some (e_ConcurrencyKey p),
      pd_miss = None\<rparr>"

definition queue_full :: "sched \<Rightarrow> string \<Rightarrow> bool" where "queue_full st key \<longleftrightarrow> QueueDepth st key \<ge> QueueCap"

text \<open>\<open>None\<close> is an error: no key, or an insert that failed. The count and the insert are two statements, with nothing that
  holds the table between them; this is a call that nothing comes between (\<open>Sched_Race\<close> has the others).\<close>

definition TryQueue :: "sched_world \<Rightarrow> sched \<Rightarrow> enqueue_params \<Rightarrow> (bool \<times> sched) option" where
  "TryQueue w st p =
     (let key = e_ConcurrencyKey p
      in if key = [] then None
         else if queue_full st key then Some (False, st)
         else map_option (\<lambda>(_, st'). (True, st')) (insert_pending w st (behind_row w st p)))"

section \<open>Deferred rows\<close>

text \<open>The identity of a parked row: the caller's, else the one definition of the name.\<close>

definition only_uid :: "sched \<Rightarrow> string \<Rightarrow> string \<Rightarrow> string \<Rightarrow> string option" where
  "only_uid st kind name source =
     (if kind = ''job'' then
        (case filter (\<lambda>j. j_name j = name \<and> j_source j = source) (gd_jobs (ss_db st)) of [j] \<Rightarrow> Some (j_uid j) | _ \<Rightarrow> None)
      else if kind = ''workflow'' then
        (case filter (\<lambda>x. wd_name x = name \<and> wd_source x = source) (gd_workflows (ss_db st)) of [x] \<Rightarrow> Some (wd_uid x) | _ \<Rightarrow> None)
      else None)"

definition parked_uid :: "sched \<Rightarrow> string \<Rightarrow> string \<Rightarrow> string \<Rightarrow> string \<Rightarrow> string option" where
  "parked_uid st own kind name source = (if own \<noteq> [] then Some own else only_uid st kind name source)"

definition InsertPendingRun :: "sched_world \<Rightarrow> sched \<Rightarrow> string \<Rightarrow> string \<Rightarrow> string \<Rightarrow> string \<Rightarrow> string \<Rightarrow> string \<Rightarrow>
    enqueue_params option \<Rightarrow> (string \<times> sched) option" where
  "InsertPendingRun w st kind name source scope runAt scheduledBy params =
     (let own = (case params of Some p \<Rightarrow> if kind = ''job'' then e_JobUID p else [] | None \<Rightarrow> [])
      in insert_pending w st (\<lambda>i.
           \<lparr>pd_id = i, pd_kind = kind, pd_name = name, pd_source = source, pd_uid = parked_uid st own kind name source,
            pd_runAt = runAt, pd_by = scheduledBy, pd_params = map_option Frozen params, pd_originKind = None,
            pd_originRef = None, pd_originEnv = None, pd_depth = 0, pd_gate = None, pd_scope = nullStr scope,
            pd_created = sw_stamp w, pd_status = ''pending'', pd_key = None, pd_miss = None\<rparr>))"

record pending_reaction =
  px_Kind :: string
  px_Name :: string
  px_Source :: string
  px_OwnerUID :: string
  px_Scope :: string
  px_RunAt :: string
  px_Params :: "enqueue_params option"
  px_OriginRef :: string
  px_Depth :: int
  px_EnvJSON :: string

definition InsertReactionPendingRun :: "sched_world \<Rightarrow> sched \<Rightarrow> pending_reaction \<Rightarrow> (string \<times> sched) option" where
  "InsertReactionPendingRun w st x =
     insert_pending w st (\<lambda>i.
       \<lparr>pd_id = i, pd_kind = px_Kind x, pd_name = px_Name x, pd_source = px_Source x,
        pd_uid = parked_uid st (px_OwnerUID x) (px_Kind x) (px_Name x) (px_Source x), pd_runAt = px_RunAt x,
        pd_by = ''reactor'', pd_params = map_option Frozen (px_Params x), pd_originKind = Some ''reaction'',
        pd_originRef = Some (px_OriginRef x), pd_originEnv = nullStr (px_EnvJSON x), pd_depth = px_Depth x, pd_gate = None,
        pd_scope = nullStr (px_Scope x), pd_created = sw_stamp w, pd_status = ''pending'', pd_key = None, pd_miss = None\<rparr>)"

end
