(* ===== verification/Sched_Fire.thy ===== *)
theory Sched_Fire
  imports Sched_Queue Cron_Laws
begin

text \<open>
  The clock's fires (\<open>fire\<close> and \<open>fireWorkflow\<close> of \<open>backend/internal/scheduler/scheduler.go\<close>, the calendar
  gate of \<open>calendar_gate.go\<close>): the gates a schedule entry passes, in order, each refusal with the record it
  leaves, and the run or the parked row of a fire that passes. An operation returns, with the state, how it
  ended (what it logs).
\<close>

record sched_entry =
  se_kind :: string
  se_name :: string
  se_uid :: "string option"
  se_source :: string
  se_owner :: string
  se_skip :: "string list"
  se_only :: "string list"

record fire_world = sched_world +
  fw_entries :: "sched_entry list"
  fw_bindings :: "stored_binding list"
  fw_refs :: ref_world

abbreviation base :: "fire_world \<Rightarrow> sched_world" where "base w \<equiv> sched_world.truncate w"

lemma base_simps [simp]:
  "sw_clock (base w) = sw_clock w" "sw_stamp (base w) = sw_stamp w" "sw_dayof (base w) = sw_dayof w"
  "sw_id (base w) = sw_id w" "sw_owner (base w) = sw_owner w" "sw_sync (base w) = sw_sync w"
  by (simp_all add: sched_world.truncate_def)

text \<open>The Env Vars tables, beside the agencies as they are now.\<close>

definition refs_now :: "fire_world \<Rightarrow> sched \<Rightarrow> ref_world" where
  "refs_now w st = (fw_refs w)\<lparr>rw_dispatch := gd_dispatch (ss_db st)\<rparr>"

section \<open>The calendar gate\<close>

text \<open>\<open>ORDER BY (owner_uid IS NULL) LIMIT 1\<close>.\<close>

definition calendarBindings :: "fire_world \<Rightarrow> string \<Rightarrow> string \<Rightarrow> string \<Rightarrow> string \<Rightarrow> string \<Rightarrow> string list \<times> string list" where
  "calendarBindings w source kind owner uid schedule =
     (case sort_key (\<lambda>e. se_uid e = None) (filter (\<lambda>e. se_kind e = kind \<and> se_name e = schedule \<and>
          (uid \<noteq> [] \<and> se_uid e = Some uid \<or> (se_uid e = None \<or> uid = []) \<and> se_source e = source \<and> se_owner e = owner)) (fw_entries w)) of
        [] \<Rightarrow> ([], []) | e # _ \<Rightarrow> (se_skip e, se_only e))"

definition calendarVerdict :: "fire_world \<Rightarrow> sched \<Rightarrow> string \<Rightarrow> string \<Rightarrow> string \<Rightarrow> string \<Rightarrow> string \<Rightarrow> verdict option" where
  "calendarVerdict w st source kind owner uid schedule =
     (let (skip, only) = calendarBindings w source kind owner uid schedule
      in globalFreezeVerdict (sw_clock w) (ss_db st) (definitionAgency (ss_db st) uid kind)
           ((DefinitionBindings (ss_db st) kind source owner uid)\<lparr>b_entry_skip := skip, b_entry_only := only\<rparr>))"

definition plain_skip :: "string \<Rightarrow> skip_dedupe \<Rightarrow> skip_record" where
  "plain_skip reason m = \<lparr>sk_Reason = reason, sk_Mode = m, sk_Calendar = [], sk_Day = [], sk_TriggerKind = [], sk_TriggeredBy = [], sk_At = []\<rparr>"

definition calendar_record :: "fire_world \<Rightarrow> verdict \<Rightarrow> skip_record" where
  "calendar_record w v = (plain_skip (Reason v) DedupeDay)\<lparr>sk_Calendar := v_calendar v, sk_Day := ck_day (sw_clock w)\<rparr>"

definition standingRefusal :: "fire_world \<Rightarrow> string \<Rightarrow> skip_record" where
  "standingRefusal w reason = (plain_skip reason DedupeEpisodeReason)\<lparr>sk_Day := ck_day (sw_clock w)\<rparr>"

section \<open>The first four gates\<close>

text \<open>What a fire of a definition is stopped by, before anything of it is read: a record to leave, or a
  calendar that leaves none.\<close>

datatype stop = Record skip_record | Silent

definition fire_gate :: "fire_world \<Rightarrow> sched \<Rightarrow> string \<Rightarrow> string \<Rightarrow> string \<Rightarrow> string \<Rightarrow> string \<Rightarrow> stop option" where
  "fire_gate w st kind source name uid schedule =
     (let db = ss_db st; v = calendarVerdict w st source kind name uid schedule;
          cap = AtProduction (gd_dispatch db) (definitionAgency db uid kind)
      in if DefinitionIsCentral db kind source name uid then Some (Record (plain_skip reasonCentralRunsNothing DedupeEpisodeReason))
         else if IsPausedUID db source kind name uid
         then Some (Record (plain_skip (if kind = ''workflow'' then reasonWorkflowPaused else reasonJobPaused) DedupeEpisodeReason))
         else if suppresses v then
           Some (if v_record (the v) then Record (calendar_record w (the v)) else Silent)
         else if cap \<noteq> NotReached then Some (Record (plain_skip (capReason cap) DedupeEpisodeReason))
         else None)"

section \<open>A job's fire\<close>

record fire_args =
  fa_source :: string
  fa_job :: string
  fa_uid :: string
  fa_runType :: string
  fa_scope :: string
  fa_policy :: string
  fa_concKey :: string
  fa_schedule :: string
  fa_env :: "string gomap option"

definition skip_params :: "fire_args \<Rightarrow> enqueue_params" where
  "skip_params a = no_params\<lparr>e_JobName := fa_job a, e_JobSource := fa_source a, e_JobUID := fa_uid a,
     e_RunType := fa_runType a, e_Scope := fa_scope a, e_ScheduleName := fa_schedule a, e_Executor := ''runner''\<rparr>"

text \<open>What a fire that is only logged failed on.\<close>

datatype fire_error = AgenciesUnread | QueueError | RunError enqueue_error

datatype fire_end =
    Skipped enqueue_params skip_record
  | SkippedSilently
  | Parked
  | Started string
  | Failed fire_error

definition fired_job :: "sched \<Rightarrow> fire_args \<Rightarrow> gate_job option" where
  "fired_job st a = List.find (\<lambda>j. if fa_uid a \<noteq> [] then j_uid j = fa_uid a else j_name j = fa_job a \<and> j_source j = fa_source a)
     (gd_jobs (ss_db st))"

definition of_job :: "(gate_job \<Rightarrow> 'a) \<Rightarrow> 'a \<Rightarrow> gate_job option \<Rightarrow> 'a" where
  "of_job f d j = (case j of None \<Rightarrow> d | Some x \<Rightarrow> f x)"

definition fire_key :: "fire_args \<Rightarrow> string" where
  "fire_key a = (if HoldsGate (fa_policy a) then fa_concKey a else [])"

definition fire_params :: "sched \<Rightarrow> fire_args \<Rightarrow> string list \<Rightarrow> enqueue_params" where
  "fire_params st a ags =
     (let j = fired_job st a; idc = IdentityCapableRunType (fa_runType a)
      in (skip_params a)\<lparr>e_TargetHost := of_job dr_targetHost [] j, e_TriggerKind := ''scheduled'', e_TriggeredBy := ''scheduler'',
           e_ConcurrencyKey := fire_key a, e_EnvJSON := Merge [of_job gj_env None j, fa_env a],
           e_SSHUser := (if idc then of_job dr_sshUser [] j else []),
           e_SSHCredential := (if idc then of_job dr_sshCred [] j else []), e_Agencies := ags\<rparr>)"

text \<open>The refusals that a run made now would meet: each with the request its row is written from.\<close>

definition fire_refusal :: "fire_world \<Rightarrow> sched \<Rightarrow> fire_args \<Rightarrow> string list \<Rightarrow> (enqueue_params \<times> skip_record) option" where
  "fire_refusal w st a ags =
     (let db = ss_db st; j = fired_job st a;
          owners = RunOwners (fa_source a) (fa_job a) (fa_uid a) (coalesce (of_job j_script_ref None j) [])
            (coalesce (of_job j_script_uid None j) []);
          p = (skip_params a)\<lparr>e_TargetHost := of_job dr_targetHost [] j\<rparr>
      in if UnboundRunBlocked (refs_now w st) (fw_bindings w) owners (fa_scope a) ags \<noteq> []
         then Some (p\<lparr>e_ConcurrencyKey := fire_key a\<rparr>, plain_skip QueuedReasonUnboundReferences DedupeEpisode)
         else if RepoScopeMismatch db (fa_uid a) (fa_source a) (fa_job a) (fa_scope a)
         then Some (p, standingRefusal w ReasonRepoScopeMismatch)
         else if KeyBindingsNeedAgent (gd_dispatch db) (fw_bindings w) owners [] (fa_runType a)
             (jobAgencyFor db (fa_uid a) (fa_source a) (fa_job a)) (fa_scope a) \<noteq> []
         then Some (p, standingRefusal w ReasonKeyBindingNeedsAgent)
         else if CheckoutNeedsAgent db (fa_uid a) (fa_source a) (fa_job a) (fa_scope a)
         then Some (p, standingRefusal w ReasonCheckoutNeedsAgent)
         else None)"

definition forbid_skip :: skip_record where
  "forbid_skip = plain_skip ''Skipped: a run for this job is already active (Forbid policy)'' DedupeEpisode"

definition race_skip :: skip_record where
  "race_skip = plain_skip ''Skipped: concurrent fire race resolved by DB constraint (Forbid policy)'' DedupeEpisode"

definition skip_fire :: "fire_world \<Rightarrow> sched \<Rightarrow> enqueue_params \<Rightarrow> skip_record \<Rightarrow> fire_end \<times> sched" where
  "skip_fire w st p k = (Skipped p k, recordSuppression (base w) p k st)"

definition start_fire :: "fire_world \<Rightarrow> sched \<Rightarrow> enqueue_params \<Rightarrow> fire_end \<times> sched" where
  "start_fire w st p =
     (case EnqueueRunWithID (base w) st p of
        (Inr t, st') \<Rightarrow> (Started t, st')
      | (Inl e, st') \<Rightarrow> if IsForbidConflict e then skip_fire w st' p race_skip else (Failed (RunError e), st'))"

definition enter_fire :: "fire_world \<Rightarrow> sched \<Rightarrow> fire_args \<Rightarrow> enqueue_params \<Rightarrow> fire_end \<times> sched" where
  "enter_fire w st a p =
     (if HoldsGate (fa_policy a) \<and> CheckForbid st (fa_concKey a) then
        (if fa_policy a = PolicyQueue then
           (case TryQueue (base w) st p of
              None \<Rightarrow> (Failed QueueError, st)
            | Some (True, st') \<Rightarrow> (Parked, st')
            | Some (False, st') \<Rightarrow> skip_fire w st' (p\<lparr>e_ConcurrencyKey := []\<rparr>) (plain_skip QueueFullReason DedupeEpisodeReason))
         else skip_fire w st p forbid_skip)
      else start_fire w st p)"

definition fire :: "fire_world \<Rightarrow> sched \<Rightarrow> fire_args \<Rightarrow> fire_end \<times> sched" where
  "fire w st a =
     (case fire_gate w st ''job'' (fa_source a) (fa_job a) (fa_uid a) (fa_schedule a) of
        Some (Record k) \<Rightarrow> skip_fire w st (skip_params a) k
      | Some Silent \<Rightarrow> (SkippedSilently, st)
      | None \<Rightarrow>
          (case ScopeAgencies (gd_dispatch (ss_db st)) (jobAgencyFor (ss_db st) (fa_uid a) (fa_source a) (fa_job a)) (fa_scope a) of
             None \<Rightarrow> (Failed AgenciesUnread, st)
           | Some ags \<Rightarrow>
               (case fire_refusal w st a ags of
                  Some (p, k) \<Rightarrow> skip_fire w st p k
                | None \<Rightarrow> enter_fire w st a (fire_params st a ags))))"

section \<open>A workflow's fire\<close>

record wf_args =
  wa_uid :: string
  wa_source :: string
  wa_name :: string
  wa_schedule :: string
  wa_env :: string

datatype wf_end = WfSkipped skip_record | WfSkippedSilently | WfFired | WfNoFirer

text \<open>The firer is the engine's entry; what it is handed is appended to \<open>ss_fired\<close>.\<close>

definition fireWorkflow :: "bool \<Rightarrow> fire_world \<Rightarrow> sched \<Rightarrow> wf_args \<Rightarrow> wf_end \<times> sched" where
  "fireWorkflow firer w st a =
     (if \<not> firer then (WfNoFirer, st)
      else case fire_gate w st ''workflow'' (wa_source a) (wa_name a) (wa_uid a) (wa_schedule a) of
        Some (Record k) \<Rightarrow>
          (WfSkipped k, recordWorkflowSuppression (base w) (wa_uid a) (wa_source a) (wa_name a) (wa_schedule a) k st)
      | Some Silent \<Rightarrow> (WfSkippedSilently, st)
      | None \<Rightarrow>
          (WfFired, st\<lparr>ss_fired := ss_fired st @ [\<lparr>wx_UID = wa_uid a, wx_Source = wa_source a, wx_Name = wa_name a,
             wx_TriggeredBy = [], wx_TriggerKind = [], wx_EnvJSON = wa_env a, wx_Depth = 0, wx_ReactedTo = [],
             wx_Schedule = wa_schedule a\<rparr>]\<rparr>))"

end
