(* ===== verification/Sched_Promote.thy ===== *)
theory Sched_Promote
  imports Sched_Fire
begin

text \<open>
  The promotion of parked rows (\<open>backend/internal/scheduler/pending.go\<close>): \<open>PromotePending\<close> takes the rows
  that are due, and \<open>promoteOne\<close> judges each one at the instant it would enter the system: too late, held by
  a gate, dropped by its definition's calendars, held while its owner is in the recycle bin, refused,
  deferred behind its key, or started. An operation returns, with the state, how it ended.
\<close>

section \<open>Provenance\<close>

definition pendingMissGrace :: int where "pendingMissGrace = 24 * nsHour"

definition GateRecycleBin :: string where "GateRecycleBin = ''recycle_bin''"
definition GateHoldPrefix :: string where "GateHoldPrefix = ''gate:''"

definition ReasonPendingWorkflowAmbiguous :: string where
  "ReasonPendingWorkflowAmbiguous = ''two workflows are called this, and the parked run does not record which one it was for''"

definition from_reaction :: "pending_row \<Rightarrow> bool" where "from_reaction p \<longleftrightarrow> pd_originKind p = Some ''reaction''"

definition isAdHoc :: "pending_row \<Rightarrow> bool" where
  "isAdHoc p \<longleftrightarrow> \<not> from_reaction p \<and> pd_gate p \<noteq> Some gateConcurrency"

definition byHand :: "pending_row \<Rightarrow> bool" where
  "byHand p \<longleftrightarrow> isAdHoc p \<or>
     \<not> from_reaction p \<and> (case pd_params p of Some (Frozen q) \<Rightarrow> e_TriggerKind q = ''manual'' | _ \<Rightarrow> False)"

definition gate_text :: "pending_row \<Rightarrow> string" where "gate_text p = coalesce (pd_gate p) []"

section \<open>The rows\<close>

definition on_row :: "string \<Rightarrow> (pending_row \<Rightarrow> pending_row) \<Rightarrow> sched \<Rightarrow> sched" where
  "on_row i f st = st\<lparr>ss_pending := map (\<lambda>p. if pd_id p = i \<and> pd_status p = ''pending'' then f p else p) (ss_pending st)\<rparr>"

definition waiting_row :: "sched \<Rightarrow> string \<Rightarrow> bool" where
  "waiting_row st i \<longleftrightarrow> list_ex (\<lambda>p. pd_id p = i \<and> pd_status p = ''pending'') (ss_pending st)"

definition holdForGate :: "string \<Rightarrow> gate_outcome \<Rightarrow> sched \<Rightarrow> sched" where
  "holdForGate i g =
     on_row i (\<lambda>p. if pd_gate p = None \<or> has_prefix (gate_text p) GateHoldPrefix
                   then p\<lparr>pd_gate := Some (GateHoldPrefix @ go_Gate g)\<rparr> else p)"

definition clearGateHold :: "pending_row \<Rightarrow> sched \<Rightarrow> sched" where
  "clearGateHold p st =
     (if \<not> has_prefix (gate_text p) GateHoldPrefix then st
      else on_row (pd_id p) (\<lambda>x. if has_prefix (gate_text x) GateHoldPrefix then x\<lparr>pd_gate := None\<rparr> else x) st)"

definition holdForRecycleBin :: "string \<Rightarrow> sched \<Rightarrow> sched" where
  "holdForRecycleBin i = on_row i (\<lambda>p. if pd_gate p = None then p\<lparr>pd_gate := Some GateRecycleBin\<rparr> else p)"

definition clearRecycleBinHold :: "string \<Rightarrow> sched \<Rightarrow> sched" where
  "clearRecycleBinHold i = on_row i (\<lambda>p. if pd_gate p = Some GateRecycleBin then p\<lparr>pd_gate := None\<rparr> else p)"

definition remove_row :: "string \<Rightarrow> sched \<Rightarrow> sched" where
  "remove_row i st = st\<lparr>ss_pending := filter (\<lambda>p. \<not> (pd_id p = i \<and> pd_status p = ''pending'')) (ss_pending st)\<rparr>"

text \<open>\<open>None\<close>: the row was already gone.\<close>

definition deletePending :: "string \<Rightarrow> sched \<Rightarrow> sched option" where
  "deletePending i st = (if waiting_row st i then Some (remove_row i st) else None)"

section \<open>A miss\<close>

definition runTypeOf :: "sched \<Rightarrow> string \<Rightarrow> string \<Rightarrow> string \<Rightarrow> string" where
  "runTypeOf st uid source name =
     (case List.find (\<lambda>j. if uid \<noteq> [] then j_uid j = uid else j_source j = source \<and> j_name j = name) (gd_jobs (ss_db st)) of
        None \<Rightarrow> ''bash'' | Some j \<Rightarrow> if j_run_type j = [] then ''bash'' else j_run_type j)"

definition alertPendingMiss :: "pending_row \<Rightarrow> string \<Rightarrow> sched \<Rightarrow> sched" where
  "alertPendingMiss p reason st =
     st\<lparr>ss_notices := ss_notices st @ [MissedRun (if pd_kind p = ''workflow'' then ''workflow'' else []) (pd_name p) reason]\<rparr>"

definition frozen_or_none :: "pending_row \<Rightarrow> enqueue_params" where
  "frozen_or_none p = (case pd_params p of Some (Frozen q) \<Rightarrow> q | _ \<Rightarrow> no_params)"

definition named_params :: "pending_row \<Rightarrow> enqueue_params" where
  "named_params p =
     (let q = frozen_or_none p
      in if e_JobName q = [] then q\<lparr>e_JobName := pd_name p, e_JobSource := pd_source p\<rparr> else q)"

definition missed_params :: "sched \<Rightarrow> pending_row \<Rightarrow> enqueue_params" where
  "missed_params st p =
     (let q = named_params p;
          q1 = (if e_Scope q = [] then q\<lparr>e_Scope := coalesce (pd_scope p) []\<rparr> else q)
      in if e_RunType q1 = [] then q1\<lparr>e_RunType := runTypeOf st (e_JobUID q1) (jobSourceOrDefault q1) (e_JobName q1)\<rparr> else q1)"

definition reportPendingMiss :: "fire_world \<Rightarrow> pending_row \<Rightarrow> string \<Rightarrow> sched \<Rightarrow> sched" where
  "reportPendingMiss w p reason st =
     (if pd_kind p \<noteq> ''job'' then alertPendingMiss p reason st
      else alertPendingMiss p reason
        (recordSuppression (base w) (missed_params st p)
          ((plain_skip reasonMissedFire DedupeEpisodeReason)\<lparr>sk_At := pd_runAt p\<rparr>) st))"

definition markPendingMissed :: "fire_world \<Rightarrow> pending_row \<Rightarrow> string \<Rightarrow> sched \<Rightarrow> sched" where
  "markPendingMissed w p reason st =
     (if \<not> waiting_row st (pd_id p) then st
      else reportPendingMiss w p reason (on_row (pd_id p) (\<lambda>x. x\<lparr>pd_status := ''missed'', pd_miss := Some reason\<rparr>) st))"

text \<open>Why a row is too late, if it is.\<close>

definition late_reason :: "clock \<Rightarrow> pending_row \<Rightarrow> string option" where
  "late_reason ck p =
     (case ck_parse ck (pd_runAt p) of
        None \<Rightarrow> Some ''malformed run_at''
      | Some at \<Rightarrow>
          if time_sub (ck_now ck) at > pendingMissGrace
          then Some (''past the 24h0m0s catch-up grace'' @
            (if gate_text p = GateRecycleBin then '' (held while its '' @ pd_kind p @ '' was in the recycle bin)''
             else if has_prefix (gate_text p) GateHoldPrefix
             then '' (held by the '' @ drop (length GateHoldPrefix) (gate_text p) @ '' gate)'' else []))
          else None)"

section \<open>A drop by the definition's own calendars\<close>

definition drop_record :: "pending_row \<Rightarrow> gate_outcome \<Rightarrow> skip_record" where
  "drop_record p g =
     (let q = frozen_or_none p
      in (plain_skip (go_Reason g) DedupeDay)\<lparr>sk_Calendar := go_Calendar g, sk_At := pd_runAt p,
           sk_TriggerKind := (if from_reaction p then ''reaction'' else e_TriggerKind q),
           sk_TriggeredBy := (if from_reaction p then ''reactor'' else e_TriggeredBy q)\<rparr>)"

definition dropForCalendars :: "fire_world \<Rightarrow> pending_row \<Rightarrow> gate_outcome \<Rightarrow> sched \<Rightarrow> sched" where
  "dropForCalendars w p g st =
     (case deletePending (pd_id p) st of
        None \<Rightarrow> st
      | Some st1 \<Rightarrow>
          (let k = drop_record p g; uid = coalesce (pd_uid p) []
           in if pd_kind p = ''workflow''
              then recordWorkflowSuppression (base w) uid (pd_source p) (pd_name p) []
                (if sk_TriggeredBy k = [] then k\<lparr>sk_TriggeredBy := pd_by p\<rparr> else k) st1
              else (let q = named_params p
                    in recordSuppression (base w) (if e_JobUID q = [] then q\<lparr>e_JobUID := uid\<rparr> else q) k st1)))"

section \<open>Promotion\<close>

datatype promote_end =
    PMissed string
  | PHeld string
  | PDropped
  | PDeferred
  | PRaced
  | PNoFirer
  | PRun string
  | PLost enqueue_error
  | PWorkflow

text \<open>The workflow a parked row is for: by its uid, else the one of its name. \<open>Inl\<close> is a reason to miss; the
  boolean is whether it is in the recycle bin.\<close>

definition parked_workflow :: "sched \<Rightarrow> pending_row \<Rightarrow> string + string \<times> bool" where
  "parked_workflow st p =
     (let uid = coalesce (pd_uid p) []
      in if uid \<noteq> [] then
           (case the_workflow (ss_db st) uid of None \<Rightarrow> Inl ''workflow no longer exists'' | Some x \<Rightarrow> Inr (uid, wd_deleted x))
         else (case filter (\<lambda>x. wd_source x = pd_source p \<and> wd_name x = pd_name p) (gd_workflows (ss_db st)) of
             [] \<Rightarrow> Inl ''workflow no longer exists''
           | [x] \<Rightarrow> Inr (wd_uid x, wd_deleted x)
           | _ \<Rightarrow> Inl ReasonPendingWorkflowAmbiguous))"

definition workflow_envelope :: "pending_row \<Rightarrow> string \<Rightarrow> workflow_fire" where
  "workflow_envelope p uid =
     (let r = from_reaction p
      in \<lparr>wx_UID = uid, wx_Source = pd_source p, wx_Name = pd_name p, wx_TriggeredBy = pd_by p,
          wx_TriggerKind = (if r then ''reaction'' else ''manual''), wx_EnvJSON = (if r then coalesce (pd_originEnv p) [] else []),
          wx_Depth = (if r then pd_depth p else 0), wx_ReactedTo = (if r then coalesce (pd_originRef p) [] else []),
          wx_Schedule = []\<rparr>)"

definition promote_workflow :: "bool \<Rightarrow> fire_world \<Rightarrow> sched \<Rightarrow> pending_row \<Rightarrow> promote_end \<times> sched" where
  "promote_workflow firer w st p =
     (if \<not> firer then (PNoFirer, st)
      else case parked_workflow st p of
        Inl reason \<Rightarrow> (PMissed reason, markPendingMissed w p reason st)
      | Inr (uid, binned) \<Rightarrow>
          if binned then (PHeld GateRecycleBin, holdForRecycleBin (pd_id p) st)
          else (case deletePending (pd_id p) (clearRecycleBinHold (pd_id p) st) of
              None \<Rightarrow> (PRaced, clearRecycleBinHold (pd_id p) st)
            | Some st1 \<Rightarrow> (PWorkflow, st1\<lparr>ss_fired := ss_fired st1 @ [workflow_envelope p uid]\<rparr>)))"

definition parked_job :: "sched \<Rightarrow> enqueue_params \<Rightarrow> gate_job option" where
  "parked_job st q =
     List.find (\<lambda>j. if e_JobUID q \<noteq> [] then j_uid j = e_JobUID q
                    else j_source j = jobSourceOrDefault q \<and> j_name j = e_JobName q) (gd_jobs (ss_db st))"

text \<open>The request a row is started with: its reaction's provenance, and the instant its schedule fired.\<close>

definition promoted_params :: "pending_row \<Rightarrow> enqueue_params \<Rightarrow> enqueue_params" where
  "promoted_params p q =
     (let q1 = (if from_reaction p then q\<lparr>e_ReactionDepth := pd_depth p, e_ReactedToRunID := coalesce (pd_originRef p) []\<rparr> else q)
      in if pd_gate p = Some gateConcurrency then q1\<lparr>e_ScheduledFor := pd_created p\<rparr> else q1)"

definition enter_promotion :: "fire_world \<Rightarrow> sched \<Rightarrow> pending_row \<Rightarrow> enqueue_params \<Rightarrow> promote_end \<times> sched" where
  "enter_promotion w st p q =
     (if HoldsGate (e_Policy q) \<and> CheckForbid st (e_ConcurrencyKey q) then (PDeferred, st)
      else case deletePending (pd_id p) st of
        None \<Rightarrow> (PRaced, st)
      | Some st1 \<Rightarrow>
          (case EnqueueRunWithID (base w) st1 (promoted_params p q) of
             (Inr t, st2) \<Rightarrow> (PRun t, st2)
           | (Inl e, st2) \<Rightarrow> (PLost e, st2)))"

definition promote_job :: "fire_world \<Rightarrow> sched \<Rightarrow> pending_row \<Rightarrow> promote_end \<times> sched" where
  "promote_job w st p =
     (let miss = (\<lambda>reason. (PMissed reason, markPendingMissed w p reason st))
      in case pd_params p of
        None \<Rightarrow> miss ''unreadable frozen params: unexpected end of JSON input''
      | Some (Unreadable e) \<Rightarrow> miss (''unreadable frozen params: '' @ e)
      | Some (Frozen q) \<Rightarrow>
          (case parked_job st q of
             None \<Rightarrow> miss ''job no longer exists''
           | Some j \<Rightarrow>
               if def_row.dr_deleted j then (PHeld GateRecycleBin, holdForRecycleBin (pd_id p) st)
               else
                 (let st1 = clearRecycleBinHold (pd_id p) st
                  in if RepoScopeMismatch (ss_db st1) (e_JobUID q) (jobSourceOrDefault q) (e_JobName q) (e_Scope q)
                     then (PMissed ReasonRepoScopeMismatch, markPendingMissed w p ReasonRepoScopeMismatch st1)
                     else if CheckoutNeedsAgent (ss_db st1) (e_JobUID q) (jobSourceOrDefault q) (e_JobName q) (e_Scope q)
                     then (PMissed ReasonCheckoutNeedsAgent, markPendingMissed w p ReasonCheckoutNeedsAgent st1)
                     else enter_promotion w st1 p q)))"

definition promote_gate :: "fire_world \<Rightarrow> sched \<Rightarrow> pending_row \<Rightarrow> gate_outcome" where
  "promote_gate w st p =
     GateEvaluate (sw_clock w) (ss_db st)
       \<lparr>gr_Origin = (if isAdHoc p then OriginPromotionAdHoc else OriginPromotion), gr_Source = pd_source p,
        gr_OwnerKind = pd_kind p, gr_Name = pd_name p, gr_UID = coalesce (pd_uid p) [], gr_Hand = byHand p\<rparr>"

definition promoteOne :: "bool \<Rightarrow> fire_world \<Rightarrow> sched \<Rightarrow> pending_row \<Rightarrow> promote_end \<times> sched" where
  "promoteOne firer w st p =
     (case late_reason (sw_clock w) p of
        Some reason \<Rightarrow> (PMissed reason, markPendingMissed w p reason st)
      | None \<Rightarrow>
          (let g = promote_gate w st p
           in if \<not> go_Allowed g then
                (if go_Gate g = ''calendar'' \<and> go_Level g \<noteq> [] then (PDropped, dropForCalendars w p g st)
                 else (PHeld (GateHoldPrefix @ go_Gate g), holdForGate (pd_id p) g st))
              else
                (let st1 = clearGateHold p st
                 in if pd_kind p = ''workflow'' then promote_workflow firer w st1 p else promote_job w st1 p)))"

definition due_rows :: "sched_world \<Rightarrow> sched \<Rightarrow> pending_row list" where
  "due_rows w st = sort_key pd_runAt (filter (\<lambda>p. pd_status p = ''pending'' \<and> pd_runAt p \<le> sw_stamp w) (ss_pending st))"

definition PromotePending :: "bool \<Rightarrow> fire_world \<Rightarrow> sched \<Rightarrow> sched" where
  "PromotePending firer w st = fold (\<lambda>p s. snd (promoteOne firer w s p)) (due_rows (base w) st) st"

end
