(* ===== verification/Sched_Skip_Props.thy ===== *)
theory Sched_Skip_Props
  imports Sched_Skip
begin

text \<open>
  What the de-dupe rules keep of a schedule entry's log: at most one calendar row a day, and never two
  rows in a row (calendar rows apart) that skip for the same bounded reason, whatever else is written in
  between. Proved in the locale \<open>skip_log\<close>, which both the job arm and the workflow arm interpret.
\<close>

section \<open>Logs in normal form\<close>

abbreviation calendar_skip :: "outcome \<Rightarrow> bool" where
  "calendar_skip e \<equiv> oc_status e = ''skipped'' \<and> oc_calendar e \<noteq> None"

definition skip_for :: "string \<Rightarrow> outcome \<Rightarrow> bool" where
  "skip_for reason e \<longleftrightarrow> oc_status e = ''skipped'' \<and> oc_reason e = reason"

fun no_repeat :: "('a \<Rightarrow> bool) \<Rightarrow> 'a list \<Rightarrow> bool" where
  "no_repeat p (a # b # es) \<longleftrightarrow> \<not> (p a \<and> p b) \<and> no_repeat p (b # es)"
| "no_repeat p es \<longleftrightarrow> True"

definition plain_rows :: "outcome list \<Rightarrow> outcome list" where
  "plain_rows es = filter (\<lambda>e. oc_calendar e = None) es"

definition calendar_rows :: "outcome list \<Rightarrow> outcome list" where
  "calendar_rows es = filter calendar_skip es"

definition normal_log :: "(string \<Rightarrow> string) \<Rightarrow> string \<Rightarrow> outcome list \<Rightarrow> bool" where
  "normal_log dayof reason es \<longleftrightarrow>
     distinct (map (\<lambda>e. dayof (oc_created e)) (calendar_rows es)) \<and> no_repeat (skip_for reason) (plain_rows es)"

lemma no_repeat_snoc: "no_repeat p (es @ [e]) \<longleftrightarrow> no_repeat p es \<and> \<not> (es \<noteq> [] \<and> p (last es) \<and> p e)"
  by (induction p es rule: no_repeat.induct) auto

lemma rows_snoc [simp]:
  "plain_rows (es @ [e]) = plain_rows es @ (if oc_calendar e = None then [e] else [])"
  "calendar_rows (es @ [e]) = calendar_rows es @ (if calendar_skip e then [e] else [])"
  by (simp_all add: plain_rows_def calendar_rows_def)

lemma rows_Nil [simp]: "plain_rows [] = []" "calendar_rows [] = []"
  by (simp_all add: plain_rows_def calendar_rows_def)

section \<open>The records\<close>

text \<open>A calendar's record is bounded by the day of the fire, a reason's by the episode.\<close>

definition daily :: "(string \<Rightarrow> string) \<Rightarrow> string \<Rightarrow> skip_record \<Rightarrow> bool" where
  "daily dayof now k \<longleftrightarrow> sk_Mode k = DedupeDay \<and> sk_Calendar k \<noteq> [] \<and> sk_At k = [] \<and> sk_Day k = dayof now \<and> sk_Day k \<noteq> []"

definition episodic :: "skip_record \<Rightarrow> bool" where
  "episodic k \<longleftrightarrow> sk_Mode k = DedupeEpisodeReason \<and> sk_Calendar k = [] \<and> sk_At k = [] \<and> sk_Day k = []"

definition dup :: "(string \<Rightarrow> string) \<Rightarrow> skip_record \<Rightarrow> outcome list \<Rightarrow> bool" where
  "dup dayof k es \<longleftrightarrow> (if sk_Mode k = DedupeDay then day_recorded dayof (sk_Day k) es
     else reason_recorded dayof [] (sk_Reason k) es)"

definition skip_outcome :: "skip_record \<Rightarrow> string \<Rightarrow> outcome" where
  "skip_outcome k now = \<lparr>oc_status = ''skipped'', oc_reason = sk_Reason k, oc_calendar = nullStr (sk_Calendar k), oc_created = now\<rparr>"

definition in_time :: "outcome list \<Rightarrow> string \<Rightarrow> bool" where
  "in_time es t \<longleftrightarrow> sorted (map oc_created es) \<and> (\<forall>e \<in> set es. oc_created e \<le> t)"

lemma in_time_snoc: "in_time es t \<Longrightarrow> t \<le> oc_created e \<Longrightarrow> in_time (es @ [e]) (oc_created e)"
  by (auto simp: in_time_def sorted_append)

lemma in_time_mono: "in_time es t \<Longrightarrow> t \<le> u \<Longrightarrow> in_time es u"
  by (auto simp: in_time_def)

lemma newest_first_sorted:
  assumes "sorted (map oc_created es)"
  shows "newest_first (filter p es) = rev (filter p es)"
proof -
  have "sorted (map oc_created (filter p es))" using assms by (rule sorted_filter)
  then show ?thesis by (simp add: newest_first_def sort_key_id_if_sorted)
qed

lemma day_recorded_iff:
  assumes "in_time es t" and "t \<le> now" and "mono dayof"
    and "distinct (map (\<lambda>e. dayof (oc_created e)) (calendar_rows es))"
  shows "day_recorded dayof (dayof now) es \<longleftrightarrow> dayof now \<in> set (map (\<lambda>e. dayof (oc_created e)) (calendar_rows es))"
proof -
  let ?d = "\<lambda>e. dayof (oc_created e)"
  have n: "newest_first (filter calendar_skip es) = rev (calendar_rows es)"
    using assms(1) by (simp add: newest_first_sorted in_time_def calendar_rows_def)
  have "list_ex (\<lambda>e. ?d e = dayof now) (take 50 (rev (calendar_rows es)))" if e: "e \<in> set (calendar_rows es)" "?d e = dayof now" for e
  proof (cases "calendar_rows es" rule: rev_cases)
    case Nil
    then show ?thesis using e by simp
  next
    case (snoc xs x)
    have s: "sorted (map oc_created (calendar_rows es))"
      using assms(1) unfolding in_time_def calendar_rows_def by (blast intro: sorted_filter)
    have "oc_created e \<le> oc_created x" using s e(1) by (auto simp: snoc sorted_append)
    have "x \<in> set (calendar_rows es)" by (simp add: snoc)
    then have "x \<in> set es" by (simp add: calendar_rows_def)
    then have "oc_created x \<le> now"
      using assms(1,2) unfolding in_time_def by (blast intro: order_trans)
    moreover note \<open>oc_created e \<le> oc_created x\<close>
    ultimately have "?d e \<le> ?d x" "?d x \<le> dayof now" using assms(3) by (simp_all add: monoD)
    with e(2) have "?d x = dayof now" by simp
    then show ?thesis by (simp add: snoc)
  qed
  moreover have "dayof now \<in> ?d ` set (calendar_rows es)" if "list_ex (\<lambda>e. ?d e = dayof now) (take 50 (rev (calendar_rows es)))"
    using that by (auto simp: list_ex_iff dest!: in_set_takeD intro: rev_image_eqI)
  moreover have "day_recorded dayof (dayof now) es \<longleftrightarrow> list_ex (\<lambda>e. ?d e = dayof now) (take 50 (rev (calendar_rows es)))"
    unfolding day_recorded_def n ..
  ultimately show ?thesis unfolding set_map by (metis imageE)
qed

lemma reason_recorded_iff:
  assumes "in_time es t"
  shows "reason_recorded dayof [] reason es \<longleftrightarrow> plain_rows es \<noteq> [] \<and> skip_for reason (last (plain_rows es))"
proof -
  have n: "newest_first (filter (\<lambda>e. oc_calendar e = None) es) = rev (plain_rows es)"
    using assms by (simp add: newest_first_sorted in_time_def plain_rows_def)
  show ?thesis
    by (cases "plain_rows es" rule: rev_cases) (simp_all add: reason_recorded_def n skip_for_def)
qed

lemma normal_after_skip:
  assumes "normal_log dayof reason es" and "in_time es t" and "t \<le> now" and "mono dayof"
    and "daily dayof now k \<or> episodic k" and "\<not> dup dayof k es"
  shows "normal_log dayof reason (es @ [skip_outcome k now])"
  using assms(5)
proof
  assume d: "daily dayof now k"
  then have "\<not> day_recorded dayof (dayof now) es" using assms(6) by (simp add: dup_def daily_def)
  moreover have "distinct (map (\<lambda>e. dayof (oc_created e)) (calendar_rows es))" using assms(1) by (simp add: normal_log_def)
  ultimately have "dayof now \<notin> set (map (\<lambda>e. dayof (oc_created e)) (calendar_rows es))"
    using day_recorded_iff [OF assms(2-4)] by blast
  then show ?thesis using assms(1) d by (auto simp: normal_log_def skip_outcome_def daily_def nullStr_def)
next
  assume e: "episodic k"
  then have "\<not> (plain_rows es \<noteq> [] \<and> skip_for (sk_Reason k) (last (plain_rows es)))"
    using assms(6) reason_recorded_iff [OF assms(2)] by (simp add: dup_def episodic_def)
  then show ?thesis using assms(1) e
    by (auto simp: normal_log_def skip_outcome_def episodic_def nullStr_def no_repeat_snoc skip_for_def)
qed

section \<open>An arm of the log\<close>

text \<open>The moves of time on a state: an attempt to record a suppression, and anything else, which may add
  a row of the entry (a run, or a skip for some other reason) at its end.\<close>

inductive log_run :: "('s \<Rightarrow> bool) \<Rightarrow> ('s \<Rightarrow> outcome list) \<Rightarrow> (skip_record \<Rightarrow> string \<Rightarrow> 's \<Rightarrow> bool \<times> 's) \<Rightarrow>
    (string \<Rightarrow> string) \<Rightarrow> string \<Rightarrow> 's \<Rightarrow> string \<Rightarrow> 's \<Rightarrow> bool"
  for ok view attempt dayof reason s0 where
  start: "log_run ok view attempt dayof reason s0 [] s0"
| suppress: "log_run ok view attempt dayof reason s0 t s \<Longrightarrow> t \<le> now \<Longrightarrow> daily dayof now k \<or> episodic k \<Longrightarrow>
    log_run ok view attempt dayof reason s0 now (snd (attempt k now s))"
| other: "log_run ok view attempt dayof reason s0 t s \<Longrightarrow> t \<le> oc_created e \<Longrightarrow> ok s' \<Longrightarrow> view s' = view s @ [e] \<Longrightarrow>
    \<not> calendar_skip e \<and> \<not> skip_for reason e \<Longrightarrow> log_run ok view attempt dayof reason s0 (oc_created e) s'"
| unrelated: "log_run ok view attempt dayof reason s0 t s \<Longrightarrow> ok s' \<Longrightarrow> view s' = view s \<Longrightarrow>
    log_run ok view attempt dayof reason s0 t s'"

locale skip_log =
  fixes ok :: "'s \<Rightarrow> bool" and view :: "'s \<Rightarrow> outcome list"
    and attempt :: "skip_record \<Rightarrow> string \<Rightarrow> 's \<Rightarrow> bool \<times> 's" and dayof :: "string \<Rightarrow> string"
  assumes deduped: "daily dayof now k \<or> episodic k \<Longrightarrow> dup dayof k (view s) \<Longrightarrow> attempt k now s = (False, s)"
    and written: "daily dayof now k \<or> episodic k \<Longrightarrow> ok s \<Longrightarrow> \<not> dup dayof k (view s) \<Longrightarrow>
      fst (attempt k now s) \<and> ok (snd (attempt k now s)) \<and> view (snd (attempt k now s)) = view s @ [skip_outcome k now]"
begin

lemma log_run_normal:
  assumes "log_run ok view attempt dayof reason s0 t s" and "mono dayof" and "ok s0" and "view s0 = []"
  shows "ok s \<and> in_time (view s) t \<and> normal_log dayof reason (view s)"
  using assms(1)
proof induction
  case start
  then show ?case using assms(3,4) by (simp add: in_time_def normal_log_def)
next
  case (suppress t s now k)
  show ?case
  proof (cases "dup dayof k (view s)")
    case True
    then show ?thesis using suppress.IH deduped [OF suppress(3) True] in_time_mono [OF _ suppress(2)] by simp
  next
    case False
    with suppress have w: "ok (snd (attempt k now s))" "view (snd (attempt k now s)) = view s @ [skip_outcome k now]"
      using written by blast+
    have "in_time (view s @ [skip_outcome k now]) now"
      using in_time_snoc [of "view s" t "skip_outcome k now"] suppress by (simp add: skip_outcome_def)
    then show ?thesis using w normal_after_skip [of dayof reason "view s" t now k] suppress False assms(2) by simp
  qed
next
  case (other t s e s')
  then show ?case using in_time_snoc [of "view s" t e]
    by (auto simp: normal_log_def no_repeat_snoc)
next
  case (unrelated t s s')
  then show ?case by simp
qed

end

section \<open>The job arm\<close>

definition ids_fresh :: "sched_world \<Rightarrow> sched \<Rightarrow> bool" where
  "ids_fresh w st \<longleftrightarrow> inj (sw_id w) \<and> (\<forall>n. ss_minted st \<le> n \<longrightarrow> sw_id w n \<notin> d_id ` set (runs_of st))"

definition job_attempt_skip :: "sched_world \<Rightarrow> enqueue_params \<Rightarrow> skip_record \<Rightarrow> string \<Rightarrow> sched \<Rightarrow> bool \<times> sched" where
  "job_attempt_skip w p k now st =
     (case recordSkippedFire (w\<lparr>sw_stamp := now\<rparr>) st p k of Some r \<Rightarrow> r | None \<Rightarrow> (False, st))"

lemma truncate_ids [simp]: "d_id (db_run.truncate r) = d_id r" "d_id (live_of w x) = d_id x"
  by (simp_all add: db_run.truncate_def live_of_def db_run.defs)

lemma live_of_simps [simp]:
  "d_status (live_of w x) = d_status x" "d_queued_reason (live_of w x) = d_queued_reason x"
  "d_suppressed_by_calendar (live_of w x) = d_suppressed_by_calendar x" "d_created_at (live_of w x) = d_created_at x"
  "d_job_uid (live_of w x) = d_job_uid x" "d_job_name (live_of w x) = d_job_name x" "d_job_source (live_of w x) = d_job_source x"
  "d_schedule_name (live_of w x) = d_schedule_name x" "d_concurrency_key (live_of w x) = d_concurrency_key x"
  by (simp_all add: live_of_def db_run.defs)

lemma insert_run_Inr:
  assumes "insert_run w st r = Inr (t, st')"
  shows "\<exists>now req. st' = (with_runs (\<lambda>rs. rs @ [live_of w (run_columns (catalog_of st) t now r (row_uid (catalog_of st) r) req)]) st)
      \<lparr>ss_minted := ss_minted st + 1\<rparr> \<and> now = (if w_CreatedAt r = [] then sw_stamp w else w_CreatedAt r) \<and>
      t = (if w_TraceID r = [] then sw_id w (ss_minted st) else w_TraceID r) \<and> t \<notin> d_id ` set (runs_of st)"
  using assms
  by (auto simp: insert_run_def Let_def InsertRun_def image_image split: if_splits option.splits)

lemma insert_skipped:
  assumes "ids_fresh w st" and "w_Terminal r" and "w_Status r = ''skipped''" and "w_TraceID r = []"
  shows "\<exists>st'. insert_run w st r = Inr (sw_id w (ss_minted st), st')"
proof -
  have "sw_id w (ss_minted st) \<notin> d_id ` set (map db_run.truncate (runs_of st))"
    using assms(1) by (auto simp: ids_fresh_def image_image)
  then show ?thesis using assms(2-4)
    by (simp add: insert_run_def Let_def InsertRun_def snapshotFlag_def statusOrDefault_def)
qed

lemma ids_fresh_insert:
  assumes "ids_fresh w st" and "insert_run w st r = Inr (t, st')" and "w_TraceID r = []"
  shows "ids_fresh w st'"
proof -
  from insert_run_Inr [OF assms(2)] assms(3) obtain x where
    x: "runs_of st' = runs_of st @ [x]" "d_id x = sw_id w (ss_minted st)" "ss_minted st' = ss_minted st + 1"
    by (auto simp: runs_of_def with_runs_def)
  then show ?thesis using assms(1) by (auto simp: ids_fresh_def inj_eq)
qed

lemma ids_fresh_stamp [simp]: "ids_fresh (w\<lparr>sw_stamp := now\<rparr>) st = ids_fresh w st"
  by (simp add: ids_fresh_def)

lemma job_log_snoc:
  "job_log p (rs @ [r]) = job_log p rs @
     (if jobRowsOfEntrySQL (e_JobUID p) (e_JobName p) (jobSourceOrDefault p) r \<and> coalesce (d_schedule_name r) [] = e_ScheduleName p
      then [run_outcome r] else [])"
  by (simp add: job_log_def)

lemma coalesce_nullStr [simp]: "coalesce (nullStr s) [] = s"
  by (simp add: nullStr_def)

interpretation job_skips: skip_log "ids_fresh w" "\<lambda>st. job_log p (runs_of st)" "job_attempt_skip w p" "sw_dayof w"
proof
  fix now k st
  assume k: "daily (sw_dayof w) now k \<or> episodic k"
  have d: "skipAlreadyRecorded (w\<lparr>sw_stamp := now\<rparr>) st p k = dup (sw_dayof w) k (job_log p (runs_of st))"
    using k by (auto simp: skipAlreadyRecorded_def dup_def daily_def episodic_def)
  show "job_attempt_skip w p k now st = (False, st)" if "dup (sw_dayof w) k (job_log p (runs_of st))"
    using that d by (simp add: job_attempt_skip_def recordSkippedFire_def)
  assume ok: "ids_fresh w st" and nd: "\<not> dup (sw_dayof w) k (job_log p (runs_of st))"
  let ?w = "w\<lparr>sw_stamp := now\<rparr>" and ?r = "skipped_run p k"
  obtain st' where i: "insert_run ?w st ?r = Inr (sw_id ?w (ss_minted st), st')"
    using insert_skipped [of ?w st ?r] ok by (auto simp: skipped_run_def queued_row_def)
  have at: "sk_At k = []" using k by (auto simp: daily_def episodic_def)
  from insert_run_Inr [OF i] at obtain req where
    r: "runs_of st' = runs_of st @ [live_of ?w (run_columns (catalog_of st) (sw_id ?w (ss_minted st)) now ?r (row_uid (catalog_of st) ?r) req)]"
    by (auto simp: skipped_run_def queued_row_def runs_of_def with_runs_def)
  let ?x = "run_columns (catalog_of st) (sw_id ?w (ss_minted st)) now ?r (row_uid (catalog_of st) ?r) req"
  have "jobRowsOfEntrySQL (e_JobUID p) (e_JobName p) (jobSourceOrDefault p) (live_of ?w ?x)"
    by (auto simp: jobRowsOfEntrySQL_def run_columns_def Let_def skipped_run_def queued_row_def row_uid_def resolveEnqueueUID_def
        jobSourceOrDefault_def kindOrDefault_def nullStr_def)
  moreover have "coalesce (d_schedule_name (live_of ?w ?x)) [] = e_ScheduleName p"
    by (simp add: run_columns_def Let_def skipped_run_def queued_row_def)
  moreover have "run_outcome (live_of ?w ?x) = skip_outcome k now"
    by (simp add: run_outcome_def skip_outcome_def run_columns_def Let_def skipped_run_def queued_row_def statusOrDefault_def nullStr_def)
  ultimately have v: "job_log p (runs_of st') = job_log p (runs_of st) @ [skip_outcome k now]"
    by (simp add: r job_log_snoc)
  have "ids_fresh w st'"
    using ids_fresh_insert [of ?w st ?r _ st'] ok i by (simp add: skipped_run_def queued_row_def)
  moreover have "job_attempt_skip w p k now st = (True, st')"
    using d nd i by (simp add: job_attempt_skip_def recordSkippedFire_def)
  ultimately show "fst (job_attempt_skip w p k now st) \<and> ids_fresh w (snd (job_attempt_skip w p k now st)) \<and>
     job_log p (runs_of (snd (job_attempt_skip w p k now st))) = job_log p (runs_of st) @ [skip_outcome k now]"
    using v by simp
qed

section \<open>The workflow arm\<close>

definition wf_attempt_skip :: "sched_world \<Rightarrow> string \<Rightarrow> string \<Rightarrow> string \<Rightarrow> string \<Rightarrow> skip_record \<Rightarrow> string \<Rightarrow> sched \<Rightarrow> bool \<times> sched" where
  "wf_attempt_skip w uid source name schedule k now st =
     recordSkippedWorkflowFire (w\<lparr>sw_stamp := now\<rparr>) st uid source name schedule k"

definition wf_entry_log :: "string \<Rightarrow> string \<Rightarrow> string \<Rightarrow> string \<Rightarrow> sched \<Rightarrow> outcome list" where
  "wf_entry_log uid source name schedule st = wf_log uid (if source = [] then ''git'' else source) name schedule (ss_wfruns st)"

interpretation workflow_skips: skip_log "\<lambda>_. True" "wf_entry_log uid source name schedule"
  "wf_attempt_skip w uid source name schedule" "sw_dayof w"
proof
  fix now k st
  assume k: "daily (sw_dayof w) now k \<or> episodic k"
  have d: "workflowSkipAlreadyRecorded (w\<lparr>sw_stamp := now\<rparr>) st uid source name schedule k =
      dup (sw_dayof w) k (wf_entry_log uid source name schedule st)"
    using k by (auto simp: workflowSkipAlreadyRecorded_def dup_def daily_def episodic_def wf_entry_log_def Let_def)
  show "wf_attempt_skip w uid source name schedule k now st = (False, st)" if "dup (sw_dayof w) k (wf_entry_log uid source name schedule st)"
    using that d by (simp add: wf_attempt_skip_def recordSkippedWorkflowFire_def)
  assume nd: "\<not> dup (sw_dayof w) k (wf_entry_log uid source name schedule st)"
  have at: "sk_At k = []" using k by (auto simp: daily_def episodic_def)
  show "fst (wf_attempt_skip w uid source name schedule k now st) \<and> True \<and>
     wf_entry_log uid source name schedule (snd (wf_attempt_skip w uid source name schedule k now st)) =
     wf_entry_log uid source name schedule st @ [skip_outcome k now]"
    using d nd at
    by (auto simp: wf_attempt_skip_def recordSkippedWorkflowFire_def Let_def wf_entry_log_def wf_log_def workflowRowsOfEntrySQL_def
        wf_row_uid_def wf_outcome_def skip_outcome_def orDefault_def nullStr_def)
qed

section \<open>The properties\<close>

text \<open>A day on which the job's calendar stops two fires.\<close>

definition demo_world :: sched_world where
  "demo_world = \<lparr>sw_clock = demo_clock, sw_stamp = ''2026-12-24T09:00:00Z'', sw_dayof = (\<lambda>t. take 10 t),
     sw_id = (\<lambda>n. replicate n CHR ''x''), sw_owner = (\<lambda>_. Some ''Tax''), sw_sync = (\<lambda>_. True)\<rparr>"

definition demo_sched :: sched where
  "demo_sched = \<lparr>ss_db = demo_gate, ss_pending = [], ss_wfruns = [], ss_fired = [], ss_notices = [], ss_minted = 0\<rparr>"

definition demo_params :: enqueue_params where
  "demo_params = no_params\<lparr>e_JobName := ''nightly'', e_JobSource := ''cronomicon'', e_JobUID := ''u1'', e_ScheduleName := ''s''\<rparr>"

definition demo_skip :: skip_record where
  "demo_skip = \<lparr>sk_Reason = ''Suppressed by calendar'', sk_Mode = DedupeDay, sk_Calendar = ''holidays'', sk_Day = ''2026-12-24'',
     sk_TriggerKind = [], sk_TriggeredBy = [], sk_At = []\<rparr>"

lemma list_lexord_take: "xs \<le> ys \<Longrightarrow> take n xs \<le> take n ys" for xs :: "char list"
proof (induction n arbitrary: xs ys)
  case 0
  then show ?case by simp
next
  case (Suc n)
  then show ?case by (cases xs; cases ys) auto
qed

lemma demo_dayof_mono: "mono (sw_dayof demo_world)"
  by (simp add: demo_world_def mono_def list_lexord_take)

lemma demo_ids_fresh: "ids_fresh demo_world demo_sched"
  by (auto simp: ids_fresh_def demo_world_def inj_def demo_sched_def runs_of_def demo_gate_def dest: arg_cong [where f = length])

lemma demo_daily: "daily (sw_dayof demo_world) ''2026-12-24T09:00:00Z'' demo_skip" "daily (sw_dayof demo_world) ''2026-12-24T10:00:00Z'' demo_skip"
  by (simp_all add: daily_def demo_skip_def demo_world_def)

text \<open>however often a schedule entry of a job is suppressed, by its calendars or for a standing reason (a
  pause, the cap, a full queue), and whatever else is recorded for it meanwhile, its history has at most
  one calendar row a day, and between two skips for the same reason something else happened.\<close>

theorem job_history_is_not_flooded:
  assumes "log_run (ids_fresh w) (\<lambda>st. job_log p (runs_of st)) (job_attempt_skip w p) (sw_dayof w) reason st0 t st"
    and "mono (sw_dayof w)" and "ids_fresh w st0" and "job_log p (runs_of st0) = []"
  shows "normal_log (sw_dayof w) reason (job_log p (runs_of st))"
  using job_skips.log_run_normal [OF assms] by blast

theorem job_history_is_not_flooded_witness:
  "let attempt = job_attempt_skip demo_world demo_params demo_skip;
       st = snd (attempt ''2026-12-24T10:00:00Z'' (snd (attempt ''2026-12-24T09:00:00Z'' demo_sched)))
   in fst (attempt ''2026-12-24T09:00:00Z'' demo_sched) \<and>
      normal_log (sw_dayof demo_world) ''Paused'' (job_log demo_params (runs_of st))"
proof -
  let ?a = "job_attempt_skip demo_world demo_params demo_skip"
  have 1: "fst (?a ''2026-12-24T09:00:00Z'' demo_sched)" by code_simp
  have t: "[] \<le> ''2026-12-24T09:00:00Z''" "''2026-12-24T09:00:00Z'' \<le> ''2026-12-24T10:00:00Z''" by code_simp+
  have e: "job_log demo_params (runs_of demo_sched) = []" by code_simp
  note first = log_run.suppress [OF log_run.start t(1) disjI1 [OF demo_daily(1)]]
  note second = log_run.suppress [OF first t(2) disjI1 [OF demo_daily(2)]]
  show ?thesis
    using job_history_is_not_flooded [OF second demo_dayof_mono demo_ids_fresh e] 1 by (simp add: Let_def)
qed

text \<open>the same of a workflow's schedule entry.\<close>

theorem workflow_history_is_not_flooded:
  assumes "log_run (\<lambda>_. True) (wf_entry_log uid source name schedule) (wf_attempt_skip w uid source name schedule) (sw_dayof w) reason st0 t st"
    and "mono (sw_dayof w)" and "wf_entry_log uid source name schedule st0 = []"
  shows "normal_log (sw_dayof w) reason (wf_entry_log uid source name schedule st)"
  using workflow_skips.log_run_normal [OF assms(1,2) TrueI assms(3)] by blast

theorem workflow_history_is_not_flooded_witness:
  "let attempt = wf_attempt_skip demo_world ''w1'' ''git'' ''release'' ''s'' demo_skip;
       st = snd (attempt ''2026-12-24T10:00:00Z'' (snd (attempt ''2026-12-24T09:00:00Z'' demo_sched)))
   in fst (attempt ''2026-12-24T09:00:00Z'' demo_sched) \<and>
      normal_log (sw_dayof demo_world) ''Paused'' (wf_entry_log ''w1'' ''git'' ''release'' ''s'' st)"
proof -
  let ?a = "wf_attempt_skip demo_world ''w1'' ''git'' ''release'' ''s'' demo_skip"
  have 1: "fst (?a ''2026-12-24T09:00:00Z'' demo_sched)" by code_simp
  have t: "[] \<le> ''2026-12-24T09:00:00Z''" "''2026-12-24T09:00:00Z'' \<le> ''2026-12-24T10:00:00Z''" by code_simp+
  have e: "wf_entry_log ''w1'' ''git'' ''release'' ''s'' demo_sched = []" by code_simp
  note first = log_run.suppress [OF log_run.start t(1) disjI1 [OF demo_daily(1)]]
  note second = log_run.suppress [OF first t(2) disjI1 [OF demo_daily(2)]]
  show ?thesis
    using workflow_history_is_not_flooded [OF second demo_dayof_mono e] 1 by (simp add: Let_def)
qed

end
