(* ===== verification/Sched_Closed.thy ===== *)
theory Sched_Closed
  imports Sched_Promote Sched_Skip_Props
begin

text \<open>
  The interface of the scheduler's tables. Every fire, promotion, enqueue, park, hold, miss and drop changes them by
  a few writes; a property that those writes keep is one that every operation keeps. The locale \<open>sched_drains\<close> is the
  list of the writes that park no row, and its lemmas are the operations that make no others; \<open>sched_closed\<close> adds the
  insert of a parked row.
\<close>

abbreviation agents_of :: "sched \<Rightarrow> runner list" where "agents_of st \<equiv> cl_runners (gd_dispatch (ss_db st))"

lemma runs_of_fields [simp]:
  "runs_of (st\<lparr>ss_pending := x\<rparr>) = runs_of st" "runs_of (st\<lparr>ss_minted := n\<rparr>) = runs_of st"
  "runs_of (st\<lparr>ss_notices := ns\<rparr>) = runs_of st" "runs_of (st\<lparr>ss_wfruns := ws\<rparr>) = runs_of st"
  "runs_of (st\<lparr>ss_fired := fs\<rparr>) = runs_of st" "ss_pending (with_runs f st) = ss_pending st"
  "ss_pending (with_dispatch g st) = ss_pending st"
  "runs_of (with_dispatch g st) = cl_runs (g (gd_dispatch (ss_db st)))"
  by (simp_all add: runs_of_def with_runs_def with_dispatch_def)

lemma on_row_pending [simp]:
  "ss_pending (on_row i f st) = map (\<lambda>p. if pd_id p = i \<and> pd_status p = ''pending'' then f p else p) (ss_pending st)"
  "runs_of (on_row i f st) = runs_of st" "ss_db (on_row i f st) = ss_db st" "ss_fired (on_row i f st) = ss_fired st"
  by (simp_all add: on_row_def runs_of_def)

lemma gate_prefix_neq [simp]:
  "GateHoldPrefix @ g \<noteq> gateConcurrency" "GateRecycleBin \<noteq> gateConcurrency" "gateConcurrency \<noteq> GateRecycleBin"
  by (simp_all add: GateHoldPrefix_def gateConcurrency_def GateRecycleBin_def)

lemma TryQueue_effect:
  assumes "TryQueue w st p = Some (True, st')"
  obtains i row where "insert_pending w st row = Some (i, st')" "pd_id (row i) = i" "pd_key (row i) = Some (e_ConcurrencyKey p)"
    "queued_behind (e_ConcurrencyKey p) (row i)" "e_ConcurrencyKey p \<noteq> []" "QueueDepth st (e_ConcurrencyKey p) < QueueCap"
    "pd_params (row i) = Some (Frozen (p\<lparr>e_Policy := PolicyQueue\<rparr>))" "pd_name (row i) = e_JobName p" "pd_kind (row i) = ''job''"
    "pd_created (row i) = sw_stamp w"
  using assms by (auto simp: TryQueue_def behind_row_def queue_full_def Let_def not_le queued_behind_def split: if_splits)

lemma enter_promotion_start:
  assumes "\<not> (HoldsGate (e_Policy q) \<and> CheckForbid st (e_ConcurrencyKey q))" and "deletePending (pd_id p) st = Some st1"
    and "EnqueueRunWithID (base w) st1 (promoted_params p q) = (res, st2)"
  shows "enter_promotion w st p q = ((case res of Inr t \<Rightarrow> PRun t | Inl e \<Rightarrow> PLost e), st2)"
  using assms by (auto simp: enter_promotion_def split: sum.split)

lemma agents_of_fields [simp]:
  "agents_of (st\<lparr>ss_pending := x\<rparr>) = agents_of st" "agents_of (st\<lparr>ss_minted := n\<rparr>) = agents_of st"
  "agents_of (st\<lparr>ss_notices := ns\<rparr>) = agents_of st" "agents_of (st\<lparr>ss_wfruns := ws\<rparr>) = agents_of st"
  "agents_of (st\<lparr>ss_fired := fs\<rparr>) = agents_of st" "agents_of (with_runs f st) = agents_of st"
  "agents_of (on_row i g st) = agents_of st"
  by (simp_all add: with_runs_def on_row_def)

locale sched_drains =
  fixes Q :: "sched \<Rightarrow> bool"
  assumes other: "Q st \<Longrightarrow> runs_of st' = runs_of st \<Longrightarrow> agents_of st' = agents_of st \<Longrightarrow> ss_pending st' = ss_pending st \<Longrightarrow> Q st'"
    and parked: "Q st \<Longrightarrow> runs_of st' = runs_of st \<Longrightarrow> agents_of st' = agents_of st \<Longrightarrow>
      ss_pending st' = map f (filter q (ss_pending st)) \<Longrightarrow> (\<And>p. pd_id (f p) = pd_id p) \<Longrightarrow>
      (\<And>p k. queued_behind k (f p) \<Longrightarrow> queued_behind k p) \<Longrightarrow> Q st'"
    and queued: "Q st \<Longrightarrow> insert_run w st (queued_row p) = Inr (t, st') \<Longrightarrow> Q st'"
    and skipped: "Q st \<Longrightarrow> insert_run w st (skipped_run p k) = Inr (t, st') \<Longrightarrow> Q st'"
    and stamped: "Q st \<Longrightarrow> Q (with_dispatch (\<lambda>db. snd (StampUnclaimableReason db t)) st)"
    and closed: "Q st \<Longrightarrow> Q (with_runs (map (close_unwritten t now)) st)"
begin

lemma suppression: "Q st \<Longrightarrow> Q (recordSuppression w p k st)"
  by (auto simp: recordSuppression_def recordSkippedFire_def notifySuppressed_def
      intro: skipped other split: option.splits sum.splits bool.splits prod.splits if_splits)

lemma workflow_suppression: "Q st \<Longrightarrow> Q (recordWorkflowSuppression w u s n sch k st)"
  by (rule other, assumption)
    (auto simp: recordWorkflowSuppression_def recordSkippedWorkflowFire_def notifySuppressed_def Let_def split: prod.splits bool.splits)

lemma enqueue:
  assumes "Q st"
  shows "Q (snd (EnqueueRunWithID w st p))"
proof (cases "insert_run w st (queued_row p)")
  case (Inr x)
  obtain t st1 where x: "x = (t, st1)" by (cases x)
  have st2: "Q (with_dispatch (\<lambda>db. snd (StampUnclaimableReason db t)) st1)"
    by (intro stamped queued [OF assms]) (use Inr x in simp)
  moreover have "Q (with_dispatch (\<lambda>db. db\<lparr>cl_run_agencies := as db\<rparr>) st2)" if "Q st2" for as st2
    using that by (rule other) (simp_all add: with_dispatch_def runs_of_def)
  ultimately show ?thesis using Inr x closed by (simp add: EnqueueRunWithID_def Let_def)
qed (use assms in \<open>simp add: EnqueueRunWithID_def\<close>)

lemma on_row_kept:
  assumes "Q st" and "\<And>p. pd_id (f p) = pd_id p" and "\<And>p k. queued_behind k (f p) \<Longrightarrow> queued_behind k p"
  shows "Q (on_row i f st)"
  by (rule parked [OF assms(1), where q = "\<lambda>_. True" and f = "\<lambda>p. if pd_id p = i \<and> pd_status p = ''pending'' then f p else p"])
    (auto simp: assms(2) intro: assms(3) split: if_splits)

lemma holds:
  assumes "Q st"
  shows "Q (holdForGate i g st)" "Q (clearGateHold p st)" "Q (holdForRecycleBin i st)" "Q (clearRecycleBinHold i st)"
    "Q (on_row i (\<lambda>x. x\<lparr>pd_status := ''missed'', pd_miss := m\<rparr>) st)" "Q (remove_row i st)"
proof -
  show "Q (holdForGate i g st)" unfolding holdForGate_def
    by (rule on_row_kept [OF assms]) (auto simp: queued_behind_def split: if_splits)
  show "Q (clearGateHold p st)" unfolding clearGateHold_def
    using assms by (auto simp: queued_behind_def split: if_splits intro!: on_row_kept)
  show "Q (holdForRecycleBin i st)" unfolding holdForRecycleBin_def
    by (rule on_row_kept [OF assms]) (auto simp: queued_behind_def split: if_splits)
  show "Q (clearRecycleBinHold i st)" unfolding clearRecycleBinHold_def
    by (rule on_row_kept [OF assms]) (auto simp: queued_behind_def split: if_splits)
  show "Q (on_row i (\<lambda>x. x\<lparr>pd_status := ''missed'', pd_miss := m\<rparr>) st)"
    by (rule on_row_kept [OF assms]) (auto simp: queued_behind_def)
  show "Q (remove_row i st)"
    by (rule parked [OF assms, where f = "\<lambda>p. p" and q = "\<lambda>p. \<not> (pd_id p = i \<and> pd_status p = ''pending'')"])
      (auto simp: remove_row_def)
qed

lemma fires_skip: "Q st \<Longrightarrow> Q (snd (skip_fire w st p k))"
  by (simp add: skip_fire_def suppression)

lemma fires_start: "Q st \<Longrightarrow> Q (snd (start_fire w st p))"
  using enqueue [of st "base w" p]
  by (auto simp: start_fire_def intro: fires_skip split: prod.split sum.split)

lemma fired: "Q st \<Longrightarrow> Q (st\<lparr>ss_fired := fs\<rparr>)"
  by (erule other) simp_all

lemma refused_queue: "TryQueue w st p = Some (False, st') \<Longrightarrow> st' = st"
  by (auto simp: TryQueue_def Let_def split: if_splits)

lemma fires_unparked: "Q st \<Longrightarrow> fst (fire w st a) \<noteq> Parked \<Longrightarrow> Q (snd (fire w st a))"
  by (auto simp: fire_def enter_fire_def intro: fires_skip fires_start dest: refused_queue
      split: option.split stop.split prod.split bool.split if_splits)

lemma workflow_fires: "Q st \<Longrightarrow> Q (snd (fireWorkflow f w st a))"
  by (auto simp: fireWorkflow_def intro: workflow_suppression fired split: option.split stop.split)

lemma alert: "Q st \<Longrightarrow> Q (alertPendingMiss p reason st)"
  by (erule other) (simp_all add: alertPendingMiss_def)

lemma missed: "Q st \<Longrightarrow> Q (markPendingMissed w p reason st)"
  unfolding markPendingMissed_def reportPendingMiss_def
  by (simp add: alert suppression holds)

lemma deletes: "Q st \<Longrightarrow> deletePending i st = Some st' \<Longrightarrow> Q st'"
  by (auto simp: deletePending_def intro: holds split: if_splits)

lemma drops: "Q st \<Longrightarrow> Q (dropForCalendars w p g st)"
  by (auto simp: dropForCalendars_def Let_def intro!: suppression workflow_suppression
      dest: deletes split: option.split)

lemma promotes_workflow: "Q st \<Longrightarrow> Q (snd (promote_workflow f w st p))"
  using deletes [OF holds(4), of st "pd_id p" "pd_id p"]
  by (auto simp: promote_workflow_def intro: missed holds fired split: sum.split option.split)

lemma enters:
  assumes "Q st"
  shows "Q (snd (enter_promotion w st p q))"
proof (cases "HoldsGate (e_Policy q) \<and> CheckForbid st (e_ConcurrencyKey q)")
  case True
  then show ?thesis using assms by (simp add: enter_promotion_def)
next
  case False
  show ?thesis
  proof (cases "deletePending (pd_id p) st")
    case None
    then show ?thesis using False assms by (simp add: enter_promotion_def)
  next
    case (Some st1)
    obtain res st2 where e: "EnqueueRunWithID (base w) st1 (promoted_params p q) = (res, st2)" by fastforce
    have "Q st2" using enqueue [OF deletes [OF assms Some], of "base w" "promoted_params p q"] e by simp
    then show ?thesis by (simp add: enter_promotion_start [OF False Some e])
  qed
qed

lemma promotes_job: "Q st \<Longrightarrow> Q (snd (promote_job w st p))"
  by (auto simp: promote_job_def Let_def intro: missed holds enters
      split: option.split frozen.split)

lemma promotes_one: "Q st \<Longrightarrow> Q (snd (promoteOne f w st p))"
  by (auto simp: promoteOne_def Let_def intro: missed drops holds promotes_workflow promotes_job
      split: option.split)

lemma promotes:
  assumes "Q st"
  shows "Q (PromotePending f w st)"
proof -
  have "Q (fold (\<lambda>p s. snd (promoteOne f w s p)) ps s)" if "Q s" for ps s
    using that by (induction ps arbitrary: s) (auto intro: promotes_one)
  then show ?thesis using assms by (simp add: PromotePending_def)
qed

end

locale sched_closed = sched_drains +
  assumes parks: "Q st \<Longrightarrow> insert_pending w st row = Some (i, st') \<Longrightarrow> pd_id (row i) = i \<Longrightarrow>
      (\<And>k. queued_behind k (row i) \<Longrightarrow> length (filter (queued_behind k) (ss_pending st)) < QueueCap) \<Longrightarrow> Q st'"
begin

lemma queue:
  assumes "Q st" and "TryQueue w st p = Some (b, st')"
  shows "Q st'"
proof (cases b)
  case False
  then show ?thesis using assms by (auto simp: TryQueue_def Let_def split: if_splits)
next
  case True
  with assms(2) have t: "TryQueue w st p = Some (True, st')" by simp
  from TryQueue_effect [OF t] obtain i row where r: "insert_pending w st row = Some (i, st')" "pd_id (row i) = i"
    "pd_key (row i) = Some (e_ConcurrencyKey p)" "e_ConcurrencyKey p \<noteq> []" "QueueDepth st (e_ConcurrencyKey p) < QueueCap" by metis
  show ?thesis using r by (intro parks [OF assms(1) r(1)]) (auto simp: queued_behind_def QueueDepth_def)
qed

lemma deferred:
  assumes "Q st"
  shows "InsertPendingRun w st kind name source scope runAt who params = Some (i, st') \<Longrightarrow> Q st'"
    and "InsertReactionPendingRun w st x = Some (i, st') \<Longrightarrow> Q st'"
proof -
  show "InsertPendingRun w st kind name source scope runAt who params = Some (i, st') \<Longrightarrow> Q st'"
    unfolding InsertPendingRun_def Let_def
    by (erule parks [OF assms]) (simp_all add: queued_behind_def)
  show "InsertReactionPendingRun w st x = Some (i, st') \<Longrightarrow> Q st'"
    unfolding InsertReactionPendingRun_def
    by (erule parks [OF assms]) (simp_all add: queued_behind_def)
qed

lemma fires: "Q st \<Longrightarrow> Q (snd (fire w st a))"
  by (auto simp: fire_def enter_fire_def intro: fires_skip fires_start queue
      split: option.split stop.split prod.split bool.split)

end

end
