(* ===== verification/Sched_Inv.thy ===== *)
theory Sched_Inv
  imports Sched_Closed
begin

text \<open>
  The invariant of the scheduler's tables, whatever the order of its operations: no two active runs hold
  one concurrency key, no more than a given number of rows are parked behind a key, and ids are ids. Each
  operation of the previous theories keeps it, because it is closed under their writes.
\<close>

section \<open>Tables with a bound for each key\<close>

definition bounded :: "('r \<Rightarrow> string) \<Rightarrow> (string \<Rightarrow> 'r \<Rightarrow> bool) \<Rightarrow> nat \<Rightarrow> 'r list \<Rightarrow> bool" where
  "bounded ident holds n rows \<longleftrightarrow> distinct (map ident rows) \<and> (\<forall>k. length (filter (holds k) rows) \<le> n)"

lemma bounded_shrink:
  assumes "bounded ident holds n rows" and "\<And>r. ident (f r) = ident r" and "\<And>r k. holds k (f r) \<Longrightarrow> holds k r"
  shows "bounded ident holds n (map f (filter q rows))"
proof -
  have "map ident (map f (filter q rows)) = map ident (filter q rows)" using assms(2) by simp
  moreover have "distinct (map ident (filter q rows))" using assms(1) by (simp add: bounded_def distinct_map_filter)
  moreover have "length (filter (holds k) (map f (filter q rows))) \<le> n" for k
  proof -
    have "length (filter (holds k) (map f (filter q rows))) = length (filter (\<lambda>r. holds k (f r) \<and> q r) rows)"
      by (simp add: filter_map comp_def conj_commute)
    also have "\<dots> \<le> length (filter (holds k) rows)"
      using assms(3) by (induction rows) auto
    also have "\<dots> \<le> n" using assms(1) by (simp add: bounded_def)
    finally show ?thesis .
  qed
  ultimately show ?thesis unfolding bounded_def by metis
qed

lemma bounded_map:
  "bounded ident holds n rows \<Longrightarrow> (\<And>r. ident (f r) = ident r) \<Longrightarrow> (\<And>r k. holds k (f r) \<Longrightarrow> holds k r) \<Longrightarrow>
   bounded ident holds n (map f rows)"
  using bounded_shrink [of ident holds n rows f "\<lambda>_. True"] by simp

lemma bounded_filter: "bounded ident holds n rows \<Longrightarrow> bounded ident holds n (filter q rows)"
  using bounded_shrink [of ident holds n rows "\<lambda>r. r" q] by simp

lemma bounded_snoc:
  assumes "bounded ident holds n rows" and "ident r \<notin> ident ` set rows"
    and "\<And>k. holds k r \<Longrightarrow> length (filter (holds k) rows) < n"
  shows "bounded ident holds n (rows @ [r])"
proof -
  have "length (filter (holds k) (rows @ [r])) \<le> n" for k
    using assms(1) assms(3) [of k] by (cases "holds k r") (simp_all add: bounded_def Suc_le_eq)
  then show ?thesis using assms(1,2) by (simp add: bounded_def)
qed

section \<open>The invariant\<close>

definition holds_key :: "string \<Rightarrow> live_run \<Rightarrow> bool" where
  "holds_key k r \<longleftrightarrow> d_concurrency_key r = Some k \<and> active r"

definition sched_inv :: "nat \<Rightarrow> sched \<Rightarrow> bool" where
  "sched_inv m st \<longleftrightarrow> bounded d_id holds_key 1 (runs_of st) \<and> bounded pd_id queued_behind m (ss_pending st)"

lemma sched_inv_same:
  "sched_inv m st \<Longrightarrow> runs_of st' = runs_of st \<Longrightarrow> ss_pending st' = ss_pending st \<Longrightarrow> sched_inv m st'"
  by (simp add: sched_inv_def)

lemma sched_inv_runs:
  assumes "sched_inv m st" and "runs_of st' = map f (runs_of st)" and "ss_pending st' = ss_pending st"
    and "\<And>r. d_id (f r) = d_id r" and "\<And>r. d_concurrency_key (f r) = d_concurrency_key r" and "\<And>r. active (f r) \<Longrightarrow> active r"
  shows "sched_inv m st'"
  using assms by (auto simp: sched_inv_def holds_key_def intro!: bounded_map)

lemma sched_inv_pending:
  assumes "sched_inv m st" and "runs_of st' = runs_of st" and "ss_pending st' = map f (filter q (ss_pending st))"
    and "\<And>p. pd_id (f p) = pd_id p" and "\<And>p k. queued_behind k (f p) \<Longrightarrow> queued_behind k p"
  shows "sched_inv m st'"
  using assms by (auto simp: sched_inv_def intro!: bounded_shrink)

section \<open>Runs\<close>

lemma insert_run_row:
  assumes "insert_run w st r = Inr (t, st')"
  obtains x where "runs_of st' = runs_of st @ [x]" "d_id x = t" "t \<notin> d_id ` set (runs_of st)" "ss_pending st' = ss_pending st"
    "d_concurrency_key x = nullStr (e_ConcurrencyKey (w_params r))" "d_status x = statusOrDefault r"
    "d_status x \<in> {''queued'', ''running''} \<Longrightarrow> \<not> (\<exists>k. d_concurrency_key x = Some k \<and> key_taken (runs_of st) k)"
proof -
  from insert_run_Inr [OF assms] obtain now req where i:
    "st' = (with_runs (\<lambda>rs. rs @ [live_of w (run_columns (catalog_of st) t now r (row_uid (catalog_of st) r) req)]) st)
      \<lparr>ss_minted := ss_minted st + 1\<rparr>" "t \<notin> d_id ` set (runs_of st)" by blast
  let ?x = "live_of w (run_columns (catalog_of st) t now r (row_uid (catalog_of st) r) req)"
  have c: "d_concurrency_key ?x = nullStr (e_ConcurrencyKey (w_params r))" by (simp add: run_columns_def Let_def)
  have "\<not> (\<exists>k. d_concurrency_key ?x = Some k \<and> key_taken (runs_of st) k)" if "d_status ?x \<in> {''queued'', ''running''}"
    using assms that unfolding c by (auto simp: insert_run_def Let_def nullStr_def split: if_splits)
  then show thesis using that [of ?x] i c by simp
qed

lemma active_status: "active x \<longleftrightarrow> d_status x \<in> {''queued'', ''running''}"
  by (auto simp: active_def)

lemma key_free: "\<not> key_taken rs k \<Longrightarrow> length (filter (holds_key k) rs) < 1"
  by (auto simp: key_taken_def list_ex_iff holds_key_def filter_empty_conv)

lemma inv_insert_run:
  assumes "sched_inv m st" and "insert_run w st r = Inr (t, st')"
  shows "sched_inv m st'"
proof -
  from insert_run_row [OF assms(2)] obtain x where x: "runs_of st' = runs_of st @ [x]" "d_id x = t" "t \<notin> d_id ` set (runs_of st)"
    "ss_pending st' = ss_pending st"
    "d_status x \<in> {''queued'', ''running''} \<Longrightarrow> \<not> (\<exists>k. d_concurrency_key x = Some k \<and> key_taken (runs_of st) k)" by blast
  have "length (filter (holds_key k) (runs_of st)) < 1" if "holds_key k x" for k
    using that x(5) by (intro key_free) (auto simp: holds_key_def active_status)
  then have "bounded d_id holds_key 1 (runs_of st @ [x])"
    using assms(1) x(2,3) by (intro bounded_snoc) (auto simp: sched_inv_def)
  then show ?thesis using assms(1) x(1,4) by (simp add: sched_inv_def)
qed

lemma stamp_runs:
  "\<exists>f. cl_runs (snd (StampUnclaimableReason db i)) = map f (cl_runs db) \<and>
    (\<forall>r. d_id (f r) = d_id r \<and> d_concurrency_key (f r) = d_concurrency_key r \<and> active (f r) = active r \<and> d_status (f r) = d_status r \<and>
       d_job_uid (f r) = d_job_uid r \<and> d_job_name (f r) = d_job_name r)"
proof (cases "fst (StampUnclaimableReason db i) = []")
  case True
  then have "snd (StampUnclaimableReason db i) = db" by (auto simp: StampUnclaimableReason_def Let_def split: if_splits)
  then show ?thesis by (intro exI [of _ "\<lambda>r. r"]) simp
next
  case False
  let ?f = "\<lambda>r. if d_id r = i \<and> waiting r then r\<lparr>d_queued_reason := Some (fst (StampUnclaimableReason db i))\<rparr> else r"
  have "cl_runs (snd (StampUnclaimableReason db i)) = map ?f (cl_runs db)"
    using False by (auto simp: StampUnclaimableReason_def Let_def split: if_splits)
  then show ?thesis by (intro exI [of _ ?f]) (simp add: active_def)
qed

text \<open>What an enqueue does: nothing, a row that waits, or a row closed at once.\<close>

lemma EnqueueRunWithID_effect:
  assumes "EnqueueRunWithID w st p = (res, st')"
  shows "ss_pending st' = ss_pending st \<and>
    (case res of
       Inr t \<Rightarrow> (\<exists>st1 f. insert_run w st (queued_row p) = Inr (t, st1) \<and> runs_of st' = map f (runs_of st1) \<and>
          (\<forall>r. d_id (f r) = d_id r \<and> d_concurrency_key (f r) = d_concurrency_key r \<and> active (f r) = active r \<and>
             d_status (f r) = d_status r \<and> d_job_uid (f r) = d_job_uid r \<and> d_job_name (f r) = d_job_name r))
     | Inl (InsertError e) \<Rightarrow> st' = st \<and> insert_run w st (queued_row p) = Inl e
     | Inl AgenciesUnwritten \<Rightarrow> (\<exists>t st1 f. insert_run w st (queued_row p) = Inr (t, st1) \<and> runs_of st' = map f (runs_of st1) \<and>
          (\<forall>r. d_id (f r) = d_id r \<and> d_concurrency_key (f r) = d_concurrency_key r \<and> (active (f r) \<longrightarrow> active r))))"
proof (cases "insert_run w st (queued_row p)")
  case (Inl e)
  then have "res = Inl (InsertError e)" "st' = st" using assms by (simp_all add: EnqueueRunWithID_def)
  then show ?thesis using Inl by simp
next
  case (Inr x)
  obtain t st1 where x: "x = (t, st1)" by (cases x)
  have pd: "ss_pending st1 = ss_pending st" using insert_run_row [OF Inr [unfolded x]] by metis
  obtain f where f: "cl_runs (snd (StampUnclaimableReason (gd_dispatch (ss_db st1)) t)) = map f (cl_runs (gd_dispatch (ss_db st1)))"
    "\<forall>r. d_id (f r) = d_id r \<and> d_concurrency_key (f r) = d_concurrency_key r \<and> active (f r) = active r \<and> d_status (f r) = d_status r \<and>
       d_job_uid (f r) = d_job_uid r \<and> d_job_name (f r) = d_job_name r"
    using stamp_runs by metis
  show ?thesis
  proof (cases "sw_sync w t")
    case True
    then have "res = Inr t" "runs_of st' = map f (runs_of st1)" "ss_pending st' = ss_pending st1"
      using assms Inr x f(1) by (auto simp: EnqueueRunWithID_def Let_def runs_of_def with_dispatch_def)
    then show ?thesis using Inr x f(2) pd by auto
  next
    case False
    let ?g = "close_unwritten t (sw_stamp w)"
    have "res = Inl AgenciesUnwritten" "runs_of st' = map ?g (map f (runs_of st1))" "ss_pending st' = ss_pending st1"
      using assms Inr x f(1) False by (auto simp: EnqueueRunWithID_def Let_def runs_of_def with_dispatch_def with_runs_def)
    moreover have "d_id (?g (f r)) = d_id r \<and> d_concurrency_key (?g (f r)) = d_concurrency_key r \<and> (active (?g (f r)) \<longrightarrow> active r)" for r
      using f(2) by (simp add: close_unwritten_def active_status)
    ultimately show ?thesis using Inr x pd by (auto intro!: exI [of _ t] exI [of _ st1] exI [of _ "\<lambda>r. ?g (f r)"])
  qed
qed

lemma inv_insert_pending:
  assumes "sched_inv m st" and "insert_pending w st row = Some (i, st')" and "pd_id (row i) = i"
    and "\<And>k. queued_behind k (row i) \<Longrightarrow> length (filter (queued_behind k) (ss_pending st)) < m"
  shows "sched_inv m st'"
proof -
  have i: "i \<notin> pd_id ` set (ss_pending st)" "ss_pending st' = ss_pending st @ [row i]" "runs_of st' = runs_of st"
    using assms(2) by (auto simp: insert_pending_def Let_def split: if_splits)
  have "bounded pd_id queued_behind m (ss_pending st @ [row i])"
    using assms i(1) by (intro bounded_snoc) (auto simp: sched_inv_def)
  then show ?thesis using assms(1) i by (simp add: sched_inv_def)
qed

interpretation bounds: sched_closed "sched_inv (QueueCap + n)" for n
proof
  fix st :: sched and f i w p k t now st' and row :: "string \<Rightarrow> pending_row"
  assume inv: "sched_inv (QueueCap + n) st"
  show "sched_inv (QueueCap + n) (with_dispatch (\<lambda>db. snd (StampUnclaimableReason db t)) st)"
  proof -
    obtain f where f: "cl_runs (snd (StampUnclaimableReason (gd_dispatch (ss_db st)) t)) = map f (cl_runs (gd_dispatch (ss_db st)))"
      "\<forall>r. d_id (f r) = d_id r \<and> d_concurrency_key (f r) = d_concurrency_key r \<and> active (f r) = active r \<and> d_status (f r) = d_status r \<and>
         d_job_uid (f r) = d_job_uid r \<and> d_job_name (f r) = d_job_name r" using stamp_runs by metis
    show ?thesis by (rule sched_inv_runs [OF inv, where f = f]) (use f in \<open>simp_all add: runs_of_def with_dispatch_def\<close>)
  qed
  show "sched_inv (QueueCap + n) (with_runs (map (close_unwritten t now)) st)"
    by (rule sched_inv_runs [OF inv, where f = "close_unwritten t now"]) (auto simp: close_unwritten_def active_status split: if_splits)
  show "insert_pending w st row = Some (i, st') \<Longrightarrow> pd_id (row i) = i \<Longrightarrow>
      (\<And>k. queued_behind k (row i) \<Longrightarrow> length (filter (queued_behind k) (ss_pending st)) < QueueCap) \<Longrightarrow> sched_inv (QueueCap + n) st'"
    by (rule inv_insert_pending [OF inv]) (auto intro: trans_less_add1)
qed (auto intro: sched_inv_same sched_inv_pending inv_insert_run)

lemmas inv_operations = bounds.fires bounds.workflow_fires bounds.promotes bounds.enqueue bounds.deferred bounds.holds

end
