(* ===== verification/Ref_Resolve_Props.thy ===== *)
theory Ref_Resolve_Props
  imports Ref_Resolve
begin

text \<open>
  What reference resolution guarantees: a run is given the one row it is entitled to under each name it
  declares, everything sensitive it is given is masked in its logs, and what an operator is told does not
  depend on another agency's rows. The two lookups are related to the specification \<open>best_rows\<close>.
\<close>

section \<open>Entitlement\<close>

definition global_run :: "claim_db \<Rightarrow> string list \<Rightarrow> bool" where
  "global_run db ags \<longleftrightarrow> ags = [] \<or> CurrentGlobalName db \<in> set ags"

definition owned_by_run :: "claim_db \<Rightarrow> string list \<Rightarrow> ref_row \<Rightarrow> bool" where
  "owned_by_run db ags r \<longleftrightarrow>
     (if rr_owner r = Global then global_run db ags
      else list_ex (\<lambda>a. ag_id a = rr_owner r \<and> ag_name a \<in> set ags) (cl_agencies db))"

definition entitled :: "claim_db \<Rightarrow> string list \<Rightarrow> string \<Rightarrow> string \<Rightarrow> string \<Rightarrow> ref_row \<Rightarrow> bool" where
  "entitled db ags k scope key r \<longleftrightarrow> rr_key r = key \<and> usableByRun db ags r \<and> owned_by_run db ags r \<and>
     (k = KindKey \<or> coalesce (rr_scope r) [] = [] \<or> coalesce (rr_scope r) [] = scope)"

definition best_rows :: "claim_db \<Rightarrow> string list \<Rightarrow> string \<Rightarrow> string \<Rightarrow> string \<Rightarrow> ref_row list \<Rightarrow> ref_row list" where
  "best_rows db ags k scope key rows =
     (let es = filter (entitled db ags k scope key) rows;
          exact = filter (\<lambda>r. k \<noteq> KindKey \<and> scope \<noteq> [] \<and> coalesce (rr_scope r) [] = scope) es
      in if exact \<noteq> [] then exact else es)"

definition agencies_ok :: "claim_db \<Rightarrow> string list \<Rightarrow> bool" where
  "agencies_ok db ags \<longleftrightarrow> distinct (map ag_id (cl_agencies db)) \<and> list_all (\<lambda>a. ag_name a \<noteq> []) (cl_agencies db) \<and>
     Global \<in> set (map ag_id (cl_agencies db)) \<and> danglingOwner \<notin> set ags"

lemma the_agency_in: "agencies_ok db ags \<Longrightarrow> a \<in> set (cl_agencies db) \<Longrightarrow> the_agency db (ag_id a) = Some a"
  by (simp add: the_agency_def agencies_ok_def find_unique)

lemma the_agency_SomeD: "the_agency db i = Some a \<Longrightarrow> a \<in> set (cl_agencies db) \<and> ag_id a = i"
  by (auto simp: the_agency_def dest: find_SomeD)

lemma the_agency_NoneD: "the_agency db i = None \<Longrightarrow> \<forall>a \<in> set (cl_agencies db). ag_id a \<noteq> i"
  by (auto simp: the_agency_def find_None_iff)

lemma ownerName_owned:
  assumes "agencies_ok db ags"
  shows "(if ownerName db r = [] then global_run db ags else ownerName db r \<in> set ags) = owned_by_run db ags r"
proof (cases "rr_owner r = Global")
  case True
  then show ?thesis by (simp add: ownerName_def owned_by_run_def)
next
  case False
  show ?thesis
  proof (cases "the_agency db (rr_owner r)")
    case None
    then show ?thesis using False assms the_agency_NoneD [OF None]
      by (auto simp: ownerName_def owned_by_run_def agencies_ok_def danglingOwner_def list_ex_iff)
  next
    case (Some a)
    have a: "a \<in> set (cl_agencies db)" "ag_id a = rr_owner r" using the_agency_SomeD [OF Some] by auto
    then have "ag_name a \<noteq> []" using assms by (simp add: agencies_ok_def list_all_iff)
    have u: "x = a" if "x \<in> set (cl_agencies db)" "ag_id x = rr_owner r" for x
      using the_agency_in [OF assms that(1)] Some that(2) by simp
    have "ownerName db r = ag_name a" using False Some by (simp add: ownerName_def)
    moreover have "owned_by_run db ags r \<longleftrightarrow> ag_name a \<in> set ags"
      using False a u unfolding owned_by_run_def list_ex_iff by metis
    ultimately show ?thesis using \<open>ag_name a \<noteq> []\<close> by simp
  qed
qed

lemma owned_in_run:
  assumes "agencies_ok db ags" and "owned_by_run db ags r"
  shows "ownerInRun db ags r"
proof (cases "rr_owner r = Global")
  case True
  obtain a where a: "a \<in> set (cl_agencies db)" "ag_id a = Global" using assms(1) by (auto simp: agencies_ok_def)
  then have t: "the_agency db Global = Some a" using the_agency_in [OF assms(1)] by metis
  have "ag_name a \<noteq> []" using a assms(1) by (auto simp: agencies_ok_def list_all_iff)
  then show ?thesis using True assms(2) t
    by (auto simp: owned_by_run_def ownerInRun_def global_run_def run_names_def CurrentGlobalName_def)
next
  case False
  with assms(2) obtain a where a: "a \<in> set (cl_agencies db)" "ag_id a = rr_owner r" "ag_name a \<in> set ags"
    by (auto simp: owned_by_run_def list_ex_iff)
  then show ?thesis using the_agency_in [OF assms(1) a(1)] by (auto simp: ownerInRun_def run_names_def)
qed

lemma case_sort:
  "(case sort_key f xs of [] \<Rightarrow> A | [x] \<Rightarrow> B x | _ \<Rightarrow> C) = (case xs of [] \<Rightarrow> A | [x] \<Rightarrow> B x | _ \<Rightarrow> C)"
proof (cases xs)
  case (Cons a ys)
  show ?thesis
  proof (cases ys)
    case (Cons b zs)
    have "length (sort_key f xs) = length xs" by simp
    then show ?thesis using \<open>xs = a # ys\<close> Cons by (cases "sort_key f xs"; cases "tl (sort_key f xs)") auto
  qed (use Cons in simp)
qed simp

lemma pick_best:
  assumes "\<And>r. r \<in> set rows \<Longrightarrow> p r \<and> (if ca_owner (c r) = [] then ags = [] \<or> g \<in> set ags else ca_owner (c r) \<in> set ags) \<longleftrightarrow> e r"
  shows "pickOwned (map c (sort_key f (filter p rows))) ags scope g =
    (let es = filter e rows; exact = filter (\<lambda>r. scope \<noteq> [] \<and> ca_scope (c r) = scope) es
     in case (if exact \<noteq> [] then exact else es) of [] \<Rightarrow> NoRow | [r] \<Rightarrow> Won (c r) | _ \<Rightarrow> Ambiguous)"
proof -
  let ?own = "\<lambda>x. if ca_owner x = [] then ags = [] \<or> g \<in> set ags else ca_owner x \<in> set ags"
  have f1: "filter (\<lambda>r. p r \<and> ?own (c r)) rows = filter e rows" by (rule filter_cong [OF refl assms])
  have own: "filter ?own (map c (sort_key f (filter p rows))) = map c (sort_key f (filter e rows))"
    using f1 by (simp add: filter_map filter_sort comp_def conj_commute)
  show ?thesis
  proof (cases "filter (\<lambda>r. scope \<noteq> [] \<and> ca_scope (c r) = scope) (filter e rows) = []")
    case True
    then have "filter (\<lambda>x. scope \<noteq> [] \<and> ca_scope x = scope) (map c (sort_key f (filter e rows))) = []"
      by (auto simp: filter_empty_conv)
    then show ?thesis using True case_sort [where f = f and xs = "filter e rows" and A = NoRow and B = "\<lambda>r. Won (c r)" and C = Ambiguous]
      unfolding pickOwned_def own Let_def by (auto split: list.splits)
  next
    case False
    have ex: "filter (\<lambda>x. scope \<noteq> [] \<and> ca_scope x = scope) (map c (sort_key f (filter e rows))) =
        map c (sort_key f (filter (\<lambda>r. scope \<noteq> [] \<and> ca_scope (c r) = scope) (filter e rows)))"
      by (simp only: filter_map filter_sort comp_def)
    show ?thesis
      using False case_sort [where f = f and xs = "filter (\<lambda>r. scope \<noteq> [] \<and> ca_scope (c r) = scope) (filter e rows)" and A = NoRow and B = "\<lambda>r. Won (c r)" and C = Ambiguous]
      unfolding pickOwned_def own Let_def ex by (auto split: list.splits)
  qed
qed

abbreviation pick_of :: "(ref_row \<Rightarrow> candidate) \<Rightarrow> ref_row list \<Rightarrow> pick" where
  "pick_of c rs \<equiv> (case rs of [] \<Rightarrow> NoRow | [r] \<Rightarrow> Won (c r) | _ \<Rightarrow> Ambiguous)"

lemma lookupScoped_best:
  assumes "agencies_ok db ags" and "k \<noteq> KindKey"
  shows "lookupScoped db rows key scope ags = pick_of (candidate_of db) (best_rows db ags k scope key rows)"
proof -
  have "rr_key r = key \<and> scope_fits db scope ags r \<and> usableByRun db ags r \<and>
      (if ca_owner (candidate_of db r) = [] then ags = [] \<or> CurrentGlobalName db \<in> set ags else ca_owner (candidate_of db r) \<in> set ags)
      \<longleftrightarrow> entitled db ags k scope key r" for r
    using ownerName_owned [OF assms(1), of r] owned_in_run [OF assms(1), of r] assms(2)
    by (auto simp: entitled_def scope_fits_def candidate_of_def global_run_def)
  then show ?thesis using assms(2)
    by (simp add: lookupScoped_def pick_best [where e = "entitled db ags k scope key"] best_rows_def Let_def)
      (simp add: candidate_of_def)
qed

lemma lookupKeyID_best:
  assumes "agencies_ok db ags"
  shows "lookupKeyID db rows key ags = pick_of (\<lambda>r. (candidate_of db r)\<lparr>ca_scope := []\<rparr>) (best_rows db ags KindKey scope key rows)"
proof -
  have "rr_key r = key \<and> usableByRun db ags r \<and>
      (if ca_owner ((candidate_of db r)\<lparr>ca_scope := []\<rparr>) = [] then ags = [] \<or> CurrentGlobalName db \<in> set ags
       else ca_owner ((candidate_of db r)\<lparr>ca_scope := []\<rparr>) \<in> set ags)
      \<longleftrightarrow> entitled db ags KindKey scope key r" for r
    using ownerName_owned [OF assms(1), of r]
    by (auto simp: entitled_def candidate_of_def global_run_def)
  then show ?thesis
    by (simp add: lookupKeyID_def pick_best [where e = "entitled db ags KindKey scope key"] best_rows_def Let_def)
qed

lemma best_entitled: "r \<in> set (best_rows db ags k scope key rows) \<Longrightarrow> r \<in> set rows \<and> entitled db ags k scope key r"
  by (auto simp: best_rows_def Let_def split: if_splits)

section \<open>One destination, one binding\<close>

lemma collisions_from_None:
  assumes "collisions_from seen bs = None"
  shows "\<exists>f. (\<forall>k p. map_of seen k = Some p \<longrightarrow> f k = (bd_Name p, bd_File p)) \<and>
    (\<forall>b \<in> set bs. f (inject_key b) = (bd_Name b, bd_File b))"
  using assms
proof (induction seen bs rule: collisions_from.induct)
  case (1 seen)
  show ?case by (rule exI [of _ "\<lambda>k. case map_of seen k of None \<Rightarrow> undefined | Some p \<Rightarrow> (bd_Name p, bd_File p)"]) simp
next
  case (2 seen b bs)
  show ?case
  proof (cases "map_of seen (inject_key b)")
    case None
    with 2 obtain f where f: "\<And>k p. map_of ((inject_key b, b) # seen) k = Some p \<Longrightarrow> f k = (bd_Name p, bd_File p)"
      "\<forall>x \<in> set bs. f (inject_key x) = (bd_Name x, bd_File x)" by auto
    have "f k = (bd_Name p, bd_File p)" if "map_of seen k = Some p" for k p
      using f(1) [of k p] that None by (cases "k = inject_key b") auto
    moreover have "f (inject_key b) = (bd_Name b, bd_File b)" using f(1) [of "inject_key b" b] by simp
    ultimately show ?thesis using f(2) by (intro exI [of _ f]) simp
  next
    case (Some prev)
    have e: "bd_Name prev = bd_Name b" "bd_File prev = bd_File b" "collisions_from seen bs = None"
      using "2.prems" Some by (auto split: if_splits)
    from "2.IH"(2) [OF Some] e obtain f where f: "\<forall>k p. map_of seen k = Some p \<longrightarrow> f k = (bd_Name p, bd_File p)"
      "\<forall>x \<in> set bs. f (inject_key x) = (bd_Name x, bd_File x)" by auto
    from f(1) Some have "f (inject_key b) = (bd_Name prev, bd_File prev)" by blast
    with e f show ?thesis by (intro exI [of _ f]) simp
  qed
qed

lemma no_collision:
  assumes "CheckAliasCollisions bs = None" and "b \<in> set bs" and "b' \<in> set bs" and "inject_key b = inject_key b'"
  shows "bd_Name b = bd_Name b' \<and> bd_File b = bd_File b'"
  using collisions_from_None [of "[]" bs] assms unfolding CheckAliasCollisions_def by (metis prod.inject)

lemma reference_neqs:
  "SecretReference a \<noteq> VarReference b" "SecretReference a \<noteq> KeyReference b" "VarReference a \<noteq> KeyReference b"
proof -
  have "has_prefix (p @ a) q \<longleftrightarrow> p = q" if "p \<in> set all_prefixes" "q \<in> set all_prefixes" for p q a
    using that by (rule prefix_of_reference)
  then have n: "p @ a \<noteq> q @ b" if "p \<in> set all_prefixes" "q \<in> set all_prefixes" "p \<noteq> q" for p q
    using that has_prefix_iff by metis
  show "SecretReference a \<noteq> VarReference b" "SecretReference a \<noteq> KeyReference b" "VarReference a \<noteq> KeyReference b"
    unfolding SecretReference_def VarReference_def KeyReference_def
    by (simp_all add: n prefix_members)
qed

lemma same_reference_same_key:
  assumes "ValidKind (bd_Kind b)" and "ValidKind (bd_Kind b')" and "InjectReference b = InjectReference b'"
  shows "bd_Kind b = bd_Kind b' \<and> inject_key b = inject_key b'"
proof -
  note n = reference_neqs reference_neqs [symmetric]
  have r: "Reference KindSecret x = SecretReference x" "Reference KindVar x = VarReference x" "Reference KindKey x = KeyReference x" for x
    by (simp_all add: Reference_def ref_kinds)
  have i: "SecretReference x = SecretReference y \<longleftrightarrow> x = y" "VarReference x = VarReference y \<longleftrightarrow> x = y" "KeyReference x = KeyReference y \<longleftrightarrow> x = y" for x y
    by (simp_all add: SecretReference_def VarReference_def KeyReference_def)
  from assms(1,2) show ?thesis using assms(3) unfolding ValidKind_def
    by (elim disjE) (simp_all add: InjectReference_def inject_key_def r i n)
qed

section \<open>What is delivered\<close>

definition kind_rows :: "ref_world \<Rightarrow> string \<Rightarrow> ref_row list" where
  "kind_rows w k = (if k = KindSecret then rw_secrets w else if k = KindVar then rw_vars w else rw_keys w)"

abbreviation best_for :: "ref_world \<Rightarrow> string list \<Rightarrow> string \<Rightarrow> binding \<Rightarrow> ref_row list" where
  "best_for w ags scope b \<equiv> best_rows (rw_dispatch w) ags (bd_Kind b) scope (bd_Name b) (kind_rows w (bd_Kind b))"

definition in_env :: "binding \<Rightarrow> bool" where
  "in_env b \<longleftrightarrow> bd_Kind b = KindVar \<or> bd_Kind b = KindSecret \<and> \<not> bd_File b"

definition env_value :: "ref_world \<Rightarrow> string list \<Rightarrow> string \<Rightarrow> binding \<Rightarrow> string option" where
  "env_value w ags scope b =
     (case best_for w ags scope b of
        [r] \<Rightarrow> if bd_Kind b = KindVar then map_option rr_value (row_by_id (rw_vars w) (rr_id r))
               else (case rw_reveal w (rr_id r) of Revealed v \<Rightarrow> Some v | _ \<Rightarrow> None)
      | _ \<Rightarrow> None)"

text \<open>What is put in place besides the environment, and masked.\<close>

definition placed :: "ref_world \<Rightarrow> resolved \<Rightarrow> binding \<Rightarrow> ref_row \<Rightarrow> bool" where
  "placed w out b r \<longleftrightarrow>
     (if bd_Kind b = KindSecret
      then (case rw_reveal w (rr_id r) of
              Revealed v \<Rightarrow> (v = [] \<or> v \<in> set (rs_Redact out)) \<and>
                (bd_File b \<longrightarrow> \<lparr>fm_Reference = InjectReference b, fm_Name = bd_Name b, fm_Value = v\<rparr> \<in> set (rs_Files out))
            | _ \<Rightarrow> False)
      else if bd_Kind b = KindKey
      then (case rw_material w (rr_id r) of
              Material m \<Rightarrow> (m = [] \<or> m \<in> set (rs_Redact out)) \<and>
                \<lparr>km_Reference = InjectReference b, km_Name = bd_Name b, km_Material = m\<rparr> \<in> set (rs_Keys out)
            | _ \<Rightarrow> False)
      else True)"

definition grown :: "resolved \<Rightarrow> resolved \<Rightarrow> bool" where
  "grown a b \<longleftrightarrow> set (rs_Files a) \<subseteq> set (rs_Files b) \<and> set (rs_Keys a) \<subseteq> set (rs_Keys b) \<and> set (rs_Redact a) \<subseteq> set (rs_Redact b)"

lemma placed_grown: "placed w a b r \<Longrightarrow> grown a c \<Longrightarrow> placed w c b r"
  by (auto simp: placed_def grown_def split: reveal.splits material.splits if_splits)

lemma grown_trans: "grown a b \<Longrightarrow> grown b c \<Longrightarrow> grown a c"
  unfolding grown_def by blast

lemma effects_simps [simp]:
  "rs_Env (note_ref x out) = rs_Env out" "rs_Files (note_ref x out) = rs_Files out" "rs_Keys (note_ref x out) = rs_Keys out"
  "rs_Redact (note_ref x out) = rs_Redact out" "rs_Env (redact v out) = rs_Env out" "rs_Files (redact v out) = rs_Files out"
  "rs_Keys (redact v out) = rs_Keys out" "set (rs_Redact (redact v out)) = (if v = [] then {} else {v}) \<union> set (rs_Redact out)"
  "map_of (rs_Env (put_env k v out)) = (map_of (rs_Env out))(k \<mapsto> v)" "rs_Files (put_env k v out) = rs_Files out"
  "rs_Keys (put_env k v out) = rs_Keys out" "rs_Redact (put_env k v out) = rs_Redact out"
  by (auto simp: note_ref_def redact_def put_env_def update_conv')

lemma ca_id_of [simp]: "ca_id (candidate_of db r) = rr_id r"
  by (simp add: candidate_of_def)

lemma pick_of_cases:
  "pick_of c rs = Won x \<Longrightarrow> \<exists>r. rs = [r] \<and> x = c r"
  by (auto split: list.splits)

lemma resolve_one_Inr:
  assumes "agencies_ok (rw_dispatch w) ags" and "resolve_one w scope ags b out = Inr out'"
  shows "ValidKind (bd_Kind b) \<and> (\<exists>r. best_for w ags scope b = [r] \<and> placed w out' b r) \<and> grown out out' \<and>
    (in_env b \<longrightarrow> env_value w ags scope b \<noteq> None) \<and>
    map_of (rs_Env out') = (if in_env b then (map_of (rs_Env out))(InjectReference b := env_value w ags scope b) else map_of (rs_Env out))"
proof -
  let ?db = "rw_dispatch w"
  consider (s) "bd_Kind b = KindSecret" | (v) "bd_Kind b = KindVar" | (k) "bd_Kind b = KindKey"
    using assms(2) by (auto simp: resolve_one_def split: if_splits)
  then show ?thesis
  proof cases
    case s
    then have r: "resolveSecret w scope ags b out = Inr out'" using assms(2) by (simp add: resolve_one_def)
    have k: "bd_Kind b \<noteq> KindKey" "bd_Kind b \<noteq> KindVar" using s by (simp_all add: ref_kinds)
    from r obtain c where "lookupScoped ?db (rw_secrets w) (bd_Name b) scope ags = Won c"
      by (auto simp: resolveSecret_def split: pick.splits)
    then obtain x where x: "best_for w ags scope b = [x]" "lookupScoped ?db (rw_secrets w) (bd_Name b) scope ags = Won (candidate_of ?db x)"
      using lookupScoped_best [OF assms(1) k(1), of "rw_secrets w" "bd_Name b" scope] s
      by (auto simp: kind_rows_def dest!: pick_of_cases)
    then show ?thesis using r s k
      by (auto simp: resolveSecret_def ValidKind_def placed_def grown_def in_env_def env_value_def fun_upd_def split: reveal.splits if_splits)
  next
    case v
    then have r: "resolveVar w scope ags b out = Inr out'" using assms(2) by (simp add: resolve_one_def ref_kinds)
    have k: "bd_Kind b \<noteq> KindKey" "bd_Kind b \<noteq> KindSecret" using v by (simp_all add: ref_kinds)
    from r obtain c where "lookupScoped ?db (rw_vars w) (bd_Name b) scope ags = Won c"
      by (auto simp: resolveVar_def split: pick.splits)
    then obtain x where x: "best_for w ags scope b = [x]" "lookupScoped ?db (rw_vars w) (bd_Name b) scope ags = Won (candidate_of ?db x)"
      using lookupScoped_best [OF assms(1) k(1), of "rw_vars w" "bd_Name b" scope] v k
      by (auto simp: kind_rows_def dest!: pick_of_cases)
    then show ?thesis using r v k
      by (auto simp: resolveVar_def ValidKind_def placed_def grown_def in_env_def env_value_def fun_upd_def split: option.splits)
  next
    case k
    then have r: "resolveKey w ags b out = Inr out'" using assms(2) by (simp add: resolve_one_def ref_kinds)
    have n: "bd_Kind b \<noteq> KindVar" "bd_Kind b \<noteq> KindSecret" using k by (simp_all add: ref_kinds)
    from r obtain c where "lookupKeyID ?db (rw_keys w) (bd_Name b) ags = Won c"
      by (auto simp: resolveKey_def split: pick.splits)
    then obtain x where x: "best_for w ags scope b = [x]"
      "lookupKeyID ?db (rw_keys w) (bd_Name b) ags = Won ((candidate_of ?db x)\<lparr>ca_scope := []\<rparr>)"
      using lookupKeyID_best [OF assms(1), of "rw_keys w" "bd_Name b" scope] n k
      by (auto simp: kind_rows_def dest!: pick_of_cases)
    then show ?thesis using r k n
      by (auto simp: resolveKey_def ValidKind_def placed_def grown_def in_env_def split: material.splits if_splits)
  qed
qed

lemma resolve_all_Inr:
  assumes "agencies_ok (rw_dispatch w) ags" and "resolve_all w scope ags bs out = Inr out'"
  shows "grown out out' \<and>
    (\<forall>b \<in> set bs. ValidKind (bd_Kind b) \<and> (in_env b \<longrightarrow> env_value w ags scope b \<noteq> None) \<and>
       (\<exists>r. best_for w ags scope b = [r] \<and> placed w out' b r))"
  using assms(2)
proof (induction bs arbitrary: out)
  case Nil
  then show ?case by (simp add: grown_def)
next
  case (Cons b bs)
  then obtain o1 where o1: "resolve_one w scope ags b out = Inr o1" "resolve_all w scope ags bs o1 = Inr out'"
    by (auto split: sum.splits)
  from resolve_one_Inr [OF assms(1) o1(1)] Cons.IH [OF o1(2)] show ?case
    by (auto intro: grown_trans placed_grown)
qed

lemma resolve_all_env:
  assumes "agencies_ok (rw_dispatch w) ags" and "resolve_all w scope ags bs out = Inr out'"
  shows "map_of (rs_Env out') k =
    (case List.find (\<lambda>b. in_env b \<and> InjectReference b = k) (rev bs) of
       None \<Rightarrow> map_of (rs_Env out) k | Some b \<Rightarrow> env_value w ags scope b)"
  using assms(2)
proof (induction bs arbitrary: out)
  case Nil
  then show ?case by simp
next
  case (Cons b bs)
  then obtain o1 where o1: "resolve_one w scope ags b out = Inr o1" "resolve_all w scope ags bs o1 = Inr out'"
    by (auto split: sum.splits)
  have f: "List.find p (xs @ [y]) = (case List.find p xs of None \<Rightarrow> if p y then Some y else None | Some z \<Rightarrow> Some z)" for p y xs
    by (induction xs) (simp_all split: option.split)
  from resolve_one_Inr [OF assms(1) o1(1)] Cons.IH [OF o1(2)] show ?case
    by (simp add: f split: option.splits)
qed

lemma best_one:
  assumes "best_rows db ags k scope key rows = [r]"
  shows "r \<in> set rows \<and> entitled db ags k scope key r"
  using best_entitled [of r db ags k scope key rows] assms by simp

definition reads :: "ref_world \<Rightarrow> resolved \<Rightarrow> binding \<Rightarrow> ref_row \<Rightarrow> bool" where
  "reads w out b r \<longleftrightarrow>
     (if bd_Kind b = KindVar then map_of (rs_Env out) (InjectReference b) = Some (rr_value r)
      else if bd_Kind b = KindSecret \<and> \<not> bd_File b
      then (case rw_reveal w (rr_id r) of Revealed v \<Rightarrow> map_of (rs_Env out) (InjectReference b) = Some v | _ \<Rightarrow> False)
      else True)"

definition tables_keyed :: "ref_world \<Rightarrow> bool" where
  "tables_keyed w \<longleftrightarrow> distinct (map rr_id (rw_secrets w)) \<and> distinct (map rr_id (rw_vars w)) \<and> distinct (map rr_id (rw_keys w))"

lemma row_by_id_in: "tables_keyed w \<Longrightarrow> r \<in> set (rw_vars w) \<Longrightarrow> row_by_id (rw_vars w) (rr_id r) = Some r"
  by (simp add: row_by_id_def tables_keyed_def find_unique)

lemma env_value_reads:
  assumes "tables_keyed w" and "in_env b" and "best_for w ags scope b = [r]" and "env_value w ags scope b \<noteq> None"
    and "map_of (rs_Env out) (InjectReference b) = env_value w ags scope b"
  shows "reads w out b r"
proof -
  have "r \<in> set (kind_rows w (bd_Kind b))" using best_one [OF assms(3)] by blast
  then show ?thesis using assms
    by (auto simp: reads_def env_value_def in_env_def kind_rows_def ref_kinds row_by_id_in split: reveal.splits)
qed

lemma env_of_run:
  assumes ok: "agencies_ok (rw_dispatch w) ags" and c: "CheckAliasCollisions bs = None"
    and r: "resolve_all w scope ags bs nothing_resolved = Inr out" and b: "b \<in> set bs" "in_env b"
  shows "map_of (rs_Env out) (InjectReference b) = env_value w ags scope b"
proof -
  let ?p = "\<lambda>x. in_env x \<and> InjectReference x = InjectReference b"
  have "List.find ?p (rev bs) \<noteq> None" using b by (auto simp: find_None_iff)
  then obtain x where x: "List.find ?p (rev bs) = Some x" by blast
  from find_SomeD [OF x] have xb: "x \<in> set bs" "in_env x" "InjectReference x = InjectReference b" by auto
  have v: "ValidKind (bd_Kind x)" "ValidKind (bd_Kind b)" using resolve_all_Inr [OF ok r] xb(1) b(1) by blast+
  from same_reference_same_key [OF v xb(3)] have k: "bd_Kind x = bd_Kind b" "inject_key x = inject_key b" by auto
  have "bd_Name x = bd_Name b" using no_collision [OF c xb(1) b(1) k(2)] by blast
  then have "env_value w ags scope x = env_value w ags scope b"
    by (simp only: env_value_def k(1))
  then show ?thesis using resolve_all_env [OF ok r, of "InjectReference b"] x by simp
qed

text \<open>The row has something to give: a secret that is revealed, a key with material; a variable always has its value.\<close>

definition valued :: "ref_world \<Rightarrow> binding \<Rightarrow> ref_row \<Rightarrow> bool" where
  "valued w b r \<longleftrightarrow>
     (if bd_Kind b = KindSecret then (case rw_reveal w (rr_id r) of Revealed _ \<Rightarrow> True | _ \<Rightarrow> False)
      else if bd_Kind b = KindKey then (case rw_material w (rr_id r) of Material _ \<Rightarrow> True | _ \<Rightarrow> False)
      else True)"

definition one_row :: "ref_world \<Rightarrow> string list \<Rightarrow> string \<Rightarrow> binding \<Rightarrow> bool" where
  "one_row w ags scope b \<longleftrightarrow> (case best_for w ags scope b of [r] \<Rightarrow> valued w b r | _ \<Rightarrow> False)"

lemma one_row_iff: "one_row w ags scope b \<longleftrightarrow> (\<exists>r. best_for w ags scope b = [r] \<and> valued w b r)"
  by (auto simp: one_row_def split: list.split)

lemma placed_valued: "placed w out b r \<Longrightarrow> valued w b r"
  by (auto simp: placed_def valued_def split: if_splits reveal.splits material.splits)

lemma resolve_one_ok:
  assumes ok: "agencies_ok (rw_dispatch w) ags" and t: "tables_keyed w" and kd: "ValidKind (bd_Kind b)" and one: "one_row w ags scope b"
  shows "\<exists>out'. resolve_one w scope ags b out = Inr out'"
proof -
  obtain r where r: "best_for w ags scope b = [r]" "valued w b r" using one by (auto simp: one_row_iff)
  consider (s) "bd_Kind b = KindSecret" | (v) "bd_Kind b = KindVar" | (k) "bd_Kind b = KindKey"
    using kd unfolding ValidKind_def by blast
  then show ?thesis
  proof cases
    case s
    then have "lookupScoped (rw_dispatch w) (rw_secrets w) (bd_Name b) scope ags = Won (candidate_of (rw_dispatch w) r)"
      using lookupScoped_best [OF ok, of "bd_Kind b" "rw_secrets w" "bd_Name b" scope] r(1) by (simp add: kind_rows_def ref_kinds)
    then show ?thesis using s r(2) by (auto simp: resolve_one_def resolveSecret_def valued_def split: reveal.splits)
  next
    case v
    then have n: "bd_Kind b \<noteq> KindSecret" "bd_Kind b \<noteq> KindKey" by (simp_all add: ref_kinds)
    have w: "lookupScoped (rw_dispatch w) (rw_vars w) (bd_Name b) scope ags = Won (candidate_of (rw_dispatch w) r)"
      using lookupScoped_best [OF ok n(2), of "rw_vars w" "bd_Name b" scope] r(1) v n by (simp add: kind_rows_def)
    have "r \<in> set (rw_vars w)" using best_one [OF r(1)] v n by (simp add: kind_rows_def)
    then show ?thesis using v n w row_by_id_in [OF t] by (simp add: resolve_one_def resolveVar_def)
  next
    case k
    then have n: "bd_Kind b \<noteq> KindSecret" "bd_Kind b \<noteq> KindVar" by (simp_all add: ref_kinds)
    have "lookupKeyID (rw_dispatch w) (rw_keys w) (bd_Name b) ags = Won ((candidate_of (rw_dispatch w) r)\<lparr>ca_scope := []\<rparr>)"
      using lookupKeyID_best [OF ok, of "rw_keys w" "bd_Name b" scope] r(1) k n by (simp add: kind_rows_def)
    then show ?thesis using k n r(2) by (auto simp: resolve_one_def resolveKey_def valued_def candidate_of_def split: material.splits)
  qed
qed

lemma resolve_all_ok:
  assumes "agencies_ok (rw_dispatch w) ags" and "tables_keyed w" and "\<forall>b \<in> set bs. ValidKind (bd_Kind b) \<and> one_row w ags scope b"
  shows "\<exists>out'. resolve_all w scope ags bs out = Inr out'"
  using assms(3)
proof (induction bs arbitrary: out)
  case (Cons b bs)
  then obtain o1 where "resolve_one w scope ags b out = Inr o1" using resolve_one_ok [OF assms(1,2)] by fastforce
  then show ?case using Cons by simp
qed simp

lemma resolve_all_reads:
  assumes "agencies_ok (rw_dispatch w) ags" and "tables_keyed w" and "CheckAliasCollisions bs = None"
    and "resolve_all w scope ags bs nothing_resolved = Inr out" and "b \<in> set bs"
  shows "\<exists>r. best_for w ags scope b = [r] \<and> entitled (rw_dispatch w) ags (bd_Kind b) scope (bd_Name b) r \<and> valued w b r \<and>
    reads w out b r \<and> placed w out b r"
proof -
  from resolve_all_Inr [OF assms(1,4)] assms(5) obtain x where x: "best_for w ags scope b = [x]" "placed w out b x"
    "in_env b \<longrightarrow> env_value w ags scope b \<noteq> None" by blast
  have "entitled (rw_dispatch w) ags (bd_Kind b) scope (bd_Name b) x" using best_one [OF x(1)] by blast
  moreover have "reads w out b x"
  proof (cases "in_env b")
    case True
    from env_of_run [OF assms(1,3,4,5) True] show ?thesis
      using env_value_reads [OF assms(2) True x(1)] x(3) True by simp
  next
    case False
    then show ?thesis by (auto simp: reads_def in_env_def)
  qed
  ultimately show ?thesis using x placed_valued by blast
qed

text \<open>C13: a dispatch whose bindings are of known kinds and do not collide, on a scope its actor may use, resolves exactly when
  every declared reference has one row: among the rows of its name that the run is entitled to (shared with and owned by
  the run's own agencies, under the run's scope or none), those under the run's scope if there are any, all of them otherwise,
  must be exactly one, and it must have a value. No such row, two of them, or none with a value is an error. What a job then
  reads under the reference is that row's value, whatever else is bound, and every secret and key delivered is masked in the
  run's logs.\<close>

theorem a_run_reads_the_one_row_it_may_have:
  assumes "agencies_ok (rw_dispatch w) ags" and "tables_keyed w" and "rw_injection w"
    and "CheckAliasCollisions bs = None" and "list_all (\<lambda>b. ValidKind (bd_Kind b)) bs"
    and "actor = [] \<or> scope = [] \<or> scope \<in> set actor"
  shows "case Resolve w actor scope ags bs of
      Inr out \<Rightarrow> list_all (\<lambda>b. \<exists>r. best_for w ags scope b = [r] \<and>
        entitled (rw_dispatch w) ags (bd_Kind b) scope (bd_Name b) r \<and> valued w b r \<and> reads w out b r \<and> placed w out b r) bs
    | Inl _ \<Rightarrow> list_ex (\<lambda>b. \<not> one_row w ags scope b) bs"
proof -
  have R: "Resolve w actor scope ags bs = resolve_all w scope ags bs nothing_resolved"
    using assms(3,4,6) by (auto simp: Resolve_def)
  show ?thesis
  proof (cases "resolve_all w scope ags bs nothing_resolved")
    case (Inl e)
    then have "\<not> (\<forall>b \<in> set bs. ValidKind (bd_Kind b) \<and> one_row w ags scope b)"
      using resolve_all_ok [OF assms(1,2), of bs scope nothing_resolved] by auto
    then show ?thesis using Inl assms(5) by (auto simp: R list_ex_iff list_all_iff)
  next
    case (Inr out)
    then show ?thesis using resolve_all_reads [OF assms(1,2,4) Inr] by (simp add: R list_all_iff)
  qed
qed

section \<open>What an operator learns\<close>

definition may_see :: "claim_db \<Rightarrow> string list \<Rightarrow> ref_row \<Rightarrow> bool" where
  "may_see db ags r \<longleftrightarrow> usableByRun db ags r \<and> owned_by_run db ags r"

text \<open>Two installations that differ in the rows of other agencies only.\<close>

definition same_for_run :: "string list \<Rightarrow> ref_world \<Rightarrow> ref_world \<Rightarrow> bool" where
  "same_for_run ags w w' \<longleftrightarrow> rw_dispatch w' = rw_dispatch w \<and> rw_reveal w' = rw_reveal w \<and> rw_material w' = rw_material w \<and>
     rw_injection w' = rw_injection w \<and>
     filter (may_see (rw_dispatch w) ags) (rw_secrets w) = filter (may_see (rw_dispatch w) ags) (rw_secrets w') \<and>
     filter (may_see (rw_dispatch w) ags) (rw_vars w) = filter (may_see (rw_dispatch w) ags) (rw_vars w') \<and>
     filter (may_see (rw_dispatch w) ags) (rw_keys w) = filter (may_see (rw_dispatch w) ags) (rw_keys w')"

definition told :: "resolve_error + resolved \<Rightarrow> string + resolved" where
  "told r = (case r of Inl e \<Rightarrow> Inl (OperatorMessage e) | Inr out \<Rightarrow> Inr out)"

lemma entitled_may_see: "filter (entitled db ags k scope key) rows = filter (entitled db ags k scope key) (filter (may_see db ags) rows)"
  by (auto simp: entitled_def may_see_def intro!: filter_cong)

lemma best_rows_same:
  "filter (may_see db ags) rows = filter (may_see db ags) rows' \<Longrightarrow> best_rows db ags k scope key rows = best_rows db ags k scope key rows'"
  unfolding best_rows_def by (subst (1 2) entitled_may_see) simp

lemma row_by_id_seen:
  assumes "distinct (map rr_id rows)" and "distinct (map rr_id rows')" and "r \<in> set rows" and "may_see db ags r"
    and "filter (may_see db ags) rows = filter (may_see db ags) rows'"
  shows "row_by_id rows (rr_id r) = Some r \<and> row_by_id rows' (rr_id r) = Some r"
proof -
  have "r \<in> set (filter (may_see db ags) rows')" using assms(3,4) unfolding assms(5) [symmetric] by simp
  then show ?thesis using assms(1-3) by (simp add: row_by_id_def find_unique)
qed

lemma told_scopeOrMissing:
  "OperatorMessage (scopeOrMissing rows b scope) = ''reference '' @ Reference (bd_Kind b) (bd_Name b) @ '' is unavailable for this run''"
  by (simp add: OperatorMessage_def scopeOrMissing_def)

lemma told_Inl: "told (Inl e) = Inl (OperatorMessage e)" and told_Inr: "told (Inr out) = Inr out"
  by (simp_all add: told_def)

lemma pick_of_one: "best_rows db ags k scope key rows = [] \<or> (\<exists>r. best_rows db ags k scope key rows = [r]) \<or>
    (\<exists>a b rs. best_rows db ags k scope key rows = a # b # rs)"
  by (cases "best_rows db ags k scope key rows" rule: remdups_adj.cases) auto

lemma told_one:
  assumes ok: "agencies_ok (rw_dispatch w) ags" and s: "same_for_run ags w w'" and t: "tables_keyed w" "tables_keyed w'"
  shows "told (resolve_one w scope ags b out) = told (resolve_one w' scope ags b out)"
proof -
  let ?db = "rw_dispatch w"
  have e: "rw_dispatch w' = ?db" "rw_reveal w' = rw_reveal w" "rw_material w' = rw_material w" using s by (simp_all add: same_for_run_def)
  note tables = t [unfolded tables_keyed_def] s [unfolded same_for_run_def]
  have seen: "row_by_id rows (rr_id r) = Some r \<and> row_by_id rows' (rr_id r) = Some r"
    if "best_rows ?db ags k scope key rows = [r]" "distinct (map rr_id rows)" "distinct (map rr_id rows')"
      "filter (may_see ?db ags) rows = filter (may_see ?db ags) rows'" for k key rows rows' r
    using row_by_id_seen [OF that(2,3) _ _ that(4)] best_one [OF that(1)] by (simp add: entitled_def may_see_def)
  consider (s) "bd_Kind b = KindSecret" | (v) "bd_Kind b = KindVar" | (k) "bd_Kind b = KindKey"
    | (x) "\<not> ValidKind (bd_Kind b)" by (auto simp: ValidKind_def)
  then show ?thesis
  proof cases
    case s
    have k: "bd_Kind b \<noteq> KindKey" using s by (simp add: ref_kinds)
    let ?B = "best_rows ?db ags (bd_Kind b) scope (bd_Name b) (rw_secrets w)"
    have b': "best_rows ?db ags (bd_Kind b) scope (bd_Name b) (rw_secrets w') = ?B"
      by (rule best_rows_same) (simp add: tables)
    have l: "lookupScoped ?db (rw_secrets w) (bd_Name b) scope ags = pick_of (candidate_of ?db) ?B"
      "lookupScoped ?db (rw_secrets w') (bd_Name b) scope ags = pick_of (candidate_of ?db) ?B"
      using lookupScoped_best [OF ok k] b' by simp_all
    have a: "audit_of (rw_secrets w') b (rr_id r) = audit_of (rw_secrets w) b (rr_id r)" if "?B = [r]" for r
      using seen [OF that, of "rw_secrets w'"] tables by (simp add: audit_of_def)
    show ?thesis using pick_of_one [of ?db ags "bd_Kind b" scope "bd_Name b" "rw_secrets w"] a
      by (auto simp: resolve_one_def s resolveSecret_def e l [unfolded s] told_scopeOrMissing [unfolded s] told_Inl told_Inr split: reveal.split)
  next
    case v
    have k: "bd_Kind b \<noteq> KindKey" "KindVar \<noteq> KindSecret" using v by (simp_all add: ref_kinds)
    let ?B = "best_rows ?db ags (bd_Kind b) scope (bd_Name b) (rw_vars w)"
    have b': "best_rows ?db ags (bd_Kind b) scope (bd_Name b) (rw_vars w') = ?B"
      by (rule best_rows_same) (simp add: tables)
    have l: "lookupScoped ?db (rw_vars w) (bd_Name b) scope ags = pick_of (candidate_of ?db) ?B"
      "lookupScoped ?db (rw_vars w') (bd_Name b) scope ags = pick_of (candidate_of ?db) ?B"
      using lookupScoped_best [OF ok k(1)] b' by simp_all
    have a: "row_by_id (rw_vars w') (rr_id r) = row_by_id (rw_vars w) (rr_id r)" if "?B = [r]" for r
      using seen [OF that, of "rw_vars w'"] tables by simp
    show ?thesis using pick_of_one [of ?db ags "bd_Kind b" scope "bd_Name b" "rw_vars w"] a k(2)
      by (auto simp: resolve_one_def v resolveVar_def e l [unfolded v] told_scopeOrMissing [unfolded v] told_Inl told_Inr split: option.split)
  next
    case k
    have n: "KindKey \<noteq> KindSecret" "KindKey \<noteq> KindVar" by (simp_all add: ref_kinds)
    let ?B = "best_rows ?db ags KindKey scope (bd_Name b) (rw_keys w)"
    have b': "best_rows ?db ags KindKey scope (bd_Name b) (rw_keys w') = ?B"
      by (rule best_rows_same) (simp add: tables)
    have l: "lookupKeyID ?db (rw_keys w) (bd_Name b) ags = pick_of (\<lambda>r. (candidate_of ?db r)\<lparr>ca_scope := []\<rparr>) ?B"
      "lookupKeyID ?db (rw_keys w') (bd_Name b) ags = pick_of (\<lambda>r. (candidate_of ?db r)\<lparr>ca_scope := []\<rparr>) ?B"
      using lookupKeyID_best [OF ok, of _ "bd_Name b" scope] b' by simp_all
    have a: "audit_of (rw_keys w') b (rr_id r) = audit_of (rw_keys w) b (rr_id r)" if "?B = [r]" for r
      using seen [OF that, of "rw_keys w'"] tables by (simp add: audit_of_def)
    show ?thesis using pick_of_one [of ?db ags KindKey scope "bd_Name b" "rw_keys w"] a n
      by (auto simp: resolve_one_def k resolveKey_def e l told_Inl told_Inr split: material.split)
  next
    case x
    then show ?thesis by (simp add: resolve_one_def ValidKind_def)
  qed
qed

lemma told_all:
  assumes "agencies_ok (rw_dispatch w) ags" and "same_for_run ags w w'" and "tables_keyed w" "tables_keyed w'"
  shows "told (resolve_all w scope ags bs out) = told (resolve_all w' scope ags bs out)"
proof (induction bs arbitrary: out)
  case Nil
  then show ?case by simp
next
  case (Cons b bs)
  from told_one [OF assms, of scope b out] Cons.IH show ?case
    by (cases "resolve_one w scope ags b out"; cases "resolve_one w' scope ags b out") (auto simp: told_Inl told_Inr)
qed

text \<open>C5: a run is no oracle for rows it may not have: two installations that differ in rows that are not the
  run's (another agency's secrets, variables and keys, whether they exist at all) give the run the same
  values or, when it cannot have them, tell the operator the same message. (The error behind the message, which goes to the
  server's log alone, does say whether a row exists elsewhere: \<open>scopeOrMissing\<close> counts every row.)\<close>

theorem a_run_is_no_oracle:
  assumes "agencies_ok (rw_dispatch w) ags" and "same_for_run ags w w'" and "tables_keyed w" and "tables_keyed w'"
  shows "told (Resolve w actor scope ags bs) = told (Resolve w' actor scope ags bs)"
  using told_all [OF assms] assms(2)
  by (auto simp: Resolve_def same_for_run_def split: option.split)

section \<open>A run of one agency\<close>

definition demo_secret :: "string \<Rightarrow> string \<Rightarrow> string option \<Rightarrow> ref_row" where
  "demo_secret i owner scope = \<lparr>rr_id = i, rr_key = ''DB'', rr_scope = scope, rr_owner = owner, rr_members = [owner],
     rr_value = [], rr_source = []\<rparr>"

definition demo_refs :: ref_world where
  "demo_refs = \<lparr>rw_dispatch = demo_dispatch\<lparr>cl_agencies := [\<lparr>ag_id = Global, ag_name = ''Global'', ag_cap = None\<rparr>,
       \<lparr>ag_id = ''tax'', ag_name = ''Tax'', ag_cap = None\<rparr>, \<lparr>ag_id = ''it'', ag_name = ''IT'', ag_cap = None\<rparr>]\<rparr>,
     rw_secrets = [demo_secret ''1'' ''it'' None, demo_secret ''2'' ''tax'' None, demo_secret ''3'' ''tax'' (Some ''edge'')],
     rw_vars = [], rw_keys = [], rw_reveal = (\<lambda>i. Revealed (''value '' @ i)), rw_material = (\<lambda>_. NoMaterial), rw_injection = True\<rparr>"

definition demo_binding :: binding where
  "demo_binding = \<lparr>bd_Kind = KindSecret, bd_Name = ''DB'', bd_As = ''MAIN'', bd_File = False, bd_Origin = []\<rparr>"

theorem a_run_reads_the_one_row_it_may_have_witness:
  "(\<exists>out r. Resolve demo_refs [] ''edge'' [''Tax''] [demo_binding] = Inr out \<and> reads demo_refs out demo_binding r \<and>
     rs_Env out = [(''CRONOMICON_SECRET_MAIN'', ''value 3'')]) \<and>
   \<not> one_row demo_refs [''Tax'', ''IT''] [] demo_binding"
proof -
  have a: "agencies_ok (rw_dispatch demo_refs) [''Tax'']" "agencies_ok (rw_dispatch demo_refs) [''Tax'', ''IT'']" by code_simp+
  have t: "tables_keyed demo_refs" by code_simp
  have i: "rw_injection demo_refs" by code_simp
  have c: "CheckAliasCollisions [demo_binding] = None" by code_simp
  have k: "list_all (\<lambda>b. ValidKind (bd_Kind b)) [demo_binding]" by code_simp
  have "map_sum (\<lambda>_. ()) rs_Env (Resolve demo_refs [] ''edge'' [''Tax''] [demo_binding]) =
      Inr [(''CRONOMICON_SECRET_MAIN'', ''value 3'')]" by code_simp
  then obtain out where r: "Resolve demo_refs [] ''edge'' [''Tax''] [demo_binding] = Inr out"
    "rs_Env out = [(''CRONOMICON_SECRET_MAIN'', ''value 3'')]"
    by (cases "Resolve demo_refs [] ''edge'' [''Tax''] [demo_binding]") auto
  have "map_sum (\<lambda>_. ()) rs_Env (Resolve demo_refs [] [] [''Tax'', ''IT''] [demo_binding]) = Inl ()" by code_simp
  then obtain e where e: "Resolve demo_refs [] [] [''Tax'', ''IT''] [demo_binding] = Inl e"
    by (cases "Resolve demo_refs [] [] [''Tax'', ''IT''] [demo_binding]") auto
  from a_run_reads_the_one_row_it_may_have [OF a(1) t i c k, of "[]" "''edge''"]
    a_run_reads_the_one_row_it_may_have [OF a(2) t i c k, of "[]" "[]"] r e show ?thesis by auto
qed

theorem a_run_is_no_oracle_witness:
  "told (Resolve demo_refs [] [] [''HR''] [demo_binding]) = told (Resolve (demo_refs\<lparr>rw_secrets := []\<rparr>) [] [] [''HR''] [demo_binding]) \<and>
   told (Resolve demo_refs [] [] [''HR''] [demo_binding]) = Inl ''reference CRONOMICON_SECRET_DB is unavailable for this run''"
proof -
  have a: "agencies_ok (rw_dispatch demo_refs) [''HR'']" by code_simp
  have s: "same_for_run [''HR''] demo_refs (demo_refs\<lparr>rw_secrets := []\<rparr>)"
  proof -
    have "filter (may_see (rw_dispatch demo_refs) [''HR'']) (rw_secrets demo_refs) = []" by code_simp
    then show ?thesis by (simp add: same_for_run_def)
  qed
  have t: "tables_keyed demo_refs" "tables_keyed (demo_refs\<lparr>rw_secrets := []\<rparr>)" by code_simp+
  have "told (Resolve demo_refs [] [] [''HR''] [demo_binding]) = Inl ''reference CRONOMICON_SECRET_DB is unavailable for this run''"
    by (simp add: told_def) code_simp
  then show ?thesis using a_run_is_no_oracle [OF a s t, of "[]" "[]" "[demo_binding]"] by simp
qed

end
