(* ===== verification/Sched_Props.thy ===== *)
theory Sched_Props
  imports Sched_Inv Ref_Resolve_Props
begin

text \<open>
  The properties of the scheduler: its tables stay within their bounds whatever the order of fires,
  promotions, triggers, claims, ends, cancellations and administration; the clock's gate is the shared gate;
  every fire and every promotion is accounted for, with the one exception that is a finding.
\<close>

section \<open>Any order of operations\<close>

text \<open>The clock's fires, the promotion, the requests of the API, of file arrivals and of reactions (a start, a row to
  defer), claims, ends, cancellations, administration, each as one step; and the writes that these and the workflow engine
  are made of, each as one: a row inserted, its reason stamped, a run closed, a parked row held, freed, missed or removed.
  A call that parks a row behind a key is not among them: \<open>Sched_Race\<close> adds it, in its two statements.\<close>

inductive sched_step :: "sched \<Rightarrow> sched \<Rightarrow> bool" where
  clock: "fst (fire w st a) \<noteq> Parked \<Longrightarrow> sched_step st (snd (fire w st a))"
| clock_workflow: "sched_step st (snd (fireWorkflow firer w st wa))"
| promotion: "sched_step st (PromotePending firer w st)"
| trigger: "sched_step st (snd (EnqueueRunWithID b st p))"
| defer_run: "InsertPendingRun b st kind name source scope runAt who params = Some (i, st') \<Longrightarrow> sched_step st st'"
| defer_reaction: "InsertReactionPendingRun b st x = Some (i, st') \<Longrightarrow> sched_step st st'"
| write_row: "insert_run b st r = Inr (t, st') \<Longrightarrow> sched_step st st'"
| stamp_reason: "sched_step st (with_dispatch (\<lambda>db. snd (StampUnclaimableReason db t)) st)"
| close_row: "sched_step st (with_runs (map (close_unwritten t now)) st)"
| hold_row: "sched_step st (holdForGate i g st)"
| free_row: "sched_step st (clearGateHold p st)"
| bin_row: "sched_step st (holdForRecycleBin i st)"
| unbin_row: "sched_step st (clearRecycleBinHold i st)"
| miss_row_write: "sched_step st (on_row i (\<lambda>x. x\<lparr>pd_status := ''missed'', pd_miss := m\<rparr>) st)"
| claim_run: "Claim (gd_dispatch (ss_db st)) req ts = (Claimed t, db') \<Longrightarrow> sched_step st (with_dispatch (\<lambda>_. db') st)"
| end_run: "status \<notin> {''queued'', ''running''} \<Longrightarrow> sched_step st (with_runs (map (close_run t status)) st)"
| cancel: "sched_step st (remove_row i st)"
| administer: "cl_runs (gd_dispatch db') = runs_of st \<Longrightarrow> sched_step st (st\<lparr>ss_db := db'\<rparr>)"

lemma inv_claim:
  assumes "sched_inv m st" and "Claim (gd_dispatch (ss_db st)) req ts = (Claimed t, db')"
  shows "sched_inv m (with_dispatch (\<lambda>_. db') st)"
proof -
  let ?db = "gd_dispatch (ss_db st)"
  from Claim_Claimed [OF assms(2)] obtain r where r0: "r \<in> set (cl_runs ?db)" "d_id r = t" "claimable ?db req r"
    "db' = ?db\<lparr>cl_runs := map (\<lambda>x. if d_id x = t then take_run ?db req ts x else x) (cl_runs ?db),
              cl_runners := map (\<lambda>rn. if rn_id rn = rq_runner req then rn\<lparr>rn_load := rn_load rn + 1\<rparr> else rn) (cl_runners ?db),
              cl_log := cl_log ?db @ [(rq_actor req, t)]\<rparr>" by blast
  have r: "r \<in> set (cl_runs ?db)" "d_id r = t" "claimable ?db req r"
    "cl_runs db' = map (\<lambda>x. if d_id x = t then take_run ?db req ts x else x) (cl_runs ?db)"
    using r0(1-3) unfolding r0(4) by simp_all
  have one: "x = r" if "x \<in> set (cl_runs ?db)" "d_id x = t" for x
  proof -
    have "distinct (map d_id (cl_runs ?db))" using assms(1) by (simp add: sched_inv_def bounded_def runs_of_def)
    then show ?thesis using that r(1,2) by (auto simp: distinct_map dest: inj_onD)
  qed
  have a: "active r" using r(3) by (simp add: claimable_def active_def)
  let ?f = "\<lambda>x. if d_id x = t \<and> active x then take_run ?db req ts x else x"
  have "cl_runs db' = map ?f (cl_runs ?db)" unfolding r(4)
    by (rule map_cong [OF refl]) (use one a in auto)
  then have m: "runs_of (with_dispatch (\<lambda>_. db') st) = map ?f (runs_of st)"
    by (simp add: runs_of_def with_dispatch_def)
  show ?thesis by (rule sched_inv_runs [OF assms(1) m]) (auto simp: take_run_def split: if_splits)
qed

lemma inv_step: "sched_step st st' \<Longrightarrow> sched_inv (QueueCap + n) st \<Longrightarrow> sched_inv (QueueCap + n) st'"
proof (induction rule: sched_step.induct)
  case (claim_run st req ts t db')
  then show ?case using inv_claim by blast
next
  case (end_run status st t)
  then show ?case
    by (intro sched_inv_runs [OF end_run(2), where f = "close_run t status"])
      (auto simp: close_run_def active_status split: if_splits)
next
  case (administer db' st)
  then show ?case by (intro sched_inv_same [OF administer(2)]) (simp_all add: runs_of_def)
qed (auto intro: inv_operations bounds.stamped bounds.closed inv_insert_run)

text \<open>A fire of the job of the small catalogue, on the day before its holiday.\<close>

definition demo_fire_world :: fire_world where
  "demo_fire_world = sched_world.extend demo_world \<lparr>fw_entries = [], fw_bindings = [], fw_refs = demo_refs\<rparr>"

definition demo_fire :: fire_args where
  "demo_fire = \<lparr>fa_source = ''cronomicon'', fa_job = ''nightly'', fa_uid = ''u1'', fa_runType = ''bash'', fa_scope = ''edge'',
     fa_policy = PolicyQueue, fa_concKey = ''db'', fa_schedule = ''s'', fa_env = None\<rparr>"

definition demo_busy :: sched where
  "demo_busy = with_runs (\<lambda>_. [(demo_run ''r'' ''10:01'')\<lparr>d_concurrency_key := Some ''db'', lr_owner := None\<rparr>]) demo_sched"

lemma demo_parked: "fst (fire demo_fire_world demo_busy demo_fire) = Parked" by code_simp

lemma demo_busy_inv: "sched_inv m demo_busy"
  by (simp add: sched_inv_def bounded_def demo_busy_def holds_key_def demo_sched_def runs_of_def demo_gate_def with_runs_def)

lemma replicate_x_r: "replicate n CHR 0x78 \<noteq> [CHR 0x72]" by (cases n) auto

lemma demo_busy_ids: "ids_fresh (base demo_fire_world) demo_busy"
  by (auto simp: replicate_x_r ids_fresh_def demo_world_def demo_fire_world_def sched_world.defs inj_def demo_busy_def demo_sched_def
      runs_of_def with_runs_def demo_run_def demo_gate_def db_run.defs run_columns_def Let_def dest: arg_cong [where f = length])

section \<open>The clock and the shared gate\<close>

definition cron_request :: "string \<Rightarrow> string \<Rightarrow> string \<Rightarrow> string \<Rightarrow> gate_request" where
  "cron_request kind source name uid = \<lparr>gr_Origin = OriginCron, gr_Source = source, gr_OwnerKind = kind, gr_Name = name,
     gr_UID = uid, gr_Hand = False\<rparr>"

lemma calendarVerdict_gate:
  assumes "uid \<noteq> []" and "kind \<noteq> []" and "calendarBindings w source kind name uid schedule = ([], [])"
  shows "calendarVerdict w st source kind name uid schedule = gate_verdict (sw_clock w) (ss_db st) (cron_request kind source name uid)"
proof -
  have p: "op_definitionCalendars (PolicyFor OriginCron)" by (simp add: PolicyFor_def originPolicies_def)
  have b: "(fst (definitionBindings (ss_db st) kind source name uid))\<lparr>b_entry_skip := [], b_entry_only := []\<rparr> =
      fst (definitionBindings (ss_db st) kind source name uid)"
    by (auto simp: definitionBindings_def Let_def no_bindings_def split: option.split)
  have s: "snd (definitionBindings (ss_db st) kind source name uid) = uid" by (rule definitionBindings_uid [OF assms(1)])
  show ?thesis using assms p b s
    by (simp add: calendarVerdict_def gate_verdict_def gate_bindings_def cron_request_def DefinitionBindings_def or_job_def split_beta)
qed

text \<open>C35: the clock's own path and the shared gate decide alike: a fire of an enabled job or workflow with an identity, by an entry
  that names no calendars of its own, passes the first four gates exactly when \<open>Evaluate\<close> admits the origin
  \<open>cron\<close>. A refusal by the central gate, the cap or a job's pause is recorded with the gate's own sentence; a paused workflow is
  recorded as such, though the gate calls it a job; a calendar's refusal is by the verdict of the gate, recorded in the clock's
  words when the verdict is for the record and not at all otherwise.\<close>

theorem the_clock_passes_the_shared_gate:
  assumes "uid \<noteq> []" and "kind = ''job'' \<or> kind = ''workflow''" and "calendarBindings w source kind name uid schedule = ([], [])"
    and "\<not> definitionDisabled (ss_db st) kind source name uid" and "g = GateEvaluate (sw_clock w) (ss_db st) (cron_request kind source name uid)"
  shows "(fire_gate w st kind source name uid schedule = None) = go_Allowed g \<and>
    (go_Gate g \<in> {''central'', ''cap''} \<or> go_Gate g = ''pause'' \<and> kind = ''job'' \<longrightarrow>
       fire_gate w st kind source name uid schedule = Some (Record (plain_skip (go_Reason g) DedupeEpisodeReason))) \<and>
    (go_Gate g = ''pause'' \<and> kind = ''workflow'' \<longrightarrow> go_Reason g = reasonJobPaused \<and>
       fire_gate w st kind source name uid schedule = Some (Record (plain_skip reasonWorkflowPaused DedupeEpisodeReason))) \<and>
    (go_Gate g = ''calendar'' \<longrightarrow>
       (\<exists>v. gate_verdict (sw_clock w) (ss_db st) (cron_request kind source name uid) = Some v \<and> v_suppressed v \<and>
          fire_gate w st kind source name uid schedule = Some (if v_record v then Record (calendar_record w v) else Silent)))"
proof -
  have k: "or_job kind = kind" "kind \<noteq> []" using assms(2) by (auto simp: or_job_def)
  have pol: "op_pause (PolicyFor OriginCron)" "op_globalFreeze (PolicyFor OriginCron)" "op_fleetCap (PolicyFor OriginCron)"
    by (simp_all add: PolicyFor_def originPolicies_def)
  note v = calendarVerdict_gate [OF assms(1) k(2) assms(3)]
  note e = assms(5) [unfolded GateEvaluate_def Let_def]
  note f = fire_gate_def [of w st kind source name uid schedule, unfolded Let_def v]
  let ?v = "gate_verdict (sw_clock w) (ss_db st) (cron_request kind source name uid)"
  have c: "gate_cap (ss_db st) uid kind = AtProduction (gd_dispatch (ss_db st)) (definitionAgency (ss_db st) uid kind)"
    by (simp add: gate_cap_def)
  have r: "gr_Origin (cron_request kind source name uid) = OriginCron" "or_job (gr_OwnerKind (cron_request kind source name uid)) = kind"
    "gr_Source (cron_request kind source name uid) = source" "gr_Name (cron_request kind source name uid) = name"
    "gr_UID (cron_request kind source name uid) = uid"
    by (simp_all add: cron_request_def k)
  consider (central) "DefinitionIsCentral (ss_db st) kind source name uid"
    | (pause) "\<not> DefinitionIsCentral (ss_db st) kind source name uid" "IsPausedUID (ss_db st) source kind name uid"
    | (cal) "\<not> DefinitionIsCentral (ss_db st) kind source name uid" "\<not> IsPausedUID (ss_db st) source kind name uid" "suppresses ?v"
    | (cap) "\<not> DefinitionIsCentral (ss_db st) kind source name uid" "\<not> IsPausedUID (ss_db st) source kind name uid" "\<not> suppresses ?v"
        "gate_cap (ss_db st) uid kind \<noteq> NotReached"
    | (ok) "\<not> DefinitionIsCentral (ss_db st) kind source name uid" "\<not> IsPausedUID (ss_db st) source kind name uid" "\<not> suppresses ?v"
        "gate_cap (ss_db st) uid kind = NotReached"
    by blast
  then show ?thesis
  proof cases
    case central
    then have "g = refused ''central'' reasonCentralRunsNothing" using e assms(4) by (simp add: r)
    then show ?thesis using central f by simp
  next
    case pause
    then have "g = refused ''pause'' reasonJobPaused" using e assms(4) by (simp add: r pol)
    then show ?thesis using pause f assms(2) by auto
  next
    case cal
    then have "go_Gate g = ''calendar''" "\<not> go_Allowed g" using e assms(4) by (simp_all add: r pol refused_def)
    moreover obtain v where "?v = Some v" "v_suppressed v" using cal(3) by (auto simp: suppresses_def split: option.splits)
    ultimately show ?thesis using cal f by simp
  next
    case cap
    then have "go_Gate g = ''cap''" "\<not> go_Allowed g" "go_Reason g = capReason (gate_cap (ss_db st) uid kind)"
      using e assms(4) by (simp_all add: r pol refused_def)
    then show ?thesis using cap f c by simp
  next
    case ok
    then have "g = gate_allowed" using e assms(4) by (simp add: r)
    then show ?thesis using ok f c by (simp add: gate_allowed_def)
  qed
qed

theorem the_clock_passes_the_shared_gate_witness:
  "fire_gate demo_fire_world demo_sched ''job'' ''cronomicon'' ''nightly'' ''u1'' ''s'' = None"
proof -
  let ?g = "GateEvaluate (sw_clock demo_fire_world) (ss_db demo_sched) (cron_request ''job'' ''cronomicon'' ''nightly'' ''u1'')"
  have "''u1'' \<noteq> []" "''job'' = ''job'' \<or> ''job'' = ''workflow''" by simp_all
  moreover have "calendarBindings demo_fire_world ''cronomicon'' ''job'' ''nightly'' ''u1'' ''s'' = ([], [])" by code_simp
  moreover have "\<not> definitionDisabled (ss_db demo_sched) ''job'' ''cronomicon'' ''nightly'' ''u1''" by code_simp
  moreover have "go_Allowed ?g" by code_simp
  ultimately show ?thesis using the_clock_passes_the_shared_gate [OF _ _ _ _ refl] by blast
qed

section \<open>Nothing vanishes\<close>

lemma recordSuppression_fields:
  "ss_pending (recordSuppression w p k st) = ss_pending st" "ss_fired (recordSuppression w p k st) = ss_fired st"
  by (auto simp: recordSuppression_def recordSkippedFire_def notifySuppressed_def insert_run_def Let_def with_runs_def
      split: option.splits sum.splits bool.splits prod.splits if_splits)

lemma recordSuppression_leaves:
  assumes "ids_fresh w st"
  shows "skipAlreadyRecorded w st p k \<and> recordSuppression w p k st = st \<or>
    (\<exists>r \<in> set (runs_of (recordSuppression w p k st)). d_id r \<notin> d_id ` set (runs_of st) \<and> d_status r = ''skipped'' \<and> d_queued_reason r = nullStr (sk_Reason k) \<and>
       d_job_name r = e_JobName p \<and> d_schedule_name r = nullStr (e_ScheduleName p))"
proof (cases "skipAlreadyRecorded w st p k")
  case False
  obtain st' where i: "insert_run w st (skipped_run p k) = Inr (sw_id w (ss_minted st), st')"
    using insert_skipped [OF assms, of "skipped_run p k"] by (auto simp: skipped_run_def queued_row_def)
  from insert_run_Inr [OF i] obtain now req where
    "runs_of st' = runs_of st @ [live_of w (run_columns (catalog_of st) (sw_id w (ss_minted st)) now (skipped_run p k)
        (row_uid (catalog_of st) (skipped_run p k)) req)]"
    by (auto simp: runs_of_def with_runs_def)
  moreover have "runs_of (recordSuppression w p k st) = runs_of st'"
    using i False by (simp add: recordSuppression_def recordSkippedFire_def notifySuppressed_def)
  ultimately show ?thesis using insert_run_Inr [OF i]
    by (auto simp: run_columns_def Let_def skipped_run_def queued_row_def statusOrDefault_def)
qed (simp add: recordSuppression_def recordSkippedFire_def)

lemma started_row:
  assumes "EnqueueRunWithID w st p = (Inr t, st')"
  shows "t \<notin> d_id ` set (runs_of st) \<and> length (runs_of st') = length (runs_of st) + 1 \<and> ss_pending st' = ss_pending st \<and>
    (\<exists>r \<in> set (runs_of st'). d_id r = t \<and> waiting r \<and> d_concurrency_key r = nullStr (e_ConcurrencyKey p) \<and>
       d_job_name r = e_JobName p)"
proof -
  from EnqueueRunWithID_effect [OF assms] obtain st1 f where e: "insert_run w st (queued_row p) = Inr (t, st1)"
    "runs_of st' = map f (runs_of st1)" "ss_pending st' = ss_pending st"
    "\<forall>r. d_id (f r) = d_id r \<and> d_concurrency_key (f r) = d_concurrency_key r \<and> active (f r) = active r \<and>
       d_status (f r) = d_status r \<and> d_job_uid (f r) = d_job_uid r \<and> d_job_name (f r) = d_job_name r" by auto
  from insert_run_Inr [OF e(1)] obtain now req where i:
    "runs_of st1 = runs_of st @ [live_of w (run_columns (catalog_of st) t now (queued_row p) (row_uid (catalog_of st) (queued_row p)) req)]"
    "t \<notin> d_id ` set (runs_of st)" by auto
  let ?x = "live_of w (run_columns (catalog_of st) t now (queued_row p) (row_uid (catalog_of st) (queued_row p)) req)"
  have "f ?x \<in> set (runs_of st')" using e(2) i(1) by simp
  moreover have "d_id (f ?x) = t" "d_concurrency_key (f ?x) = nullStr (e_ConcurrencyKey p)" "d_status (f ?x) = ''queued''"
    "d_job_name (f ?x) = e_JobName p"
    using e(4) by (simp_all add: run_columns_def Let_def queued_row_def statusOrDefault_def)
  ultimately show ?thesis using e i by auto
qed

lemma skip_params_simps [simp]: "e_JobName (skip_params a) = fa_job a" "e_ScheduleName (skip_params a) = fa_schedule a"
  "e_ConcurrencyKey (fire_params st a ags) = fire_key a" "e_JobName (fire_params st a ags) = fa_job a"
  "e_ScheduleName (fire_params st a ags) = fa_schedule a"
  by (simp_all add: skip_params_def fire_params_def Let_def)

lemma fire_refusal_names:
  "fire_refusal w st a ags = Some (p, k) \<Longrightarrow> e_JobName p = fa_job a \<and> e_ScheduleName p = fa_schedule a"
  by (auto simp: fire_refusal_def Let_def split: if_splits)

text \<open>The row that already stands for a skip: of the key for a skip of an episode, of the entry and the reason, or of the entry, with a
  calendar, on the day.\<close>

definition standing_skip :: "fire_world \<Rightarrow> sched \<Rightarrow> enqueue_params \<Rightarrow> skip_record \<Rightarrow> live_run \<Rightarrow> bool" where
  "standing_skip w st p k r \<longleftrightarrow> r \<in> set (runs_of st) \<and> d_status r = ''skipped'' \<and>
     (case sk_Mode k of
        DedupeEpisode \<Rightarrow> d_concurrency_key r = Some (e_ConcurrencyKey p) \<and> d_suppressed_by_calendar r = None
      | DedupeEpisodeReason \<Rightarrow> run_outcome r \<in> set (job_log p (runs_of st)) \<and> coalesce (d_queued_reason r) [] = sk_Reason k
      | DedupeDay \<Rightarrow> run_outcome r \<in> set (job_log p (runs_of st)) \<and> d_suppressed_by_calendar r \<noteq> None \<and>
          sw_dayof (base w) (d_created_at r) = sk_Day k)"

lemma newest_first_set [simp]: "set (newest_first es) = set es"
  by (simp add: newest_first_def)

lemma newest_head: "newest_first (filter q es) = e # es' \<Longrightarrow> e \<in> set es \<and> q e"
  using newest_first_set [of "filter q es"] by auto

lemma recorded_stands:
  assumes "skipAlreadyRecorded (base w) st p k"
  shows "\<exists>r. standing_skip w st p k r"
proof (cases "sk_Mode k")
  case DedupeEpisode
  with assms obtain e es where e: "newest_first (filter (\<lambda>e. oc_calendar e = None) (key_log (e_ConcurrencyKey p) (runs_of st))) = e # es"
    "oc_status e = ''skipped''" by (auto simp: skipAlreadyRecorded_def split: list.splits)
  from newest_head [OF e(1)] e(2) have "e \<in> set (key_log (e_ConcurrencyKey p) (runs_of st))" "oc_calendar e = None" "oc_status e = ''skipped''" by auto
  then show ?thesis using DedupeEpisode by (auto simp: key_log_def standing_skip_def run_outcome_def)
next
  case DedupeDay
  with assms obtain e where "e \<in> set (take 50 (newest_first (filter (\<lambda>e. oc_status e = ''skipped'' \<and> oc_calendar e \<noteq> None) (job_log p (runs_of st)))))"
    "sw_dayof (base w) (oc_created e) = sk_Day k" by (auto simp: skipAlreadyRecorded_def day_recorded_def list_ex_iff)
  then have "e \<in> set (job_log p (runs_of st))" "oc_status e = ''skipped''" "oc_calendar e \<noteq> None" "sw_dayof (base w) (oc_created e) = sk_Day k"
    by (auto dest!: in_set_takeD)
  then show ?thesis using DedupeDay by (auto simp: job_log_def standing_skip_def run_outcome_def)
next
  case DedupeEpisodeReason
  with assms obtain e es where e: "newest_first (filter (\<lambda>e. oc_calendar e = None) (job_log p (runs_of st))) = e # es"
    "oc_status e = ''skipped''" "oc_reason e = sk_Reason k" by (auto simp: skipAlreadyRecorded_def reason_recorded_def split: list.splits)
  from newest_head [OF e(1)] e(2,3) have "e \<in> set (job_log p (runs_of st))" "oc_status e = ''skipped''" "oc_reason e = sk_Reason k" by auto
  then show ?thesis using DedupeEpisodeReason by (auto simp: job_log_def standing_skip_def run_outcome_def)
qed

definition fire_accounted :: "fire_world \<Rightarrow> sched \<Rightarrow> fire_args \<Rightarrow> fire_end \<Rightarrow> sched \<Rightarrow> bool" where
  "fire_accounted w st a e st' \<longleftrightarrow>
     (case e of
        Started t \<Rightarrow> t \<notin> d_id ` set (runs_of st) \<and> length (runs_of st') = length (runs_of st) + 1 \<and> ss_pending st' = ss_pending st \<and>
          (\<exists>r \<in> set (runs_of st'). d_id r = t \<and> waiting r \<and> d_concurrency_key r = nullStr (fire_key a) \<and> d_job_name r = fa_job a)
      | Parked \<Rightarrow> runs_of st' = runs_of st \<and> key_taken (runs_of st) (fa_concKey a) \<and>
          (\<exists>p. ss_pending st' = ss_pending st @ [p] \<and> queued_behind (fa_concKey a) p \<and> pd_name p = fa_job a)
      | Skipped p k \<Rightarrow> ss_pending st' = ss_pending st \<and> e_JobName p = fa_job a \<and> e_ScheduleName p = fa_schedule a \<and>
          ((\<exists>r. standing_skip w st p k r) \<and> st' = st \<or>
           (\<exists>r \<in> set (runs_of st'). d_status r = ''skipped'' \<and> d_queued_reason r = nullStr (sk_Reason k) \<and>
              d_id r \<notin> d_id ` set (runs_of st) \<and> d_job_name r = fa_job a \<and> d_schedule_name r = nullStr (fa_schedule a)))
      | SkippedSilently \<Rightarrow> st' = st \<and>
          (\<exists>v. calendarVerdict w st (fa_source a) ''job'' (fa_job a) (fa_uid a) (fa_schedule a) = Some v \<and> v_suppressed v \<and> \<not> v_record v)
      | Failed AgenciesUnread \<Rightarrow> st' = st \<and>
          ScopeAgencies (gd_dispatch (ss_db st)) (jobAgencyFor (ss_db st) (fa_uid a) (fa_source a) (fa_job a)) (fa_scope a) = None
      | Failed QueueError \<Rightarrow> st' = st \<and>
          (fa_concKey a = [] \<or> sw_id (base w) (ss_minted st) \<in> pd_id ` set (ss_pending st))
      | Failed (RunError (InsertError x)) \<Rightarrow> st' = st \<and> x \<noteq> KeyConflict \<and>
          (\<exists>ags. insert_run (base w) st (queued_row (fire_params st a ags)) = Inl x)
      | Failed (RunError AgenciesUnwritten) \<Rightarrow> ss_pending st' = ss_pending st \<and>
          (\<exists>r \<in> set (runs_of st'). d_status r = ''failure'' \<and> d_queued_reason r = Some ReasonRunAgenciesUnwritten \<and>
             d_id r \<notin> d_id ` set (runs_of st)))"

lemma failed_row:
  assumes "EnqueueRunWithID w st p = (Inl e, st')"
  shows "ss_pending st' = ss_pending st \<and>
    (case e of InsertError x \<Rightarrow> st' = st \<and> insert_run w st (queued_row p) = Inl x
     | AgenciesUnwritten \<Rightarrow> (\<exists>r \<in> set (runs_of st'). d_status r = ''failure'' \<and> d_queued_reason r = Some ReasonRunAgenciesUnwritten \<and>
       d_id r \<notin> d_id ` set (runs_of st)))"
proof (cases "insert_run w st (queued_row p)")
  case (Inl x)
  then show ?thesis using assms by (auto simp: EnqueueRunWithID_def)
next
  case (Inr x)
  obtain t st1 where x: "x = (t, st1)" by (cases x)
  from insert_run_Inr [OF Inr [unfolded x]] obtain now req where i:
    "runs_of st1 = runs_of st @ [live_of w (run_columns (catalog_of st) t now (queued_row p) (row_uid (catalog_of st) (queued_row p)) req)]"
    "t \<notin> d_id ` set (runs_of st)" by auto
  let ?x = "live_of w (run_columns (catalog_of st) t now (queued_row p) (row_uid (catalog_of st) (queued_row p)) req)"
  obtain f where f: "cl_runs (snd (StampUnclaimableReason (gd_dispatch (ss_db st1)) t)) = map f (cl_runs (gd_dispatch (ss_db st1)))"
    "\<forall>r. d_id (f r) = d_id r \<and> d_concurrency_key (f r) = d_concurrency_key r \<and> active (f r) = active r \<and> d_status (f r) = d_status r \<and>
       d_job_uid (f r) = d_job_uid r \<and> d_job_name (f r) = d_job_name r"
    using stamp_runs by metis
  let ?g = "close_unwritten t (sw_stamp w)"
  have "\<not> sw_sync w t" and ex: "e = AgenciesUnwritten" using assms Inr x by (auto simp: EnqueueRunWithID_def Let_def split: if_splits)
  then have r: "runs_of st' = map ?g (map f (runs_of st1))"
    using assms Inr x f(1) by (auto simp: EnqueueRunWithID_def Let_def runs_of_def with_dispatch_def with_runs_def)
  have "?g (f ?x) \<in> set (runs_of st')" unfolding r i(1) by simp
  moreover have "d_id (f ?x) = t" "waiting (f ?x)"
    using f(2) by (simp_all add: run_columns_def Let_def queued_row_def statusOrDefault_def)
  ultimately show ?thesis using i(2) EnqueueRunWithID_effect [OF assms]
    unfolding ex enqueue_error.case by (intro conjI bexI [of _ "?g (f ?x)"]) (simp_all add: close_unwritten_def)
qed

lemma skip_fire_accounted:
  assumes "ids_fresh (base w) st" and "e_JobName p = fa_job a" and "e_ScheduleName p = fa_schedule a"
  shows "fire_accounted w st a (fst (skip_fire w st p k)) (snd (skip_fire w st p k))"
  using recordSuppression_leaves [OF assms(1), of p k] assms(2,3) recorded_stands [of w st p k]
  by (auto simp: fire_accounted_def skip_fire_def recordSuppression_fields)

lemma start_fire_accounted:
  assumes "ids_fresh (base w) st" and p: "p = fire_params st a ags"
  shows "fire_accounted w st a (fst (start_fire w st p)) (snd (start_fire w st p))"
proof -
  have n: "e_JobName p = fa_job a" "e_ScheduleName p = fa_schedule a" "e_ConcurrencyKey p = fire_key a" using p by simp_all
  obtain res st' where e: "EnqueueRunWithID (base w) st p = (res, st')" by fastforce
  show ?thesis
  proof (cases res)
    case (Inr t)
    then show ?thesis using e started_row [of "base w" st p t st'] n by (simp add: start_fire_def fire_accounted_def)
  next
    case (Inl x)
    show ?thesis
    proof (cases "IsForbidConflict x")
      case True
      then have "st' = st" using EnqueueRunWithID_effect [OF e] Inl by (simp add: IsForbidConflict_def)
      then show ?thesis using e Inl True skip_fire_accounted [OF assms(1) n(1,2)] by (simp add: start_fire_def)
    next
      case False
      then show ?thesis using e Inl failed_row [of "base w" st p x st'] p
        by (auto simp: start_fire_def fire_accounted_def IsForbidConflict_def split: enqueue_error.splits)
    qed
  qed
qed

lemma enter_fire_accounted:
  assumes "ids_fresh (base w) st" and "p = fire_params st a ags"
  shows "fire_accounted w st a (fst (enter_fire w st a p)) (snd (enter_fire w st a p))"
proof (cases "HoldsGate (fa_policy a) \<and> CheckForbid st (fa_concKey a)")
  case False
  then show ?thesis using start_fire_accounted [OF assms] by (auto simp: enter_fire_def)
next
  case True
  note n = skip_fire_accounted [OF assms(1)]
  show ?thesis
  proof (cases "fa_policy a = PolicyQueue")
    case False
    then show ?thesis using True n [of p a] assms(2) by (simp add: enter_fire_def)
  next
    case q: True
    have k: "e_ConcurrencyKey p = fa_concKey a" using True assms(2) by (simp add: fire_key_def)
    show ?thesis
    proof (cases "TryQueue (base w) st p")
      case None
      then show ?thesis using True q k
        by (auto simp: enter_fire_def fire_accounted_def TryQueue_def insert_pending_def Let_def split: if_splits)
    next
      case (Some x)
      obtain b st' where x: "x = (b, st')" by (cases x)
      show ?thesis
      proof (cases b)
        case False
        then have "st' = st" using Some x by (auto simp: TryQueue_def Let_def split: if_splits)
        then show ?thesis using True q Some x False n [of "p\<lparr>e_ConcurrencyKey := []\<rparr>" a] assms(2) by (simp add: enter_fire_def)
      next
        case bt: True
        with Some x have "TryQueue (base w) st p = Some (True, st')" by simp
        from TryQueue_effect [OF this] obtain i row where r: "insert_pending (base w) st row = Some (i, st')"
          "queued_behind (e_ConcurrencyKey p) (row i)" "pd_name (row i) = e_JobName p" by metis
        then have "ss_pending st' = ss_pending st @ [row i]" "runs_of st' = runs_of st"
          by (auto simp: insert_pending_def Let_def split: if_splits)
        then show ?thesis using True q Some x bt r k assms(2)
          by (auto simp: enter_fire_def fire_accounted_def CheckForbid_def)
      qed
    qed
  qed
qed



end
