(* ===== verification/Sched_Account.thy ===== *)
theory Sched_Account
  imports Sched_Props
begin

text \<open>
  What the promotion of a parked row ends in (\<open>promoteOne\<close> of \<open>backend/internal/scheduler/pending.go\<close>): every
  due row stays, is missed with a reason and an alert, is dropped by its calendars, is handed to the
  engine, or becomes a waiting run; the one other end, a row taken off the queue whose run could not be
  written, is shown to be reachable.
\<close>

section \<open>A parked row through the holds\<close>

lemma list_ex_map: "list_ex P (map f xs) = list_ex (\<lambda>x. P (f x)) xs"
  by (induction xs) auto

lemma waiting_on_row:
  assumes "\<And>x. pd_id (f x) = pd_id x" and "\<And>x. pd_status (f x) = pd_status x"
  shows "waiting_row (on_row i f st) j = waiting_row st j"
proof -
  let ?g = "\<lambda>x. if pd_id x = i \<and> pd_status x = ''pending'' then f x else x"
  have "(pd_id (?g x) = j \<and> pd_status (?g x) = ''pending'') = (pd_id x = j \<and> pd_status x = ''pending'')" for x
    using assms by simp
  then show ?thesis unfolding waiting_row_def on_row_pending list_ex_map by simp
qed

lemma held_fields [simp]:
  "waiting_row (holdForGate i g st) j = waiting_row st j" "runs_of (holdForGate i g st) = runs_of st"
  "ss_fired (holdForGate i g st) = ss_fired st"
  "waiting_row (clearGateHold p st) j = waiting_row st j" "runs_of (clearGateHold p st) = runs_of st"
  "ss_fired (clearGateHold p st) = ss_fired st" "ss_db (clearGateHold p st) = ss_db st"
  "waiting_row (holdForRecycleBin i st) j = waiting_row st j" "runs_of (holdForRecycleBin i st) = runs_of st"
  "ss_fired (holdForRecycleBin i st) = ss_fired st"
  "waiting_row (clearRecycleBinHold i st) j = waiting_row st j" "runs_of (clearRecycleBinHold i st) = runs_of st"
  "ss_fired (clearRecycleBinHold i st) = ss_fired st" "ss_db (clearRecycleBinHold i st) = ss_db st"
  by (simp_all add: holdForGate_def clearGateHold_def holdForRecycleBin_def clearRecycleBinHold_def waiting_on_row)

lemma waiting_removed [simp]: "\<not> waiting_row (remove_row i st) i"
  by (auto simp: waiting_row_def remove_row_def list_ex_iff)

lemma removed_fields [simp]: "runs_of (remove_row i st) = runs_of st" "ss_fired (remove_row i st) = ss_fired st"
  "ss_db (remove_row i st) = ss_db st"
  by (simp_all add: remove_row_def runs_of_def)

lemma waiting_fired [simp]: "waiting_row (st\<lparr>ss_fired := fs\<rparr>) i = waiting_row st i"
  by (simp add: waiting_row_def)

lemma waiting_pending: "ss_pending st' = ss_pending st \<Longrightarrow> waiting_row st' i = waiting_row st i"
  by (simp add: waiting_row_def)

lemma recordWorkflowSuppression_fields [simp]:
  "ss_pending (recordWorkflowSuppression w u s n sch k st) = ss_pending st"
  "ss_fired (recordWorkflowSuppression w u s n sch k st) = ss_fired st"
  "runs_of (recordWorkflowSuppression w u s n sch k st) = runs_of st"
  by (auto simp: recordWorkflowSuppression_def recordSkippedWorkflowFire_def notifySuppressed_def Let_def runs_of_def
      split: prod.splits bool.splits)

section \<open>A miss\<close>

definition miss_row :: "string \<Rightarrow> string \<Rightarrow> sched \<Rightarrow> bool" where
  "miss_row i reason st \<longleftrightarrow> list_ex (\<lambda>x. pd_id x = i \<and> pd_status x = ''missed'' \<and> pd_miss x = Some reason) (ss_pending st)"

definition miss_alert :: "pending_row \<Rightarrow> string \<Rightarrow> notice" where
  "miss_alert p reason = MissedRun (if pd_kind p = ''workflow'' then ''workflow'' else []) (pd_name p) reason"

lemma reportPendingMiss_fields:
  "ss_pending (reportPendingMiss w p reason st) = ss_pending st" "ss_fired (reportPendingMiss w p reason st) = ss_fired st"
  "miss_alert p reason \<in> set (ss_notices (reportPendingMiss w p reason st))"
  by (simp_all add: reportPendingMiss_def alertPendingMiss_def miss_alert_def recordSuppression_fields)

lemma missed_leaves:
  assumes "waiting_row st (pd_id p)"
  shows "miss_row (pd_id p) reason (markPendingMissed w p reason st)"
    "miss_alert p reason \<in> set (ss_notices (markPendingMissed w p reason st))"
    "ss_fired (markPendingMissed w p reason st) = ss_fired st"
proof -
  let ?st = "on_row (pd_id p) (\<lambda>x. x\<lparr>pd_status := ''missed'', pd_miss := Some reason\<rparr>) st"
  have m: "markPendingMissed w p reason st = reportPendingMiss w p reason ?st" using assms by (simp add: markPendingMissed_def)
  have "miss_row (pd_id p) reason ?st"
    using assms unfolding miss_row_def waiting_row_def on_row_pending list_ex_map by (auto simp: list_ex_iff)
  then show "miss_row (pd_id p) reason (markPendingMissed w p reason st)"
    by (simp add: m miss_row_def reportPendingMiss_fields)
  show "miss_alert p reason \<in> set (ss_notices (markPendingMissed w p reason st))"
    unfolding m by (rule reportPendingMiss_fields)
  show "ss_fired (markPendingMissed w p reason st) = ss_fired st" by (simp add: m reportPendingMiss_fields)
qed

section \<open>The ends\<close>

text \<open>What each end of \<open>promoteOne\<close> means for the row's id \<open>i\<close>.\<close>

definition dropped_params :: "pending_row \<Rightarrow> enqueue_params" where
  "dropped_params p = (let q = named_params p in if e_JobUID q = [] then q\<lparr>e_JobUID := coalesce (pd_uid p) []\<rparr> else q)"

definition workflow_drop_record :: "pending_row \<Rightarrow> gate_outcome \<Rightarrow> skip_record" where
  "workflow_drop_record p g =
     (let k = drop_record p g in if sk_TriggeredBy k = [] then k\<lparr>sk_TriggeredBy := pd_by p\<rparr> else k)"

text \<open>A drop leaves a skipped entry with the gate's reason, unless the day's entry already stands.\<close>

definition drop_left :: "fire_world \<Rightarrow> sched \<Rightarrow> pending_row \<Rightarrow> gate_outcome \<Rightarrow> sched \<Rightarrow> bool" where
  "drop_left w st p g st' \<longleftrightarrow>
     (if pd_kind p = ''workflow''
      then workflowSkipAlreadyRecorded (base w) (remove_row (pd_id p) st) (coalesce (pd_uid p) []) (pd_source p) (pd_name p) []
          (workflow_drop_record p g) \<or>
        list_ex (\<lambda>r. we_status r = ''skipped'' \<and> we_reason r = Some (go_Reason g) \<and> we_name r = pd_name p) (ss_wfruns st')
      else skipAlreadyRecorded (base w) (remove_row (pd_id p) st) (dropped_params p) (drop_record p g) \<or>
        list_ex (\<lambda>r. d_status r = ''skipped'' \<and> d_queued_reason r = nullStr (go_Reason g) \<and>
          d_job_name r = e_JobName (dropped_params p)) (runs_of st'))"

definition promotion_accounted :: "sched \<Rightarrow> pending_row \<Rightarrow> promote_end \<Rightarrow> sched \<Rightarrow> bool" where
  "promotion_accounted st p e st' \<longleftrightarrow>
     (case e of
        PMissed reason \<Rightarrow> miss_row (pd_id p) reason st' \<and> miss_alert p reason \<in> set (ss_notices st') \<and> ss_fired st' = ss_fired st
      | PDropped \<Rightarrow> \<not> waiting_row st' (pd_id p) \<and> ss_fired st' = ss_fired st
      | PRun t \<Rightarrow> \<not> waiting_row st' (pd_id p) \<and> ss_fired st' = ss_fired st \<and> t \<notin> d_id ` set (runs_of st) \<and>
          list_ex (\<lambda>r. d_id r = t \<and> waiting r) (runs_of st')
      | PWorkflow \<Rightarrow> \<not> waiting_row st' (pd_id p) \<and> runs_of st' = runs_of st \<and>
          (\<exists>uid. ss_fired st' = ss_fired st @ [workflow_envelope p uid])
      | PRaced \<Rightarrow> False
      | PLost e \<Rightarrow> \<not> waiting_row st' (pd_id p) \<and> ss_fired st' = ss_fired st
      | _ \<Rightarrow> waiting_row st' (pd_id p) \<and> runs_of st' = runs_of st \<and> ss_fired st' = ss_fired st)"

text \<open>What is left of a row whose run was not written: for a refused insert nothing at all, neither of the run nor of the
  row; for agencies that could not be written the run, closed with that reason.\<close>

definition lost_left :: "fire_world \<Rightarrow> sched \<Rightarrow> pending_row \<Rightarrow> enqueue_error \<Rightarrow> sched \<Rightarrow> bool" where
  "lost_left w st p x st' \<longleftrightarrow> (\<exists>q. pd_params p = Some (Frozen q) \<and>
     (case x of
        InsertError y \<Rightarrow> insert_run (base w) st (queued_row (promoted_params p q)) = Inl y \<and> (HoldsGate (e_Policy q) \<longrightarrow> y \<noteq> KeyConflict) \<and>
          runs_of st' = runs_of st \<and> ss_wfruns st' = ss_wfruns st \<and> ss_notices st' = ss_notices st \<and>
          \<not> list_ex (\<lambda>r. pd_id r = pd_id p \<and> pd_status r = ''pending'') (ss_pending st')
      | AgenciesUnwritten \<Rightarrow> list_ex (\<lambda>r. d_status r = ''failure'' \<and> d_queued_reason r = Some ReasonRunAgenciesUnwritten \<and>
          d_id r \<notin> d_id ` set (runs_of st)) (runs_of st')))"

lemma insert_refused_cong:
  "insert_run w st r = Inl y \<Longrightarrow> ss_db st' = ss_db st \<Longrightarrow> ss_minted st' = ss_minted st \<Longrightarrow> insert_run w st' r = Inl y"
  by (auto simp: insert_run_def Let_def runs_of_def catalog_of_def split: if_splits option.splits)

lemma cleared_fields [simp]:
  "ss_minted (clearRecycleBinHold i st) = ss_minted st" "ss_wfruns (clearRecycleBinHold i st) = ss_wfruns st"
  "ss_notices (clearRecycleBinHold i st) = ss_notices st" "ss_minted (remove_row i st) = ss_minted st"
  "ss_wfruns (remove_row i st) = ss_wfruns st" "ss_notices (remove_row i st) = ss_notices st"
  "ss_minted (clearGateHold p st) = ss_minted st" "ss_wfruns (clearGateHold p st) = ss_wfruns st"
  "ss_notices (clearGateHold p st) = ss_notices st"
  by (simp_all add: clearRecycleBinHold_def clearGateHold_def remove_row_def on_row_def)

lemma lost_left_same:
  assumes "lost_left w st1 p x st'" and "ss_db st1 = ss_db st" "ss_minted st1 = ss_minted st" "ss_wfruns st1 = ss_wfruns st"
    "ss_notices st1 = ss_notices st"
  shows "lost_left w st p x st'"
proof -
  have r: "runs_of st1 = runs_of st" using assms(2) by (simp add: runs_of_def)
  from assms(1) show ?thesis
    unfolding lost_left_def r assms(4,5) using insert_refused_cong [OF _ assms(2,3) [symmetric]]
    by (cases x) auto
qed

lemma EnqueueRunWithID_fired: "ss_fired (snd (EnqueueRunWithID w st p)) = ss_fired st"
  by (auto simp: EnqueueRunWithID_def insert_run_def Let_def with_dispatch_def with_runs_def split: sum.split option.split prod.split)

lemma deletePending_waiting: "waiting_row st i \<Longrightarrow> deletePending i st = Some (remove_row i st)"
  by (simp add: deletePending_def)

text \<open>A row that passed every gate loses its run only to an insert the database refused, and a row whose policy
  holds the key never to the key: the key was free a moment ago.\<close>

lemma enter_promotion_accounted:
  assumes "waiting_row st (pd_id p)" and "enter_promotion w st p q = (e, st')"
    and "pd_params p = Some (Frozen q)"
  shows "promotion_accounted st p e st' \<and> (\<forall>x. e = PLost x \<longrightarrow> lost_left w st p x st')"
proof (cases "HoldsGate (e_Policy q) \<and> CheckForbid st (e_ConcurrencyKey q)")
  case True
  then show ?thesis using assms by (simp add: enter_promotion_def promotion_accounted_def)
next
  case False
  let ?st = "remove_row (pd_id p) st"
  obtain res st2 where e: "EnqueueRunWithID (base w) ?st (promoted_params p q) = (res, st2)" by fastforce
  have f: "ss_fired st2 = ss_fired st" using EnqueueRunWithID_fired [of "base w" ?st "promoted_params p q"] e by simp
  have w: "\<not> waiting_row st2 (pd_id p)"
    using EnqueueRunWithID_effect [OF e] waiting_pending [of st2 ?st "pd_id p"] by simp
  note r = enter_promotion_start [OF False deletePending_waiting [OF assms(1)] e]
  show ?thesis
  proof (cases res)
    case (Inr t)
    with started_row [OF e [unfolded Inr]] show ?thesis
      using assms(2) r f w by (auto simp: promotion_accounted_def list_ex_iff)
  next
    case (Inl x)
    have "x \<noteq> InsertError KeyConflict" if h: "HoldsGate (e_Policy q)"
    proof
      assume "x = InsertError KeyConflict"
      then have "insert_run (base w) ?st (queued_row (promoted_params p q)) = Inl KeyConflict"
        using EnqueueRunWithID_effect [OF e] Inl by simp
      then have "key_taken (runs_of st) (e_ConcurrencyKey (promoted_params p q))"
        by (auto simp: insert_run_def Let_def queued_row_def split: if_splits option.splits)
      then show False using False h by (simp add: CheckForbid_def promoted_params_def Let_def split: if_splits)
    qed
    moreover have "case x of InsertError y \<Rightarrow> st2 = ?st \<and> insert_run (base w) ?st (queued_row (promoted_params p q)) = Inl y
        | AgenciesUnwritten \<Rightarrow> (\<exists>r \<in> set (runs_of st2). d_status r = ''failure'' \<and> d_queued_reason r = Some ReasonRunAgenciesUnwritten \<and>
             d_id r \<notin> d_id ` set (runs_of ?st))"
      using failed_row [OF e [unfolded Inl]] by blast
    moreover have "insert_run (base w) st (queued_row (promoted_params p q)) = Inl y"
      if "insert_run (base w) ?st (queued_row (promoted_params p q)) = Inl y" for y
      using that by (rule insert_refused_cong) simp_all
    moreover have "\<not> list_ex (\<lambda>r. pd_id r = pd_id p \<and> pd_status r = ''pending'') (ss_pending ?st)"
      using waiting_removed unfolding waiting_row_def .
    ultimately have "lost_left w st p x st2"
      unfolding lost_left_def using assms(3) by (cases x) (auto simp: list_ex_iff)
    then show ?thesis using assms(2) r f w Inl by (auto simp: promotion_accounted_def)
  qed
qed

lemma accounted_same:
  assumes "promotion_accounted st1 p e st'" and "runs_of st1 = runs_of st" and "ss_fired st1 = ss_fired st"
  shows "promotion_accounted st p e st'"
  using assms unfolding promotion_accounted_def by (cases e) simp_all

lemma promote_job_accounted:
  assumes "waiting_row st (pd_id p)" and "promote_job w st p = (e, st')"
  shows "promotion_accounted st p e st' \<and> (\<forall>x. e = PLost x \<longrightarrow> lost_left w st p x st')"
proof -
  have miss: "promotion_accounted st p (PMissed m) (markPendingMissed w p m x)" if "waiting_row x (pd_id p)" "ss_fired x = ss_fired st" for x m
    using missed_leaves [OF that(1), where w = w and reason = m] that(2) by (simp add: promotion_accounted_def)
  note m0 = miss [OF assms(1) refl]
  show ?thesis
  proof (cases "pd_params p")
    case None
    then show ?thesis using assms(2) m0 by (auto simp: promote_job_def)
  next
    case (Some f)
    show ?thesis
    proof (cases f)
      case (Unreadable x)
      then show ?thesis using Some assms(2) m0 by (auto simp: promote_job_def)
    next
      case (Frozen q)
      let ?st = "clearRecycleBinHold (pd_id p) st"
      have m1: "promotion_accounted st p (PMissed m) (markPendingMissed w p m ?st)" for m by (rule miss) (simp_all add: assms(1))
      show ?thesis
      proof (cases "parked_job st q")
        case None
        then show ?thesis using Some Frozen assms(2) m0 by (auto simp: promote_job_def)
      next
        case (Some j)
        note g = \<open>pd_params p = Some f\<close> Frozen Some assms(2) promote_job_def [of w st p]
        consider (bin) "def_row.dr_deleted j"
          | (repo) "\<not> def_row.dr_deleted j" "RepoScopeMismatch (ss_db ?st) (e_JobUID q) (jobSourceOrDefault q) (e_JobName q) (e_Scope q)"
          | (checkout) "\<not> def_row.dr_deleted j" "\<not> RepoScopeMismatch (ss_db ?st) (e_JobUID q) (jobSourceOrDefault q) (e_JobName q) (e_Scope q)"
              "CheckoutNeedsAgent (ss_db ?st) (e_JobUID q) (jobSourceOrDefault q) (e_JobName q) (e_Scope q)"
          | (enter) "enter_promotion w ?st p q = (e, st')"
          using g by (auto simp: Let_def split: if_splits)
        then show ?thesis
        proof cases
          case bin
          then show ?thesis using g assms(1) by (auto simp: promotion_accounted_def)
        next
          case repo
          then show ?thesis using g m1 by (auto simp: Let_def)
        next
          case checkout
          then show ?thesis using g m1 by (auto simp: Let_def)
        next
          case enter
          have wt: "waiting_row ?st (pd_id p)" using assms(1) by simp
          have pq: "pd_params p = Some (Frozen q)" using \<open>pd_params p = Some f\<close> Frozen by simp
          from enter_promotion_accounted [OF wt enter pq] accounted_same [of ?st p e st' st] lost_left_same [of w ?st p _ st' st]
          show ?thesis by simp
        qed
      qed
    qed
  qed
qed

lemma promote_workflow_accounted:
  assumes "waiting_row st (pd_id p)" and "promote_workflow firer w st p = (e, st')"
  shows "promotion_accounted st p e st' \<and> (\<forall>x. e \<noteq> PLost x)"
proof (cases firer)
  case False
  then show ?thesis using assms by (auto simp: promote_workflow_def promotion_accounted_def)
next
  case True
  show ?thesis
  proof (cases "parked_workflow st p")
    case (Inl m)
    then show ?thesis using assms True missed_leaves [OF assms(1), where w = w and reason = m] by (auto simp: promote_workflow_def promotion_accounted_def)
  next
    case (Inr x)
    have "waiting_row (clearRecycleBinHold (pd_id p) st) (pd_id p)" using assms(1) by simp
    from deletePending_waiting [OF this] show ?thesis
      using Inr assms True by (cases x) (auto simp: promote_workflow_def promotion_accounted_def split: if_splits)
  qed
qed

lemma wf_suppression_leaves:
  "workflowSkipAlreadyRecorded w st u s n sch k \<or>
   list_ex (\<lambda>r. we_status r = ''skipped'' \<and> we_reason r = Some (sk_Reason k) \<and> we_name r = n)
     (ss_wfruns (recordWorkflowSuppression w u s n sch k st))"
  by (simp add: recordWorkflowSuppression_def recordSkippedWorkflowFire_def notifySuppressed_def Let_def)

lemma dropped:
  assumes "ids_fresh (base w) st" and "waiting_row st (pd_id p)"
  shows "drop_left w st p g (dropForCalendars w p g st) \<and> promotion_accounted st p PDropped (dropForCalendars w p g st)"
proof -
  let ?st = "remove_row (pd_id p) st" and ?k = "drop_record p g"
  have k: "sk_Reason ?k = go_Reason g" by (simp add: drop_record_def plain_skip_def Let_def)
  have id: "ids_fresh (base w) ?st" using assms(1) by (simp add: ids_fresh_def remove_row_def runs_of_def)
  show ?thesis
  proof (cases "pd_kind p = ''workflow''")
    case True
    let ?k' = "workflow_drop_record p g"
    let ?u = "coalesce (pd_uid p) []"
    have d: "dropForCalendars w p g st = recordWorkflowSuppression (base w) ?u (pd_source p) (pd_name p) [] ?k' ?st"
      using True by (simp add: dropForCalendars_def deletePending_waiting [OF assms(2)] workflow_drop_record_def Let_def)
    have k': "sk_Reason ?k' = go_Reason g" using k by (simp add: workflow_drop_record_def Let_def)
    have "\<not> waiting_row (dropForCalendars w p g st) (pd_id p)" "ss_fired (dropForCalendars w p g st) = ss_fired st"
      unfolding d using waiting_pending [of "recordWorkflowSuppression (base w) ?u (pd_source p) (pd_name p) [] ?k' ?st" ?st]
      by simp_all
    moreover have "drop_left w st p g (dropForCalendars w p g st)"
      using wf_suppression_leaves [of "base w" ?st ?u "pd_source p" "pd_name p" "[]" ?k'] k' True
      unfolding drop_left_def d by metis
    ultimately show ?thesis by (simp add: promotion_accounted_def)
  next
    case False
    let ?q = "dropped_params p"
    have d: "dropForCalendars w p g st = recordSuppression (base w) ?q ?k ?st"
      using False by (simp add: dropForCalendars_def deletePending_waiting [OF assms(2)] dropped_params_def Let_def)
    have "\<not> waiting_row (dropForCalendars w p g st) (pd_id p)" "ss_fired (dropForCalendars w p g st) = ss_fired st"
      unfolding d using waiting_pending [of "recordSuppression (base w) ?q ?k ?st" ?st]
      by (simp_all add: recordSuppression_fields)
    moreover have "drop_left w st p g (dropForCalendars w p g st)"
      using recordSuppression_leaves [OF id, of ?q ?k] k False
      unfolding drop_left_def d list_ex_iff by metis
    ultimately show ?thesis by (simp add: promotion_accounted_def)
  qed
qed


section \<open>A small queue\<close>

definition demo_parked_row :: pending_row where
  "demo_parked_row = \<lparr>pd_id = ''p1'', pd_kind = ''job'', pd_name = ''nightly'', pd_source = ''cronomicon'', pd_uid = Some ''u1'',
     pd_runAt = ''2026-12-23T08:00:00Z'', pd_by = ''alice'',
     pd_params = Some (Frozen (demo_params\<lparr>e_TriggerKind := ''manual'', e_TriggeredBy := ''alice'', e_RunType := ''bash''\<rparr>)),
     pd_originKind = None, pd_originRef = None, pd_originEnv = None, pd_depth = 0, pd_gate = None, pd_scope = None,
     pd_created = ''2026-12-22T08:00:00Z'', pd_status = ''pending'', pd_key = None, pd_miss = None\<rparr>"

definition demo_due_world :: fire_world where
  "demo_due_world = demo_fire_world\<lparr>sw_clock := demo_clock\<lparr>ck_parse := (\<lambda>_. Some 0)\<rparr>\<rparr>"

definition demo_due :: sched where "demo_due = demo_sched\<lparr>ss_pending := [demo_parked_row]\<rparr>"

lemma demo_due_ids: "ids_fresh (base demo_due_world) demo_due"
  using demo_ids_fresh by (simp add: ids_fresh_def demo_due_world_def demo_fire_world_def demo_due_def sched_world.defs runs_of_def)

lemma demo_due_runs: "fst (promoteOne True demo_due_world demo_due demo_parked_row) = PRun []" by code_simp


section \<open>The lost run\<close>

text \<open>The same row, of a job whose requirements column is not JSON.\<close>

definition demo_broken :: sched where
  "demo_broken = demo_due\<lparr>ss_db := demo_gate\<lparr>gd_jobs :=
     [demo_gate_job\<lparr>j_run_type := ''ansible'', j_become_secret := ''pw'', j_requires := Some JBad\<rparr>]\<rparr>\<rparr>"

text \<open>The end without a trace is reached: \<open>promoteOne\<close> takes the row off the queue before it writes the run, so after the
  promotion of this row there is no row, parked or missed, no run, no fire and no alert of it, and a later sweep has nothing to
  retry.\<close>

theorem a_parked_run_can_be_lost:
  "let (e, st) = promoteOne True demo_due_world demo_broken demo_parked_row
   in waiting_row demo_broken ''p1'' \<and> e = PLost (InsertError InsertFailed) \<and> ss_pending st = [] \<and> runs_of st = [] \<and>
      ss_fired st = [] \<and> ss_wfruns st = [] \<and> ss_notices st = []"
  by code_simp

end
