(* ===== verification/Sched_Race.thy ===== *)
theory Sched_Race
  imports Sched_Account
begin

text \<open>
  Calls of \<open>TryQueue\<close> (\<open>backend/internal/scheduler/queue.go\<close>) that overlap. The clock's fires run each on a
  goroutine of its own, and the API and the file watcher park rows too; \<open>TryQueue\<close> counts the queue and inserts the row in two
  statements, with no transaction around them. The step relation of the scheduler's tables is run here with every call of it
  open between the two: what is bounded then, and by how much the queue can pass its bound.
\<close>

section \<open>Open calls\<close>

text \<open>The tables, the calls that have counted and not yet inserted, and for each key the largest number of its calls that were
  open at one time.\<close>

record race =
  ra_sched :: sched
  ra_open :: "enqueue_params list"
  ra_peak :: "string \<Rightarrow> nat"

definition calls :: "string \<Rightarrow> enqueue_params list \<Rightarrow> nat" where
  "calls k ps = length (filter (\<lambda>p. e_ConcurrencyKey p = k) ps)"

definition open_call :: "enqueue_params \<Rightarrow> race \<Rightarrow> race" where
  "open_call p s = s\<lparr>ra_open := p # ra_open s,
     ra_peak := (ra_peak s)(e_ConcurrencyKey p := max (ra_peak s (e_ConcurrencyKey p)) (calls (e_ConcurrencyKey p) (ra_open s) + 1))\<rparr>"

definition close_call :: "enqueue_params \<Rightarrow> race \<Rightarrow> race" where
  "close_call p s = s\<lparr>ra_open := remove1 p (ra_open s)\<rparr>"

inductive race_step :: "race \<Rightarrow> race \<Rightarrow> bool" where
  other_step: "sched_step (ra_sched s) st' \<Longrightarrow> race_step s (s\<lparr>ra_sched := st'\<rparr>)"
| count: "e_ConcurrencyKey p \<noteq> [] \<Longrightarrow> \<not> queue_full (ra_sched s) (e_ConcurrencyKey p) \<Longrightarrow> race_step s (open_call p s)"
| park: "p \<in> set (ra_open s) \<Longrightarrow> insert_pending w (ra_sched s) (behind_row w (ra_sched s) p) = Some (i, st') \<Longrightarrow>
    race_step s (close_call p (s\<lparr>ra_sched := st'\<rparr>))"
| give_up: "p \<in> set (ra_open s) \<Longrightarrow> race_step s (close_call p s)"

inductive race_reach :: "race \<Rightarrow> race \<Rightarrow> bool" where
  here: "race_reach s s"
| more: "race_reach s t \<Longrightarrow> race_step t u \<Longrightarrow> race_reach s u"

lemma race_two: "race_step s t \<Longrightarrow> race_step t u \<Longrightarrow> race_reach s u"
  by (blast intro: race_reach.intros)

section \<open>The depth of a queue\<close>

definition depth :: "string \<Rightarrow> sched \<Rightarrow> nat" where
  "depth k st = length (filter (queued_behind k) (ss_pending st))"

lemma QueueDepth_depth: "k \<noteq> [] \<Longrightarrow> QueueDepth st k = depth k st"
  by (simp add: QueueDepth_def depth_def)

text \<open>No operation but the insert of a parked row makes a queue longer.\<close>

interpretation depths: sched_drains "\<lambda>st. depth k st \<le> c" for k c
proof
  fix st st' :: sched and f :: "pending_row \<Rightarrow> pending_row" and q
  assume d: "depth k st \<le> c" and st': "ss_pending st' = map f (filter q (ss_pending st))"
    and b: "\<And>p k. queued_behind k (f p) \<Longrightarrow> queued_behind k p"
  have "length (filter (queued_behind k) (map f (filter q rows))) \<le> length (filter (queued_behind k) rows)" for rows
    by (induction rows) (auto dest: b)
  then show "depth k st' \<le> c" using d unfolding depth_def st' by (rule order_trans)
next
  fix st st' :: sched and w p t
  assume d: "depth k st \<le> c" and "insert_run w st (queued_row p) = Inr (t, st')"
  from insert_run_row [OF this(2)] have "ss_pending st' = ss_pending st" by blast
  then show "depth k st' \<le> c" using d by (simp add: depth_def)
next
  fix st st' :: sched and w p t kk
  assume d: "depth k st \<le> c" and "insert_run w st (skipped_run p kk) = Inr (t, st')"
  from insert_run_row [OF this(2)] have "ss_pending st' = ss_pending st" by blast
  then show "depth k st' \<le> c" using d by (simp add: depth_def)
qed (simp_all add: depth_def)

lemma parked_free:
  assumes "insert_pending w st row = Some (i, st')" and "pd_gate (row i) = None"
  shows "depth k st' = depth k st"
  using assms by (auto simp: depth_def insert_pending_def queued_behind_def Let_def split: if_splits)

lemma depth_step:
  assumes "sched_step st st'"
  shows "depth k st' \<le> depth k st"
proof -
  note d = order_refl [of "depth k st"]
  note h = depths.holds [OF d]
  show ?thesis using assms
  proof cases
    case (clock w a)
    then show ?thesis using depths.fires_unparked [OF d] by blast
  next
    case (clock_workflow firer w wa)
    then show ?thesis using depths.workflow_fires [OF d] by blast
  next
    case (promotion firer w)
    then show ?thesis using depths.promotes [OF d] by blast
  next
    case (trigger b p)
    then show ?thesis using depths.enqueue [OF d] by blast
  next
    case (defer_run b kind name source scope runAt who params i)
    then show ?thesis unfolding InsertPendingRun_def Let_def by (rule eq_refl [OF parked_free]) simp
  next
    case (defer_reaction b x i)
    then show ?thesis unfolding InsertReactionPendingRun_def by (rule eq_refl [OF parked_free]) simp
  next
    case (write_row b r t)
    from insert_run_row [OF write_row] have "ss_pending st' = ss_pending st" by blast
    then show ?thesis by (simp add: depth_def)
  next
    case stamp_reason
    then show ?thesis using depths.stamped [OF d] by blast
  next
    case close_row
    then show ?thesis using depths.closed [OF d] by blast
  qed (use h in \<open>simp_all add: depth_def\<close>)
qed

lemma park_depth:
  assumes "insert_pending w st (behind_row w st p) = Some (i, st')"
  shows "depth k st' = depth k st + (if e_ConcurrencyKey p = k then 1 else 0)"
  using assms by (auto simp: insert_pending_def depth_def behind_row_def queued_behind_def Let_def split: if_splits)

lemma park_inv:
  assumes "insert_pending w st (behind_row w st p) = Some (i, st')" and "sched_inv (QueueCap + n) st"
  shows "sched_inv (QueueCap + Suc n) st'"
proof -
  have "sched_inv (QueueCap + Suc n) st" using assms(2) by (fastforce simp: sched_inv_def bounded_def le_Suc_eq)
  moreover have "length (filter (queued_behind k) (ss_pending st)) < QueueCap + Suc n" for k
    using assms(2) by (simp add: sched_inv_def bounded_def less_Suc_eq_le)
  ultimately show ?thesis by (intro inv_insert_pending [OF _ assms(1)]) (simp_all add: behind_row_def)
qed

lemma calls_close: "p \<in> set ps \<Longrightarrow> calls k (remove1 p ps) + (if e_ConcurrencyKey p = k then 1 else 0) = calls k ps"
  by (induction ps) (auto simp: calls_def)

section \<open>The bound\<close>

definition race_inv :: "race \<Rightarrow> bool" where
  "race_inv s \<longleftrightarrow> (\<exists>n. sched_inv (QueueCap + n) (ra_sched s)) \<and>
     (\<forall>k. depth k (ra_sched s) + calls k (ra_open s) + 1 \<le> QueueCap + ra_peak s k)"

lemma race_inv_step:
  assumes "race_step s t" and "race_inv s"
  shows "race_inv t"
proof -
  from assms(2) obtain n where n: "sched_inv (QueueCap + n) (ra_sched s)"
    and b: "\<And>k. depth k (ra_sched s) + calls k (ra_open s) + 1 \<le> QueueCap + ra_peak s k" by (auto simp: race_inv_def)
  show ?thesis using assms(1)
  proof cases
    case (other_step st')
    have "depth k st' + calls k (ra_open s) + 1 \<le> QueueCap + ra_peak s k" for k
      using depth_step [OF other_step(2), of k] b [of k] by linarith
    then show ?thesis using other_step inv_step [OF other_step(2) n] by (auto simp: race_inv_def)
  next
    case (count p)
    then have "depth (e_ConcurrencyKey p) (ra_sched s) < QueueCap" by (simp add: queue_full_def QueueDepth_depth)
    then show ?thesis using count(1) n b by (auto simp: race_inv_def open_call_def calls_def)
  next
    case (park p w i st')
    have "depth k st' + calls k (remove1 p (ra_open s)) + 1 \<le> QueueCap + ra_peak s k" for k
      using park_depth [OF park(3), of k] calls_close [OF park(2), of k] b [of k] by (simp split: if_splits)
    then show ?thesis using park(1) exI [of "\<lambda>m. sched_inv (QueueCap + m) st'", OF park_inv [OF park(3) n]]
      by (simp add: race_inv_def close_call_def)
  next
    case (give_up p)
    have "depth k (ra_sched s) + calls k (remove1 p (ra_open s)) + 1 \<le> QueueCap + ra_peak s k" for k
      using calls_close [OF give_up(2), of k] b [of k] by (simp split: if_splits)
    then show ?thesis using give_up(1) n by (auto simp: race_inv_def close_call_def)
  qed
qed

lemma race_inv_reach: "race_reach s t \<Longrightarrow> race_inv s \<Longrightarrow> race_inv t"
  by (induction rule: race_reach.induct) (auto intro: race_inv_step)

text \<open>A call that nothing comes between is a count and an insert, and leaves no call open; so is a fire that parks.\<close>

lemma TryQueue_race:
  assumes "TryQueue w st p = Some (b, st')" and "1 \<le> pk (e_ConcurrencyKey p)"
  shows "race_reach \<lparr>ra_sched = st, ra_open = [], ra_peak = pk\<rparr> \<lparr>ra_sched = st', ra_open = [], ra_peak = pk\<rparr>"
proof (cases b)
  case False
  then have "st' = st" using assms(1) by (auto simp: TryQueue_def Let_def split: if_splits)
  then show ?thesis by (auto intro: here)
next
  case True
  let ?s = "\<lparr>ra_sched = st, ra_open = [], ra_peak = pk\<rparr>"
  from assms(1) True obtain i where k: "e_ConcurrencyKey p \<noteq> []" "\<not> queue_full st (e_ConcurrencyKey p)"
    and i: "insert_pending w st (behind_row w st p) = Some (i, st')" by (auto simp: TryQueue_def Let_def split: if_splits)
  have o: "open_call p ?s = \<lparr>ra_sched = st, ra_open = [p], ra_peak = pk\<rparr>"
    using assms(2) by (auto simp: open_call_def calls_def max_absorb1 fun_upd_idem)
  have "race_step ?s (open_call p ?s)" by (rule count) (simp_all add: k)
  moreover have "race_step (open_call p ?s) (close_call p ((open_call p ?s)\<lparr>ra_sched := st'\<rparr>))"
    by (rule park [where w = w and i = i]) (simp_all add: o i)
  ultimately show ?thesis using race_two by (fastforce simp: o close_call_def)
qed

lemma fire_race:
  assumes "1 \<le> pk (fa_concKey a)"
  shows "race_reach \<lparr>ra_sched = st, ra_open = [], ra_peak = pk\<rparr> \<lparr>ra_sched = snd (fire w st a), ra_open = [], ra_peak = pk\<rparr>"
proof (cases "fst (fire w st a) = Parked")
  case False
  have "race_step \<lparr>ra_sched = st, ra_open = [], ra_peak = pk\<rparr> (\<lparr>ra_sched = st, ra_open = [], ra_peak = pk\<rparr>\<lparr>ra_sched := snd (fire w st a)\<rparr>)"
    by (rule other_step) (simp add: clock False)
  then show ?thesis by (auto intro: here more)
next
  case True
  then obtain ags st' where q: "TryQueue (base w) st (fire_params st a ags) = Some (True, st')" "snd (fire w st a) = st'"
    "HoldsGate (fa_policy a)"
    by (auto simp: fire_def enter_fire_def skip_fire_def start_fire_def
        split: option.splits stop.splits prod.splits bool.splits sum.splits if_splits)
  then show ?thesis using TryQueue_race [OF q(1), of pk] assms by (simp add: fire_key_def)
qed

text \<open>C32: whatever the order of the clock's fires, promotions, triggers, claims, ends, cancellations, administration and the
  single writes these are made of, with calls that park a row behind a key open side by side between their count and their
  insert: one active run at most holds a key, ids of runs and of parked rows stay unique, and the queue behind a key passes
  its bound by at most the number of the key's calls that were ever open at one time, less one: calls of a key that
  never overlap keep it.\<close>

theorem keys_and_queues_stay_bounded:
  assumes "race_reach s t" and "ra_open s = []" and "ra_peak s = (\<lambda>_. 1)" and "sched_inv QueueCap (ra_sched s)"
  shows "length (filter (\<lambda>r. d_concurrency_key r = Some k \<and> active r) (runs_of (ra_sched t))) \<le> 1 \<and>
    distinct (map d_id (runs_of (ra_sched t))) \<and> distinct (map pd_id (ss_pending (ra_sched t))) \<and>
    QueueDepth (ra_sched t) k + 1 \<le> QueueCap + ra_peak t k \<and>
    (ra_peak t k = 1 \<longrightarrow> QueueDepth (ra_sched t) k \<le> QueueCap)"
proof -
  have "race_inv s" using assms(2-4)
    by (auto simp: race_inv_def sched_inv_def bounded_def depth_def calls_def intro!: exI [of _ 0])
  from race_inv_reach [OF assms(1) this] obtain n where n: "sched_inv (QueueCap + n) (ra_sched t)"
    and b: "depth k (ra_sched t) + calls k (ra_open t) + 1 \<le> QueueCap + ra_peak t k" by (auto simp: race_inv_def)
  have h: "holds_key k = (\<lambda>r. d_concurrency_key r = Some k \<and> active r)" by (simp add: fun_eq_iff holds_key_def)
  have "length (filter (holds_key k) (runs_of (ra_sched t))) \<le> 1" using n by (simp add: sched_inv_def bounded_def)
  then have "length (filter (\<lambda>r. d_concurrency_key r = Some k \<and> active r) (runs_of (ra_sched t))) \<le> 1" by (simp add: h)
  moreover have "distinct (map d_id (runs_of (ra_sched t)))" "distinct (map pd_id (ss_pending (ra_sched t)))"
    using n by (simp_all add: sched_inv_def bounded_def)
  moreover have "QueueDepth (ra_sched t) k \<le> depth k (ra_sched t)" by (simp add: QueueDepth_def depth_def)
  ultimately show ?thesis using b by linarith
qed

section \<open>A queue past its bound\<close>

text \<open>Two calls that overlap, of a key with room for one: both rows are parked.\<close>

lemma overlapping_calls_exceed:
  assumes "e_ConcurrencyKey p \<noteq> []" and "\<not> queue_full st (e_ConcurrencyKey p)"
    and "insert_pending w st (behind_row w st p) = Some (i, st1)"
    and "insert_pending w st1 (behind_row w st1 p) = Some (j, st2)"
  shows "\<exists>t. race_reach \<lparr>ra_sched = st, ra_open = [], ra_peak = (\<lambda>_. 1)\<rparr> t \<and> ra_sched t = st2 \<and> ra_peak t (e_ConcurrencyKey p) = 2 \<and>
    QueueDepth st2 (e_ConcurrencyKey p) = QueueDepth st (e_ConcurrencyKey p) + 2"
proof -
  let ?k = "e_ConcurrencyKey p"
  let ?s = "\<lparr>ra_sched = st, ra_open = [], ra_peak = (\<lambda>_. 1)\<rparr>"
  let ?a = "open_call p ?s"
  let ?b = "open_call p ?a"
  let ?c = "close_call p (?b\<lparr>ra_sched := st1\<rparr>)"
  let ?d = "close_call p (?c\<lparr>ra_sched := st2\<rparr>)"
  have "race_step ?s ?a" using assms(1,2) by (intro count) simp_all
  moreover have "race_step ?a ?b" using assms(1,2) by (intro count) (simp_all add: open_call_def)
  moreover have "race_step ?b ?c" using assms(3) by (intro park) (simp_all add: open_call_def)
  moreover have "race_step ?c ?d" using assms(4) by (intro park) (simp_all add: open_call_def close_call_def)
  ultimately have r: "race_reach ?s ?d" by (intro more [OF more [OF more [OF more [OF here]]]])
  have "ra_sched ?d = st2" "ra_peak ?d ?k = 2" by (simp_all add: open_call_def close_call_def calls_def)
  moreover have "QueueDepth st2 ?k = QueueDepth st ?k + 2"
    using park_depth [OF assms(3), of ?k] park_depth [OF assms(4), of ?k] by (simp add: QueueDepth_depth [OF assms(1)])
  ultimately show ?thesis using r by blast
qed

definition demo_queued :: enqueue_params where
  "demo_queued = demo_params\<lparr>e_ConcurrencyKey := ''db''\<rparr>"

definition demo_two :: sched where
  "demo_two = demo_busy\<lparr>ss_pending := [behind_row demo_world demo_busy demo_queued ''p1'', behind_row demo_world demo_busy demo_queued ''p2'']\<rparr>"

theorem keys_and_queues_stay_bounded_witness:
  "\<exists>t. race_reach \<lparr>ra_sched = demo_two, ra_open = [], ra_peak = (\<lambda>_. 1)\<rparr> t \<and> QueueDepth (ra_sched t) ''db'' = 4 \<and>
    QueueDepth (ra_sched t) ''db'' + 1 \<le> QueueCap + ra_peak t ''db''"
proof -
  have inv: "sched_inv QueueCap demo_two"
    using demo_busy_inv [of QueueCap] by (simp add: demo_two_def sched_inv_def bounded_def behind_row_def queued_behind_def QueueCap_def runs_of_def)
  have m: "ss_minted demo_busy = 0" by (simp add: demo_busy_def with_runs_def demo_sched_def)
  let ?row = "behind_row demo_world demo_two demo_queued"
  obtain st1 where 1: "insert_pending demo_world demo_two ?row = Some ([], st1)"
    and r: "map pd_id (ss_pending st1) = [''p1'', ''p2'', []]" "ss_minted st1 = 1"
    by (simp add: insert_pending_def Let_def demo_two_def m behind_row_def demo_world_def)
  have "pd_id ` set (ss_pending st1) = {''p1'', ''p2'', []}" using arg_cong [OF r(1), of set] by simp
  then have "\<exists>j st2. insert_pending demo_world st1 (behind_row demo_world st1 demo_queued) = Some (j, st2)"
    by (simp add: insert_pending_def Let_def demo_world_def r(2))
  then obtain j st2 where 2: "insert_pending demo_world st1 (behind_row demo_world st1 demo_queued) = Some (j, st2)" by blast
  have k: "e_ConcurrencyKey demo_queued = ''db''" by (simp add: demo_queued_def)
  have d: "QueueDepth demo_two ''db'' = 2" by (simp add: QueueDepth_def demo_two_def behind_row_def queued_behind_def k)
  have "e_ConcurrencyKey demo_queued \<noteq> []" "\<not> queue_full demo_two (e_ConcurrencyKey demo_queued)"
    by (simp_all add: k queue_full_def d QueueCap_def)
  from overlapping_calls_exceed [OF this 1 2] obtain t where t: "race_reach \<lparr>ra_sched = demo_two, ra_open = [], ra_peak = (\<lambda>_. 1)\<rparr> t"
    "ra_sched t = st2" "QueueDepth st2 ''db'' = 4" using d k by auto
  then show ?thesis using keys_and_queues_stay_bounded [OF t(1), of "''db''"] inv by auto
qed

end
