(* ===== verification/Ref_Store_Props.thy ===== *)
theory Ref_Store_Props
  imports Ref_Resolve
begin

text \<open>
  The store of declared bindings (\<open>runref/store.go\<close>): what \<open>ReplaceBindings\<close> saves is what \<open>ListBindings\<close>
  reads, and saving one definition's set leaves every other definition's alone.
\<close>

definition stored_form :: "binding \<Rightarrow> binding" where
  "stored_form b = b\<lparr>bd_File := False, bd_Origin := []\<rparr>"

definition bd_order :: "binding \<Rightarrow> string \<times> string \<times> string" where
  "bd_order b = (bd_Kind b, bd_Name b, bd_As b)"

lemma new_row_simps [simp]:
  "binding_of_row (new_row ow uid actor b) = stored_form b" "binding_order (new_row ow uid actor b) = bd_order b"
  "bd_order (stored_form b) = bd_order b" "bd_order (binding_of_row x) = binding_order x"
  by (simp_all add: binding_of_row_def new_row_def stored_form_def binding_order_def bd_order_def)

lemma insort_map: "map f (insort_key (\<lambda>x. g (f x)) a xs) = insort_key g (f a) (map f xs)"
  by (induction xs) auto

lemma sort_map: "map f (sort_key (\<lambda>x. g (f x)) xs) = sort_key g (map f xs)"
  by (induction xs) (simp_all add: sort_key_def insort_map)

lemma insert_rows_Some: "insert_rows table rs = Some t \<Longrightarrow> t = table @ rs"
  by (induction table rs arbitrary: t rule: insert_rows.induct) (auto split: if_splits)

lemma replaced:
  assumes "ReplaceBindings jobs table ow bs actor = Inr t"
  shows "\<exists>uid. t = filter (\<lambda>b. \<not> ownerMatch ow b) table @ map (new_row ow uid actor) (dedupe [] bs) \<and>
    (UIDKey ow \<noteq> [] \<longrightarrow> uid = UIDKey ow) \<and> (UIDKey ow = [] \<longrightarrow> ro_Kind ow \<noteq> ''script'' \<or> dedupe [] bs = [])"
  using assms unfolding ReplaceBindings_def Let_def
  by (auto split: if_splits option.splits dest!: insert_rows_Some)

lemma ownerMatch_new:
  assumes "UIDKey ow \<noteq> [] \<longrightarrow> uid = UIDKey ow" and "UIDKey ow = [] \<longrightarrow> ro_Kind ow \<noteq> ''script''"
  shows "ownerMatch ow (new_row ow uid actor b)"
  using assms by (simp add: ownerMatch_def new_row_def)

text \<open>C21: after a set of bindings is saved for a job or a script, listing that owner's bindings gives exactly the
  set, each binding once and in order of kind, name and alias; every binding of a different definition is
  there as before, a namesake's too; and a set over the limit, or with a binding that is not valid, or with
  two bindings for one destination, is refused.\<close>

theorem a_saved_set_is_read_back:
  assumes "ReplaceBindings jobs table ow bs actor = Inr t"
  shows "ListBindings t ow = sort_key bd_order (map stored_form (dedupe [] bs)) \<and>
    (\<forall>ow'. UIDKey ow \<noteq> [] \<and> UIDKey ow' \<noteq> [] \<and> UIDKey ow' \<noteq> UIDKey ow \<longrightarrow> ListBindings t ow' = ListBindings table ow') \<and>
    length bs \<le> MaxBindingsPerOwner \<and> (\<forall>b \<in> set bs. ValidateBinding b = None) \<and>
    CheckAliasCollisions (dedupe [] bs) = None"
proof -
  from replaced [OF assms] obtain uid where u: "t = filter (\<lambda>b. \<not> ownerMatch ow b) table @ map (new_row ow uid actor) (dedupe [] bs)"
    "UIDKey ow \<noteq> [] \<longrightarrow> uid = UIDKey ow" "UIDKey ow = [] \<longrightarrow> ro_Kind ow \<noteq> ''script'' \<or> dedupe [] bs = []" by blast
  have "filter (ownerMatch ow) t = map (new_row ow uid actor) (dedupe [] bs)"
  proof (cases "dedupe [] bs = []")
    case False
    then have "ownerMatch ow (new_row ow uid actor b)" for b using ownerMatch_new u(2,3) by blast
    then show ?thesis using u(1) by (simp add: filter_empty_conv)
  qed (use u(1) in \<open>simp add: filter_empty_conv\<close>)
  then have l: "ListBindings t ow = sort_key bd_order (map stored_form (dedupe [] bs))"
    using sort_map [of binding_of_row bd_order "map (new_row ow uid actor) (dedupe [] bs)"]
    by (simp add: ListBindings_def comp_def)
  have o': "filter (ownerMatch ow') t = filter (ownerMatch ow') table"
    if "UIDKey ow \<noteq> []" "UIDKey ow' \<noteq> []" "UIDKey ow' \<noteq> UIDKey ow" for ow'
  proof -
    have "\<not> ownerMatch ow' (new_row ow uid actor b)" for b using that u(2) by (simp add: ownerMatch_def new_row_def)
    then have "filter (ownerMatch ow') t = filter (ownerMatch ow') (filter (\<lambda>b. \<not> ownerMatch ow b) table)"
      using u(1) by (simp add: filter_empty_conv)
    also have "\<dots> = filter (ownerMatch ow') table" using that
      by (auto simp: ownerMatch_def intro: filter_cong)
    finally show ?thesis .
  qed
  have v: "length bs \<le> MaxBindingsPerOwner \<and> (\<forall>b \<in> set bs. ValidateBinding b = None) \<and> CheckAliasCollisions (dedupe [] bs) = None"
    using assms unfolding ReplaceBindings_def Let_def by (auto split: if_splits option.splits simp: find_None_iff)
  from l o' v show ?thesis by (simp add: ListBindings_def)
qed

definition demo_owner :: "string \<Rightarrow> ref_owner" where
  "demo_owner uid = \<lparr>ro_Kind = ''job'', ro_Source = ''git'', ro_Name = ''nightly'', ro_UID = uid\<rparr>"

theorem a_saved_set_is_read_back_witness:
  "let b = \<lparr>bd_Kind = KindVar, bd_Name = ''A'', bd_As = [], bd_File = False, bd_Origin = []\<rparr>;
       c = b\<lparr>bd_Kind := KindSecret\<rparr>; table = [new_row (demo_owner ''u2'') ''u2'' ''ann'' b]
   in \<exists>t. ReplaceBindings [] table (demo_owner ''u1'') [b, c, b] ''ann'' = Inr t \<and>
        ListBindings t (demo_owner ''u1'') = [c, b] \<and> ListBindings t (demo_owner ''u2'') = [b]"
proof -
  let ?b = "\<lparr>bd_Kind = KindVar, bd_Name = ''A'', bd_As = [], bd_File = False, bd_Origin = []\<rparr>"
  let ?c = "?b\<lparr>bd_Kind := KindSecret\<rparr>" and ?t = "[new_row (demo_owner ''u2'') ''u2'' ''ann'' \<lparr>bd_Kind = KindVar, bd_Name = ''A'', bd_As = [], bd_File = False, bd_Origin = []\<rparr>]"
  have n: "\<not> isl (ReplaceBindings [] ?t (demo_owner ''u1'') [?b, ?c, ?b] ''ann'')" by code_simp
  then obtain t where t: "ReplaceBindings [] ?t (demo_owner ''u1'') [?b, ?c, ?b] ''ann'' = Inr t"
    by (cases "ReplaceBindings [] ?t (demo_owner ''u1'') [?b, ?c, ?b] ''ann''") auto
  have s: "sort_key bd_order (map stored_form (dedupe [] [?b, ?c, ?b])) = [?c, ?b]" by code_simp
  have l: "ListBindings ?t (demo_owner ''u2'') = [?b]" by code_simp
  have u: "UIDKey (demo_owner ''u1'') \<noteq> []" "UIDKey (demo_owner ''u2'') \<noteq> []" "UIDKey (demo_owner ''u2'') \<noteq> UIDKey (demo_owner ''u1'')"
    by code_simp+
  from a_saved_set_is_read_back [OF t] have "ListBindings t (demo_owner ''u1'') = [?c, ?b]" "ListBindings t (demo_owner ''u2'') = [?b]"
    unfolding s using l u by (blast, metis)
  with t show ?thesis by (auto simp: Let_def)
qed

end
