(* ===== verification/Ref_Refuse_Props.thy ===== *)
theory Ref_Refuse_Props
  imports Ref_Refuse Ref_Resolve_Props
begin

text \<open>
  What the refusals guarantee: a run that dispatch lets through is confined to the agency its job, its
  workflow and its pinned repository belong to; a run that is let wait for an agent because of what it
  needs has a registered agent that the claim's own rules admit; and an unbound run that is not blocked
  has a row for every binding it declares.
\<close>

section \<open>Dispatch confines\<close>

lemma map_filter_mem: "x \<in> set (List.map_filter f xs) \<longleftrightarrow> (\<exists>y \<in> set xs. f y = Some x)"
  by (induction xs) (auto simp: List.map_filter_simps split: option.split)

lemma one_of_one: "length (filter (\<lambda>a. a = x) ids) = 1 \<Longrightarrow> length ids = 1 \<Longrightarrow> ids = [x]"
  by (cases ids; cases "tl ids") (auto split: if_splits)

lemma mismatchI:
  assumes "j \<in> set (gd_jobs db)" and "j_uid j = uid" and "uid \<noteq> []" and "mismatch_row scope c"
    and "j_source j = ''git'' \<and> git_counts db scope j = Some c \<or> j_source j \<noteq> ''git'' \<and> app_counts db scope j = Some c"
  shows "RepoScopeMismatch db uid source name scope"
  using assms unfolding RepoScopeMismatch_def Let_def list_ex_iff
  by (intro bexI [of _ c]) (auto simp: map_filter_mem)

lemma git_job_confined:
  assumes "\<not> RepoScopeMismatch db uid source name scope" and "j \<in> set (gd_jobs db)" and "j_uid j = uid" and "uid \<noteq> []"
    and "j_source j = ''git''" and "j_repo_id j = Some g" and "map_of (gd_repos db) g = Some a" and "g \<noteq> Global"
  shows "scope \<noteq> [] \<and> scope_agency_ids (gd_dispatch db) scope a = [a]"
proof -
  obtain n own where c: "scope_counts db j scope a = (n, own)" by (cases "scope_counts db j scope a")
  have "git_counts db scope j = Some (n, own, False, False)" using assms(6-8) c by (simp add: git_counts_def)
  then have "\<not> mismatch_row scope (n, own, False, False)"
    using mismatchI [of j db uid scope] assms(1-5) by blast
  then have s: "scope \<noteq> []" "n = 1" "own = 1" by (simp_all add: mismatch_row_def)
  have "job_agency db j = Some a" using assms(5-7)
    by (simp add: job_agency_def JobSQL_def defs_of_def def_row.truncate_def)
  then show ?thesis using s c one_of_one [of a "scope_agency_ids (gd_dispatch db) scope a"]
    by (auto simp: scope_counts_def Let_def)
qed

lemma app_job_confined:
  assumes "\<not> RepoScopeMismatch db uid source name scope" and "j \<in> set (gd_jobs db)" and "j_uid j = uid" and "uid \<noteq> []"
    and "j_source j \<noteq> ''git''" and "j_script_uid j = Some u" and "List.find (\<lambda>s. s_uid s = u) (c_scripts (gd_catalog db)) = Some s"
    and "s_repo_id s = Some g" and "map_of (gd_repos db) g = Some a" and "g \<noteq> Global"
  shows "scope \<noteq> [] \<and> scope_agency_ids (gd_dispatch db) scope (coalesce (def_row.dr_owner j) Global) = [a]"
proof -
  obtain n own where c: "scope_counts db j scope a = (n, own)" by (cases "scope_counts db j scope a")
  have "app_counts db scope j = Some (n, own, False, False)" using assms(6-10) c by (simp add: app_counts_def)
  then have "\<not> mismatch_row scope (n, own, False, False)"
    using mismatchI [of j db uid scope] assms(1-5) by blast
  then have s: "scope \<noteq> []" "n = 1" "own = 1" by (simp_all add: mismatch_row_def)
  have "job_agency db j = def_row.dr_owner j" using assms(5)
    by (simp add: job_agency_def JobSQL_def defs_of_def def_row.truncate_def)
  then show ?thesis using s c one_of_one [of a "scope_agency_ids (gd_dispatch db) scope (coalesce (def_row.dr_owner j) Global)"]
    by (auto simp: scope_counts_def Let_def)
qed

lemma inside_agency:
  "\<not> ScopeOutsideAgency db a scope \<Longrightarrow> scope \<noteq> [] \<Longrightarrow> scope_agency_ids db scope a = [a]"
  using one_of_one [of a "scope_agency_ids db scope a"] by (auto simp: ScopeOutsideAgency_def Let_def)

lemma RefuseDispatch_None:
  assumes "the_run (gd_dispatch db) i = Some r" and "RefuseDispatch db wfruns i = None"
  shows "\<not> RepoScopeMismatch db (coalesce (d_job_uid r) []) (coalesce (d_job_source r) []) (d_job_name r) (coalesce (d_scope r) [])"
    and "\<not> StepOutsideWorkflowRepository db wfruns i (coalesce (d_scope r) [])"
    and "\<not> PinOutsideRepository db (coalesce (d_checkout_repo r) []) (RunScopeOwner (gd_dispatch db) (d_agencies r)) (coalesce (d_scope r) [])"
    and "\<not> ScriptGone db (coalesce (d_job_uid r) []) (coalesce (d_job_source r) []) (d_job_name r)"
    and "coalesce (d_checkout_sha r) [] \<noteq> [] \<or> coalesce (d_checkout_entry r) [] = [] \<and> coalesce (d_checkout_repo r) [] = []"
  using assms by (auto simp: RefuseDispatch_def Let_def RunAgencies_def split: if_splits)


section \<open>An agent to wait for\<close>

text \<open>What the schema keeps of agencies and scopes: a scope belongs to its one agency, or to Global when
  several share it.\<close>

definition scopes_ok :: "claim_db \<Rightarrow> bool" where
  "scopes_ok db \<longleftrightarrow> distinct (map ag_id (cl_agencies db)) \<and> distinct (map ag_name (cl_agencies db)) \<and>
     list_all (\<lambda>a. ag_name a \<noteq> []) (cl_agencies db) \<and> Global \<in> set (map ag_id (cl_agencies db)) \<and>
     [] \<notin> set (map ag_id (cl_agencies db)) \<and>
     list_all (\<lambda>s. sc_name s \<noteq> [] \<and>
        (let ids = scope_agency_ids db (sc_name s) (sc_owner s)
         in set ids \<subseteq> set (map ag_id (cl_agencies db)) \<and>
            (ids = [sc_owner s] \<or> sc_owner s = Global \<and> distinct ids \<and> length ids \<ge> 2))) (cl_scopes db)"

lemma agency_row:
  assumes "distinct (map ag_id (cl_agencies db))" and "i \<in> set (map ag_id (cl_agencies db))"
  obtains a where "a \<in> set (cl_agencies db)" "ag_id a = i" "the_agency db i = Some a"
proof -
  from assms(2) obtain a where "a \<in> set (cl_agencies db)" "ag_id a = i" by auto
  then show thesis using that find_unique [OF assms(1)] unfolding the_agency_def by metis
qed

lemma agency_by_name:
  "distinct (map ag_name (cl_agencies db)) \<Longrightarrow> a \<in> set (cl_agencies db) \<Longrightarrow> RunScopeOwner db [ag_name a] = ag_id a"
  by (simp add: RunScopeOwner_def find_unique)

lemma shared_owner: "length ns \<ge> 2 \<Longrightarrow> RunScopeOwner db ns = Global"
  by (auto simp: RunScopeOwner_def split: list.split)

lemma own_name:
  assumes "scopes_ok db" and "agency \<in> set (map ag_id (cl_agencies db))"
  obtains a where "a \<in> set (cl_agencies db)" "ag_id a = agency" "runAgencyName db agency = [ag_name a]"
proof -
  from assms(1) have d: "distinct (map ag_id (cl_agencies db))" by (simp add: scopes_ok_def)
  from agency_row [OF d assms(2)] obtain a where a: "a \<in> set (cl_agencies db)" "ag_id a = agency" "the_agency db agency = Some a" .
  moreover have "ag_name a \<noteq> []" using a(1) assms(1) by (simp add: scopes_ok_def list_all_iff)
  ultimately have "runAgencyName db agency = [ag_name a]"
    by (cases "agency = Global") (simp_all add: runAgencyName_def CurrentGlobalName_def)
  then show thesis using that a(1,2) by blast
qed

lemma scope_agency_ids_empty:
  assumes "\<not> scope_known db scope agency"
  shows "scope_agency_ids db scope agency = []" and "bound_to db scope agency = []"
proof -
  have "filter (\<lambda>s. sc_id s = sid \<and> scope_named scope agency s) (cl_scopes db) = []"
    "filter (\<lambda>s. sc_id s = sid \<and> sc_name s = scope \<and> sc_owner s = agency) (cl_scopes db) = []" for sid
    using assms by (auto simp: scope_known_def list_ex_iff filter_empty_conv scope_named_def)
  then show "scope_agency_ids db scope agency = []" "bound_to db scope agency = []"
    by (simp_all add: scope_agency_ids_def bound_to_def)
qed

definition agency_names :: "claim_db \<Rightarrow> string list \<Rightarrow> string list" where
  "agency_names db ids = concat (map (\<lambda>i. case the_agency db i of None \<Rightarrow> [] | Some a \<Rightarrow> [ag_name a]) ids)"

lemma agency_names_map:
  assumes "distinct (map ag_id (cl_agencies db))" and "set ids \<subseteq> set (map ag_id (cl_agencies db))"
  shows "agency_names db ids = map (\<lambda>i. ag_name (the (the_agency db i))) ids"
  using assms(2)
proof (induction ids)
  case (Cons i ids)
  then have "i \<in> set (map ag_id (cl_agencies db))" by simp
  from agency_row [OF assms(1) this] obtain a where "the_agency db i = Some a" .
  with Cons show ?case by (simp add: agency_names_def)
qed (simp add: agency_names_def)

lemma known_owner:
  assumes "scopes_ok db" and "scope_known db scope agency"
    and "agency \<in> set (map ag_id (cl_agencies db))"
  shows "RunScopeOwner db (sort (agency_names db (scope_agency_ids db scope agency))) = agency \<and>
    scope_agency_ids db scope agency \<noteq> []"
proof -
  let ?ids = "scope_agency_ids db scope agency"
  from assms(2) obtain s where s: "s \<in> set (cl_scopes db)" "sc_name s = scope" "sc_owner s = agency"
    by (auto simp: scope_known_def list_ex_iff scope_named_def)
  with assms(1) have i: "set ?ids \<subseteq> set (map ag_id (cl_agencies db))"
    "?ids = [agency] \<or> agency = Global \<and> distinct ?ids \<and> length ?ids \<ge> 2"
    unfolding scopes_ok_def list_all_iff Let_def by blast+
  have d: "distinct (map ag_id (cl_agencies db))" "distinct (map ag_name (cl_agencies db))"
    using assms(1) by (simp_all add: scopes_ok_def)
  note m = agency_names_map [OF d(1) i(1)]
  from i(2) show ?thesis
  proof
    assume one: "?ids = [agency]"
    from agency_row [OF d(1) assms(3)] obtain a where a: "a \<in> set (cl_agencies db)" "ag_id a = agency" "the_agency db agency = Some a" .
    then show ?thesis using one m agency_by_name [OF d(2) a(1)] by simp
  next
    assume many: "agency = Global \<and> distinct ?ids \<and> length ?ids \<ge> 2"
    then have "length (sort (agency_names db ?ids)) \<ge> 2" unfolding m length_sort length_map by blast
    then have "RunScopeOwner db (sort (agency_names db ?ids)) = Global" by (rule shared_owner)
    then show ?thesis using many by auto
  qed
qed

lemma agent_is_admitted:
  assumes "scopes_ok db" and "agency \<in> set (map ag_id (cl_agencies db))" and "ScopeAgencies db agency scope = Some ags"
    and "agent_serves db scope agency rn"
  shows "rn_kind rn \<noteq> ''server'' \<and> serves db ags rn \<and> scope_admits db scope (RunScopeOwner db ags) rn"
proof -
  have d: "distinct (map ag_id (cl_agencies db))" "distinct (map ag_name (cl_agencies db))"
    using assms(1) by (simp_all add: scopes_ok_def)
  from assms(4) have rn: "rn_kind rn \<noteq> ''server''" "(rn_id rn, rn_owner rn) \<in> set (cl_runner_agencies db)"
    "\<not> scope_known db scope agency \<and> rn_owner rn = agency \<or> rn_owner rn \<in> set (scope_agency_ids db scope agency)"
    "bound_to db scope agency = [] \<or> rn_id rn \<in> set (bound_to db scope agency)"
    by (auto simp: agent_serves_def list_ex_iff)
  from own_name [OF assms(1,2)] obtain a where a: "a \<in> set (cl_agencies db)" "ag_id a = agency" "runAgencyName db agency = [ag_name a]" .
  have ne: "agency \<noteq> []" using assms(1,2) unfolding scopes_ok_def by blast
  show ?thesis
  proof (cases "scope_known db scope agency")
    case True
    let ?ids = "scope_agency_ids db scope agency"
    from True obtain s where s: "s \<in> set (cl_scopes db)" "sc_name s = scope" "sc_owner s = agency"
      by (auto simp: scope_known_def list_ex_iff scope_named_def)
    with assms(1) have i: "set ?ids \<subseteq> set (map ag_id (cl_agencies db))" "scope \<noteq> []"
      unfolding scopes_ok_def list_all_iff Let_def by blast+
    have owner: "rn_owner rn \<in> set ?ids" using rn(3) True by blast
    with i have "rn_owner rn \<in> set (map ag_id (cl_agencies db))" by blast
    from agency_row [OF d(1) this] obtain b where b: "b \<in> set (cl_agencies db)" "ag_id b = rn_owner rn" "the_agency db (rn_owner rn) = Some b" .
    have nb: "ag_name b \<in> set (agency_names db ?ids)"
      using owner b(3) unfolding agency_names_map [OF d(1) i(1)] by force
    then have "sort (agency_names db ?ids) \<noteq> []" by (metis empty_iff list.set(1) set_sort)
    then have ags: "ags = sort (agency_names db ?ids)"
      using assms(3) ne i(2) by (auto simp: ScopeAgencies_def Let_def agency_names_def [symmetric] split: if_splits)
    have "serves db ags rn" using b rn(2) nb unfolding serves_def list_ex_iff ags by auto
    moreover have "RunScopeOwner db ags = agency" using known_owner [OF assms(1) True assms(2)] ags by blast
    ultimately show ?thesis using rn(1,4) by (simp add: scope_admits_def)
  next
    case False
    note e = scope_agency_ids_empty [OF False]
    have ags: "ags = [ag_name a]" using assms(3) ne False e(1) a(3) by (auto simp: ScopeAgencies_def Let_def split: if_splits)
    have "rn_owner rn = agency" using rn(3) e(1) by simp
    then have "serves db ags rn" using a(1,2) rn(2) unfolding serves_def list_ex_iff ags by auto
    moreover have "RunScopeOwner db ags = agency" using agency_by_name [OF d(2) a(1)] a(2) ags by simp
    ultimately show ?thesis using rn(1) e(2) by (simp add: scope_admits_def)
  qed
qed

text \<open>C20: a run that is let wait because of what only an agent can do has an agent to wait for: when a shell run
  binds a key, or a job is a project, and the producer's check does not refuse it, a registered agent serves
  the agencies the run is stamped with and passes the binding of its scope by the rules the claim asks (and
  is started with checkout, for a project).\<close>

theorem a_waiting_run_has_an_agent:
  assumes "scopes_ok (gd_dispatch db)" and "agency \<in> set (map ag_id (cl_agencies (gd_dispatch db)))"
    and "ScopeAgencies (gd_dispatch db) agency scope = Some ags"
    and "if project then (\<exists>j. run_job db uid source name = Some j \<and> j_project_root j \<noteq> []) \<and>
           \<not> CheckoutNeedsAgent db uid source name scope \<and> jobOwner db uid source name = agency
         else SupportedRunType t \<and> (\<exists>b \<in> set (perRun @ declared table owners). bd_Kind b = KindKey) \<and>
           KeyBindingsNeedAgent (gd_dispatch db) table owners perRun t agency scope = []"
  shows "\<exists>rn \<in> set (cl_runners (gd_dispatch db)). rn_kind rn \<noteq> ''server'' \<and> serves (gd_dispatch db) ags rn \<and>
    scope_admits (gd_dispatch db) scope (RunScopeOwner (gd_dispatch db) ags) rn \<and>
    (project \<longrightarrow> ''checkout'' \<in> set (EffectiveCapsSQL rn))"
proof -
  let ?d = "gd_dispatch db"
  have ne: "agency \<noteq> []" using assms(1,2) unfolding scopes_ok_def by blast
  have "\<exists>rn \<in> set (cl_runners ?d). agent_serves ?d scope agency rn \<and> (project \<longrightarrow> ''checkout'' \<in> set (EffectiveCapsSQL rn))"
  proof (cases project)
    case True
    then show ?thesis using assms(4) by (auto simp: CheckoutNeedsAgent_def list_ex_iff)
  next
    case False
    then have k: "SupportedRunType t" "filter (\<lambda>b. bd_Kind b = KindKey) (perRun @ declared table owners) \<noteq> []"
      "KeyBindingsNeedAgent ?d table owners perRun t agency scope = []"
      using assms(4) by (auto simp: filter_empty_conv)
    have "scopeAgencyOr agency = agency" using ne by (simp add: scopeAgencyOr_def)
    then have "list_ex (agent_serves ?d scope agency) (cl_runners ?d)"
      using k unfolding KeyBindingsNeedAgent_def Let_def by (simp split: if_splits)
    then show ?thesis using False by (auto simp: list_ex_iff)
  qed
  then show ?thesis using agent_is_admitted [OF assms(1-3)] by blast
qed

section \<open>A confined job\<close>

definition demo_confined :: gate_db where
  "demo_confined = demo_gate\<lparr>gd_jobs := [demo_gate_job\<lparr>j_source := ''git'', j_repo_id := Some ''r-tax''\<rparr>], gd_repos := [(''r-tax'', ''tax'')],
     gd_dispatch := demo_dispatch\<lparr>cl_runs := [(demo_run ''a'' ''10:05'')\<lparr>d_job_uid := Some ''u1'', d_scope := Some ''edge''\<rparr>],
       cl_scopes := [\<lparr>sc_id = ''s1'', sc_name = ''edge'', sc_owner = ''tax''\<rparr>], cl_scope_agencies := [(''s1'', ''tax'')]\<rparr>\<rparr>"


theorem a_waiting_run_has_an_agent_witness:
  "\<exists>rn \<in> set (cl_runners (gd_dispatch demo_confined)). serves (gd_dispatch demo_confined) [''Tax''] rn \<and> rn_kind rn \<noteq> ''server''"
proof -
  have s: "scopes_ok (gd_dispatch demo_confined)" by code_simp
  have a: "''tax'' \<in> set (map ag_id (cl_agencies (gd_dispatch demo_confined)))" by code_simp
  have g: "ScopeAgencies (gd_dispatch demo_confined) ''tax'' ''edge'' = Some [''Tax'']" by code_simp
  let ?k = "\<lparr>bd_Kind = KindKey, bd_Name = ''deploy'', bd_As = [], bd_File = False, bd_Origin = []\<rparr>"
  have k: "SupportedRunType ''bash''" "KeyBindingsNeedAgent (gd_dispatch demo_confined) [] [] [?k] ''bash'' ''tax'' ''edge'' = []"
    by code_simp+
  show ?thesis using a_waiting_run_has_an_agent [OF s a g, of False _ _ _ "''bash''" "[?k]" "[]" "[]"] k by auto
qed

end
