(* ===== verification/Auth_Roles.thy ===== *)
theory Auth_Roles
  imports Go_Prelude "HOL-Library.Product_Lexorder"
begin

text \<open>
  Roles and their permissions (\<open>backend/internal/auth/permissions.go\<close>): the permission set as a semilattice
  whose join is \<open>Permissions.Or\<close>, the named access to it, the built-in matrix, and the registry that is
  read from the \<open>roles\<close> table. The registry is an argument of the functions that read it.
\<close>

section \<open>Permission sets\<close>

datatype permissions = Permissions (TriggerJobs: bool) (KillJobs: bool) (ManageEnvVars: bool)
  (PublishSchedule: bool) (ConfigureApp: bool) (ManageRoles: bool) (Compose: bool)

definition PermTriggerJobs :: string where "PermTriggerJobs = ''triggerJobs''"
definition PermKillJobs :: string where "PermKillJobs = ''killJobs''"
definition PermManageEnvVars :: string where "PermManageEnvVars = ''manageEnvVars''"
definition PermPublishSchedule :: string where "PermPublishSchedule = ''publishSchedule''"
definition PermConfigureApp :: string where "PermConfigureApp = ''configureApp''"
definition PermManageRoles :: string where "PermManageRoles = ''manageRoles''"
definition PermCompose :: string where "PermCompose = ''compose''"

lemmas perm_names = PermTriggerJobs_def PermKillJobs_def PermManageEnvVars_def PermPublishSchedule_def
  PermConfigureApp_def PermManageRoles_def PermCompose_def

definition PermissionNames :: "string list" where
  "PermissionNames = [PermTriggerJobs, PermKillJobs, PermManageEnvVars, PermPublishSchedule, PermConfigureApp,
     PermManageRoles, PermCompose]"

definition Has :: "permissions \<Rightarrow> string \<Rightarrow> bool" where
  "Has p n =
     (if n = PermTriggerJobs then TriggerJobs p
      else if n = PermKillJobs then KillJobs p
      else if n = PermManageEnvVars then ManageEnvVars p
      else if n = PermPublishSchedule then PublishSchedule p
      else if n = PermConfigureApp then ConfigureApp p
      else if n = PermManageRoles then ManageRoles p
      else if n = PermCompose then Compose p else False)"

definition With :: "permissions \<Rightarrow> string \<Rightarrow> bool \<Rightarrow> permissions" where
  "With p n v =
     (case p of Permissions t k e s c r m \<Rightarrow>
        if n = PermTriggerJobs then Permissions v k e s c r m
        else if n = PermKillJobs then Permissions t v e s c r m
        else if n = PermManageEnvVars then Permissions t k v s c r m
        else if n = PermPublishSchedule then Permissions t k e v c r m
        else if n = PermConfigureApp then Permissions t k e s v r m
        else if n = PermManageRoles then Permissions t k e s c v m
        else if n = PermCompose then Permissions t k e s c r v else p)"

definition Or :: "permissions \<Rightarrow> permissions \<Rightarrow> permissions" where
  "Or p q = Permissions (TriggerJobs p \<or> TriggerJobs q) (KillJobs p \<or> KillJobs q) (ManageEnvVars p \<or> ManageEnvVars q)
     (PublishSchedule p \<or> PublishSchedule q) (ConfigureApp p \<or> ConfigureApp q) (ManageRoles p \<or> ManageRoles q)
     (Compose p \<or> Compose q)"

definition no_permissions :: permissions where
  "no_permissions = Permissions False False False False False False False"

instantiation permissions :: bounded_semilattice_sup_bot
begin

definition sup_permissions :: "permissions \<Rightarrow> permissions \<Rightarrow> permissions" where "sup_permissions = Or"
definition bot_permissions :: permissions where "bot_permissions = no_permissions"

definition less_eq_permissions :: "permissions \<Rightarrow> permissions \<Rightarrow> bool" where
  "p \<le> q \<longleftrightarrow> (TriggerJobs p \<longrightarrow> TriggerJobs q) \<and> (KillJobs p \<longrightarrow> KillJobs q) \<and> (ManageEnvVars p \<longrightarrow> ManageEnvVars q) \<and>
     (PublishSchedule p \<longrightarrow> PublishSchedule q) \<and> (ConfigureApp p \<longrightarrow> ConfigureApp q) \<and> (ManageRoles p \<longrightarrow> ManageRoles q) \<and>
     (Compose p \<longrightarrow> Compose q)"

definition less_permissions :: "permissions \<Rightarrow> permissions \<Rightarrow> bool" where
  "less_permissions p q \<longleftrightarrow> p \<le> q \<and> \<not> q \<le> (p :: permissions)"

instance
proof
  fix p q r :: permissions
  show "(p < q) = (p \<le> q \<and> \<not> q \<le> p)" by (simp add: less_permissions_def)
  show "p \<le> p" by (simp add: less_eq_permissions_def)
  show "p \<le> r" if "p \<le> q" "q \<le> r" using that by (simp add: less_eq_permissions_def)
  show "p = q" if "p \<le> q" "q \<le> p" using that by (cases p; cases q) (simp only: less_eq_permissions_def permissions.sel permissions.inject iff_conv_conj_imp simp_thms,
      elim conjE, intro conjI; assumption)
  show "p \<le> sup p q" "q \<le> sup p q" by (simp_all add: less_eq_permissions_def sup_permissions_def Or_def)
  show "sup q r \<le> p" if "q \<le> p" "r \<le> p" using that by (simp add: less_eq_permissions_def sup_permissions_def Or_def)
  show "bot \<le> p" by (simp add: less_eq_permissions_def bot_permissions_def no_permissions_def)
qed

end

lemma Has_Or [simp]: "Has (Or p q) n = (Has p n \<or> Has q n)"
  by (simp add: Has_def Or_def)

lemma Has_none [simp]: "\<not> Has no_permissions n"
  by (simp add: Has_def no_permissions_def)

lemma names_neq [simp]:
  "PermTriggerJobs \<noteq> PermKillJobs" "PermTriggerJobs \<noteq> PermManageEnvVars" "PermTriggerJobs \<noteq> PermPublishSchedule" "PermTriggerJobs \<noteq> PermConfigureApp" "PermTriggerJobs \<noteq> PermManageRoles" "PermTriggerJobs \<noteq> PermCompose"
  "PermKillJobs \<noteq> PermTriggerJobs" "PermKillJobs \<noteq> PermManageEnvVars" "PermKillJobs \<noteq> PermPublishSchedule" "PermKillJobs \<noteq> PermConfigureApp" "PermKillJobs \<noteq> PermManageRoles" "PermKillJobs \<noteq> PermCompose"
  "PermManageEnvVars \<noteq> PermTriggerJobs" "PermManageEnvVars \<noteq> PermKillJobs" "PermManageEnvVars \<noteq> PermPublishSchedule" "PermManageEnvVars \<noteq> PermConfigureApp" "PermManageEnvVars \<noteq> PermManageRoles" "PermManageEnvVars \<noteq> PermCompose"
  "PermPublishSchedule \<noteq> PermTriggerJobs" "PermPublishSchedule \<noteq> PermKillJobs" "PermPublishSchedule \<noteq> PermManageEnvVars" "PermPublishSchedule \<noteq> PermConfigureApp" "PermPublishSchedule \<noteq> PermManageRoles" "PermPublishSchedule \<noteq> PermCompose"
  "PermConfigureApp \<noteq> PermTriggerJobs" "PermConfigureApp \<noteq> PermKillJobs" "PermConfigureApp \<noteq> PermManageEnvVars" "PermConfigureApp \<noteq> PermPublishSchedule" "PermConfigureApp \<noteq> PermManageRoles" "PermConfigureApp \<noteq> PermCompose"
  "PermManageRoles \<noteq> PermTriggerJobs" "PermManageRoles \<noteq> PermKillJobs" "PermManageRoles \<noteq> PermManageEnvVars" "PermManageRoles \<noteq> PermPublishSchedule" "PermManageRoles \<noteq> PermConfigureApp" "PermManageRoles \<noteq> PermCompose"
  "PermCompose \<noteq> PermTriggerJobs" "PermCompose \<noteq> PermKillJobs" "PermCompose \<noteq> PermManageEnvVars" "PermCompose \<noteq> PermPublishSchedule" "PermCompose \<noteq> PermConfigureApp" "PermCompose \<noteq> PermManageRoles"
  by (simp_all add: perm_names)

lemma Has_With: "Has (With p n v) m = (if m = n \<and> n \<in> set PermissionNames then v else Has p m)"
proof -
  consider "n = PermTriggerJobs" | "n = PermKillJobs" | "n = PermManageEnvVars" | "n = PermPublishSchedule"
    | "n = PermConfigureApp" | "n = PermManageRoles" | "n = PermCompose" | "n \<notin> set PermissionNames"
    unfolding PermissionNames_def by auto
  moreover obtain t k e s c r x where "p = Permissions t k e s c r x" by (cases p)
  ultimately show ?thesis by cases (simp_all add: Has_def With_def PermissionNames_def)
qed

lemma le_Has: "p \<le> q \<longleftrightarrow> (\<forall>n. Has p n \<longrightarrow> Has q n)"
proof
  show "\<forall>n. Has p n \<longrightarrow> Has q n" if "p \<le> q" using that by (auto simp: Has_def less_eq_permissions_def)
next
  assume h: "\<forall>n. Has p n \<longrightarrow> Has q n"
  show "p \<le> q"
    using h [rule_format, of PermTriggerJobs] h [rule_format, of PermKillJobs] h [rule_format, of PermManageEnvVars]
      h [rule_format, of PermPublishSchedule] h [rule_format, of PermConfigureApp] h [rule_format, of PermManageRoles]
      h [rule_format, of PermCompose]
    by (simp add: less_eq_permissions_def Has_def perm_names)
qed

section \<open>Roles\<close>

record role =
  rl_Name :: string
  rl_Description :: string
  rl_Builtin :: bool
  rl_Rank :: int
  rl_Permissions :: permissions

definition AdminRole :: string where "AdminRole = ''admin''"

definition CanonRole :: "string \<Rightarrow> string" where "CanonRole r = to_lower (trim_space r)"

definition builtinRoles :: "role list" where
  "builtinRoles =
    [\<lparr>rl_Name = ''admin'', rl_Description = ''Full control, including roles and application configuration.'',
      rl_Builtin = True, rl_Rank = 3, rl_Permissions = Permissions True True True True True True False\<rparr>,
     \<lparr>rl_Name = ''approver'', rl_Description = ''Runs jobs and publishes definitions to GitLab.'',
      rl_Builtin = True, rl_Rank = 2, rl_Permissions = Permissions True True False True False False False\<rparr>,
     \<lparr>rl_Name = ''operator'', rl_Description = ''Runs and stops jobs within the scopes granted to the role.'',
      rl_Builtin = True, rl_Rank = 2, rl_Permissions = Permissions True True False False False False False\<rparr>,
     \<lparr>rl_Name = ''viewer'', rl_Description = ''Read-only. Sees the scopes granted to the role and holds no verbs.'',
      rl_Builtin = True, rl_Rank = 1, rl_Permissions = no_permissions\<rparr>]"

type_synonym registry = "role gomap"

text \<open>A later row of a name replaces the earlier one.\<close>

definition indexRoles :: "role list \<Rightarrow> registry" where
  "indexRoles rs = foldl (\<lambda>m r. (rl_Name r, r) # filter (\<lambda>x. fst x \<noteq> rl_Name r) m) [] rs"

definition built_in :: registry where "built_in = indexRoles builtinRoles"

text \<open>\<open>None\<close> is a failed query: the previous contents are kept, as they are for an empty table.\<close>

definition RefreshRoles :: "role list option \<Rightarrow> registry \<Rightarrow> registry" where
  "RefreshRoles rows reg =
     (case rows of None \<Rightarrow> reg
      | Some rs \<Rightarrow> if rs = [] then reg else indexRoles (map (\<lambda>r. r\<lparr>rl_Name := CanonRole (rl_Name r)\<rparr>) rs))"

definition AllRoles :: "registry \<Rightarrow> role list" where
  "AllRoles reg = sort_key (\<lambda>r. (- rl_Rank r, rl_Name r)) (map snd reg)"

definition LookupRole :: "registry \<Rightarrow> string \<Rightarrow> role option" where
  "LookupRole reg name = map_of reg (CanonRole name)"

definition RoleValid :: "registry \<Rightarrow> string \<Rightarrow> bool" where
  "RoleValid reg r \<longleftrightarrow> LookupRole reg r \<noteq> None"

definition PermsForRoles :: "registry \<Rightarrow> string list \<Rightarrow> permissions" where
  "PermsForRoles reg rs =
     foldl (\<lambda>out n. case map_of reg (CanonRole n) of None \<Rightarrow> out | Some r \<Rightarrow> Or out (rl_Permissions r)) no_permissions rs"

lemma Has_PermsForRoles:
  "Has (PermsForRoles reg rs) n \<longleftrightarrow> (\<exists>x \<in> set rs. \<exists>r. LookupRole reg x = Some r \<and> Has (rl_Permissions r) n)"
proof -
  have "Has (foldl (\<lambda>out n. case map_of reg (CanonRole n) of None \<Rightarrow> out | Some r \<Rightarrow> Or out (rl_Permissions r)) p rs) n \<longleftrightarrow>
      Has p n \<or> (\<exists>x \<in> set rs. \<exists>r. LookupRole reg x = Some r \<and> Has (rl_Permissions r) n)" for p
    by (induction rs arbitrary: p) (auto simp: LookupRole_def split: option.splits)
  then show ?thesis by (simp add: PermsForRoles_def)
qed

end
