(* ===== verification/Auth_Grants.thy ===== *)
theory Auth_Grants
  imports Auth_Roles Claim
begin

text \<open>
  Grants and the decisions made of them (\<open>backend/internal/auth\<close>: \<open>grants.go\<close>, \<open>identity.go\<close>,
  \<open>scopes.go\<close>, the loader and the expansion of \<open>snapshot.go\<close>, the views of \<open>handlers.go\<close>): the rows of
  \<open>access_grants\<close> become the grants an identity carries, and every decision is a question about those.
\<close>

section \<open>The tables\<close>

record grant_row =
  ar_role :: string
  ar_agencyID :: string
  ar_all :: bool

text \<open>\<open>access_grants\<close>, \<open>scope_agencies\<close> joined with \<open>scopes\<close>, and \<open>agencies\<close>, as one statement reads them.\<close>

record grant_tables =
  gt_grants :: "(string \<times> grant_row) list"
  gt_scopes :: "(string \<times> string) list"
  gt_agencies :: "(string \<times> string) list"

definition AllScopes :: string where "AllScopes = ''*''"

text \<open>\<open>byGroup\<close>, with the role in its canonical form, and \<open>scopesByAgency\<close>, sorted.\<close>

definition byGroup :: "grant_tables \<Rightarrow> string \<Rightarrow> grant_row list" where
  "byGroup t g = map (\<lambda>(_, r). r\<lparr>ar_role := CanonRole (ar_role r)\<rparr>) (filter (\<lambda>(x, _). x = g) (gt_grants t))"

definition scopesByAgency :: "grant_tables \<Rightarrow> string \<Rightarrow> string list" where
  "scopesByAgency t a = sort (map snd (filter (\<lambda>(x, _). x = a) (gt_scopes t)))"

section \<open>Grants\<close>

record role_grant =
  rg_Role :: string
  rg_Agency :: string
  rg_Scopes :: "string list"

definition g_Unrestricted :: "role_grant \<Rightarrow> bool" where
  "g_Unrestricted g \<longleftrightarrow> AllScopes \<in> set (rg_Scopes g)"

definition Covers :: "role_grant \<Rightarrow> string \<Rightarrow> bool" where
  "Covers g scope \<longleftrightarrow> g_Unrestricted g \<or> scope = [] \<or> scope \<in> set (rg_Scopes g)"

definition grant_key :: "grant_row \<Rightarrow> string" where
  "grant_key r = ar_role r @ CHR 0x00 # (if ar_all r then ''*'' else ar_agencyID r)"

fun dedupe_rows :: "string list \<Rightarrow> grant_row list \<Rightarrow> grant_row list" where
  "dedupe_rows seen [] = []"
| "dedupe_rows seen (r # rs) =
     (if grant_key r \<in> set seen then dedupe_rows seen rs else r # dedupe_rows (grant_key r # seen) rs)"

definition grant_of :: "(string \<Rightarrow> string list) \<Rightarrow> grant_row \<Rightarrow> role_grant" where
  "grant_of scopesOf r =
     (if ar_all r then \<lparr>rg_Role = ar_role r, rg_Agency = [], rg_Scopes = [AllScopes]\<rparr>
      else \<lparr>rg_Role = ar_role r, rg_Agency = ar_agencyID r, rg_Scopes = scopesOf (ar_agencyID r)\<rparr>)"

definition expandGrants :: "grant_row list \<Rightarrow> (string \<Rightarrow> string list) \<Rightarrow> role_grant list" where
  "expandGrants rows scopesOf =
     sort_key (\<lambda>g. (rg_Role g, rg_Agency g)) (map (grant_of scopesOf) (dedupe_rows [] rows))"

definition resolve_groups :: "grant_tables \<Rightarrow> string list \<Rightarrow> role_grant list" where
  "resolve_groups t groups = expandGrants (concat (map (byGroup t) groups)) (scopesByAgency t)"

definition ResolveGrants :: "grant_tables option \<Rightarrow> string list \<Rightarrow> role_grant list option" where
  "ResolveGrants t groups = (if groups = [] then Some [] else map_option (\<lambda>x. resolve_groups x groups) t)"

definition WithBootstrapGrant :: "role_grant list \<Rightarrow> bool \<Rightarrow> role_grant list" where
  "WithBootstrapGrant gs bootstrapped =
     (if \<not> bootstrapped then gs
      else if list_ex (\<lambda>g. rg_Role g = AdminRole \<and> g_Unrestricted g) gs then gs
      else gs @ [\<lparr>rg_Role = AdminRole, rg_Agency = [], rg_Scopes = [AllScopes]\<rparr>])"

definition UnionGrantScopes :: "role_grant list \<Rightarrow> string list" where
  "UnionGrantScopes gs =
     (let all = concat (map rg_Scopes gs) in if AllScopes \<in> set all then [AllScopes] else sort (remdups all))"

definition UnionGrantRoles :: "role_grant list \<Rightarrow> string list" where
  "UnionGrantRoles gs = sort (remdups (map rg_Role gs))"

section \<open>Identities\<close>

text \<open>A zero time is \<open>None\<close>.\<close>

record identity =
  i_Email :: string
  i_DisplayName :: string
  i_Groups :: "string list"
  i_Roles :: "string list"
  i_AllowedScopes :: "string list"
  i_IssuedAt :: "int option"
  i_LastSeen :: "int option"
  i_Epoch :: int
  i_Grants :: "role_grant list"

definition HasRole :: "identity \<Rightarrow> string \<Rightarrow> bool" where "HasRole i r \<longleftrightarrow> r \<in> set (i_Roles i)"

definition Unrestricted :: "identity \<Rightarrow> bool" where "Unrestricted i \<longleftrightarrow> AllScopes \<in> set (i_AllowedScopes i)"

definition carries :: "registry \<Rightarrow> string \<Rightarrow> role_grant \<Rightarrow> bool" where
  "carries reg perm g \<longleftrightarrow> Has (PermsForRoles reg [rg_Role g]) perm"

definition Can :: "registry \<Rightarrow> identity \<Rightarrow> string \<Rightarrow> string \<Rightarrow> bool" where
  "Can reg i perm scope \<longleftrightarrow>
     list_ex (\<lambda>g. carries reg perm g \<and> (if scope = AllScopes then g_Unrestricted g else Covers g scope)) (i_Grants i)"

definition CanIn :: "registry \<Rightarrow> identity \<Rightarrow> string \<Rightarrow> string \<Rightarrow> string \<Rightarrow> bool" where
  "CanIn reg i perm agency scope \<longleftrightarrow>
     list_ex (\<lambda>g. carries reg perm g \<and>
        (g_Unrestricted g \<or>
         scope \<noteq> AllScopes \<and> (agency = [] \<or> rg_Agency g = [] \<or> rg_Agency g = agency) \<and> Covers g scope)) (i_Grants i)"

definition CanAnywhere :: "registry \<Rightarrow> identity \<Rightarrow> string \<Rightarrow> bool" where
  "CanAnywhere reg i perm \<longleftrightarrow> list_ex (carries reg perm) (i_Grants i)"

definition GlobalAdmin :: "registry \<Rightarrow> identity \<Rightarrow> string \<Rightarrow> bool" where
  "GlobalAdmin reg i perm \<longleftrightarrow> list_ex (\<lambda>g. g_Unrestricted g \<and> carries reg perm g) (i_Grants i)"

definition CanUnbound :: "registry \<Rightarrow> identity \<Rightarrow> string \<Rightarrow> bool" where
  "CanUnbound reg i perm = GlobalAdmin reg i perm"

definition CanAgency :: "registry \<Rightarrow> identity \<Rightarrow> string \<Rightarrow> string \<Rightarrow> bool" where
  "CanAgency reg i perm agency \<longleftrightarrow>
     (if agency = Global then GlobalAdmin reg i perm
      else if agency = [] then False
      else list_ex (\<lambda>g. carries reg perm g \<and> (g_Unrestricted g \<or> rg_Agency g = agency)) (i_Grants i))"

definition AgenciesRead :: "identity \<Rightarrow> bool \<times> string list" where
  "AgenciesRead i =
     (if list_ex g_Unrestricted (i_Grants i) then (True, [])
      else (False, sort (remdups (filter (\<lambda>a. a \<noteq> []) (map rg_Agency (i_Grants i))))))"

definition ReadsAgency :: "identity \<Rightarrow> string \<Rightarrow> bool" where
  "ReadsAgency i agency \<longleftrightarrow>
     (if agency = Global then fst (AgenciesRead i)
      else if agency = [] then False
      else list_ex (\<lambda>g. g_Unrestricted g \<or> rg_Agency g = agency) (i_Grants i))"

definition AgenciesFor :: "registry \<Rightarrow> identity \<Rightarrow> string \<Rightarrow> string list" where
  "AgenciesFor reg i perm =
     sort (remdups (map rg_Agency (filter (\<lambda>g. rg_Agency g \<noteq> [] \<and> \<not> g_Unrestricted g \<and> carries reg perm g) (i_Grants i))))"

datatype actor_relation = RelationMember | RelationGlobalAdmin | RelationOutside

definition RelationTo :: "registry \<Rightarrow> identity \<Rightarrow> string \<Rightarrow> actor_relation" where
  "RelationTo reg i agency =
     (let everywhere = list_ex g_Unrestricted (i_Grants i)
      in if list_ex (\<lambda>g. \<not> g_Unrestricted g \<and> agency \<noteq> [] \<and> agency \<noteq> Global \<and> rg_Agency g = agency) (i_Grants i) then RelationMember
         else if (agency = [] \<or> agency = Global) \<and> everywhere then RelationMember
         else if everywhere \<and> GlobalAdmin reg i PermConfigureApp then RelationGlobalAdmin
         else RelationOutside)"

section \<open>Scopes\<close>

definition grantCoversIn :: "identity \<Rightarrow> string \<Rightarrow> string \<Rightarrow> bool" where
  "grantCoversIn i agency scope \<longleftrightarrow>
     list_ex (\<lambda>g. g_Unrestricted g \<or> (agency = [] \<or> rg_Agency g = [] \<or> rg_Agency g = agency) \<and> scope \<in> set (rg_Scopes g)) (i_Grants i) \<or>
     i_Grants i = [] \<and> scope \<in> set (i_AllowedScopes i)"

definition ScopeReadableIn :: "identity \<Rightarrow> string \<Rightarrow> string \<Rightarrow> bool" where
  "ScopeReadableIn i agency scope \<longleftrightarrow> Unrestricted i \<or> scope = [] \<or> grantCoversIn i agency scope"

definition ScopeWritableIn :: "identity \<Rightarrow> string \<Rightarrow> string \<Rightarrow> bool" where
  "ScopeWritableIn i agency scope \<longleftrightarrow> Unrestricted i \<or> scope \<noteq> [] \<and> grantCoversIn i agency scope"

definition ReadableScopes :: "identity \<Rightarrow> (string \<times> string) list \<times> string list \<times> bool" where
  "ReadableScopes i =
     (if Unrestricted i \<or> list_ex g_Unrestricted (i_Grants i) then ([], [], True)
      else (concat (map (\<lambda>g. if rg_Agency g = [] then [] else map (\<lambda>s. (rg_Agency g, s)) (rg_Scopes g)) (i_Grants i)),
            concat (map (\<lambda>g. if rg_Agency g = [] then rg_Scopes g else []) (i_Grants i)) @
              (if i_Grants i = [] then i_AllowedScopes i else []), False))"

record scope_grant =
  sg_Unrestricted :: bool
  sg_Allowed :: "string list"

definition ScopeGrantOf :: "identity \<Rightarrow> scope_grant" where
  "ScopeGrantOf i = \<lparr>sg_Unrestricted = Unrestricted i, sg_Allowed = i_AllowedScopes i\<rparr>"

definition CanRead :: "scope_grant \<Rightarrow> string \<Rightarrow> bool" where
  "CanRead g scope \<longleftrightarrow> sg_Unrestricted g \<or> scope = [] \<or> scope \<in> set (sg_Allowed g)"

definition CanWrite :: "scope_grant \<Rightarrow> string \<Rightarrow> bool" where
  "CanWrite g scope \<longleftrightarrow> sg_Unrestricted g \<or> scope \<noteq> [] \<and> scope \<in> set (sg_Allowed g)"

section \<open>Views\<close>

record grant_view =
  gv_Role :: string
  gv_AgencyName :: string
  gv_AllScopes :: bool

definition grantViews :: "role_grant list \<Rightarrow> (string \<times> string) list \<Rightarrow> grant_view list" where
  "grantViews gs names = map (\<lambda>g.
     if g_Unrestricted g then \<lparr>gv_Role = rg_Role g, gv_AgencyName = [], gv_AllScopes = True\<rparr>
     else \<lparr>gv_Role = rg_Role g, gv_AgencyName = (case map_of names (rg_Agency g) of None \<Rightarrow> rg_Agency g | Some n \<Rightarrow> n),
           gv_AllScopes = False\<rparr>) gs"

end
