(* ===== verification/Auth_Login.thy ===== *)
theory Auth_Login
  imports Auth_Grants
begin

text \<open>
  Who a request is (\<open>backend/internal/auth\<close>: \<open>header.go\<close>, \<open>service_token.go\<close>, \<open>runner.go\<close>, \<open>dev.go\<close>,
  \<open>my_access.go\<close>, \<open>acting.go\<close>) and the agency it works in (\<open>agencyctx\<close>). The grants of a request's
  groups are an argument: \<open>None\<close> when no snapshot could be built. Hashing is an argument.
\<close>

section \<open>Trusted headers\<close>

record header_names =
  hn_user :: string
  hn_email :: string
  hn_name :: string
  hn_groups :: string

text \<open>\<open>StripUntrustedHeaders\<close>: the identity headers of a request whose peer is not a trusted proxy, or that
  comes in another mode, are removed before any handler reads them.\<close>

definition StripUntrustedHeaders :: "bool \<Rightarrow> bool \<Rightarrow> header_names \<Rightarrow> header_names" where
  "StripUntrustedHeaders trustedMode peerTrusted h =
     (if \<not> (trustedMode \<and> peerTrusted) then \<lparr>hn_user = [], hn_email = [], hn_name = [], hn_groups = []\<rparr> else h)"

definition parseGroups :: "string \<Rightarrow> string list" where
  "parseGroups raw =
     (if trim_space raw = [] then [] else filter (\<lambda>p. p \<noteq> []) (map trim_space (split_on CHR '','' raw)))"

text \<open>\<open>strings.EqualFold\<close> on ASCII.\<close>

definition equal_fold :: "string \<Rightarrow> string \<Rightarrow> bool" where "equal_fold a b \<longleftrightarrow> to_lower a = to_lower b"

definition containsFold :: "string list \<Rightarrow> string \<Rightarrow> bool" where
  "containsFold haystack needle \<longleftrightarrow> list_ex (\<lambda>h. equal_fold h needle) haystack"

definition applyBootstrapAdmin :: "string \<Rightarrow> string list \<Rightarrow> string list \<Rightarrow> string list \<times> bool" where
  "applyBootstrapAdmin bootstrapGroup groups roles =
     (if bootstrapGroup = [] \<or> \<not> containsFold groups bootstrapGroup then (roles, False)
      else (if containsFold roles ''admin'' then roles else roles @ [''admin''], True))"

definition identityFromHeaders :: "(string list \<Rightarrow> role_grant list option) \<Rightarrow> string \<Rightarrow> int \<Rightarrow> header_names \<Rightarrow> identity option" where
  "identityFromHeaders grantsFor bootstrapGroup now h =
     (let user = trim_space (hn_user h); email = trim_space (hn_email h); name = trim_space (hn_name h);
          groups = parseGroups (hn_groups h)
      in if user = [] \<and> email = [] then None
         else case grantsFor groups of None \<Rightarrow> None
         | Some gs \<Rightarrow>
             (let (roles, boot) = applyBootstrapAdmin bootstrapGroup groups (UnionGrantRoles gs);
                  gs' = WithBootstrapGrant gs boot
              in Some \<lparr>i_Email = (if email = [] then user else email), i_DisplayName = (if name = [] then user else name),
                   i_Groups = groups, i_Roles = (if boot then UnionGrantRoles gs' else roles),
                   i_AllowedScopes = UnionGrantScopes gs', i_IssuedAt = Some now, i_LastSeen = None, i_Epoch = 0,
                   i_Grants = gs'\<rparr>))"

section \<open>Service accounts and runners\<close>

definition ServiceActor :: "string \<Rightarrow> string" where "ServiceActor name = ''svc:'' @ name"

definition bearerToken :: "string \<Rightarrow> string option" where
  "bearerToken h =
     (let p = ''Bearer ''
      in if length h \<le> length p \<or> \<not> equal_fold (take (length p) h) p then None else Some (trim_space (drop (length p) h)))"

record service_account =
  sv_name :: string
  sv_role :: string
  sv_agencyID :: "string option"
  sv_all :: bool
  sv_token_hash :: string
  sv_revoked_at :: "string option"
  sv_expires_at :: "string option"

text \<open>The outer \<open>None\<close> is an error, the inner one a token that is not valid.\<close>

definition serviceTokenIdentity ::
  "(string \<Rightarrow> string) \<Rightarrow> service_account list \<Rightarrow> (string \<Rightarrow> string list option) \<Rightarrow> string \<Rightarrow> int \<Rightarrow> string \<Rightarrow> (identity \<times> string) option option"
where
  "serviceTokenIdentity HashToken accounts agencyScopesFor nowStamp now token =
     (case List.find (\<lambda>a. sv_token_hash a = HashToken token \<and> sv_revoked_at a = None \<and>
          (case sv_expires_at a of None \<Rightarrow> True | Some e \<Rightarrow> nowStamp < e)) accounts of
        None \<Rightarrow> Some None
      | Some a \<Rightarrow>
          (case (if sv_all a then Some [AllScopes] else agencyScopesFor (coalesce (sv_agencyID a) [])) of
             None \<Rightarrow> None
           | Some scopes \<Rightarrow>
               (let g = \<lparr>rg_Role = to_lower (trim_space (sv_role a)),
                         rg_Agency = (if sv_all a then [] else coalesce (sv_agencyID a) []), rg_Scopes = scopes\<rparr>
                in Some (Some (\<lparr>i_Email = ServiceActor (sv_name a), i_DisplayName = sv_name a, i_Groups = [], i_Roles = [rg_Role g],
                     i_AllowedScopes = scopes, i_IssuedAt = Some now, i_LastSeen = None, i_Epoch = 0, i_Grants = [g]\<rparr>, sv_name a)))))"

record runner_token =
  rk_hash :: string
  rk_runner :: "string option"
  rk_revoked_at :: "string option"
  rk_expires_at :: string

definition runnerTokenIdentity :: "(string \<Rightarrow> string) \<Rightarrow> runner_token list \<Rightarrow> string \<Rightarrow> string \<Rightarrow> string option" where
  "runnerTokenIdentity HashToken toks nowStamp token =
     map_option (\<lambda>k. coalesce (rk_runner k) [])
       (List.find (\<lambda>k. rk_hash k = HashToken token \<and> rk_revoked_at k = None \<and> nowStamp < rk_expires_at k) toks)"

definition RunnerIDFrom :: "string option \<Rightarrow> string option" where
  "RunnerIDFrom v = (case v of None \<Rightarrow> None | Some i \<Rightarrow> if i = [] then None else Some i)"

section \<open>The developer login\<close>

definition devIdentity :: "int \<Rightarrow> identity" where
  "devIdentity now = \<lparr>i_Email = ''developer@cronomicon.local'', i_DisplayName = ''Developer (bypass)'',
     i_Groups = [''cronomicon-admins''], i_Roles = [''admin''], i_AllowedScopes = [AllScopes], i_IssuedAt = Some now,
     i_LastSeen = Some now, i_Epoch = 0, i_Grants = [\<lparr>rg_Role = ''admin'', rg_Agency = [], rg_Scopes = [AllScopes]\<rparr>]\<rparr>"

section \<open>The agency a request works in\<close>

definition unreadable :: string where "unreadable = CHR 0x00 # ''unreadable''"

text \<open>\<open>From\<close>: the header's agency, \<open>None\<close> when the request names none; no identity is no agency.\<close>

definition From :: "string \<Rightarrow> identity option \<Rightarrow> string option" where
  "From header who =
     (let v = trim_space header
      in if v = [] then None
         else case who of None \<Rightarrow> Some unreadable
         | Some i \<Rightarrow> if ReadsAgency i v then Some v else Some unreadable)"

definition Readable :: "string \<Rightarrow> bool" where "Readable agency \<longleftrightarrow> agency \<noteq> unreadable"

definition Narrow :: "string option \<Rightarrow> string \<Rightarrow> string \<times> string list" where
  "Narrow ctx ownerExpr = (case ctx of None \<Rightarrow> ([], []) | Some a \<Rightarrow> ('' AND '' @ ownerExpr @ '' = ?'', [a]))"

definition In_ctx :: "string option \<Rightarrow> string \<Rightarrow> bool" where
  "In_ctx ctx owner = (case ctx of None \<Rightarrow> True | Some a \<Rightarrow> (if owner = [] then Global else owner) = a)"

definition Keep :: "string option \<Rightarrow> ('a \<Rightarrow> string) \<Rightarrow> 'a list \<Rightarrow> 'a list" where
  "Keep ctx owner xs = (case ctx of None \<Rightarrow> xs | Some _ \<Rightarrow> filter (\<lambda>x. In_ctx ctx (owner x)) xs)"

text \<open>The agency a global administrator's changes are recorded as acting in.\<close>

definition actingAgency :: "registry \<Rightarrow> string \<Rightarrow> identity \<Rightarrow> string option" where
  "actingAgency reg header i =
     (let a = trim_space header
      in if a = [] \<or> a = Global \<or> \<not> ReadsAgency i a \<or> \<not> GlobalAdmin reg i PermConfigureApp then None else Some a)"

section \<open>My access\<close>

record my_grant =
  mg_Role :: string
  mg_AllScopes :: bool
  mg_AgencyID :: string
  mg_AgencyName :: string
  mg_Scopes :: "string list"
  mg_Permissions :: "string list"
  mg_Groups :: "string list"
  mg_Origin :: string

definition bootstrap_of :: "bool \<Rightarrow> string \<Rightarrow> string list \<Rightarrow> string" where
  "bootstrap_of trustedMode bootstrapGroup groups =
     (if trustedMode \<and> bootstrapGroup \<noteq> []
      then foldl (\<lambda>b g. if equal_fold g bootstrapGroup then g else b) [] groups else [])"

definition my_grant_of :: "registry \<Rightarrow> grant_tables \<Rightarrow> string list \<Rightarrow> string \<Rightarrow> bool \<Rightarrow> role_grant \<Rightarrow> my_grant" where
  "my_grant_of reg t groups boot isDev g =
     (let allS = g_Unrestricted g;
          held = filter (\<lambda>x. list_ex (\<lambda>r. ar_role r = rg_Role g \<and> ar_all r = allS \<and> (ar_all r \<or> ar_agencyID r = rg_Agency g)) (byGroup t x)) groups;
          name = coalesce (map_of (gt_agencies t) (rg_Agency g)) [];
          byBoot = held = [] \<and> \<not> isDev \<and> boot \<noteq> [] \<and> allS \<and> rg_Role g = AdminRole
      in \<lparr>mg_Role = rg_Role g, mg_AllScopes = allS, mg_AgencyID = (if allS then [] else rg_Agency g),
          mg_AgencyName = (if allS then [] else if name = [] then rg_Agency g else name),
          mg_Scopes = (if allS then [] else rg_Scopes g),
          mg_Permissions = filter (Has (PermsForRoles reg [rg_Role g])) PermissionNames,
          mg_Groups = (if byBoot then [boot] else held),
          mg_Origin = (if held \<noteq> [] then ''group'' else if isDev then ''dev'' else if byBoot then ''bootstrap'' else ''group'')\<rparr>)"

definition MyAccess :: "registry \<Rightarrow> grant_tables \<Rightarrow> bool \<Rightarrow> string \<Rightarrow> bool \<Rightarrow> identity \<Rightarrow> my_grant list \<times> string list" where
  "MyAccess reg t trustedMode bootstrapGroup isDev i =
     (let boot = bootstrap_of trustedMode bootstrapGroup (i_Groups i); groups = sort (i_Groups i)
      in (map (my_grant_of reg t groups boot isDev) (i_Grants i),
          filter (\<lambda>g. byGroup t g = [] \<and> g \<noteq> boot \<and> \<not> isDev) groups))"

end
