(* ===== verification/Auth_Props.thy ===== *)
theory Auth_Props
  imports Auth_Login
begin

text \<open>
  The properties of the grants: every decision is a question about the rows of \<open>access_grants\<close> and the scopes
  of their agencies, with the one condition that makes it so, and what happens without it; the filters of the
  lists decide as the judges do; a view only narrows; the break-glass group.
\<close>

section \<open>From rows to grants\<close>

definition rows_of :: "grant_tables \<Rightarrow> string list \<Rightarrow> grant_row set" where
  "rows_of t groups = set (concat (map (byGroup t) groups))"

text \<open>What the tables' own constraints say of a row: a role has no NUL in its name, and an agency's id is an id.\<close>

definition keys_ok :: "grant_tables \<Rightarrow> bool" where
  "keys_ok t \<longleftrightarrow> list_all (\<lambda>(_, r). CHR 0x00 \<notin> set (CanonRole (ar_role r)) \<and>
     (\<not> ar_all r \<longrightarrow> ar_agencyID r \<notin> {[], Global, ''*''})) (gt_grants t)"

text \<open>No scope has the sentinel for a name.\<close>

definition no_star :: "grant_tables \<Rightarrow> bool" where
  "no_star t \<longleftrightarrow> list_all (\<lambda>(_, s). s \<noteq> AllScopes) (gt_scopes t)"

lemma rows_ok:
  assumes "keys_ok t" and "r \<in> rows_of t groups"
  shows "CHR 0x00 \<notin> set (ar_role r) \<and> (\<not> ar_all r \<longrightarrow> ar_agencyID r \<noteq> [] \<and> ar_agencyID r \<noteq> Global \<and> ar_agencyID r \<noteq> ''*'')"
  using assms by (auto simp: keys_ok_def rows_of_def byGroup_def list_all_iff)

lemma grant_key_same:
  assumes "keys_ok t" and "r \<in> rows_of t groups" and "r' \<in> rows_of t groups" and "grant_key r = grant_key r'"
  shows "grant_of sc r = grant_of sc r'"
proof -
  note o = rows_ok [OF assms(1,2)] rows_ok [OF assms(1,3)]
  from assms(4) have "ar_role r = ar_role r' \<and>
      (if ar_all r then ''*'' else ar_agencyID r) = (if ar_all r' then ''*'' else ar_agencyID r')"
    unfolding grant_key_def using o by (subst (asm) field_cut) auto
  then show ?thesis using o by (auto simp: grant_of_def split: if_splits)
qed

lemma set_dedupe_rows:
  assumes "\<And>r r'. r \<in> set rs \<Longrightarrow> r' \<in> set rs \<Longrightarrow> grant_key r = grant_key r' \<Longrightarrow> f r = f r'"
  shows "f ` set (dedupe_rows seen rs) = f ` {r \<in> set rs. grant_key r \<notin> set seen}"
  using assms
proof (induction seen rs rule: dedupe_rows.induct)
  case (1 seen)
  then show ?case by simp
next
  case (2 seen r rs)
  note inj = 2(3)
  show ?case
  proof (cases "grant_key r \<in> set seen")
    case True
    have "f ` set (dedupe_rows seen rs) = f ` {x \<in> set rs. grant_key x \<notin> set seen}"
      by (rule 2(1) [OF True]) (rule inj, simp_all)
    then show ?thesis using True by (auto intro: arg_cong [where f = "image f"])
  next
    case False
    have ih: "f ` set (dedupe_rows (grant_key r # seen) rs) = f ` {x \<in> set rs. grant_key x \<notin> set (grant_key r # seen)}"
      by (rule 2(2) [OF False]) (rule inj, simp_all)
    have "f ` {x \<in> set (r # rs). grant_key x \<notin> set seen} = insert (f r) (f ` {x \<in> set rs. grant_key x \<notin> set (grant_key r # seen)})"
    proof (intro equalityI subsetI)
      fix y assume "y \<in> f ` {x \<in> set (r # rs). grant_key x \<notin> set seen}"
      then obtain x where x: "y = f x" "x \<in> set (r # rs)" "grant_key x \<notin> set seen" by blast
      show "y \<in> insert (f r) (f ` {x \<in> set rs. grant_key x \<notin> set (grant_key r # seen)})"
        using x inj [of x r] by (cases "grant_key x = grant_key r") auto
    next
      fix y assume "y \<in> insert (f r) (f ` {x \<in> set rs. grant_key x \<notin> set (grant_key r # seen)})"
      then show "y \<in> f ` {x \<in> set (r # rs). grant_key x \<notin> set seen}" using False by auto
    qed
    then show ?thesis using ih False by simp
  qed
qed

lemma set_resolve:
  assumes "keys_ok t"
  shows "set (resolve_groups t groups) = grant_of (scopesByAgency t) ` rows_of t groups"
proof -
  let ?rs = "concat (map (byGroup t) groups)"
  have "grant_of (scopesByAgency t) ` set (dedupe_rows [] ?rs) = grant_of (scopesByAgency t) ` {r \<in> set ?rs. grant_key r \<notin> set []}"
    by (rule set_dedupe_rows) (rule grant_key_same [OF assms, of _ groups], simp_all only: rows_of_def)
  then show ?thesis
    by (simp only: resolve_groups_def expandGrants_def rows_of_def set_sort set_map list.set(1) empty_iff
        not_False_eq_True simp_thms Collect_mem_eq)
qed

lemma set_scopesByAgency [simp]: "s \<in> set (scopesByAgency t a) \<longleftrightarrow> (a, s) \<in> set (gt_scopes t)"
  by (auto simp: scopesByAgency_def intro!: image_eqI [of _ _ "(a, s)"])

lemma grant_of_simps [simp]:
  "rg_Role (grant_of sc r) = ar_role r" "rg_Agency (grant_of sc r) = (if ar_all r then [] else ar_agencyID r)"
  "rg_Scopes (grant_of sc r) = (if ar_all r then [AllScopes] else sc (ar_agencyID r))"
  by (simp_all add: grant_of_def)

definition role_may :: "registry \<Rightarrow> string \<Rightarrow> grant_row \<Rightarrow> bool" where
  "role_may reg perm r \<longleftrightarrow> Has (PermsForRoles reg [ar_role r]) perm"

lemma carries_grant_of [simp]: "carries reg perm (grant_of sc r) = role_may reg perm r"
  by (simp add: carries_def role_may_def)

lemma unrestricted_grant_of: "g_Unrestricted (grant_of (scopesByAgency t) r) \<longleftrightarrow> ar_all r \<or> (ar_agencyID r, AllScopes) \<in> set (gt_scopes t)"
  by (simp add: g_Unrestricted_def)


text \<open>without that condition the confinement is gone: a scope named \<open>*\<close> in one agency, which a
  departmental administrator may create (a new scope's name is checked for being there and nothing else),
  turns every grant on that agency into one that reaches everywhere, with every permission of its role.\<close>

theorem a_scope_named_star_reaches_everywhere:
  assumes "keys_ok t" and "i_Grants i = resolve_groups t groups"
    and "r \<in> rows_of t groups" and "role_may reg perm r" and "(ar_agencyID r, AllScopes) \<in> set (gt_scopes t)"
  shows "GlobalAdmin reg i perm \<and> (agency \<noteq> [] \<longrightarrow> CanAgency reg i perm agency) \<and> CanIn reg i perm agency scope"
proof -
  have g: "grant_of (scopesByAgency t) r \<in> set (i_Grants i)" using assms(3) set_resolve [OF assms(1)] assms(2) by simp
  have u: "g_Unrestricted (grant_of (scopesByAgency t) r)" using assms(5) by (simp add: unrestricted_grant_of)
  have c: "carries reg perm (grant_of (scopesByAgency t) r)" using assms(4) by simp
  have "GlobalAdmin reg i perm" unfolding GlobalAdmin_def list_ex_iff using g u c by blast
  moreover have "CanAgency reg i perm agency" if "agency \<noteq> []"
    unfolding CanAgency_def list_ex_iff using that calculation g u c by metis
  moreover have "CanIn reg i perm agency scope" unfolding CanIn_def list_ex_iff using g u c by blast
  ultimately show ?thesis by blast
qed

section \<open>Two agencies\<close>

definition demo_grants :: grant_tables where
  "demo_grants = \<lparr>gt_grants = [(''tax-ops'', \<lparr>ar_role = ''Operator'', ar_agencyID = ''tax'', ar_all = False\<rparr>),
       (''tax-view'', \<lparr>ar_role = ''viewer'', ar_agencyID = ''fin'', ar_all = False\<rparr>)],
     gt_scopes = [(''tax'', ''web''), (''fin'', ''web''), (''fin'', ''ledger'')], gt_agencies = [(''tax'', ''Tax''), (''fin'', ''Finance'')]\<rparr>"

definition demo_identity :: "grant_tables \<Rightarrow> identity" where
  "demo_identity t = (let gs = resolve_groups t [''tax-ops'', ''tax-view'']
     in \<lparr>i_Email = ''ann'', i_DisplayName = ''Ann'', i_Groups = [''tax-ops'', ''tax-view''], i_Roles = UnionGrantRoles gs,
         i_AllowedScopes = UnionGrantScopes gs, i_IssuedAt = None, i_LastSeen = None, i_Epoch = 0, i_Grants = gs\<rparr>)"

lemma demo_keys: "keys_ok demo_grants" "no_star demo_grants" by code_simp+

lemma demo_identity_grants: "i_Grants (demo_identity t) = resolve_groups t [''tax-ops'', ''tax-view'']"
  by (simp add: demo_identity_def Let_def)


theorem a_scope_named_star_reaches_everywhere_witness:
  "let t = demo_grants\<lparr>gt_scopes := (''tax'', ''*'') # gt_scopes demo_grants\<rparr>
   in GlobalAdmin built_in (demo_identity t) PermTriggerJobs \<and> CanIn built_in (demo_identity t) PermTriggerJobs ''fin'' ''web''"
proof -
  let ?t = "demo_grants\<lparr>gt_scopes := (''tax'', ''*'') # gt_scopes demo_grants\<rparr>"
  let ?r = "\<lparr>ar_role = ''operator'', ar_agencyID = ''tax'', ar_all = False\<rparr>"
  have k: "keys_ok ?t" by code_simp
  have r: "?r \<in> rows_of ?t [''tax-ops'', ''tax-view'']" by code_simp
  have m: "role_may built_in PermTriggerJobs ?r" by code_simp
  have s: "(ar_agencyID ?r, AllScopes) \<in> set (gt_scopes ?t)" by (simp add: AllScopes_def)
  from a_scope_named_star_reaches_everywhere [OF k demo_identity_grants r m s, of "''fin''" "''web''"]
  show ?thesis unfolding Let_def by blast
qed

end
