(* ===== verification/Auth_Views.thy ===== *)
theory Auth_Views
  imports Auth_Props
begin

text \<open>
  The filters of the lists decide as the judges of one row do, the agency a request works in only narrows,
  and who a request is by its headers: nobody when they do not come from the proxy, and an administrator
  when the break-glass group is among its groups.
\<close>

section \<open>Lists and judges\<close>

text \<open>a list that filters its rows by \<open>ReadableScopes\<close> or \<open>AgenciesRead\<close> keeps exactly the rows that
  \<open>ScopeReadableIn\<close> and \<open>ReadsAgency\<close> would let the same identity open, and what may be written may be
  read.\<close>

theorem lists_filter_as_the_judges:
  assumes "ReadableScopes i = (pairs, byName, everything)" and "AgenciesRead i = (everywhere, agencies)"
    and "agency \<noteq> []" and "scope \<noteq> []" and "\<not> list_ex (\<lambda>g. rg_Agency g = Global) (i_Grants i)"
  shows "(ScopeReadableIn i agency scope \<longleftrightarrow> everything \<or> (agency, scope) \<in> set pairs \<or> scope \<in> set byName) \<and>
    (ReadsAgency i agency \<longleftrightarrow> everywhere \<or> agency \<in> set agencies) \<and> sorted agencies \<and> distinct agencies \<and>
    (ScopeWritableIn i agency scope \<longrightarrow> ScopeReadableIn i agency scope)"
proof -
  have "ScopeReadableIn i agency scope \<longleftrightarrow> everything \<or> (agency, scope) \<in> set pairs \<or> scope \<in> set byName"
  proof (cases "Unrestricted i \<or> list_ex g_Unrestricted (i_Grants i)")
    case True
    then have "everything" using assms(1) by (simp add: ReadableScopes_def)
    moreover have "ScopeReadableIn i agency scope"
      using True by (auto simp: ScopeReadableIn_def grantCoversIn_def list_ex_iff)
    ultimately show ?thesis by blast
  next
    case False
    then have p: "pairs = concat (map (\<lambda>g. if rg_Agency g = [] then [] else map (\<lambda>s. (rg_Agency g, s)) (rg_Scopes g)) (i_Grants i))"
      "byName = concat (map (\<lambda>g. if rg_Agency g = [] then rg_Scopes g else []) (i_Grants i)) @
         (if i_Grants i = [] then i_AllowedScopes i else [])" "\<not> everything"
      using assms(1) by (simp_all add: ReadableScopes_def)
    have "ScopeReadableIn i agency scope \<longleftrightarrow>
        (\<exists>g \<in> set (i_Grants i). (rg_Agency g = [] \<or> rg_Agency g = agency) \<and> scope \<in> set (rg_Scopes g)) \<or>
        i_Grants i = [] \<and> scope \<in> set (i_AllowedScopes i)"
      using False assms(3,4) by (auto simp: ScopeReadableIn_def grantCoversIn_def list_ex_iff)
    moreover have "(agency, scope) \<in> set pairs \<longleftrightarrow> (\<exists>g \<in> set (i_Grants i). rg_Agency g = agency \<and> scope \<in> set (rg_Scopes g))"
      using assms(3) by (auto simp: p(1))
    moreover have "scope \<in> set byName \<longleftrightarrow> (\<exists>g \<in> set (i_Grants i). rg_Agency g = [] \<and> scope \<in> set (rg_Scopes g)) \<or>
        i_Grants i = [] \<and> scope \<in> set (i_AllowedScopes i)"
      by (auto simp: p(2))
    ultimately show ?thesis using p(3) by blast
  qed
  moreover have "(ReadsAgency i agency \<longleftrightarrow> everywhere \<or> agency \<in> set agencies) \<and> sorted agencies \<and> distinct agencies"
  proof -
    have ng: "rg_Agency g \<noteq> Global" if "g \<in> set (i_Grants i)" for g using that assms(5) by (auto simp: list_ex_iff)
    show ?thesis
    proof (cases "list_ex g_Unrestricted (i_Grants i)")
      case True
      then have "everywhere" "agencies = []" using assms(2) by (simp_all add: AgenciesRead_def)
      moreover have "ReadsAgency i agency"
        using True assms(3) unfolding ReadsAgency_def AgenciesRead_def list_ex_iff by auto
      ultimately show ?thesis by simp
    next
      case False
      then have a: "\<not> everywhere" "agencies = sort (remdups (filter (\<lambda>a. a \<noteq> []) (map rg_Agency (i_Grants i))))"
        using assms(2) by (simp_all add: AgenciesRead_def)
      have "ReadsAgency i agency \<longleftrightarrow> (\<exists>g \<in> set (i_Grants i). rg_Agency g = agency)"
        using False ng assms(3) unfolding ReadsAgency_def AgenciesRead_def list_ex_iff by auto
      also have "\<dots> \<longleftrightarrow> agency \<in> set agencies" using assms(3) unfolding a(2) by auto
      finally show ?thesis using a by simp
    qed
  qed
  moreover have "ScopeWritableIn i agency scope \<longrightarrow> ScopeReadableIn i agency scope"
    by (auto simp: ScopeWritableIn_def ScopeReadableIn_def)
  ultimately show ?thesis by blast
qed

theorem lists_filter_as_the_judges_witness:
  "\<not> ScopeReadableIn (demo_identity demo_grants) ''tax'' ''ledger'' \<and> ReadsAgency (demo_identity demo_grants) ''tax''"
proof -
  let ?i = "demo_identity demo_grants"
  have p: "ReadableScopes ?i = ([(''tax'', ''web''), (''fin'', ''ledger''), (''fin'', ''web'')], [], False)" by code_simp
  have a: "AgenciesRead ?i = (False, [''fin'', ''tax''])" by code_simp
  have g: "\<not> list_ex (\<lambda>g. rg_Agency g = Global) (i_Grants ?i)" by code_simp
  from lists_filter_as_the_judges [OF p a _ _ g, of "''tax''" "''ledger''"] show ?thesis by simp
qed

section \<open>A view only narrows\<close>

text \<open>naming an agency in a request narrows a list and never widens it: the rows kept are rows of the list,
  in its order, all of the one agency named, which the caller may read; an agency the caller may not read
  gives the empty list, as one that does not exist does.\<close>

theorem a_view_only_narrows:
  assumes "list_all (\<lambda>x. owner x \<noteq> unreadable) xs"
  shows "(\<exists>p. Keep (From header who) owner xs = filter p xs) \<and>
    (trim_space header = [] \<longrightarrow> Keep (From header who) owner xs = xs) \<and>
    (trim_space header \<noteq> [] \<longrightarrow>
       (\<forall>x \<in> set (Keep (From header who) owner xs). (if owner x = [] then Global else owner x) = trim_space header \<and>
          (\<exists>i. who = Some i \<and> ReadsAgency i (trim_space header))))"
proof -
  have n: "\<not> In_ctx (Some unreadable) (owner x)" if "x \<in> set xs" for x
    using assms that by (auto simp: In_ctx_def list_all_iff unreadable_def Global_def)
  have "\<exists>p. Keep (From header who) owner xs = filter p xs"
    by (cases "From header who") (auto simp: Keep_def intro: exI [of _ "\<lambda>_. True"])
  moreover have "trim_space header = [] \<longrightarrow> Keep (From header who) owner xs = xs"
    by (simp add: Keep_def From_def)
  moreover have "(if owner x = [] then Global else owner x) = trim_space header \<and> (\<exists>i. who = Some i \<and> ReadsAgency i (trim_space header))"
    if "trim_space header \<noteq> []" "x \<in> set (Keep (From header who) owner xs)" for x
  proof (cases "\<exists>i. who = Some i \<and> ReadsAgency i (trim_space header)")
    case True
    then have "From header who = Some (trim_space header)" using that(1) by (auto simp: From_def Let_def)
    then show ?thesis using True that(2) by (simp add: Keep_def In_ctx_def)
  next
    case False
    then have "From header who = Some unreadable" using that(1) by (auto simp: From_def Let_def split: option.splits)
    then show ?thesis using n that(2) by (auto simp: Keep_def)
  qed
  ultimately show ?thesis by blast
qed

theorem a_view_only_narrows_witness:
  "Keep (From '' fin'' (Some (demo_identity demo_grants))) (\<lambda>x. x) [''tax'', ''fin'', []] = [''fin''] \<and>
   Keep (From ''hr'' (Some (demo_identity demo_grants))) (\<lambda>x. x) [''tax'', ''hr''] = []"
proof -
  have "list_all (\<lambda>x. x \<noteq> unreadable) [''tax'', ''hr'']" by code_simp
  from a_view_only_narrows [OF this, of "''hr''" "Some (demo_identity demo_grants)"]
  have "\<forall>x \<in> set (Keep (From ''hr'' (Some (demo_identity demo_grants))) (\<lambda>x. x) [''tax'', ''hr'']).
      ReadsAgency (demo_identity demo_grants) (trim_space ''hr'')" by (auto simp: trim_space_def is_space_def)
  moreover have "\<not> ReadsAgency (demo_identity demo_grants) (trim_space ''hr'')" by code_simp
  ultimately have "set (Keep (From ''hr'' (Some (demo_identity demo_grants))) (\<lambda>x. x) [''tax'', ''hr'']) = {}" by (metis ex_in_conv)
  moreover have "Keep (From '' fin'' (Some (demo_identity demo_grants))) (\<lambda>x. x) [''tax'', ''fin'', []] = [''fin'']" by code_simp
  ultimately show ?thesis by simp
qed

section \<open>Headers\<close>

lemma with_bootstrap:
  "set gs \<subseteq> set (WithBootstrapGrant gs b)"
  "b \<Longrightarrow> \<exists>g \<in> set (WithBootstrapGrant gs b). rg_Role g = AdminRole \<and> g_Unrestricted g"
  "set (WithBootstrapGrant gs b) \<subseteq> set gs \<union> {\<lparr>rg_Role = AdminRole, rg_Agency = [], rg_Scopes = [AllScopes]\<rparr>}"
  by (auto simp: WithBootstrapGrant_def list_ex_iff g_Unrestricted_def)

text \<open>identity headers count only when the proxy sent them: a request from anywhere else is nobody. A request
  that names the break-glass group, in any letter case, holds everything the administrator's role carries,
  on every agency, beside the grants its groups hold, whatever the grant tables say; any other holds those
  grants and nothing else.\<close>

theorem headers_and_the_break_glass_group:
  assumes "grantsFor (parseGroups (hn_groups h)) = Some gs" and "trim_space (hn_user h) \<noteq> []"
  shows "(\<not> (trustedMode \<and> peerTrusted) \<longrightarrow>
      identityFromHeaders grantsFor boot now (StripUntrustedHeaders trustedMode peerTrusted h) = None) \<and>
    (\<exists>i. identityFromHeaders grantsFor boot now h = Some i \<and>
       (if boot \<noteq> [] \<and> containsFold (parseGroups (hn_groups h)) boot
        then set gs \<subseteq> set (i_Grants i) \<and> (\<forall>perm. Has (PermsForRoles reg [AdminRole]) perm \<longrightarrow> GlobalAdmin reg i perm)
        else i_Grants i = gs \<and> i_Roles i = UnionGrantRoles gs \<and> i_AllowedScopes i = UnionGrantScopes gs))"
proof -
  have n: "identityFromHeaders grantsFor boot now (StripUntrustedHeaders trustedMode peerTrusted h) = None"
    if "\<not> (trustedMode \<and> peerTrusted)"
    using that by (simp add: StripUntrustedHeaders_def identityFromHeaders_def)
  have "\<exists>i. identityFromHeaders grantsFor boot now h = Some i \<and>
       (if boot \<noteq> [] \<and> containsFold (parseGroups (hn_groups h)) boot
        then set gs \<subseteq> set (i_Grants i) \<and> (\<forall>perm. Has (PermsForRoles reg [AdminRole]) perm \<longrightarrow> GlobalAdmin reg i perm)
        else i_Grants i = gs \<and> i_Roles i = UnionGrantRoles gs \<and> i_AllowedScopes i = UnionGrantScopes gs)"
  proof (cases "boot \<noteq> [] \<and> containsFold (parseGroups (hn_groups h)) boot")
    case True
    then obtain i where i: "identityFromHeaders grantsFor boot now h = Some i" "i_Grants i = WithBootstrapGrant gs True"
      using assms by (auto simp: identityFromHeaders_def applyBootstrapAdmin_def Let_def)
    obtain g where g: "g \<in> set (WithBootstrapGrant gs True)" "rg_Role g = AdminRole" "g_Unrestricted g"
      using with_bootstrap(2) [of True gs] by blast
    have "GlobalAdmin reg i perm" if "Has (PermsForRoles reg [AdminRole]) perm" for perm
      unfolding GlobalAdmin_def list_ex_iff i(2) carries_def using g that by metis
    then show ?thesis using i with_bootstrap(1) [of gs True] True by auto
  next
    case False
    then have "applyBootstrapAdmin boot (parseGroups (hn_groups h)) (UnionGrantRoles gs) = (UnionGrantRoles gs, False)"
      by (auto simp: applyBootstrapAdmin_def)
    then have "\<exists>i. identityFromHeaders grantsFor boot now h = Some i \<and> i_Grants i = gs \<and> i_Roles i = UnionGrantRoles gs \<and>
        i_AllowedScopes i = UnionGrantScopes gs"
      using assms by (simp add: identityFromHeaders_def Let_def WithBootstrapGrant_def)
    then show ?thesis unfolding if_not_P [OF False] by blast
  qed
  with n show ?thesis by blast
qed

theorem headers_and_the_break_glass_group_witness:
  "\<exists>i. identityFromHeaders (\<lambda>_. Some []) ''Ops-Admins'' 0
       \<lparr>hn_user = ''ann'', hn_email = [], hn_name = [], hn_groups = ''staff, ops-admins''\<rparr> = Some i \<and>
     GlobalAdmin built_in i PermManageRoles"
proof -
  let ?h = "\<lparr>hn_user = ''ann'', hn_email = [], hn_name = [], hn_groups = ''staff, ops-admins''\<rparr>"
  have u: "trim_space (hn_user ?h) \<noteq> []" by code_simp
  have b: "''Ops-Admins'' \<noteq> [] \<and> containsFold (parseGroups (hn_groups ?h)) ''Ops-Admins''" by code_simp
  have p: "Has (PermsForRoles built_in [AdminRole]) PermManageRoles" by code_simp
  have "(\<lambda>_. Some []) (parseGroups (hn_groups ?h)) = Some []" by simp
  from headers_and_the_break_glass_group [OF this u, of _ _ "''Ops-Admins''" 0 built_in, THEN conjunct2]
  show ?thesis using b p by auto
qed

end
