(* ===== verification/Auth_Snapshot.thy ===== *)
theory Auth_Snapshot
  imports Auth_Grants
begin

text \<open>
  The grant snapshot (\<open>backend/internal/auth/snapshot.go\<close>): a copy of the tables kept for a request to resolve
  against, rebuilt when a writer has announced a change or the copy is old, and served for a while when it
  cannot be rebuilt. \<open>snapshot\<close> is \<open>Service.snapshot\<close>, at one instant, with what its load of the tables
  would give. The transition system interleaves it with writers, whose commit and announcement are two
  steps, and with the load itself, which reads the generation and the clock before it reads the tables.
\<close>

definition grantSnapshotTTL :: int where "grantSnapshotTTL = 30 * nsSecond"
definition grantRebuildBackoff :: int where "grantRebuildBackoff = nsSecond"
definition grantSnapshotMaxStale :: int where "grantSnapshotMaxStale = 2 * nsMinute"

record grant_snapshot =
  sn_gen :: nat
  sn_builtAt :: int
  sn_tables :: grant_tables

text \<open>\<open>failingSince\<close> is zero, here \<open>None\<close>, while healthy.\<close>

record grant_store =
  gs_cur :: "grant_snapshot option"
  gs_lastFailed :: int
  gs_failingSince :: "int option"

definition new_store :: grant_store where "new_store = \<lparr>gs_cur = None, gs_lastFailed = 0, gs_failingSince = None\<rparr>"

definition fresh_snapshot :: "nat \<Rightarrow> int \<Rightarrow> grant_snapshot option \<Rightarrow> bool" where
  "fresh_snapshot gen now s = (case s of None \<Rightarrow> False | Some x \<Rightarrow> sn_gen x = gen \<and> now - sn_builtAt x < grantSnapshotTTL)"

definition too_stale :: "int \<Rightarrow> grant_store \<Rightarrow> bool" where
  "too_stale now st \<longleftrightarrow> gs_cur st = None \<or> (case gs_failingSince st of None \<Rightarrow> False | Some f \<Rightarrow> now - f > grantSnapshotMaxStale)"

definition snapshot :: "int \<Rightarrow> nat \<Rightarrow> grant_snapshot option \<Rightarrow> grant_store \<Rightarrow> grant_snapshot option \<times> grant_store" where
  "snapshot now gen loaded st =
     (if fresh_snapshot gen now (gs_cur st) then (gs_cur st, st)
      else if gs_failingSince st \<noteq> None \<and> now - gs_lastFailed st < grantRebuildBackoff
      then (if too_stale now st then None else gs_cur st, st)
      else case loaded of
        None \<Rightarrow>
          (let st' = st\<lparr>gs_lastFailed := now,
                 gs_failingSince := (if gs_failingSince st = None then Some now else gs_failingSince st)\<rparr>
           in (if too_stale now st' then None else gs_cur st', st'))
      | Some s \<Rightarrow> (Some s, st\<lparr>gs_cur := Some s, gs_failingSince := None\<rparr>))"

definition grantsFor :: "int \<Rightarrow> nat \<Rightarrow> grant_snapshot option \<Rightarrow> grant_store \<Rightarrow> string list \<Rightarrow> role_grant list option" where
  "grantsFor now gen loaded st groups = map_option (\<lambda>s. resolve_groups (sn_tables s) groups) (fst (snapshot now gen loaded st))"

definition agencyScopesFor :: "int \<Rightarrow> nat \<Rightarrow> grant_snapshot option \<Rightarrow> grant_store \<Rightarrow> string \<Rightarrow> string list option" where
  "agencyScopesFor now gen loaded st agency =
     map_option (\<lambda>s. scopesByAgency (sn_tables s) agency) (fst (snapshot now gen loaded st))"

section \<open>Requests among writers\<close>

text \<open>\<open>sy_hist\<close> is every state of the tables with the instant it was committed, \<open>sy_marks\<close> the state an
  announcement was made after: the one of generation \<open>g\<close> is \<open>sy_marks ! g\<close>. A load that has begun holds
  the generation and the instant it read.\<close>

record grant_system =
  sy_now :: int
  sy_hist :: "(int \<times> grant_tables) list"
  sy_marks :: "nat list"
  sy_load :: "(nat \<times> int) option"
  sy_store :: grant_store

definition sy_gen :: "grant_system \<Rightarrow> nat" where "sy_gen s = length (sy_marks s) - 1"

definition loading :: "grant_system \<Rightarrow> nat \<times> int \<Rightarrow> grant_snapshot" where
  "loading s = (\<lambda>(g, t). \<lparr>sn_gen = g, sn_builtAt = t, sn_tables = snd (last (sy_hist s))\<rparr>)"

inductive grant_step :: "grant_system \<Rightarrow> grant_system \<Rightarrow> bool" where
  tick: "0 \<le> d \<Longrightarrow> grant_step s (s\<lparr>sy_now := sy_now s + d\<rparr>)"
| commit: "grant_step s (s\<lparr>sy_hist := sy_hist s @ [(sy_now s, t)]\<rparr>)"
| announce: "grant_step s (s\<lparr>sy_marks := sy_marks s @ [length (sy_hist s) - 1]\<rparr>)"
| begin_load: "sy_load s = None \<Longrightarrow> grant_step s (s\<lparr>sy_load := Some (sy_gen s, sy_now s)\<rparr>)"
| loaded: "sy_load s = Some l \<Longrightarrow>
    grant_step s (s\<lparr>sy_load := None, sy_store := snd (snapshot (sy_now s) (sy_gen s) (Some (loading s l)) (sy_store s))\<rparr>)"
| failed: "sy_load s = Some l \<Longrightarrow>
    grant_step s (s\<lparr>sy_load := None, sy_store := snd (snapshot (sy_now s) (sy_gen s) None (sy_store s))\<rparr>)"

definition started :: "int \<Rightarrow> grant_tables \<Rightarrow> grant_system" where
  "started now t = \<lparr>sy_now = now, sy_hist = [(now, t)], sy_marks = [0], sy_load = None, sy_store = new_store\<rparr>"

inductive grant_reach :: "int \<Rightarrow> grant_tables \<Rightarrow> grant_system \<Rightarrow> bool" for now t where
  start: "grant_reach now t (started now t)"
| step: "grant_reach now t s \<Longrightarrow> grant_step s s' \<Longrightarrow> grant_reach now t s'"

section \<open>What a snapshot holds\<close>

text \<open>A copy of a state of the tables that no announced change, and no change before it was built, is missing
  from.\<close>

definition copy_of :: "grant_system \<Rightarrow> grant_snapshot \<Rightarrow> nat \<Rightarrow> bool" where
  "copy_of s x k \<longleftrightarrow> k < length (sy_hist s) \<and> sn_tables x = snd (sy_hist s ! k) \<and> sn_gen x < length (sy_marks s) \<and>
     sy_marks s ! sn_gen x \<le> k \<and> (\<forall>j < length (sy_hist s). fst (sy_hist s ! j) < sn_builtAt x \<longrightarrow> j \<le> k) \<and> sn_builtAt x \<le> sy_now s"

definition system_ok :: "grant_system \<Rightarrow> bool" where
  "system_ok s \<longleftrightarrow> sy_hist s \<noteq> [] \<and> sy_marks s \<noteq> [] \<and> (\<forall>m \<in> set (sy_marks s). m < length (sy_hist s)) \<and>
     (case sy_load s of None \<Rightarrow> True | Some (g, t) \<Rightarrow> g < length (sy_marks s) \<and> t \<le> sy_now s) \<and>
     (case gs_cur (sy_store s) of None \<Rightarrow> True | Some x \<Rightarrow> \<exists>k. copy_of s x k)"

lemma copy_loading:
  assumes "system_ok s" and "sy_load s = Some l"
  shows "copy_of s (loading s l) (length (sy_hist s) - 1)"
proof -
  obtain g t where l: "l = (g, t)" by (cases l)
  have "g < length (sy_marks s)" "t \<le> sy_now s" "sy_hist s \<noteq> []" "\<forall>m \<in> set (sy_marks s). m < length (sy_hist s)"
    using assms l by (auto simp: system_ok_def)
  moreover from this have "sy_marks s ! g < length (sy_hist s)" by simp
  then have "sy_marks s ! g \<le> length (sy_hist s) - 1" by linarith
  ultimately show ?thesis by (auto simp: copy_of_def loading_def l last_conv_nth)
qed

lemma copy_grow:
  assumes "copy_of s x k" and "sy_hist s' = sy_hist s @ h" and "sy_marks s' = sy_marks s @ m" and "sy_now s \<le> sy_now s'"
    and "\<forall>e \<in> set h. sy_now s \<le> fst e"
  shows "copy_of s' x k"
proof -
  have "j \<le> k" if "j < length (sy_hist s')" "fst (sy_hist s' ! j) < sn_builtAt x" for j
  proof (cases "j < length (sy_hist s)")
    case True
    then show ?thesis using assms(1,2) that by (auto simp: copy_of_def nth_append)
  next
    case False
    then have "sy_hist s' ! j \<in> set h" using that(1) assms(2) by (auto simp: nth_append)
    then have "sy_now s \<le> fst (sy_hist s' ! j)" using assms(5) by blast
    then show ?thesis using that(2) assms(1) by (simp add: copy_of_def)
  qed
  then show ?thesis using assms(1-4) by (auto simp: copy_of_def nth_append)
qed

lemma snapshot_cur:
  "gs_cur (snd (snapshot now gen loaded st)) = gs_cur st \<or>
   (\<exists>x. loaded = Some x \<and> gs_cur (snd (snapshot now gen loaded st)) = Some x)"
  by (auto simp: snapshot_def Let_def split: option.split)

lemma system_ok_step:
  assumes "grant_step s s'" and "system_ok s"
  shows "system_ok s'"
  using assms
proof (induction)
  case (tick d s)
  then show ?case
    using copy_grow [of s _ _ "s\<lparr>sy_now := sy_now s + d\<rparr>" "[]" "[]"]
    by (fastforce simp: system_ok_def split: option.splits prod.splits)
next
  case (commit s t)
  have "copy_of (s\<lparr>sy_hist := sy_hist s @ [(sy_now s, t)]\<rparr>) x k" if "copy_of s x k" for x k
    by (rule copy_grow [OF that, where h = "[(sy_now s, t)]" and m = "[]"]) simp_all
  then show ?case using commit by (fastforce simp: system_ok_def less_Suc_eq split: option.splits)
next
  case (announce s)
  have "copy_of (s\<lparr>sy_marks := sy_marks s @ [length (sy_hist s) - 1]\<rparr>) x k" if "copy_of s x k" for x k
    by (rule copy_grow [OF that, where h = "[]" and m = "[length (sy_hist s) - 1]"]) simp_all
  then show ?case using announce by (fastforce simp: system_ok_def less_Suc_eq split: option.splits prod.splits)
next
  case (begin_load s)
  have "copy_of (s\<lparr>sy_load := Some (sy_gen s, sy_now s)\<rparr>) x k" if "copy_of s x k" for x k
    by (rule copy_grow [OF that, where h = "[]" and m = "[]"]) simp_all
  then show ?case using begin_load by (fastforce simp: system_ok_def sy_gen_def split: option.splits)
next
  case (loaded s l)
  let ?s = "s\<lparr>sy_load := None, sy_store := snd (snapshot (sy_now s) (sy_gen s) (Some (loading s l)) (sy_store s))\<rparr>"
  have g: "copy_of ?s x k" if "copy_of s x k" for x k
    by (rule copy_grow [OF that, where h = "[]" and m = "[]"]) simp_all
  have "case gs_cur (sy_store ?s) of None \<Rightarrow> True | Some x \<Rightarrow> \<exists>k. copy_of ?s x k"
    using snapshot_cur [of "sy_now s" "sy_gen s" "Some (loading s l)" "sy_store s"] loaded(2)
      g [OF copy_loading [OF loaded(2,1)]] g
    by (fastforce simp: system_ok_def split: option.splits)
  then show ?case using loaded(2) by (simp add: system_ok_def)
next
  case (failed s l)
  let ?s = "s\<lparr>sy_load := None, sy_store := snd (snapshot (sy_now s) (sy_gen s) None (sy_store s))\<rparr>"
  have g: "copy_of ?s x k" if "copy_of s x k" for x k
    by (rule copy_grow [OF that, where h = "[]" and m = "[]"]) simp_all
  have "case gs_cur (sy_store ?s) of None \<Rightarrow> True | Some x \<Rightarrow> \<exists>k. copy_of ?s x k"
    using snapshot_cur [of "sy_now s" "sy_gen s" None "sy_store s"] failed(2) g
    by (fastforce simp: system_ok_def split: option.splits)
  then show ?case using failed(2) by (simp add: system_ok_def)
qed

lemma system_ok_reach: "grant_reach now t s \<Longrightarrow> system_ok s"
proof (induction rule: grant_reach.induct)
  case start
  show ?case by (simp add: started_def new_store_def system_ok_def)
next
  case (step s s')
  show ?case by (rule system_ok_step [OF step.hyps(2) step.IH])
qed

text \<open>C17: a request is authorised by what the tables hold, whatever writers and other requests do meanwhile: by a
  state of the tables that has every change announced before it and every change committed half a minute
  before it, or, while the tables cannot be read, by the last such copy, for two minutes of the outage at
  most.\<close>

theorem grants_are_never_older_than_announced:
  assumes "grant_reach t0 tables0 s" and "loaded = None \<or> loaded = Some (loading s (sy_gen s, sy_now s))"
    and "snapshot (sy_now s) (sy_gen s) loaded (sy_store s) = (Some x, st')"
  shows "(\<exists>k < length (sy_hist s). sn_tables x = snd (sy_hist s ! k) \<and> last (sy_marks s) \<le> k \<and>
      (\<forall>j < length (sy_hist s). fst (sy_hist s ! j) \<le> sy_now s - grantSnapshotTTL \<longrightarrow> j \<le> k)) \<or>
    (\<exists>f. gs_failingSince st' = Some f \<and> sy_now s - f \<le> grantSnapshotMaxStale \<and> gs_cur (sy_store s) = Some x)"
proof -
  have ok: "system_ok s" by (rule system_ok_reach [OF assms(1)])
  have good: ?thesis if "copy_of s x k" "sn_gen x = sy_gen s" "sy_now s - sn_builtAt x < grantSnapshotTTL" for k
  proof -
    have "last (sy_marks s) = sy_marks s ! sy_gen s" using ok by (simp add: sy_gen_def system_ok_def last_conv_nth)
    then show ?thesis using that by (intro disjI1 exI [of _ k]) (auto simp: copy_of_def)
  qed
  consider (fresh) "fresh_snapshot (sy_gen s) (sy_now s) (gs_cur (sy_store s))" "gs_cur (sy_store s) = Some x"
    | (new) "loaded = Some x"
    | (stale) "\<exists>f. gs_failingSince st' = Some f \<and> sy_now s - f \<le> grantSnapshotMaxStale" "gs_cur (sy_store s) = Some x"
    using assms(3) by (auto simp: snapshot_def too_stale_def Let_def split: if_splits option.splits)
  then show ?thesis
  proof cases
    case fresh
    then obtain k where "copy_of s x k" using ok by (auto simp: system_ok_def)
    then show ?thesis using good fresh by (simp add: fresh_snapshot_def)
  next
    case new
    let ?s = "s\<lparr>sy_load := Some (sy_gen s, sy_now s)\<rparr>"
    have x: "x = loading s (sy_gen s, sy_now s)" using new assms(2) by simp
    have "system_ok ?s"
    proof (cases "sy_load s")
      case None
      then show ?thesis using system_ok_step [OF grant_step.begin_load ok] by blast
    next
      case (Some l)
      have "sy_gen s < length (sy_marks s)" using ok by (simp add: sy_gen_def system_ok_def)
      moreover have "copy_of ?s y k" if "copy_of s y k" for y k
        by (rule copy_grow [OF that, where h = "[]" and m = "[]"]) simp_all
      ultimately show ?thesis using ok by (fastforce simp: system_ok_def split: option.splits)
    qed
    from copy_loading [OF this] have c: "copy_of ?s (loading ?s (sy_gen s, sy_now s)) (length (sy_hist s) - 1)" by simp
    have "copy_of s x (length (sy_hist s) - 1)" using c by (simp add: copy_of_def x loading_def)
    then show ?thesis by (rule good) (simp_all add: x loading_def grantSnapshotTTL_def nsSecond_def)
  next
    case stale
    then show ?thesis by blast
  qed
qed

section \<open>A revocation\<close>

text \<open>A server loads a grant, the grant is revoked and the change announced.\<close>

definition granted :: grant_tables where
  "granted = \<lparr>gt_grants = [(''ops'', \<lparr>ar_role = ''operator'', ar_agencyID = ''red'', ar_all = False\<rparr>)],
     gt_scopes = [(''red'', ''s1'')], gt_agencies = [(''red'', ''Red'')]\<rparr>"

definition revoked :: grant_tables where "revoked = granted\<lparr>gt_grants := []\<rparr>"

definition revocation :: grant_system where
  "revocation = (let s1 = (started 0 granted)\<lparr>sy_load := Some (0, 0)\<rparr>;
       s2 = s1\<lparr>sy_load := None, sy_store := snd (snapshot 0 0 (Some (loading s1 (0, 0))) (sy_store s1))\<rparr>;
       s3 = s2\<lparr>sy_hist := sy_hist s2 @ [(0, revoked)]\<rparr>
     in s3\<lparr>sy_marks := sy_marks s3 @ [1]\<rparr>)"

lemma revocation_reach: "grant_reach 0 granted revocation"
proof -
  have 1: "grant_reach 0 granted ((started 0 granted)\<lparr>sy_load := Some (0, 0)\<rparr>)" (is "grant_reach _ _ ?s1")
    using grant_reach.step [OF grant_reach.start [of 0 granted] grant_step.begin_load [of "started 0 granted"]]
    by (simp add: started_def sy_gen_def)
  have 2: "grant_reach 0 granted (?s1\<lparr>sy_load := None, sy_store := snd (snapshot 0 0 (Some (loading ?s1 (0, 0))) (sy_store ?s1))\<rparr>)"
    (is "grant_reach _ _ ?s2")
    using grant_reach.step [OF 1 grant_step.loaded [of ?s1 "(0, 0)"]] by (simp add: started_def sy_gen_def)
  have 3: "grant_reach 0 granted (?s2\<lparr>sy_hist := sy_hist ?s2 @ [(0, revoked)]\<rparr>)" (is "grant_reach _ _ ?s3")
    using grant_reach.step [OF 2 grant_step.commit [of ?s2 revoked]] by (simp add: started_def)
  show ?thesis
    using grant_reach.step [OF 3 grant_step.announce [of ?s3]] by (simp add: revocation_def Let_def started_def)
qed

theorem grants_are_never_older_than_announced_witness:
  "\<exists>x st'. snapshot (sy_now revocation) (sy_gen revocation) (Some (loading revocation (sy_gen revocation, sy_now revocation)))
       (sy_store revocation) = (Some x, st') \<and> sn_tables x = revoked"
proof -
  let ?s = revocation and ?l = "Some (loading revocation (sy_gen revocation, sy_now revocation))"
  obtain x st' where r: "snapshot (sy_now ?s) (sy_gen ?s) ?l (sy_store ?s) = (Some x, st')" and f: "gs_failingSince st' = None"
    by (simp add: revocation_def started_def new_store_def sy_gen_def loading_def snapshot_def fresh_snapshot_def Let_def)
  have h: "sy_hist ?s = [(0, granted), (0, revoked)]" "sy_marks ?s = [0, 1]"
    by (simp_all add: revocation_def started_def Let_def)
  have "sn_tables x = revoked"
    using grants_are_never_older_than_announced [OF revocation_reach _ r] f by (auto simp: h less_Suc_eq)
  with r show ?thesis by blast
qed

end
