(* ===== verification/Auth_Session.thy ===== *)
theory Auth_Session
  imports Auth_Snapshot Auth_Login
begin

text \<open>
  The operator session of the OIDC mode (\<open>backend/internal/auth\<close>: \<open>service.go\<close>, \<open>session.go\<close>, \<open>csrf.go\<close>, the
  callback of \<open>handlers.go\<close>, the throttle of \<open>audit.go\<close>): the cookie's payload, the checks that accept one, the
  idle policy's cache, the sign-out of everyone else. A cookie is sealed by a third-party library: what is
  read from one is the payload that was written, or nothing, and both are arguments here. The answers of
  the identity provider are arguments of \<open>Callback\<close>.
\<close>

section \<open>The cookie\<close>

definition sessionTTL :: int where "sessionTTL = 8 * nsHour"

record session_payload =
  p_Email :: string
  p_DisplayName :: string
  p_Groups :: "string list"
  p_IssuedAt :: "int option"
  p_LastSeen :: "int option"
  p_Epoch :: int

definition payloadOf :: "identity \<Rightarrow> session_payload" where
  "payloadOf i = \<lparr>p_Email = i_Email i, p_DisplayName = i_DisplayName i, p_Groups = i_Groups i, p_IssuedAt = i_IssuedAt i,
     p_LastSeen = i_LastSeen i, p_Epoch = i_Epoch i\<rparr>"

text \<open>\<open>sessionCodec.read\<close>, of what the cookie library decoded.\<close>

definition codec_read :: "session_payload option \<Rightarrow> identity option" where
  "codec_read c = map_option (\<lambda>p. \<lparr>i_Email = p_Email p, i_DisplayName = p_DisplayName p, i_Groups = p_Groups p, i_Roles = [],
     i_AllowedScopes = [], i_IssuedAt = p_IssuedAt p, i_LastSeen = p_LastSeen p, i_Epoch = p_Epoch p, i_Grants = []\<rparr>) c"

text \<open>\<open>decodeKey\<close> and the keys \<open>newSessionCodec\<close> settles on; the bytes drawn at random are arguments.\<close>

definition decodeKey :: "(string \<Rightarrow> string option) \<Rightarrow> string \<Rightarrow> bool \<Rightarrow> string" where
  "decodeKey base64 s allowRaw =
     (if s = [] then [] else case base64 s of Some b \<Rightarrow> b | None \<Rightarrow> if allowRaw then s else [])"

definition newSessionCodec :: "string \<Rightarrow> string \<Rightarrow> string \<Rightarrow> string \<Rightarrow> (string \<times> string) \<times> bool" where
  "newSessionCodec random1 random2 hashKey blockKey =
     (let weak = length hashKey < 32; bad = length blockKey \<notin> {16, 24, 32}
      in ((if weak then random1 else hashKey, if bad then random2 else blockKey), weak \<or> bad))"

section \<open>The idle policy\<close>

record idle_policy =
  ip_timeout :: int
  ip_reauth :: bool

definition no_policy :: idle_policy where "no_policy = \<lparr>ip_timeout = 0, ip_reauth = False\<rparr>"

text \<open>The \<open>sessionPolicy\<close> row: unreadable, or read, with what its JSON decodes to.\<close>

datatype policy_row = RowUnreadable | RowRead "(int \<times> bool) option"

record session_service =
  ss_dbEpoch :: int
  ss_epoch :: int
  ss_policy :: idle_policy
  ss_policyLoaded :: "int option"
  ss_enabledAt :: "int option"
  ss_policySeen :: bool
  ss_observed :: idle_policy

definition idlePolicyRefresh :: int where "idlePolicyRefresh = 30 * nsSecond"

text \<open>\<open>time.Since\<close>, of Go's zero time when there is none, and \<open>Time.After\<close>.\<close>

definition since :: "int \<Rightarrow> int option \<Rightarrow> int" where
  "since now t = (case t of None \<Rightarrow> maxInt64 | Some x \<Rightarrow> time_sub now x)"

definition after :: "int option \<Rightarrow> int option \<Rightarrow> bool" where
  "after t u = (case t of None \<Rightarrow> False | Some x \<Rightarrow> (case u of None \<Rightarrow> True | Some y \<Rightarrow> x > y))"

definition observed_policy :: "(int \<times> bool) option \<Rightarrow> idle_policy" where
  "observed_policy v = (case v of None \<Rightarrow> no_policy
     | Some (m, reauth) \<Rightarrow> if m > 0 then \<lparr>ip_timeout = wrap64 (m * nsMinute), ip_reauth = reauth\<rparr> else no_policy)"

definition sessionIdlePolicyNow :: "int \<Rightarrow> policy_row \<Rightarrow> session_service \<Rightarrow> (idle_policy \<times> int option) \<times> session_service" where
  "sessionIdlePolicyNow now row st =
     (if since now (ss_policyLoaded st) < idlePolicyRefresh then ((ss_policy st, ss_enabledAt st), st)
      else
        (let firstLoad = \<not> ss_policySeen st; prevObserved = ss_observed st;
             st1 = st\<lparr>ss_policySeen := True, ss_policyLoaded := Some now\<rparr>
         in case row of
           RowUnreadable \<Rightarrow> ((no_policy, ss_enabledAt st1), st1\<lparr>ss_policy := no_policy\<rparr>)
         | RowRead v \<Rightarrow>
             (let observed = observed_policy v;
                  st2 = st1\<lparr>ss_policy := observed, ss_observed := observed\<rparr>;
                  st3 = (if \<not> firstLoad \<and> ip_timeout prevObserved = 0 \<and> ip_timeout observed > 0
                         then st2\<lparr>ss_enabledAt := Some now\<rparr> else st2)
              in ((ss_policy st3, ss_enabledAt st3), st3))))"

section \<open>Accepting a session\<close>

text \<open>Why a session is refused: the reasons of the audit trail.\<close>

datatype refusal = NoSession | EpochAdvanced | TtlCeiling | IdleTimeout | GrantsUnresolved

definition withGrants :: "bool \<Rightarrow> (string list \<Rightarrow> role_grant list option) \<Rightarrow> int \<Rightarrow> identity \<Rightarrow> refusal + identity" where
  "withGrants devAuth grants now i =
     (let dev = devIdentity now
      in if devAuth \<and> i_Email i = i_Email dev
         then Inr (i\<lparr>i_Roles := i_Roles dev, i_AllowedScopes := i_AllowedScopes dev, i_Grants := i_Grants dev\<rparr>)
         else case grants (i_Groups i) of None \<Rightarrow> Inl GrantsUnresolved
         | Some gs \<Rightarrow> Inr (i\<lparr>i_Grants := gs, i_Roles := UnionGrantRoles gs, i_AllowedScopes := UnionGrantScopes gs\<rparr>))"

text \<open>What the idle clock runs from.\<close>

definition idle_anchor :: "idle_policy \<Rightarrow> int option \<Rightarrow> identity \<Rightarrow> int option" where
  "idle_anchor pol enabledAt i =
     (let anchor = (if ip_reauth pol \<or> i_LastSeen i = None then i_IssuedAt i else i_LastSeen i)
      in if \<not> ip_reauth pol \<and> after enabledAt anchor then enabledAt else anchor)"

text \<open>\<open>readSession\<close>: the answer, the cookie written back, and the service. \<open>canWrite\<close> is false for a caller that has
  no response to write.\<close>

definition readSession ::
  "bool \<Rightarrow> (string list \<Rightarrow> role_grant list option) \<Rightarrow> bool \<Rightarrow> int \<Rightarrow> policy_row \<Rightarrow> session_payload option \<Rightarrow> session_service \<Rightarrow>
    (refusal + identity) \<times> session_payload option \<times> session_service"
where
  "readSession devAuth grants canWrite now row cookie st =
     (case codec_read cookie of None \<Rightarrow> (Inl NoSession, None, st)
      | Some i \<Rightarrow>
          if i_Epoch i < ss_epoch st then (Inl EpochAdvanced, None, st)
          else if i_IssuedAt i \<noteq> None \<and> since now (i_IssuedAt i) > sessionTTL then (Inl TtlCeiling, None, st)
          else
            (let ((pol, enabledAt), st1) = sessionIdlePolicyNow now row st
             in if ip_timeout pol > 0 \<and> since now (idle_anchor pol enabledAt i) > ip_timeout pol
                then (Inl IdleTimeout, None, st1)
                else
                  (let slide = canWrite \<and> since now (i_LastSeen i) > nsMinute;
                       i' = (if slide then i\<lparr>i_LastSeen := Some now\<rparr> else i)
                   in (withGrants devAuth grants now i', if slide then Some (payloadOf i') else None, st1))))"

definition authenticate ::
  "bool \<Rightarrow> bool \<Rightarrow> (string list \<Rightarrow> role_grant list option) \<Rightarrow> string \<Rightarrow> int \<Rightarrow> policy_row \<Rightarrow> session_payload option \<Rightarrow>
    header_names \<Rightarrow> session_service \<Rightarrow> identity option"
where
  "authenticate devAuth oidcMode grants bootstrapGroup now row cookie hdrs st =
     (let session = (case fst (readSession devAuth grants True now row cookie st) of Inl _ \<Rightarrow> None | Inr i \<Rightarrow> Some i)
      in if devAuth \<and> session \<noteq> None then session
         else if oidcMode then session
         else identityFromHeaders grants bootstrapGroup now hdrs)"

text \<open>\<open>RequireRole\<close>: the status it answers, \<open>None\<close> when it lets the request pass.\<close>

definition RequireRole :: "string \<Rightarrow> identity option \<Rightarrow> nat option" where
  "RequireRole role who = (case who of None \<Rightarrow> Some 401 | Some i \<Rightarrow> if HasRole i role then None else Some 403)"

section \<open>Signing in and out\<close>

text \<open>\<open>claims\<close> of the verified token.\<close>

record id_claims =
  cl_Email :: string
  cl_Name :: string
  cl_Groups :: "string list"
  cl_Nonce :: string

text \<open>\<open>Callback\<close>: \<open>exchange\<close> answers the code with the token's \<open>id_token\<close> (\<open>None\<close> when it fails, \<open>Some None\<close> when
  there is none), \<open>verify\<close> and \<open>claims\<close> are the token's. The session is the cookie's payload.\<close>

definition Callback ::
  "bool \<Rightarrow> string option \<Rightarrow> string \<Rightarrow> string option option \<Rightarrow> (string \<Rightarrow> 't option) \<Rightarrow> ('t \<Rightarrow> id_claims option) \<Rightarrow> string option \<Rightarrow>
    (string list \<Rightarrow> role_grant list option) \<Rightarrow> int \<Rightarrow> session_service \<Rightarrow> (nat \<times> string) + identity \<times> session_payload"
where
  "Callback enabled stateCk queryState exchange verify claims nonceCk grants now st =
     (if \<not> enabled then Inl (503, ''oidc_unavailable'')
      else if stateCk = None \<or> queryState \<noteq> the stateCk then Inl (400, ''bad_state'')
      else case exchange of None \<Rightarrow> Inl (502, ''exchange_failed'')
      | Some None \<Rightarrow> Inl (502, ''no_id_token'')
      | Some (Some raw) \<Rightarrow>
          (case verify raw of None \<Rightarrow> Inl (401, ''id_token_invalid'')
           | Some t \<Rightarrow>
               (case claims t of None \<Rightarrow> Inl (502, ''claims_failed'')
                | Some cl \<Rightarrow>
                    if nonceCk = None \<or> cl_Nonce cl \<noteq> the nonceCk then Inl (400, ''bad_nonce'')
                    else case grants (cl_Groups cl) of None \<Rightarrow> Inl (500, ''grant_resolution_failed'')
                    | Some gs \<Rightarrow>
                        (let i = \<lparr>i_Email = cl_Email cl, i_DisplayName = cl_Name cl, i_Groups = cl_Groups cl,
                               i_Roles = UnionGrantRoles gs, i_AllowedScopes = UnionGrantScopes gs, i_IssuedAt = Some now,
                               i_LastSeen = Some now, i_Epoch = ss_epoch st, i_Grants = gs\<rparr>
                         in Inr (i, payloadOf i)))))"

text \<open>\<open>loadSessionEpoch\<close>: \<open>None\<close> when the row cannot be read. \<open>BumpSessionEpoch\<close>: the memory follows the stored
  epoch and only moves forward.\<close>

definition loadSessionEpoch :: "int option \<Rightarrow> session_service \<Rightarrow> session_service" where
  "loadSessionEpoch r st = st\<lparr>ss_epoch := coalesce r 0\<rparr>"

definition BumpSessionEpoch :: "bool \<Rightarrow> session_service \<Rightarrow> bool \<times> session_service" where
  "BumpSessionEpoch dbOk st =
     (if \<not> dbOk then (False, st)
      else (let e = ss_dbEpoch st + 1 in (True, st\<lparr>ss_dbEpoch := e, ss_epoch := max (ss_epoch st) e\<rparr>)))"

definition RevokeSessions :: "bool \<Rightarrow> session_payload option \<Rightarrow> session_service \<Rightarrow> nat \<times> session_payload option \<times> session_service" where
  "RevokeSessions dbOk cookie st =
     (let (ok, st1) = BumpSessionEpoch dbOk st
      in if \<not> ok then (500, None, st1)
         else (204, map_option (\<lambda>i. payloadOf (i\<lparr>i_Epoch := ss_epoch st1\<rparr>)) (codec_read cookie), st1))"

text \<open>\<open>RequireCSRF\<close>: whether the request passes; and \<open>throttleAllow\<close>.\<close>

definition RequireCSRF :: "string \<Rightarrow> string option \<Rightarrow> string \<Rightarrow> bool" where
  "RequireCSRF verb cookie header \<longleftrightarrow> verb \<in> {''GET'', ''HEAD'', ''OPTIONS''} \<or> (header \<noteq> [] \<and> cookie = Some header)"

definition loginRecordWindow :: int where "loginRecordWindow = 5 * nsMinute"

definition throttleAllow :: "int \<Rightarrow> string \<Rightarrow> int gomap \<Rightarrow> bool \<times> int gomap" where
  "throttleAllow now key seen =
     (case map_of seen key of
        Some t \<Rightarrow> if time_sub now t < loginRecordWindow then (False, seen) else (True, (key, now) # seen)
      | None \<Rightarrow> (True, (key, now) # seen))"

end
