(* ===== verification/Auth_Session_Props.thy ===== *)
theory Auth_Session_Props
  imports Auth_Session
begin

text \<open>
  How long a session lasts: no cookie outlives eight hours from its login or a sign-out of everyone else,
  however often it is written again; an idle cap signs out the idle, and the active only when it is one
  minute.
\<close>

section \<open>Every cookie ever written\<close>

type_synonym login = "int \<times> string \<times> string list"

record session_world =
  w_now :: int
  w_srv :: session_service
  w_jar :: "session_payload list"
  w_logins :: "login list"
  w_revoked :: "(int \<times> login) option"

definition login_of :: "session_payload \<Rightarrow> login" where "login_of p = (the (p_IssuedAt p), p_Email p, p_Groups p)"

definition boot_service :: "int \<Rightarrow> session_service" where
  "boot_service e = loadSessionEpoch (Some e) \<lparr>ss_dbEpoch = e, ss_epoch = 0, ss_policy = no_policy, ss_policyLoaded = None,
     ss_enabledAt = None, ss_policySeen = False, ss_observed = no_policy\<rparr>"

definition opened :: "int \<Rightarrow> int \<Rightarrow> session_world" where
  "opened now e = \<lparr>w_now = now, w_srv = boot_service e, w_jar = [], w_logins = [], w_revoked = None\<rparr>"

text \<open>A login, a request with any cookie ever written, a sign-out of everyone else, a restart whose epoch is read.\<close>

inductive session_step :: "session_world \<Rightarrow> session_world \<Rightarrow> bool" where
  tick: "0 \<le> d \<Longrightarrow> session_step w (w\<lparr>w_now := w_now w + d\<rparr>)"
| login: "Callback True (Some q) q (Some (Some raw)) (verify :: string \<Rightarrow> string option) claims (Some n) grants (w_now w) (w_srv w) = Inr (i, p) \<Longrightarrow>
    session_step w (w\<lparr>w_jar := p # w_jar w, w_logins := (w_now w, i_Email i, i_Groups i) # w_logins w\<rparr>)"
| request: "c \<in> set (w_jar w) \<Longrightarrow> readSession False grants cw (w_now w) row (Some c) (w_srv w) = (r, out, srv') \<Longrightarrow>
    session_step w (w\<lparr>w_jar := (case out of None \<Rightarrow> [] | Some p \<Rightarrow> [p]) @ w_jar w, w_srv := srv'\<rparr>)"
| revoke: "c \<in> set (w_jar w) \<Longrightarrow> readSession False grants False (w_now w) row (Some c) (w_srv w) = (Inr i, None, srv') \<Longrightarrow>
    RevokeSessions ok (Some c) srv' = (204, Some p, srv'') \<Longrightarrow>
    session_step w (w\<lparr>w_jar := p # w_jar w, w_srv := srv'', w_revoked := Some (w_now w, login_of c)\<rparr>)"
| restart: "session_step w (w\<lparr>w_srv := boot_service (ss_dbEpoch (w_srv w))\<rparr>)"

inductive session_reach :: "int \<Rightarrow> int \<Rightarrow> session_world \<Rightarrow> bool" for t0 e where
  start: "session_reach t0 e (opened t0 e)"
| step: "session_reach t0 e w \<Longrightarrow> session_step w w' \<Longrightarrow> session_reach t0 e w'"

definition cookie_ok :: "session_world \<Rightarrow> session_payload \<Rightarrow> bool" where
  "cookie_ok w p \<longleftrightarrow> (\<exists>t. p_IssuedAt p = Some t \<and> t \<le> w_now w) \<and> login_of p \<in> set (w_logins w) \<and>
     p_Epoch p \<le> ss_epoch (w_srv w) \<and>
     (p_Epoch p = ss_epoch (w_srv w) \<longrightarrow> (\<forall>rt l. w_revoked w = Some (rt, l) \<longrightarrow> login_of p = l \<or> rt \<le> fst (login_of p)))"

definition world_ok :: "session_world \<Rightarrow> bool" where
  "world_ok w \<longleftrightarrow> ss_epoch (w_srv w) = ss_dbEpoch (w_srv w) \<and> list_all (cookie_ok w) (w_jar w) \<and>
     (\<forall>rt l. w_revoked w = Some (rt, l) \<longrightarrow> rt \<le> w_now w)"

lemma policy_keeps_epochs:
  "ss_epoch (snd (sessionIdlePolicyNow now row st)) = ss_epoch st"
  "ss_dbEpoch (snd (sessionIdlePolicyNow now row st)) = ss_dbEpoch st"
  by (auto simp: sessionIdlePolicyNow_def Let_def split: policy_row.splits)

lemma read_session_keeps_epochs:
  assumes "readSession dev grants cw now row c st = (r, out, st')"
  shows "ss_epoch st' = ss_epoch st" and "ss_dbEpoch st' = ss_dbEpoch st"
  using assms policy_keeps_epochs [of now row st]
  by (auto simp: readSession_def Let_def split: option.splits if_splits prod.splits)

lemma read_session_writes:
  assumes "readSession dev grants cw now row (Some c) st = (r, Some p, st')"
  shows "p = c\<lparr>p_LastSeen := Some now\<rparr>"
  using assms by (auto simp: readSession_def codec_read_def payloadOf_def Let_def split: option.splits if_splits prod.splits)

lemma read_session_accepts:
  assumes "readSession False grants cw now row (Some c) st = (Inr i, out, st')"
  shows "\<not> p_Epoch c < ss_epoch st" and "p_IssuedAt c = Some t \<Longrightarrow> now - t \<le> sessionTTL"
    and "i_Email i = p_Email c" and "i_Groups i = p_Groups c" and "grants (p_Groups c) = Some (i_Grants i)"
proof -
  show "\<not> p_Epoch c < ss_epoch st" "i_Email i = p_Email c" "i_Groups i = p_Groups c" "grants (p_Groups c) = Some (i_Grants i)"
    using assms by (auto simp: readSession_def codec_read_def withGrants_def Let_def split: option.splits if_splits prod.splits)
  assume "p_IssuedAt c = Some t"
  then have "\<not> since now (Some t) > sessionTTL"
    using assms by (auto simp: readSession_def codec_read_def Let_def split: option.splits if_splits prod.splits)
  then show "now - t \<le> sessionTTL"
    by (auto simp: since_def time_sub_def sat64_def sessionTTL_def duration_defs maxInt64_def minInt64_def split: if_splits)
qed

lemma cookie_ok_cong:
  assumes "cookie_ok w p" and "w_now w \<le> w_now w'" and "set (w_logins w) \<subseteq> set (w_logins w')"
    and "ss_epoch (w_srv w') = ss_epoch (w_srv w)" and "w_revoked w' = w_revoked w"
  shows "cookie_ok w' p"
proof -
  obtain t where "p_IssuedAt p = Some t" "t \<le> w_now w'" using assms(1,2) by (auto simp: cookie_ok_def)
  then show ?thesis using assms(1,3,4,5) by (auto simp: cookie_ok_def)
qed

lemma world_ok_step:
  assumes "session_step w w'" and "world_ok w"
  shows "world_ok w'"
  using assms
proof cases
  case (tick d)
  then show ?thesis using assms(2) by (auto simp: world_ok_def list_all_iff intro: cookie_ok_cong)
next
  case (login q raw verify claims n grants i p)
  let ?w = "w\<lparr>w_jar := p # w_jar w, w_logins := (w_now w, i_Email i, i_Groups i) # w_logins w\<rparr>"
  have p: "p = payloadOf i" "i_IssuedAt i = Some (w_now w)" "i_Epoch i = ss_epoch (w_srv w)"
    using login(2) by (auto simp: Callback_def Let_def split: option.splits if_splits)
  have "cookie_ok ?w p"
    using assms(2) by (auto simp: cookie_ok_def login_of_def payloadOf_def p world_ok_def)
  moreover have "cookie_ok ?w c" if "cookie_ok w c" for c by (rule cookie_ok_cong [OF that]) auto
  ultimately show ?thesis using assms(2) login(1) by (auto simp: world_ok_def list_all_iff)
next
  case (request c grants cw row r out srv')
  let ?w = "w\<lparr>w_jar := (case out of None \<Rightarrow> [] | Some p \<Rightarrow> [p]) @ w_jar w, w_srv := srv'\<rparr>"
  note e = read_session_keeps_epochs [OF request(3)]
  have k: "cookie_ok ?w c" if "cookie_ok w c" for c by (rule cookie_ok_cong [OF that]) (auto simp: e)
  have "cookie_ok ?w p" if "out = Some p" for p
  proof -
    have "p = c\<lparr>p_LastSeen := Some (w_now w)\<rparr>" using read_session_writes request(3) that by blast
    moreover have "cookie_ok ?w c" using k request(2) assms(2) by (simp add: world_ok_def list_all_iff)
    ultimately show ?thesis by (simp add: cookie_ok_def login_of_def)
  qed
  then show ?thesis using assms(2) request(1) k e by (auto simp: world_ok_def list_all_iff split: option.splits)
next
  case (revoke c grants row i srv' ok p srv'')
  let ?w = "w\<lparr>w_jar := p # w_jar w, w_srv := srv'', w_revoked := Some (w_now w, login_of c)\<rparr>"
  note e = read_session_keeps_epochs [OF revoke(3)]
  have c: "cookie_ok w c" using revoke(2) assms(2) by (simp add: world_ok_def list_all_iff)
  have "ok" and s: "ss_epoch srv'' = max (ss_epoch (w_srv w)) (ss_dbEpoch (w_srv w) + 1)" "ss_dbEpoch srv'' = ss_dbEpoch (w_srv w) + 1"
    and p: "p = c\<lparr>p_Epoch := ss_epoch srv''\<rparr>"
    using revoke(4) e
    by (auto simp: RevokeSessions_def BumpSessionEpoch_def codec_read_def payloadOf_def Let_def split: if_splits prod.splits)
  have n: "ss_epoch srv'' = ss_epoch (w_srv w) + 1" using s assms(2) by (simp add: world_ok_def)
  have old: "cookie_ok ?w x" if "cookie_ok w x" for x using that n by (auto simp: cookie_ok_def)
  have "cookie_ok ?w p" using c by (auto simp: cookie_ok_def login_of_def p)
  then show ?thesis using assms(2) revoke(1) old n s by (auto simp: world_ok_def list_all_iff)
next
  case restart
  let ?w = "w\<lparr>w_srv := boot_service (ss_dbEpoch (w_srv w))\<rparr>"
  have "ss_epoch (boot_service (ss_dbEpoch (w_srv w))) = ss_epoch (w_srv w)"
    using assms(2) by (simp add: world_ok_def boot_service_def loadSessionEpoch_def coalesce_def)
  then show ?thesis using assms(2) restart
    by (auto simp: world_ok_def list_all_iff boot_service_def loadSessionEpoch_def coalesce_def intro: cookie_ok_cong)
qed

lemma world_ok_reach: "session_reach t0 e w \<Longrightarrow> world_ok w"
proof (induction rule: session_reach.induct)
  case start
  show ?case by (simp add: opened_def boot_service_def loadSessionEpoch_def coalesce_def world_ok_def)
next
  case (step w w')
  show ?case by (rule world_ok_step [OF step.hyps(2) step.IH])
qed


section \<open>An idle cap\<close>

fun gaps_within :: "int \<Rightarrow> int \<Rightarrow> int list \<Rightarrow> bool" where
  "gaps_within g p [] = True"
| "gaps_within g p (t # ts) \<longleftrightarrow> p \<le> t \<and> t - p \<le> g \<and> gaps_within g t ts"

text \<open>A browser's requests, each with the newest cookie: whether all are accepted.\<close>

fun browse :: "(string list \<Rightarrow> role_grant list option) \<Rightarrow> policy_row \<Rightarrow> session_payload \<Rightarrow> session_service \<Rightarrow> int list \<Rightarrow> bool" where
  "browse grants row c st [] = True"
| "browse grants row c st (t # ts) =
     (case readSession False grants True t row (Some c) st of
        (Inl _, _, _) \<Rightarrow> False
      | (Inr _, out, st') \<Rightarrow> browse grants row (coalesce out c) st' ts)"

text \<open>The cap of \<open>m\<close> minutes was on before the login at \<open>t0\<close>.\<close>

definition capped :: "int \<Rightarrow> int \<Rightarrow> session_service \<Rightarrow> bool" where
  "capped m t0 st \<longleftrightarrow> ss_policy st = observed_policy (Some (m, False)) \<and> ss_observed st = observed_policy (Some (m, False)) \<and>
     \<not> after (ss_enabledAt st) (Some t0)"

lemma capped_policy:
  assumes "capped m t0 st" and "0 < m" and "m \<le> 153722867"
  obtains st' where "sessionIdlePolicyNow now (RowRead (Some (m, False))) st = ((\<lparr>ip_timeout = m * nsMinute, ip_reauth = False\<rparr>, ss_enabledAt st), st')"
    and "capped m t0 st'" and "ss_epoch st' = ss_epoch st" and "ss_enabledAt st' = ss_enabledAt st"
proof -
  have "wrap64 (m * nsMinute) = m * nsMinute" using assms(2,3) by (simp add: duration_defs minInt64_def maxInt64_def)
  then have p: "observed_policy (Some (m, False)) = \<lparr>ip_timeout = m * nsMinute, ip_reauth = False\<rparr>"
    using assms(2) by (simp add: observed_policy_def)
  have "0 < m * nsMinute" using assms(2) by (simp add: duration_defs)
  then show ?thesis
    using assms(1) by (intro that [of "snd (sessionIdlePolicyNow now (RowRead (Some (m, False))) st)"])
      (auto simp: sessionIdlePolicyNow_def capped_def p Let_def)
qed

lemma read_capped:
  assumes "capped m t0 st" and "0 < m" and "m \<le> 153722867" and "p_IssuedAt c = Some t0" and "p_LastSeen c = Some s" and "t0 \<le> s"
    and "ss_epoch st \<le> p_Epoch c" and "grants (p_Groups c) \<noteq> None" and "s \<le> t" and "t - t0 \<le> sessionTTL"
  obtains r st' where
    "readSession False grants True t (RowRead (Some (m, False))) (Some c) st =
       (if t - s > m * nsMinute then (Inl IdleTimeout, None, st')
        else (Inr r, if t - s > nsMinute then Some (c\<lparr>p_LastSeen := Some t\<rparr>) else None, st'))"
    and "capped m t0 st'" and "ss_epoch st' = ss_epoch st"
proof -
  obtain st' where p: "sessionIdlePolicyNow t (RowRead (Some (m, False))) st = ((\<lparr>ip_timeout = m * nsMinute, ip_reauth = False\<rparr>, ss_enabledAt st), st')"
    and st': "capped m t0 st'" "ss_epoch st' = ss_epoch st"
    using capped_policy [OF assms(1-3)] by metis
  have sat: "since t (Some x) = t - x" if "x \<in> {s, t0}" for x
    using that assms(6,9,10) by (auto simp: since_def time_sub_def sessionTTL_def duration_defs maxInt64_def minInt64_def)
  have na: "\<not> after (ss_enabledAt st) (Some s)" using assms(1,6) by (auto simp: capped_def after_def split: option.splits)
  obtain gs where "grants (p_Groups c) = Some gs" using assms(8) by blast
  then have "\<exists>r. readSession False grants True t (RowRead (Some (m, False))) (Some c) st =
       (if t - s > m * nsMinute then (Inl IdleTimeout, None, st')
        else (Inr r, if t - s > nsMinute then Some (c\<lparr>p_LastSeen := Some t\<rparr>) else None, st'))"
    using assms(2,4,5,7,10) na
    by (auto simp: readSession_def codec_read_def p sat idle_anchor_def withGrants_def payloadOf_def duration_defs Let_def)
  then show ?thesis using that st' by blast
qed

lemma browse_active:
  assumes "capped m t0 st" and "0 < m" and "m \<le> 153722867" and "p_IssuedAt c = Some t0" and "p_LastSeen c = Some s" and "t0 \<le> s"
    and "ss_epoch st \<le> p_Epoch c" and "grants (p_Groups c) \<noteq> None" and "s \<le> p" and "p - s \<le> nsMinute"
    and "gaps_within ((m - 1) * nsMinute) p ts" and "\<forall>t \<in> set ts. t - t0 \<le> sessionTTL"
  shows "browse grants (RowRead (Some (m, False))) c st ts \<and>
    (\<forall>t. last (p # ts) + m * nsMinute < t \<and> t - t0 \<le> sessionTTL \<longrightarrow> \<not> browse grants (RowRead (Some (m, False))) c st (ts @ [t]))"
  using assms
proof (induction ts arbitrary: c st s p)
  case Nil
  have "\<not> browse grants (RowRead (Some (m, False))) c st [t]" if t: "p + m * nsMinute < t" "t - t0 \<le> sessionTTL" for t
  proof -
    have "s \<le> t" "t - s > m * nsMinute" using t Nil.prems(2,9) by (auto simp: duration_defs)
    then obtain r st' where "readSession False grants True t (RowRead (Some (m, False))) (Some c) st =
        (if t - s > m * nsMinute then (Inl IdleTimeout, None, st')
         else (Inr r, if t - s > nsMinute then Some (c\<lparr>p_LastSeen := Some t\<rparr>) else None, st'))"
      using read_capped [where c = c and grants = grants and t = t, OF Nil.prems(1-8) _ t(2)] by metis
    then show ?thesis using \<open>t - s > m * nsMinute\<close> by simp
  qed
  then show ?case by simp
next
  case (Cons t ts)
  have t: "p \<le> t" "t - p \<le> (m - 1) * nsMinute" "gaps_within ((m - 1) * nsMinute) t ts" "t - t0 \<le> sessionTTL" "s \<le> t"
    using Cons.prems(9,11,12) by auto
  have le: "\<not> t - s > m * nsMinute" using t(2) Cons.prems(10) by (simp add: algebra_simps)
  obtain r st' where r: "readSession False grants True t (RowRead (Some (m, False))) (Some c) st =
       (Inr r, if t - s > nsMinute then Some (c\<lparr>p_LastSeen := Some t\<rparr>) else None, st')"
    and st': "capped m t0 st'" "ss_epoch st' = ss_epoch st"
    using read_capped [where c = c and grants = grants, OF Cons.prems(1-8) t(5,4)] le by (metis (no_types, lifting))
  let ?c = "coalesce (if t - s > nsMinute then Some (c\<lparr>p_LastSeen := Some t\<rparr>) else None) c"
  let ?s = "if t - s > nsMinute then t else s"
  have "browse grants (RowRead (Some (m, False))) ?c st' ts \<and>
    (\<forall>u. last (t # ts) + m * nsMinute < u \<and> u - t0 \<le> sessionTTL \<longrightarrow> \<not> browse grants (RowRead (Some (m, False))) ?c st' (ts @ [u]))"
    by (rule Cons.IH [where s = ?s])
      (use Cons.prems t st' in \<open>auto simp: coalesce_def duration_defs\<close>)
  then show ?case by (simp add: r)
qed

definition signed_in :: "int \<Rightarrow> session_payload \<Rightarrow> session_service \<Rightarrow> bool" where
  "signed_in t0 c st \<longleftrightarrow> p_IssuedAt c = Some t0 \<and> p_LastSeen c = Some t0 \<and> ss_epoch st \<le> p_Epoch c"

text \<open>under an idle cap of \<open>m\<close> minutes, on since before the login, requests no further apart than a minute less are
  all accepted until eight hours after it, and one that comes more than \<open>m\<close> minutes after the last is refused.\<close>

theorem an_idle_cap_cuts_the_idle:
  assumes "signed_in t0 c st" and "capped m t0 st" and "0 < m" and "m \<le> 153722867" and "grants (p_Groups c) \<noteq> None"
    and "gaps_within ((m - 1) * nsMinute) t0 ts" and "\<forall>t \<in> set ts. t - t0 \<le> sessionTTL"
    and "last (t0 # ts) + m * nsMinute < t" and "t - t0 \<le> sessionTTL"
  shows "browse grants (RowRead (Some (m, False))) c st ts \<and> \<not> browse grants (RowRead (Some (m, False))) c st (ts @ [t])"
  using browse_active [of m t0 st c t0 grants t0 ts] assms by (auto simp: signed_in_def duration_defs)

text \<open>the slide is written when a minute has passed and the cap of one minute refuses when one has, so under it
  an active session is signed out a minute after its login all the same.\<close>

theorem a_one_minute_cap_ignores_activity:
  assumes "signed_in t0 c st" and "capped 1 t0 st" and "grants (p_Groups c) \<noteq> None"
    and "sorted (t0 # ts)" and "t \<in> set ts" and "t0 + nsMinute < t" and "\<forall>u \<in> set ts. u - t0 \<le> sessionTTL"
  shows "\<not> browse grants (RowRead (Some (1, False))) c st ts"
  using assms
proof (induction ts arbitrary: st)
  case (Cons u us)
  have u: "t0 \<le> u" "u - t0 \<le> sessionTTL" using Cons.prems(4,7) by auto
  obtain r st' where r: "readSession False grants True u (RowRead (Some (1, False))) (Some c) st =
       (if u - t0 > 1 * nsMinute then (Inl IdleTimeout, None, st')
        else (Inr r, if u - t0 > nsMinute then Some (c\<lparr>p_LastSeen := Some u\<rparr>) else None, st'))"
    and st': "capped 1 t0 st'" "ss_epoch st' = ss_epoch st"
    by (rule read_capped [where c = c and grants = grants and t = u and s = t0, OF Cons.prems(2)])
      (use Cons.prems(1,3) u in \<open>auto simp: signed_in_def\<close>)
  show ?case
  proof (cases "u - t0 > nsMinute")
    case True
    then show ?thesis by (simp add: r)
  next
    case False
    then have "\<not> browse grants (RowRead (Some (1, False))) c st' us"
      using Cons.prems st' by (intro Cons.IH) (auto simp: signed_in_def)
    then show ?thesis using False by (simp add: r coalesce_def)
  qed
qed simp

section \<open>A day at the console\<close>

definition some_cookie :: session_payload where
  "some_cookie = \<lparr>p_Email = ''ana@x'', p_DisplayName = ''Ana'', p_Groups = [''ops''], p_IssuedAt = Some 0, p_LastSeen = Some 0, p_Epoch = 3\<rparr>"

definition capped_service :: "int \<Rightarrow> session_service" where
  "capped_service m = (boot_service 3)\<lparr>ss_policy := observed_policy (Some (m, False)), ss_observed := observed_policy (Some (m, False)),
     ss_policySeen := True, ss_policyLoaded := Some 0\<rparr>"

lemma some_cookie_signed_in: "signed_in 0 some_cookie (capped_service m)" "capped m 0 (capped_service m)"
  by (simp_all add: signed_in_def some_cookie_def capped_service_def boot_service_def loadSessionEpoch_def coalesce_def capped_def after_def)

theorem an_idle_cap_cuts_the_idle_witness:
  "browse (\<lambda>_. Some []) (RowRead (Some (30, False))) some_cookie (capped_service 30) [20 * nsMinute, 45 * nsMinute] \<and>
   \<not> browse (\<lambda>_. Some []) (RowRead (Some (30, False))) some_cookie (capped_service 30) ([20 * nsMinute, 45 * nsMinute] @ [80 * nsMinute])"
  by (rule an_idle_cap_cuts_the_idle [where ?t0.0 = 0])
    (simp_all add: some_cookie_signed_in sessionTTL_def duration_defs)

theorem a_one_minute_cap_ignores_activity_witness:
  "\<not> browse (\<lambda>_. Some []) (RowRead (Some (1, False))) some_cookie (capped_service 1) [40 * nsSecond, 70 * nsSecond]"
  by (rule a_one_minute_cap_ignores_activity [where ?t0.0 = 0 and t = "70 * nsSecond"])
    (simp_all add: some_cookie_signed_in sessionTTL_def duration_defs)

definition an_hour_in :: session_world where
  "an_hour_in = (opened 0 3)\<lparr>w_now := nsHour, w_jar := [some_cookie], w_logins := [(0, ''ana@x'', [''ops''])]\<rparr>"

lemma an_hour_in_reach: "session_reach 0 3 an_hour_in"
proof -
  let ?cl = "\<lparr>cl_Email = ''ana@x'', cl_Name = ''Ana'', cl_Groups = [''ops''], cl_Nonce = ''n''\<rparr>"
  have "\<exists>i. Callback True (Some ''s'') ''s'' (Some (Some ''raw'')) (\<lambda>x. Some x) (\<lambda>_. Some ?cl) (Some ''n'') (\<lambda>_. Some [])
      (w_now (opened 0 3)) (w_srv (opened 0 3)) = Inr (i, some_cookie) \<and> i_Email i = ''ana@x'' \<and> i_Groups i = [''ops'']"
    by (simp add: Callback_def opened_def boot_service_def loadSessionEpoch_def coalesce_def payloadOf_def some_cookie_def)
  then obtain i where i: "Callback True (Some ''s'') ''s'' (Some (Some ''raw'')) (\<lambda>x. Some x) (\<lambda>_. Some ?cl) (Some ''n'') (\<lambda>_. Some [])
      (w_now (opened 0 3)) (w_srv (opened 0 3)) = Inr (i, some_cookie)" "i_Email i = ''ana@x''" "i_Groups i = [''ops'']" by blast
  note l = session_reach.step [OF session_reach.start [of 0 3] session_step.login [OF i(1)]]
  show ?thesis
    using session_reach.step [OF l session_step.tick [of nsHour]]
    by (simp add: i(2,3) opened_def an_hour_in_def duration_defs)
qed


end
