(* ===== verification/Reaction.thy ===== *)
theory Reaction
  imports Go_Prelude
begin

text \<open>
  When one definition's completion is an event for another (\<open>backend/internal/reaction/reaction.go\<close>): the
  terminal statuses of jobs and workflows on the three outcomes, the outcome a reaction is written for, and
  the ceiling on a chain.
\<close>

datatype react_outcome = OSuccess | OFailure | OStopped

definition outcome_text :: "react_outcome \<Rightarrow> string" where
  "outcome_text o' = (case o' of OSuccess \<Rightarrow> ''success'' | OFailure \<Rightarrow> ''failure'' | OStopped \<Rightarrow> ''stopped'')"

definition MaxDepth :: int where "MaxDepth = 5"
definition OnOutcomeAny :: string where "OnOutcomeAny = ''any''"

definition ValidOnOutcome :: "string \<Rightarrow> bool" where
  "ValidOnOutcome s \<longleftrightarrow> s \<in> {outcome_text OSuccess, outcome_text OFailure, outcome_text OStopped, OnOutcomeAny}"

text \<open>\<open>None\<close> is no event.\<close>

definition NormalizeJob :: "string \<Rightarrow> react_outcome option" where
  "NormalizeJob status =
     (if status = ''success'' \<or> status = ''warning'' then Some OSuccess
      else if status = ''failure'' then Some OFailure
      else if status = ''killed'' then Some OStopped
      else None)"

definition NormalizeWorkflow :: "string \<Rightarrow> bool \<Rightarrow> react_outcome option" where
  "NormalizeWorkflow status cancelled =
     (if status \<notin> {''success'', ''warning'', ''failure'', ''killed''} then None
      else if cancelled then Some OStopped
      else NormalizeJob status)"

definition Matches :: "string \<Rightarrow> react_outcome \<Rightarrow> bool" where
  "Matches onOutcome observed \<longleftrightarrow> onOutcome = OnOutcomeAny \<or> onOutcome = outcome_text observed"

definition reaction_DepthExceeded :: "int \<Rightarrow> bool" where
  "reaction_DepthExceeded upstreamDepth \<longleftrightarrow> upstreamDepth + 1 \<ge> MaxDepth"

text \<open>A cancelled workflow is stopped whatever it ended as, and what never ran is no event of either kind.\<close>

lemma NormalizeWorkflow_cases:
  "NormalizeWorkflow status cancelled = (if NormalizeJob status = None then None else if cancelled then Some OStopped else NormalizeJob status)"
  by (auto simp: NormalizeWorkflow_def NormalizeJob_def)

lemma outcome_text_inject [simp]: "outcome_text a = outcome_text b \<longleftrightarrow> a = b"
  by (cases a; cases b) (simp_all add: outcome_text_def)

lemma outcome_text_not_any [simp]: "outcome_text a \<noteq> OnOutcomeAny" "OnOutcomeAny \<noteq> outcome_text a"
  by (cases a; simp add: outcome_text_def OnOutcomeAny_def)+

end
