(* ===== verification/Sched_React.thy ===== *)
theory Sched_React
  imports Sched_Promote Reaction
begin

text \<open>
  The reactor (\<open>backend/internal/scheduler/reaction.go\<close>): a scan reads the completions since a lookback behind
  its cursor, matches each with the reactions that watch it, claims a delivery for each pair, judges it, and
  parks a run for those that fire. Times are formatted and parsed by the world; the error texts of a delivery
  that could not fire are the constructors of \<open>react_error\<close>, and the figures in the other texts are numbers.
\<close>

definition reactionLookback :: int where "reactionLookback = 15 * nsMinute"
definition reactionMissGrace :: int where "reactionMissGrace = 24 * nsHour"

record react_world = fire_world +
  rx_format :: "int \<Rightarrow> string"
  rx_json :: "string gomap \<Rightarrow> string"

abbreviation fw :: "react_world \<Rightarrow> fire_world" where "fw w \<equiv> fire_world.truncate w"

definition rx_now :: "react_world \<Rightarrow> int" where "rx_now w = ck_now (sw_clock w)"

record src_event =
  ev_kind :: string
  ev_source :: string
  ev_name :: string
  ev_uid :: string
  ev_runID :: string
  ev_outcome :: react_outcome
  ev_completedAt :: int
  ev_depth :: int
  ev_inWorkflow :: bool

text \<open>A row of \<open>reactions\<close>.\<close>

record reaction_row =
  re_source :: string
  re_kind :: string
  re_owner :: string
  re_name :: string
  re_uid :: "string option"
  re_on_kind :: string
  re_on_source :: string
  re_on_name :: string
  re_on_uid :: "string option"
  re_outcome :: string
  re_delay :: int
  re_min_interval :: int
  re_children :: bool
  re_enabled :: bool

datatype react_error =
    NoSuchOwner string
  | NoScopeAgencies string
  | UnboundCredentials "binding list"
  | WrongScope
  | KeyWithoutAgent "binding list"
  | CheckoutWithoutAgent
  | NotInserted

datatype delivery_detail =
    NoDetail
  | Told string
  | FinishedAgo int
  | WouldReach int
  | LastFiredAgo int int
  | CouldNot react_error

record delivery =
  dl_source :: string
  dl_kind :: string
  dl_owner :: string
  dl_name :: string
  dl_uid :: "string option"
  dl_src_kind :: string
  dl_src_run :: string
  dl_outcome :: string
  dl_result :: string
  dl_detail :: delivery_detail
  dl_pending :: string
  dl_at :: string

text \<open>A row of \<open>workflow_runs\<close>, as the reactor reads it, and a row of the activity feed.\<close>

record ended_workflow =
  ew_id :: string
  ew_source :: "string option"
  ew_name :: string
  ew_uid :: "string option"
  ew_status :: string
  ew_cancelled :: bool
  ew_completed :: "string option"
  ew_depth :: int

record activity =
  ac_at :: string
  ac_target :: string
  ac_trace :: string
  ac_reaction :: string
  ac_upstream :: string
  ac_details :: delivery_detail
  ac_agency :: string

record react =
  rs_sched :: sched
  rs_reactions :: "reaction_row list"
  rs_ended :: "ended_workflow list"
  rs_deliveries :: "delivery list"
  rs_cursor :: "string option"
  rs_activity :: "activity list"

abbreviation rs_db :: "react \<Rightarrow> gate_db" where "rs_db st \<equiv> ss_db (rs_sched st)"

section \<open>Events\<close>

definition terminal_statuses :: "string list" where "terminal_statuses = [''success'', ''warning'', ''failure'', ''killed'']"

definition job_event :: "react_world \<Rightarrow> string \<Rightarrow> live_run \<Rightarrow> src_event option" where
  "job_event w since r =
     (case d_completed_at r of None \<Rightarrow> None
      | Some c \<Rightarrow>
          if \<not> (c \<ge> since \<and> d_status r \<in> set terminal_statuses \<and> d_kind r = ''job'') then None
          else case (NormalizeJob (d_status r), ck_parse (sw_clock w) c) of
              (Some out, Some at) \<Rightarrow>
                Some \<lparr>ev_kind = ''job'', ev_source = coalesce (d_job_source r) ''git'', ev_name = d_job_name r,
                  ev_uid = coalesce (d_job_uid r) [], ev_runID = d_id r, ev_outcome = out, ev_completedAt = at,
                  ev_depth = d_reaction_depth r, ev_inWorkflow = (coalesce (d_workflow_run_id r) [] \<noteq> [])\<rparr>
            | _ \<Rightarrow> None)"

definition workflow_event :: "react_world \<Rightarrow> string \<Rightarrow> ended_workflow \<Rightarrow> src_event option" where
  "workflow_event w since r =
     (case ew_completed r of None \<Rightarrow> None
      | Some c \<Rightarrow>
          if \<not> (c \<ge> since \<and> ew_status r \<in> set terminal_statuses) then None
          else case (NormalizeWorkflow (ew_status r) (ew_cancelled r), ck_parse (sw_clock w) c) of
              (Some out, Some at) \<Rightarrow>
                Some \<lparr>ev_kind = ''workflow'', ev_source = coalesce (ew_source r) ''git'', ev_name = ew_name r,
                  ev_uid = coalesce (ew_uid r) [], ev_runID = ew_id r, ev_outcome = out, ev_completedAt = at,
                  ev_depth = ew_depth r, ev_inWorkflow = False\<rparr>
            | _ \<Rightarrow> None)"

text \<open>The order of the two queries is lost in the sort of \<open>ScanReactions\<close>.\<close>

definition collectEvents :: "react_world \<Rightarrow> react \<Rightarrow> int \<Rightarrow> src_event list" where
  "collectEvents w st since =
     (let s = rx_format w since
      in List.map_filter (job_event w s) (runs_of (rs_sched st)) @ List.map_filter (workflow_event w s) (rs_ended st))"

section \<open>Matching\<close>

text \<open>\<open>reactionHomeSQL\<close>, the repository a reaction's names are looked up in, and \<open>ReactionUpstreamByNameSQL\<close>.\<close>

definition reactionHome :: "gate_db \<Rightarrow> reaction_row \<Rightarrow> string option" where
  "reactionHome db r =
     (let uid = coalesce (re_uid r) []; known = (re_uid r \<noteq> None)
      in if re_source r = ''git'' then
           (if re_kind r = ''job'' then (if known then map_option (\<lambda>j. coalesce (j_repo_id j) Global) (the_job db uid) else None)
            else (if known then map_option (\<lambda>x. coalesce (wd_repo x) Global) (the_workflow db uid) else None))
         else
           (let a = coalesce (if \<not> known then None
                              else if re_kind r = ''job'' then Option.bind (the_job db uid) def_row.dr_owner
                              else map_option wd_owner (the_workflow db uid)) Global
            in map_option fst (List.find (\<lambda>(_, ag). ag = a) (gd_repos db))))"

definition ReactionUpstreamByName :: "gate_db \<Rightarrow> reaction_row \<Rightarrow> string option" where
  "ReactionUpstreamByName db r =
     (case reactionHome db r of None \<Rightarrow> None
      | Some home \<Rightarrow>
          if re_on_kind r = ''job''
          then map_option j_uid (List.find (\<lambda>j. j_source j = ''git'' \<and> j_name j = re_on_name r \<and> \<not> def_row.dr_deleted j \<and>
                 coalesce (j_repo_id j) Global = home) (gd_jobs db))
          else map_option wd_uid (List.find (\<lambda>x. wd_source x = ''git'' \<and> wd_name x = re_on_name r \<and> \<not> wd_deleted x \<and>
                 coalesce (wd_repo x) Global = home) (gd_workflows db)))"

definition live_named :: "gate_db \<Rightarrow> reaction_row \<Rightarrow> nat" where
  "live_named db r =
     (if re_on_kind r = ''job''
      then length (filter (\<lambda>j. j_source j = re_on_source r \<and> j_name j = re_on_name r \<and> \<not> def_row.dr_deleted j) (gd_jobs db))
      else length (filter (\<lambda>x. wd_source x = re_on_source r \<and> wd_name x = re_on_name r \<and> \<not> wd_deleted x) (gd_workflows db)))"

definition watches :: "gate_db \<Rightarrow> src_event \<Rightarrow> reaction_row \<Rightarrow> bool" where
  "watches db ev r \<longleftrightarrow>
     re_on_kind r = ev_kind ev \<and> re_on_source r = ev_source ev \<and> re_on_name r = ev_name ev \<and>
     (let on = coalesce (re_on_uid r) []
      in on \<noteq> [] \<and> ev_uid ev \<noteq> [] \<and> on = ev_uid ev \<or>
         (on = [] \<or> ev_uid ev = [] \<or> the_job db on = None \<and> the_workflow db on = None) \<and>
         (if re_on_source r = ''git'' \<and> ev_uid ev \<noteq> [] \<and> list_ex (\<lambda>(i, _). i \<noteq> Global) (gd_repos db)
          then ReactionUpstreamByName db r = Some (ev_uid ev)
          else live_named db r \<le> 1))"

definition matched :: "react \<Rightarrow> src_event \<Rightarrow> reaction_row list" where
  "matched st ev =
     filter (\<lambda>r. watches (rs_db st) ev r \<and> Matches (re_outcome r) (ev_outcome ev) \<and> \<not> (ev_inWorkflow ev \<and> \<not> re_children r))
       (rs_reactions st)"

abbreviation re_ownerUID :: "reaction_row \<Rightarrow> string" where "re_ownerUID r \<equiv> coalesce (re_uid r) []"

section \<open>The verdict\<close>

definition by_uid_agency :: "gate_db \<Rightarrow> string \<Rightarrow> string \<Rightarrow> string option" where
  "by_uid_agency db uid kind =
     (if kind = ''job'' then Option.bind (the_job db uid) (job_agency db) else Option.bind (the_workflow db uid) (wf_agency db))"

definition agencyOfDefinition :: "gate_db \<Rightarrow> string \<Rightarrow> string \<Rightarrow> string \<Rightarrow> string \<Rightarrow> string option" where
  "agencyOfDefinition db uid kind source name =
     (let own = (if uid \<noteq> [] then by_uid_agency db uid kind else None);
          byName = (if kind = ''workflow''
            then (case filter (\<lambda>x. wd_source x = source \<and> wd_name x = name) (gd_workflows db) of [x] \<Rightarrow> wd_uid x | _ \<Rightarrow> [])
            else (case filter (\<lambda>j. j_source j = source \<and> j_name j = name) (gd_jobs db) of [j] \<Rightarrow> j_uid j | _ \<Rightarrow> []))
      in if own \<noteq> None then own else if byName = [] then None else by_uid_agency db byName kind)"

definition reactionCrossesAgencies :: "gate_db \<Rightarrow> src_event \<Rightarrow> reaction_row \<Rightarrow> bool" where
  "reactionCrossesAgencies db ev r =
     (case agencyOfDefinition db (re_ownerUID r) (re_kind r) (re_source r) (re_owner r) of None \<Rightarrow> False
      | Some a \<Rightarrow>
          (case agencyOfDefinition db (ev_uid ev) (ev_kind ev) (ev_source ev) (ev_name ev) of None \<Rightarrow> False
           | Some b \<Rightarrow> a \<noteq> b))"

definition ReasonReactionOtherAgency :: string where
  "ReasonReactionOtherAgency = ''Refused: this reaction watches another agency's definition: a reaction watches its own agency's definitions only''"

text \<open>\<open>None\<close> when the definition is not known.\<close>

definition definitionEnabled :: "gate_db \<Rightarrow> string \<Rightarrow> string \<Rightarrow> string \<Rightarrow> string \<Rightarrow> bool option" where
  "definitionEnabled db source kind name uid =
     (if kind = ''workflow''
      then map_option wd_enabled (List.find (\<lambda>x. (if uid \<noteq> [] then wd_uid x = uid else wd_source x = source \<and> wd_name x = name) \<and>
             \<not> wd_deleted x) (gd_workflows db))
      else map_option dr_enabled (List.find (\<lambda>j. (if uid \<noteq> [] then j_uid j = uid else j_source j = source \<and> j_name j = name) \<and>
             \<not> def_row.dr_deleted j) (gd_jobs db)))"

definition globalCalendarVerdict :: "react_world \<Rightarrow> gate_db \<Rightarrow> reaction_row \<Rightarrow> verdict option" where
  "globalCalendarVerdict w db r =
     globalFreezeVerdict (sw_clock w) db (definitionAgency db (re_ownerUID r) (re_kind r))
       (DefinitionBindings db (re_kind r) (re_source r) (re_owner r) (re_ownerUID r))"

definition calendar_detail :: "react_world \<Rightarrow> verdict \<Rightarrow> string" where
  "calendar_detail w v =
     (let day = ck_day (sw_clock w); p = ''Skipped: ''
      in if v_level v \<noteq> []
         then (if has_prefix (Reason v) p then drop (length p) (Reason v) else Reason v) @ '' on '' @ day
         else if v_label v \<noteq> [] then ''global calendar '' @ go_quote (v_calendar v) @ '' covers '' @ day @ '' ('' @ v_label v @ '')''
         else ''global calendar '' @ go_quote (v_calendar v) @ '' covers '' @ day)"

text \<open>\<open>lastFiredAt\<close>: by the owner's source, kind and name and the reaction's name.\<close>

definition same_names :: "reaction_row \<Rightarrow> delivery \<Rightarrow> bool" where
  "same_names r d \<longleftrightarrow> dl_source d = re_source r \<and> dl_kind d = re_kind r \<and> dl_owner d = re_owner r \<and> dl_name d = re_name r"

definition max_text :: "string list \<Rightarrow> string" where "max_text xs = foldl max [] xs"

definition lastFiredAt :: "react_world \<Rightarrow> react \<Rightarrow> reaction_row \<Rightarrow> int option" where
  "lastFiredAt w st r =
     (let ts = max_text (map dl_at (filter (\<lambda>d. same_names r d \<and> dl_result d = ''fired'') (rs_deliveries st)))
      in if ts = [] then None else ck_parse (sw_clock w) ts)"

definition reactionVerdict :: "react_world \<Rightarrow> react \<Rightarrow> src_event \<Rightarrow> reaction_row \<Rightarrow> string \<times> delivery_detail" where
  "reactionVerdict w st ev r =
     (let db = rs_db st; now = rx_now w; src = re_source r; kind = re_kind r; name = re_owner r; uid = re_ownerUID r;
          age = time_sub now (ev_completedAt ev); cal = globalCalendarVerdict w db r; last = lastFiredAt w st r;
          elapsed = (case last of None \<Rightarrow> 0 | Some t \<Rightarrow> time_sub now t)
      in if \<not> re_enabled r then (''suppressed_disabled'', Told ''the reaction is disabled'')
         else if reactionCrossesAgencies db ev r then (''error'', Told ReasonReactionOtherAgency)
         else if age > reactionMissGrace then (''expired'', FinishedAgo age)
         else if definitionEnabled db src kind name uid = Some False
         then (''suppressed_disabled'', Told ''the reacting definition is disabled'')
         else if DefinitionIsCentral db kind src name uid
         then (''suppressed_disabled'', Told ''the reacting definition belongs to the built-in administration agency, which runs nothing: move it to an agency'')
         else if IsPausedUID db src kind name uid then (''suppressed_paused'', Told ''the reacting definition is paused'')
         else if suppresses cal then (''suppressed_calendar'', Told (calendar_detail w (the cal)))
         else if reaction_DepthExceeded (ev_depth ev) then (''suppressed_depth'', WouldReach (ev_depth ev + 1))
         else if re_min_interval r > 0 \<and> last \<noteq> None \<and> elapsed < wrap64 (re_min_interval r * nsSecond)
         then (''suppressed_rate'', LastFiredAgo elapsed (re_min_interval r))
         else (''fired'', NoDetail))"

section \<open>Firing\<close>

definition reactionEnvStamp :: "src_event \<Rightarrow> string gomap" where
  "reactionEnvStamp ev =
     [(''CRONOMICON_REACTED_TO_KIND'', ev_kind ev), (''CRONOMICON_REACTED_TO_SOURCE'', ev_source ev),
      (''CRONOMICON_REACTED_TO_NAME'', ev_name ev), (''CRONOMICON_REACTED_TO_RUN_ID'', ev_runID ev),
      (''CRONOMICON_REACTED_TO_OUTCOME'', outcome_text (ev_outcome ev))]"

definition reacting_job :: "gate_db \<Rightarrow> string \<Rightarrow> string \<Rightarrow> string \<Rightarrow> gate_job option" where
  "reacting_job db source name uid =
     List.find (\<lambda>j. (if uid \<noteq> [] then j_uid j = uid else j_name j = name \<and> j_source j = source) \<and> \<not> def_row.dr_deleted j) (gd_jobs db)"

definition buildReactionJobParams ::
  "react_world \<Rightarrow> sched \<Rightarrow> string \<Rightarrow> string \<Rightarrow> string \<Rightarrow> string gomap \<Rightarrow> react_error + enqueue_params"
where
  "buildReactionJobParams w st source name ownerUID stamp =
     (let db = ss_db st
      in case reacting_job db source name ownerUID of None \<Rightarrow> Inl (NoSuchOwner name)
      | Some j \<Rightarrow>
          (let uid = j_uid j; idc = IdentityCapableRunType (j_run_type j); scope = dr_scope j;
               key = (if HoldsGate (gj_policy j)
                      then ConcurrencyKey (dr_concurrencyKey j) (keyAgency db (dr_concurrencyKey j) uid source name) uid source name
                      else []);
               owners = RunOwners source name uid (coalesce (j_script_ref j) []) (coalesce (j_script_uid j) [])
           in case ScopeAgencies (gd_dispatch db) (jobAgencyFor db uid source name) scope of
                None \<Rightarrow> Inl (NoScopeAgencies scope)
              | Some ags \<Rightarrow>
                  (let blocked = UnboundRunBlocked (refs_now (fw w) st) (fw_bindings w) owners scope ags;
                       keys = KeyBindingsNeedAgent (gd_dispatch db) (fw_bindings w) owners [] (j_run_type j)
                         (jobAgencyFor db uid source name) scope
                   in if blocked \<noteq> [] then Inl (UnboundCredentials blocked)
                      else if RepoScopeMismatch db uid source name scope then Inl WrongScope
                      else if keys \<noteq> [] then Inl (KeyWithoutAgent keys)
                      else if CheckoutNeedsAgent db uid source name scope then Inl CheckoutWithoutAgent
                      else Inr (no_params\<lparr>e_JobName := name, e_JobSource := source, e_JobUID := uid, e_RunType := j_run_type j,
                        e_Scope := scope, e_TargetHost := dr_targetHost j, e_TriggerKind := ''reaction'',
                        e_TriggeredBy := ''reactor'', e_ConcurrencyKey := key, e_EnvJSON := Merge [gj_env j, Some stamp],
                        e_Executor := ''runner'', e_SSHUser := (if idc then dr_sshUser j else []),
                        e_SSHCredential := (if idc then dr_sshCred j else []), e_Agencies := ags, e_Policy := gj_policy j\<rparr>))))"

definition reacting_workflow :: "gate_db \<Rightarrow> string \<Rightarrow> string \<Rightarrow> string \<Rightarrow> bool" where
  "reacting_workflow db source name uid \<longleftrightarrow>
     list_ex (\<lambda>x. (if uid \<noteq> [] then wd_uid x = uid else wd_source x = source \<and> wd_name x = name) \<and> \<not> wd_deleted x) (gd_workflows db)"

definition fireReaction :: "react_world \<Rightarrow> sched \<Rightarrow> src_event \<Rightarrow> reaction_row \<Rightarrow> (react_error + string) \<times> sched" where
  "fireReaction w st ev r =
     (let stamp = reactionEnvStamp ev;
          runAt = rx_now w + wrap64 (re_delay r * nsSecond);
          row = \<lparr>px_Kind = re_kind r, px_Name = re_owner r, px_Source = re_source r, px_OwnerUID = re_ownerUID r, px_Scope = [],
                 px_RunAt = rx_format w runAt, px_Params = None, px_OriginRef = ev_runID ev, px_Depth = ev_depth ev + 1,
                 px_EnvJSON = rx_json w stamp\<rparr>;
          insert = (\<lambda>x. case InsertReactionPendingRun (base (fw w)) st x of
                      None \<Rightarrow> (Inl NotInserted, st) | Some (i, st') \<Rightarrow> (Inr i, st'))
      in if re_kind r = ''job'' then
           (case buildReactionJobParams w st (re_source r) (re_owner r) (re_ownerUID r) stamp of
              Inl e \<Rightarrow> (Inl e, st)
            | Inr p \<Rightarrow> insert (row\<lparr>px_Params := Some p, px_Scope := e_Scope p\<rparr>))
         else if \<not> reacting_workflow (ss_db st) (re_source r) (re_owner r) (re_ownerUID r) then (Inl (NoSuchOwner (re_owner r)), st)
         else insert row)"

section \<open>A delivery\<close>

text \<open>The claim: the unique index is on the owner's kind and uid, the reaction's name and the run; a NULL uid is equal
  to none.\<close>

definition claimed :: "react \<Rightarrow> reaction_row \<Rightarrow> src_event \<Rightarrow> bool" where
  "claimed st r ev \<longleftrightarrow>
     list_ex (\<lambda>d. dl_uid d \<noteq> None \<and> dl_uid d = nullStr (re_ownerUID r) \<and> dl_kind d = re_kind r \<and> dl_name d = re_name r \<and>
       dl_src_kind d = ev_kind ev \<and> dl_src_run d = ev_runID ev) (rs_deliveries st)"

definition claim_delivery :: "react_world \<Rightarrow> reaction_row \<Rightarrow> src_event \<Rightarrow> react \<Rightarrow> react" where
  "claim_delivery w r ev st =
     st\<lparr>rs_deliveries := rs_deliveries st @
       [\<lparr>dl_source = re_source r, dl_kind = re_kind r, dl_owner = re_owner r, dl_name = re_name r, dl_uid = nullStr (re_ownerUID r),
         dl_src_kind = ev_kind ev, dl_src_run = ev_runID ev, dl_outcome = outcome_text (ev_outcome ev), dl_result = ''pending'',
         dl_detail = NoDetail, dl_pending = [], dl_at = rx_format w (rx_now w)\<rparr>]\<rparr>"

definition finishDelivery :: "reaction_row \<Rightarrow> src_event \<Rightarrow> string \<Rightarrow> delivery_detail \<Rightarrow> string \<Rightarrow> react \<Rightarrow> react" where
  "finishDelivery r ev result detail pendingID st =
     st\<lparr>rs_deliveries := map (\<lambda>d. if same_names r d \<and> dl_src_kind d = ev_kind ev \<and> dl_src_run d = ev_runID ev
         then d\<lparr>dl_result := result, dl_detail := detail, dl_pending := pendingID\<rparr> else d) (rs_deliveries st)\<rparr>"

definition emitDepthCeilingActivity :: "react_world \<Rightarrow> src_event \<Rightarrow> reaction_row \<Rightarrow> delivery_detail \<Rightarrow> react \<Rightarrow> react" where
  "emitDepthCeilingActivity w ev r detail st =
     st\<lparr>rs_activity := rs_activity st @
       [\<lparr>ac_at = rx_format w (rx_now w), ac_target = re_kind r @ '':'' @ re_owner r, ac_trace = ev_runID ev, ac_reaction = re_name r,
         ac_upstream = ev_name ev, ac_details = detail, ac_agency = Owner (by_uid_agency (rs_db st) (re_ownerUID r) (re_kind r))\<rparr>]\<rparr>"

text \<open>How a delivery ended: another pass has it, or its result and, when it fired, the parked row.\<close>

datatype delivered = Already | Delivered string delivery_detail

definition deliverOne :: "react_world \<Rightarrow> react \<Rightarrow> src_event \<Rightarrow> reaction_row \<Rightarrow> delivered \<times> react" where
  "deliverOne w st ev r =
     (if claimed st r ev then (Already, st)
      else
        (let st1 = claim_delivery w r ev st; (verdict, detail) = reactionVerdict w st1 ev r
         in if verdict \<noteq> ''fired'' then
              (let st2 = finishDelivery r ev verdict detail [] st1
               in (Delivered verdict detail, if verdict = ''suppressed_depth'' then emitDepthCeilingActivity w ev r detail st2 else st2))
            else case fireReaction w (rs_sched st1) ev r of
                (Inl e, s) \<Rightarrow> (Delivered ''error'' (CouldNot e), finishDelivery r ev ''error'' (CouldNot e) [] (st1\<lparr>rs_sched := s\<rparr>))
              | (Inr i, s) \<Rightarrow> (Delivered ''fired'' detail, finishDelivery r ev ''fired'' detail i (st1\<lparr>rs_sched := s\<rparr>))))"

definition deliverEvent :: "react_world \<Rightarrow> src_event \<Rightarrow> react \<Rightarrow> react" where
  "deliverEvent w ev st = fold (\<lambda>r s. snd (deliverOne w s ev r)) (matched st ev) st"

section \<open>A scan\<close>

definition reactionCursor :: "react_world \<Rightarrow> react \<Rightarrow> int option" where
  "reactionCursor w st = (case rs_cursor st of None \<Rightarrow> None | Some v \<Rightarrow> if v = [] then None else ck_parse (sw_clock w) v)"

definition writeReactionCursor :: "react_world \<Rightarrow> int \<Rightarrow> react \<Rightarrow> react" where
  "writeReactionCursor w t st = st\<lparr>rs_cursor := Some (rx_format w t)\<rparr>"

definition in_order :: "src_event list \<Rightarrow> src_event list" where
  "in_order evs = sort_key ev_completedAt (sort_key ev_runID evs)"

definition ScanReactions :: "react_world \<Rightarrow> react \<Rightarrow> react" where
  "ScanReactions w st =
     (case reactionCursor w st of
        None \<Rightarrow> writeReactionCursor w (rx_now w) st
      | Some cursor \<Rightarrow>
          (let events = in_order (collectEvents w st (cursor - reactionLookback));
               st1 = fold (deliverEvent w) events st;
               newest = foldl (\<lambda>n ev. if ev_completedAt ev > n then ev_completedAt ev else n) cursor events
           in if newest > cursor then writeReactionCursor w newest st1 else st1))"

end
