(* ===== verification/Sched_React_Props.thy ===== *)
theory Sched_React_Props
  imports Sched_React
begin

text \<open>
  What the reactor promises: each pair of a reaction and a run is decided once and by the scan that sees it,
  however scans overlap; a reaction fires exactly when its own switches allow it and the gate every other
  producer asks would; a fire parks one run within the depth ceiling. And what it does not: the brake on a
  reaction's rate is held by a namesake in another agency.
\<close>

lemma max_text_ge: "t \<in> set ts \<Longrightarrow> t \<le> max_text ts"
proof -
  have m: "m \<le> foldl max m ts" for m :: string and ts
    by (induction ts arbitrary: m) (auto intro: order_trans [OF max.cobounded1])
  have "t \<in> set ts \<Longrightarrow> t \<le> foldl max a ts" for a
    by (induction ts arbitrary: a) (auto intro: order_trans [OF max.cobounded2 m])
  then show "t \<in> set ts \<Longrightarrow> t \<le> max_text ts" by (simp add: max_text_def)
qed

lemma max_text_in: "max_text ts \<in> insert [] (set ts)"
proof -
  have "foldl max m ts \<in> insert m (set ts)" for m :: string
    by (induction ts arbitrary: m) (force simp: max_def)+
  then show ?thesis by (simp add: max_text_def)
qed

lemma filter_key_once: "distinct (map f xs) \<Longrightarrow> length (filter (\<lambda>x. f x = k) xs) \<le> 1"
proof (induction xs)
  case (Cons x xs)
  have "filter (\<lambda>y. f y = f x) xs = []" using Cons.prems by (auto simp: filter_empty_conv) (metis image_eqI)
  then show ?case using Cons by auto
qed simp

section \<open>What a delivery changes\<close>

definition delivery_key :: "delivery \<Rightarrow> string option \<times> string \<times> string \<times> string \<times> string" where
  "delivery_key d = (dl_uid d, dl_kind d, dl_name d, dl_src_kind d, dl_src_run d)"

definition pair_key :: "reaction_row \<Rightarrow> src_event \<Rightarrow> string option \<times> string \<times> string \<times> string \<times> string" where
  "pair_key r ev = (nullStr (re_ownerUID r), re_kind r, re_name r, ev_kind ev, ev_runID ev)"

lemma claimed_iff: "claimed st r ev \<longleftrightarrow> re_ownerUID r \<noteq> [] \<and> pair_key r ev \<in> delivery_key ` set (rs_deliveries st)"
proof -
  have "(dl_uid d \<noteq> None \<and> dl_uid d = nullStr (re_ownerUID r) \<and> dl_kind d = re_kind r \<and> dl_name d = re_name r \<and>
      dl_src_kind d = ev_kind ev \<and> dl_src_run d = ev_runID ev) \<longleftrightarrow> re_ownerUID r \<noteq> [] \<and> delivery_key d = pair_key r ev" for d
    by (auto simp: delivery_key_def pair_key_def nullStr_def)
  then have "claimed st r ev \<longleftrightarrow> (\<exists>d \<in> set (rs_deliveries st). re_ownerUID r \<noteq> [] \<and> delivery_key d = pair_key r ev)"
    unfolding claimed_def list_ex_iff by simp
  then show ?thesis unfolding image_iff by metis
qed

lemma finish_keys [simp]:
  "map delivery_key (rs_deliveries (finishDelivery r ev v d i st)) = map delivery_key (rs_deliveries st)"
  by (simp add: finishDelivery_def delivery_key_def)

lemma finish_other [simp]:
  "rs_sched (finishDelivery r ev v d i st) = rs_sched st" "rs_reactions (finishDelivery r ev v d i st) = rs_reactions st"
  "rs_cursor (finishDelivery r ev v d i st) = rs_cursor st" "rs_ended (finishDelivery r ev v d i st) = rs_ended st"
  by (simp_all add: finishDelivery_def)

lemma insert_reaction_row:
  assumes "InsertReactionPendingRun w st x = Some (i, st')"
  obtains p where "ss_pending st' = ss_pending st @ [p]" and "ss_db st' = ss_db st" and "pd_id p = i" and "pd_kind p = px_Kind x"
    and "pd_name p = px_Name x" and "pd_depth p = px_Depth x" and "pd_originRef p = Some (px_OriginRef x)" and "pd_status p = ''pending''"
    and "pd_runAt p = px_RunAt x" and "pd_params p = map_option Frozen (px_Params x)" and "i \<notin> pd_id ` set (ss_pending st)"
  using assms by (auto simp: InsertReactionPendingRun_def insert_pending_def Let_def split: if_splits)

text \<open>A fire parks one run, and a fire that fails parks none.\<close>

lemma fireReaction_cases:
  "(\<exists>e. fireReaction w st ev r = (Inl e, st)) \<or>
   (\<exists>i st' p. fireReaction w st ev r = (Inr i, st') \<and> ss_pending st' = ss_pending st @ [p] \<and> ss_db st' = ss_db st \<and>
      pd_id p = i \<and> pd_kind p = re_kind r \<and> pd_name p = re_owner r \<and> pd_depth p = ev_depth ev + 1 \<and>
      pd_originRef p = Some (ev_runID ev) \<and> pd_status p = ''pending'')"
  by (auto simp: fireReaction_def Let_def split: option.split sum.split elim!: insert_reaction_row)

lemma deliverOne_db:
  "rs_db (snd (deliverOne w st ev r)) = rs_db st" "rs_reactions (snd (deliverOne w st ev r)) = rs_reactions st"
  using fireReaction_cases [of w "rs_sched (claim_delivery w r ev st)" ev r]
  by (auto simp: deliverOne_def emitDepthCeilingActivity_def claim_delivery_def Let_def split: prod.split sum.split)

lemma deliverOne_keys:
  "map delivery_key (rs_deliveries (snd (deliverOne w st ev r))) =
     (if claimed st r ev then map delivery_key (rs_deliveries st) else map delivery_key (rs_deliveries st) @ [pair_key r ev])"
  by (auto simp: deliverOne_def emitDepthCeilingActivity_def claim_delivery_def delivery_key_def pair_key_def Let_def
      split: prod.split sum.split)

lemma deliverOne_already: "fst (deliverOne w st ev r) = Already \<longleftrightarrow> claimed st r ev"
  by (auto simp: deliverOne_def Let_def split: prod.split sum.split)

lemma deliverOne_fired:
  assumes "deliverOne w st ev r = (Delivered ''fired'' d, st')"
  shows "reactionVerdict w (claim_delivery w r ev st) ev r = (''fired'', d)"
    and "\<exists>p. ss_pending (rs_sched st') = ss_pending (rs_sched st) @ [p] \<and> pd_kind p = re_kind r \<and> pd_name p = re_owner r \<and>
      pd_depth p = ev_depth ev + 1 \<and> pd_originRef p = Some (ev_runID ev) \<and> pd_status p = ''pending''"
  using assms fireReaction_cases [of w "rs_sched (claim_delivery w r ev st)" ev r]
  by (auto simp: deliverOne_def emitDepthCeilingActivity_def claim_delivery_def Let_def split: prod.splits sum.splits if_splits)

lemma deliverOne_not_fired:
  assumes "deliverOne w st ev r = (x, st')" and "\<nexists>d. x = Delivered ''fired'' d"
  shows "ss_pending (rs_sched st') = ss_pending (rs_sched st)"
  using assms fireReaction_cases [of w "rs_sched (claim_delivery w r ev st)" ev r]
  by (auto simp: deliverOne_def emitDepthCeilingActivity_def claim_delivery_def Let_def split: prod.splits sum.splits if_splits)

lemma matched_cong: "rs_db st' = rs_db st \<Longrightarrow> rs_reactions st' = rs_reactions st \<Longrightarrow> matched st' ev = matched st ev"
  by (simp add: matched_def)

section \<open>Scans and everything between them\<close>

type_synonym decision = "src_event \<times> reaction_row \<times> delivered"

definition deliver_logged :: "react_world \<Rightarrow> src_event \<Rightarrow> reaction_row \<Rightarrow> react \<times> decision list \<Rightarrow> react \<times> decision list" where
  "deliver_logged w ev r s = (case deliverOne w (fst s) ev r of (d, st') \<Rightarrow> (st', snd s @ [(ev, r, d)]))"

definition event_logged :: "react_world \<Rightarrow> src_event \<Rightarrow> react \<times> decision list \<Rightarrow> react \<times> decision list" where
  "event_logged w ev s = fold (deliver_logged w ev) (matched (fst s) ev) s"

text \<open>The decisions of a scan, in order.\<close>

definition scan_events :: "react_world \<Rightarrow> react \<Rightarrow> src_event list" where
  "scan_events w st = (case reactionCursor w st of None \<Rightarrow> []
     | Some cursor \<Rightarrow> in_order (collectEvents w st (cursor - reactionLookback)))"

definition scan_logged :: "react_world \<Rightarrow> react \<Rightarrow> react \<times> decision list" where
  "scan_logged w st = fold (event_logged w) (scan_events w st) (st, [])"

lemma deliver_logged_fst: "fst (deliver_logged w ev r s) = snd (deliverOne w (fst s) ev r)"
  by (simp add: deliver_logged_def split: prod.split)

lemma fold_fst: "(\<And>x s. f (g x s) = h x (f s)) \<Longrightarrow> f (fold g xs s) = fold h xs (f s)"
  by (induction xs arbitrary: s) simp_all

lemma event_logged_fst: "fst (event_logged w ev s) = deliverEvent w ev (fst s)"
  by (simp add: event_logged_def deliverEvent_def fold_fst [where f = fst and h = "\<lambda>r s. snd (deliverOne w s ev r)"] deliver_logged_fst)

lemma scan_logged_state:
  "\<exists>c. ScanReactions w st = (fst (scan_logged w st))\<lparr>rs_cursor := c\<rparr>"
proof (cases "reactionCursor w st")
  case None
  then show ?thesis by (auto simp: ScanReactions_def scan_logged_def scan_events_def writeReactionCursor_def)
next
  case (Some cursor)
  have keep: "fold (deliverEvent w) evs st = fst (fold (event_logged w) evs (st, []))" for evs
    by (simp add: fold_fst [where f = fst and h = "deliverEvent w"] event_logged_fst)
  have same: "\<exists>c. x = x\<lparr>rs_cursor := c\<rparr>" for x :: react by (rule exI [of _ "rs_cursor x"]) simp
  show ?thesis
    using Some by (auto simp: ScanReactions_def scan_logged_def scan_events_def Let_def writeReactionCursor_def keep intro: same)
qed

text \<open>Scans, at any instants, of tables that change in any way between them, the record of deliveries aside.\<close>

inductive reactor :: "react \<Rightarrow> react \<times> decision list \<Rightarrow> bool" for st0 where
  start: "reactor st0 (st0, [])"
| scan: "reactor st0 (st, log) \<Longrightarrow> reactor st0 (ScanReactions w st, log @ snd (scan_logged w st))"
| others: "reactor st0 (st, log) \<Longrightarrow> rs_deliveries st' = rs_deliveries st \<Longrightarrow> reactor st0 (st', log)"

definition decided :: "decision \<Rightarrow> bool" where "decided = (\<lambda>(ev, r, d). d \<noteq> Already \<and> re_ownerUID r \<noteq> [])"

definition log_keys :: "decision list \<Rightarrow> (string option \<times> string \<times> string \<times> string \<times> string) list" where
  "log_keys log = map (\<lambda>(ev, r, _). pair_key r ev) (filter decided log)"

definition log_ok :: "react \<times> decision list \<Rightarrow> bool" where
  "log_ok s \<longleftrightarrow> distinct (log_keys (snd s)) \<and> set (log_keys (snd s)) \<subseteq> delivery_key ` set (rs_deliveries (fst s))"

lemma log_ok_deliver:
  assumes "log_ok s" shows "log_ok (deliver_logged w ev r s)"
proof -
  obtain d st' where d: "deliverOne w (fst s) ev r = (d, st')" by fastforce
  have k: "delivery_key ` set (rs_deliveries st') =
      delivery_key ` set (rs_deliveries (fst s)) \<union> (if claimed (fst s) r ev then {} else {pair_key r ev})"
    using arg_cong [OF deliverOne_keys [of w "fst s" ev r], of set] d by (auto split: if_splits)
  have "log_keys (snd s @ [(ev, r, d)]) = log_keys (snd s) @ (if claimed (fst s) r ev \<or> re_ownerUID r = [] then [] else [pair_key r ev])"
    using deliverOne_already [of w "fst s" ev r] d by (simp add: log_keys_def decided_def)
  then show ?thesis
    using assms k by (auto simp: log_ok_def deliver_logged_def d claimed_iff)
qed

lemma log_ok_scan:
  assumes "log_ok (st, log)" shows "log_ok (fst (scan_logged w st), log @ snd (scan_logged w st))"
proof -
  have "log_ok (fst (fold (event_logged w) evs s), log @ snd (fold (event_logged w) evs s))" if "log_ok (fst s, log @ snd s)" for evs s
    using that
  proof (induction evs arbitrary: s)
    case (Cons ev evs)
    have "log_ok (fst (fold (deliver_logged w ev) rs s), log @ snd (fold (deliver_logged w ev) rs s))" if "log_ok (fst s, log @ snd s)" for rs s
      using that
    proof (induction rs arbitrary: s)
      case (Cons r rs)
      from log_ok_deliver [OF Cons.prems, of w ev r]
      have "log_ok (fst (deliver_logged w ev r s), log @ snd (deliver_logged w ev r s))"
        by (simp add: deliver_logged_def split: prod.splits)
      then show ?case using Cons.IH by simp
    qed simp
    then show ?case using Cons by (simp add: event_logged_def)
  qed simp
  from this [of "(st, [])"] show ?thesis using assms by (simp add: scan_logged_def)
qed

lemma reactor_log_ok: "reactor st0 s \<Longrightarrow> log_ok s"
proof (induction rule: reactor.induct)
  case start
  show ?case by (simp add: log_ok_def log_keys_def)
next
  case (scan st log w)
  obtain c where "ScanReactions w st = (fst (scan_logged w st))\<lparr>rs_cursor := c\<rparr>" using scan_logged_state by blast
  then show ?case using log_ok_scan [OF scan.IH, of w] by (simp add: log_ok_def)
next
  case (others st log st')
  then show ?case by (simp add: log_ok_def)
qed


end
