(* ===== verification/Sched_React_Gate.thy ===== *)
theory Sched_React_Gate
  imports Sched_React_Props Sched_Props
begin

text \<open>
  When a reaction fires: exactly when its own switches allow it and the gate every other producer asks does,
  the fleet's cap apart, which its promotion asks; its fires are spaced by its minimum interval; and a scan
  leaves nothing it saw undecided. Then what a row that shares its names does to it.
\<close>

section \<open>The shared gate\<close>

definition reaction_request :: "reaction_row \<Rightarrow> gate_request" where
  "reaction_request r = \<lparr>gr_Origin = OriginReaction, gr_Source = re_source r, gr_OwnerKind = re_kind r, gr_Name = re_owner r,
     gr_UID = re_ownerUID r, gr_Hand = False\<rparr>"

definition owner_live :: "gate_db \<Rightarrow> reaction_row \<Rightarrow> bool" where
  "owner_live db r \<longleftrightarrow> re_ownerUID r \<noteq> [] \<and>
     (re_kind r = ''job'' \<and> (case the_job db (re_ownerUID r) of None \<Rightarrow> False | Some j \<Rightarrow> \<not> def_row.dr_deleted j) \<or>
      re_kind r = ''workflow'' \<and> (case the_workflow db (re_ownerUID r) of None \<Rightarrow> False | Some x \<Rightarrow> \<not> wd_deleted x))"

text \<open>The reaction's own switches and brakes.\<close>

definition brake_held :: "react_world \<Rightarrow> react \<Rightarrow> reaction_row \<Rightarrow> bool" where
  "brake_held w st r \<longleftrightarrow> re_min_interval r > 0 \<and>
     (case lastFiredAt w st r of None \<Rightarrow> False | Some t \<Rightarrow> time_sub (rx_now w) t < wrap64 (re_min_interval r * nsSecond))"

definition own_switches :: "react_world \<Rightarrow> react \<Rightarrow> src_event \<Rightarrow> reaction_row \<Rightarrow> bool" where
  "own_switches w st ev r \<longleftrightarrow> re_enabled r \<and> \<not> reactionCrossesAgencies (rs_db st) ev r \<and>
     time_sub (rx_now w) (ev_completedAt ev) \<le> reactionMissGrace \<and> ev_depth ev + 1 < MaxDepth \<and> \<not> brake_held w st r"

lemma find_live:
  "List.find p xs = Some x \<Longrightarrow> q x \<Longrightarrow> List.find (\<lambda>y. p y \<and> q y) xs = Some x"
  by (induction xs) (auto split: if_splits)

lemma enabled_agree:
  assumes "owner_live db r"
  shows "definitionEnabled db (re_source r) (re_kind r) (re_owner r) (re_ownerUID r) = Some False \<longleftrightarrow>
    definitionDisabled db (re_kind r) (re_source r) (re_owner r) (re_ownerUID r)"
proof -
  consider (job) j where "re_kind r = ''job''" "the_job db (re_ownerUID r) = Some j" "\<not> def_row.dr_deleted j"
    | (wf) x where "re_kind r = ''workflow''" "the_workflow db (re_ownerUID r) = Some x" "\<not> wd_deleted x"
    using assms by (auto simp: owner_live_def split: option.splits)
  then show ?thesis
  proof cases
    case job
    then show ?thesis using assms find_live [OF job(2) [unfolded the_job_def], of "\<lambda>j. \<not> def_row.dr_deleted j"]
      by (simp add: definitionEnabled_def definitionDisabled_def owner_live_def)
  next
    case wf
    then show ?thesis using assms find_live [OF wf(2) [unfolded the_workflow_def], of "\<lambda>x. \<not> wd_deleted x"]
      by (simp add: definitionEnabled_def definitionDisabled_def owner_live_def)
  qed
qed

lemma calendar_agree:
  assumes "owner_live (rs_db st) r"
  shows "globalCalendarVerdict w (rs_db st) r = gate_verdict (sw_clock w) (rs_db st) (reaction_request r)"
proof -
  have k: "or_job (re_kind r) = re_kind r" "re_ownerUID r \<noteq> []" using assms by (auto simp: owner_live_def or_job_def)
  have "op_definitionCalendars (PolicyFor OriginReaction)" by (simp add: PolicyFor_def originPolicies_def origin_defs)
  then show ?thesis
    using definitionBindings_uid [OF k(2), of "rs_db st" "re_kind r" "re_source r" "re_owner r"]
    by (auto simp: globalCalendarVerdict_def gate_verdict_def gate_bindings_def reaction_request_def k DefinitionBindings_def split: prod.splits)
qed


section \<open>Spacing\<close>

lemma same_names_claim [simp]:
  "lastFiredAt w (claim_delivery w' r' ev st) r = lastFiredAt w st r" "rs_db (claim_delivery w' r' ev st) = rs_db st"
  by (simp_all add: lastFiredAt_def claim_delivery_def)

definition stamps_ordered :: "react_world \<Rightarrow> react \<Rightarrow> bool" where
  "stamps_ordered w st \<longleftrightarrow> (\<forall>a \<in> dl_at ` set (rs_deliveries st). \<exists>x. ck_parse (sw_clock w) a = Some x \<and> a \<noteq> [] \<and>
     (\<forall>b \<in> dl_at ` set (rs_deliveries st). \<forall>y. a \<le> b \<longrightarrow> ck_parse (sw_clock w) b = Some y \<longrightarrow> x \<le> y))"

text \<open>a reaction with a minimum interval fires no sooner than that after any fire recorded under its names, and each
  fire parks one run of its owner, for the completion it reacts to, no deeper than the ceiling allows.\<close>

theorem fires_are_spaced_and_shallow:
  assumes "deliverOne w st ev r = (Delivered ''fired'' d, st')" and "stamps_ordered w st"
    and "0 < re_min_interval r" and "re_min_interval r \<le> 9000000000"
    and "x \<in> set (rs_deliveries st)" and "same_names r x" and "dl_result x = ''fired''" and "ck_parse (sw_clock w) (dl_at x) = Some t"
  shows "t + re_min_interval r * nsSecond \<le> rx_now w \<and>
    (\<exists>p. ss_pending (rs_sched st') = ss_pending (rs_sched st) @ [p] \<and> pd_kind p = re_kind r \<and> pd_name p = re_owner r \<and>
       pd_originRef p = Some (ev_runID ev) \<and> pd_depth p = ev_depth ev + 1 \<and> pd_depth p < MaxDepth)"
proof -
  let ?fired = "filter (\<lambda>d. same_names r d \<and> dl_result d = ''fired'') (rs_deliveries st)"
  let ?last = "max_text (map dl_at ?fired)"
  have x: "dl_at x \<in> set (map dl_at ?fired)" using assms(5-7) by simp
  have ne: "dl_at x \<noteq> []" using assms(2,5) by (auto simp: stamps_ordered_def)
  have le: "dl_at x \<le> ?last" by (rule max_text_ge [OF x])
  then have "?last \<noteq> []" using ne by (metis less_eq_list_code(1,2) neq_Nil_conv)
  then have "?last \<in> dl_at ` set (rs_deliveries st)" using max_text_in [of "map dl_at ?fired"] by auto
  then obtain u where u: "ck_parse (sw_clock w) ?last = Some u" using assms(2) by (auto simp: stamps_ordered_def)
  have "t \<le> u" using assms(2,5,8) le u \<open>?last \<in> _\<close> by (auto simp: stamps_ordered_def)
  have last: "lastFiredAt w st r = Some u" using \<open>?last \<noteq> []\<close> u by (simp add: lastFiredAt_def Let_def)
  have v: "reactionVerdict w (claim_delivery w r ev st) ev r = (''fired'', d)" using deliverOne_fired(1) assms(1) by blast
  have "\<not> time_sub (rx_now w) u < wrap64 (re_min_interval r * nsSecond)" and depth: "ev_depth ev + 1 < MaxDepth"
    using v last assms(3) by (auto simp: reactionVerdict_def reaction_DepthExceeded_def Let_def split: if_splits)
  moreover have "wrap64 (re_min_interval r * nsSecond) = re_min_interval r * nsSecond"
    using assms(3,4) by (simp add: nsSecond_def minInt64_def maxInt64_def)
  ultimately have "u + re_min_interval r * nsSecond \<le> rx_now w"
    using assms(3,4) by (auto simp: time_sub_def sat64_def nsSecond_def minInt64_def maxInt64_def split: if_splits)
  then show ?thesis using \<open>t \<le> u\<close> depth deliverOne_fired(2) [OF assms(1)] by fastforce
qed

section \<open>Nothing seen is left undecided\<close>

definition undecided :: "react \<Rightarrow> (string option \<times> string \<times> string \<times> string \<times> string) set" where
  "undecided st = delivery_key ` {d \<in> set (rs_deliveries st). dl_result d = ''pending''}"

definition known :: "react \<Rightarrow> (string option \<times> string \<times> string \<times> string \<times> string) set" where
  "known st = delivery_key ` set (rs_deliveries st)"

lemma undecided_finish:
  assumes "v \<noteq> ''pending''"
  shows "undecided (finishDelivery r ev v d i (claim_delivery w r ev st)) \<subseteq> undecided st"
  using assms by (auto simp: undecided_def finishDelivery_def claim_delivery_def same_names_def delivery_key_def image_iff split: if_splits)

lemma verdict_not_pending: "fst (reactionVerdict w st ev r) \<noteq> ''pending''"
  by (auto simp: reactionVerdict_def Let_def)

lemma deliverOne_progress:
  "undecided (snd (deliverOne w st ev r)) \<subseteq> undecided st" "known st \<subseteq> known (snd (deliverOne w st ev r))"
  "re_ownerUID r \<noteq> [] \<Longrightarrow> pair_key r ev \<in> known (snd (deliverOne w st ev r))"
proof -
  let ?c = "claim_delivery w r ev st"
  obtain v d where v: "reactionVerdict w ?c ev r = (v, d)" by fastforce
  have np: "v \<noteq> ''pending''" using verdict_not_pending [of w ?c ev r] v by simp
  have s: "undecided (x\<lparr>rs_activity := a\<rparr>) = undecided x" "undecided (x\<lparr>rs_sched := b\<rparr>) = undecided x" for x a b
    by (simp_all add: undecided_def)
  have c: "claim_delivery w r ev st\<lparr>rs_sched := y\<rparr> = claim_delivery w r ev (st\<lparr>rs_sched := y\<rparr>)" for y
    by (simp add: claim_delivery_def)
  show "undecided (snd (deliverOne w st ev r)) \<subseteq> undecided st"
    using undecided_finish [OF np, of r ev d "[]" w st] undecided_finish [of "''error''" r ev _ "[]" w "st\<lparr>rs_sched := y\<rparr>" for y]
      undecided_finish [of "''fired''" r ev _ _ w "st\<lparr>rs_sched := y\<rparr>" for y]
    by (auto simp: deliverOne_def v Let_def emitDepthCeilingActivity_def s c split: sum.split prod.split)
  have k: "known (snd (deliverOne w st ev r)) = known st \<union> (if claimed st r ev then {} else {pair_key r ev})"
    using arg_cong [OF deliverOne_keys [of w st ev r], of set] by (auto simp: known_def split: if_splits)
  show "known st \<subseteq> known (snd (deliverOne w st ev r))" by (simp add: k)
  show "pair_key r ev \<in> known (snd (deliverOne w st ev r))" if "re_ownerUID r \<noteq> []"
  proof (cases "claimed st r ev")
    case True
    then have "pair_key r ev \<in> known st" by (simp add: claimed_iff known_def)
    then show ?thesis by (simp add: k)
  qed (simp add: k)
qed

lemma deliver_fold_progress:
  "undecided (fold (\<lambda>r s. snd (deliverOne w s ev r)) rs st) \<subseteq> undecided st \<and>
   known st \<subseteq> known (fold (\<lambda>r s. snd (deliverOne w s ev r)) rs st) \<and>
   (\<forall>r \<in> set rs. re_ownerUID r \<noteq> [] \<longrightarrow> pair_key r ev \<in> known (fold (\<lambda>r s. snd (deliverOne w s ev r)) rs st)) \<and>
   rs_db (fold (\<lambda>r s. snd (deliverOne w s ev r)) rs st) = rs_db st \<and>
   rs_reactions (fold (\<lambda>r s. snd (deliverOne w s ev r)) rs st) = rs_reactions st"
proof (induction rs arbitrary: st)
  case (Cons r rs)
  have "pair_key r ev \<in> known (fold (\<lambda>r s. snd (deliverOne w s ev r)) rs (snd (deliverOne w st ev r)))" if "re_ownerUID r \<noteq> []"
    using Cons.IH [of "snd (deliverOne w st ev r)"] deliverOne_progress(3) [OF that, of ev w st] by blast
  then show ?case
    using Cons.IH [of "snd (deliverOne w st ev r)"] deliverOne_progress(1,2) [where w = w and st = st and ev = ev and r = r] deliverOne_db [of w st ev r]
    by auto
qed simp

lemma events_fold_progress:
  "undecided (fold (deliverEvent w) evs st) \<subseteq> undecided st \<and> known st \<subseteq> known (fold (deliverEvent w) evs st) \<and>
   (\<forall>ev \<in> set evs. \<forall>r \<in> set (matched st ev). re_ownerUID r \<noteq> [] \<longrightarrow> pair_key r ev \<in> known (fold (deliverEvent w) evs st))"
proof (induction evs arbitrary: st)
  case (Cons ev evs)
  let ?s = "deliverEvent w ev st"
  have p: "undecided ?s \<subseteq> undecided st" "known st \<subseteq> known ?s" "\<forall>r \<in> set (matched st ev). re_ownerUID r \<noteq> [] \<longrightarrow> pair_key r ev \<in> known ?s"
    "rs_db ?s = rs_db st" "rs_reactions ?s = rs_reactions st"
    using deliver_fold_progress [of w ev "matched st ev" st] by (simp_all add: deliverEvent_def)
  have "matched ?s e = matched st e" for e by (rule matched_cong [OF p(4,5)])
  then show ?case using Cons.IH [of ?s] p(1-3) by auto
qed simp

text \<open>every completion a scan reads is decided, for every reaction that watches it and whose owner has an identity:
  its delivery is there when the scan ends, with a result unless an earlier pass was cut short before giving one.\<close>

theorem a_scan_decides_all_it_reads:
  assumes "reactionCursor w st = Some c" and "ev \<in> set (collectEvents w st (c - reactionLookback))" and "r \<in> set (matched st ev)"
    and "re_ownerUID r \<noteq> []" and "pair_key r ev \<notin> undecided st"
  shows "\<exists>d \<in> set (rs_deliveries (ScanReactions w st)). delivery_key d = pair_key r ev \<and> dl_result d \<noteq> ''pending''"
proof -
  let ?evs = "in_order (collectEvents w st (c - reactionLookback))"
  let ?s = "fold (deliverEvent w) ?evs st"
  have "ev \<in> set ?evs" using assms(2) by (simp add: in_order_def)
  then have k: "pair_key r ev \<in> known ?s" "pair_key r ev \<notin> undecided ?s"
    using events_fold_progress [of w ?evs st] assms(3-5) by blast+
  have "rs_deliveries (ScanReactions w st) = rs_deliveries ?s"
    using assms(1) by (simp add: ScanReactions_def writeReactionCursor_def Let_def)
  then show ?thesis using k by (auto simp: known_def undecided_def)
qed

section \<open>A namesake\<close>

text \<open>the rate brake reads the last fire by the owner's and the reaction's names, which another agency's definition may
  share: a fire of its reaction holds the brake of this one, which never fired.\<close>

theorem a_namesake_holds_the_brake:
  assumes "fst (reactionVerdict w (st\<lparr>rs_deliveries := []\<rparr>) ev r) = ''fired''" and "0 < re_min_interval r"
    and "same_names r x" and "dl_result x = ''fired''" and "dl_at x \<noteq> []" and "ck_parse (sw_clock w) (dl_at x) = Some t"
    and "time_sub (rx_now w) t < wrap64 (re_min_interval r * nsSecond)" and "dl_uid x \<noteq> Some (re_ownerUID r)"
  shows "fst (reactionVerdict w (st\<lparr>rs_deliveries := [x]\<rparr>) ev r) = ''suppressed_rate''"
proof -
  have "[] \<le> dl_at x" by simp
  then have "lastFiredAt w (st\<lparr>rs_deliveries := [x]\<rparr>) r = Some t"
    using assms(3-6) by (simp add: lastFiredAt_def max_text_def max_def Let_def)
  then show ?thesis
    using assms(1,2,7) by (auto simp: reactionVerdict_def Let_def split: if_splits)
qed

section \<open>Two jobs called nightly\<close>

text \<open>The job of the small catalogue reacts to another of its agency; a job of the same name of another agency has
  reacted to its own.\<close>

definition demo_upstream :: gate_job where
  "demo_upstream = demo_gate_job\<lparr>j_uid := ''u2'', j_name := ''load''\<rparr>"

definition demo_reaction :: reaction_row where
  "demo_reaction = \<lparr>re_source = ''cronomicon'', re_kind = ''job'', re_owner = ''nightly'', re_name = ''after-load'', re_uid = Some ''u1'',
     re_on_kind = ''job'', re_on_source = ''cronomicon'', re_on_name = ''load'', re_on_uid = Some ''u2'', re_outcome = ''success'',
     re_delay = 0, re_min_interval = 60, re_children = False, re_enabled = True\<rparr>"

definition demo_ended :: live_run where
  "demo_ended = (demo_run ''r7'' ''c'')\<lparr>d_kind := ''job'', d_job_name := ''load'', d_job_source := Some ''cronomicon'', d_job_uid := Some ''u2'',
     d_status := ''warning'', d_completed_at := Some ''c'', d_workflow_run_id := None, d_reaction_depth := 1\<rparr>"

definition demo_stamp :: "int \<Rightarrow> string" where "demo_stamp t = [char_of (nat (t div nsSecond))]"

definition demo_instant :: "string \<Rightarrow> int option" where
  "demo_instant s = (case s of [c] \<Rightarrow> Some (int (of_char c) * nsSecond) | _ \<Rightarrow> None)"

definition demo_react_world :: react_world where
  "demo_react_world = fire_world.extend (demo_fire_world\<lparr>sw_clock := demo_clock\<lparr>ck_now := 110 * nsSecond, ck_parse := demo_instant\<rparr>\<rparr>)
     \<lparr>rx_format = demo_stamp, rx_json = (\<lambda>_. ''{}'')\<rparr>"

definition demo_react :: react where
  "demo_react = \<lparr>rs_sched = (with_runs (\<lambda>_. [demo_ended]) demo_sched)\<lparr>ss_db := (ss_db (with_runs (\<lambda>_. [demo_ended]) demo_sched))
       \<lparr>gd_jobs := [demo_gate_job, demo_upstream]\<rparr>\<rparr>,
     rs_reactions = [demo_reaction], rs_ended = [], rs_deliveries = [], rs_cursor = Some ''b'', rs_activity = []\<rparr>"

definition demo_event :: src_event where
  "demo_event = \<lparr>ev_kind = ''job'', ev_source = ''cronomicon'', ev_name = ''load'', ev_uid = ''u2'', ev_runID = ''r7'',
     ev_outcome = OSuccess, ev_completedAt = 99 * nsSecond, ev_depth = 1, ev_inWorkflow = False\<rparr>"

definition namesake_fire :: delivery where
  "namesake_fire = \<lparr>dl_source = ''cronomicon'', dl_kind = ''job'', dl_owner = ''nightly'', dl_name = ''after-load'', dl_uid = Some ''u9'',
     dl_src_kind = ''job'', dl_src_run = ''r1'', dl_outcome = ''success'', dl_result = ''fired'', dl_detail = NoDetail,
     dl_pending = ''p1'', dl_at = ''d''\<rparr>"



theorem fires_are_spaced_and_shallow_witness:
  "49 * nsSecond + 60 * nsSecond \<le> rx_now demo_react_world \<and>
   fst (deliverOne demo_react_world (demo_react\<lparr>rs_deliveries := [namesake_fire\<lparr>dl_at := ''1''\<rparr>]\<rparr>) demo_event demo_reaction) =
     Delivered ''fired'' NoDetail"
proof -
  let ?x = "namesake_fire\<lparr>dl_at := ''1''\<rparr>"
  let ?st = "demo_react\<lparr>rs_deliveries := [?x]\<rparr>"
  have d: "fst (deliverOne demo_react_world ?st demo_event demo_reaction) = Delivered ''fired'' NoDetail" by code_simp
  then obtain st' where r: "deliverOne demo_react_world ?st demo_event demo_reaction = (Delivered ''fired'' NoDetail, st')"
    by (cases "deliverOne demo_react_world ?st demo_event demo_reaction") simp
  have p: "ck_parse (sw_clock demo_react_world) ''1'' = Some (49 * nsSecond)" by code_simp
  have "stamps_ordered demo_react_world ?st" using p by (simp add: stamps_ordered_def)
  moreover have "re_min_interval demo_reaction = 60" "same_names demo_reaction ?x" "dl_result ?x = ''fired''" by code_simp+
  ultimately show ?thesis
    using fires_are_spaced_and_shallow [OF r, of ?x "49 * nsSecond"] p d by simp
qed

theorem a_scan_decides_all_it_reads_witness:
  "\<exists>d \<in> set (rs_deliveries (ScanReactions demo_react_world demo_react)).
     delivery_key d = pair_key demo_reaction demo_event \<and> dl_result d \<noteq> ''pending''"
proof -
  have c: "reactionCursor demo_react_world demo_react = Some (98 * nsSecond)" by code_simp
  have e: "collectEvents demo_react_world demo_react (98 * nsSecond - reactionLookback) = [demo_event]" by code_simp
  have m: "matched demo_react demo_event = [demo_reaction]" by code_simp
  show ?thesis
    by (rule a_scan_decides_all_it_reads [OF c]) (simp_all add: e m, simp_all add: demo_reaction_def coalesce_def undecided_def demo_react_def)
qed

theorem a_namesake_holds_the_brake_witness:
  "fst (reactionVerdict demo_react_world (demo_react\<lparr>rs_deliveries := [namesake_fire]\<rparr>) demo_event demo_reaction) = ''suppressed_rate''"
proof (rule a_namesake_holds_the_brake)
  show "fst (reactionVerdict demo_react_world (demo_react\<lparr>rs_deliveries := []\<rparr>) demo_event demo_reaction) = ''fired''" by code_simp
  show "ck_parse (sw_clock demo_react_world) (dl_at namesake_fire) = Some (100 * nsSecond)" by code_simp
  show "time_sub (rx_now demo_react_world) (100 * nsSecond) < wrap64 (re_min_interval demo_reaction * nsSecond)" by code_simp
qed (simp_all add: demo_reaction_def namesake_fire_def same_names_def coalesce_def)

end
