(* ===== verification/Sched_Sla.thy ===== *)
theory Sched_Sla
  imports Sched_Promote
begin

text \<open>
  Late and missing runs (\<open>backend/internal/scheduler/sla.go\<close>, \<open>window.go\<close>): \<open>ScanSLA\<close> warns once for a run
  past its job's deadline, \<open>ScanMissedRuns\<close> looks for a row behind every fire the schedules expected. The
  cron library, the application's zone (the day of an instant, the instant of a clock time on the day of
  another), the zone an RFC 3339 text states its time in and the formatting of times are fields of the world; an alert is what it is about, not its text.
\<close>

definition missedGrace :: int where "missedGrace = 5 * nsMinute"
definition missedCatchUp :: int where "missedCatchUp = 24 * nsHour"

record sla_world = fire_world +
  sl_lib :: cron_lib
  sl_zone :: string
  sl_format :: "int \<Rightarrow> string"
  sl_dayof :: "int \<Rightarrow> string"
  sl_clock :: "int \<Rightarrow> int \<Rightarrow> int \<Rightarrow> nat \<Rightarrow> int"
  sl_text_zone :: "string \<Rightarrow> string"

abbreviation sl_fw :: "sla_world \<Rightarrow> fire_world" where "sl_fw w \<equiv> fire_world.truncate w"

definition sl_now :: "sla_world \<Rightarrow> int" where "sl_now w = ck_now (sw_clock w)"

text \<open>\<open>jobs.warn_after_seconds\<close> and \<open>jobs.must_finish_by\<close> by the job's uid, \<open>runs.sla_warned_at\<close> by the run's id, and
  the rows of \<open>definition_schedules\<close>.\<close>

record schedule_entry =
  de_kind :: string
  de_source :: string
  de_owner :: string
  de_uid :: "string option"
  de_name :: string
  de_cron :: string
  de_interval :: string
  de_start :: string
  de_end :: string

record detection_entry = schedule_entry +
  de_ownerUID :: string
  de_scope :: string

datatype sla_alert = Overdue string string | Missed string string string string int

record sla =
  sl_sched :: sched
  sl_deadlines :: "(string \<times> int option \<times> string option) list"
  sl_warned :: "(string \<times> string) list"
  sl_entries :: "schedule_entry list"
  sl_cursor :: "string option"
  sl_alerts :: "sla_alert list"

section \<open>Overdue runs\<close>

definition resolveDeadline :: "sla_world \<Rightarrow> int \<Rightarrow> string \<Rightarrow> int option" where
  "resolveDeadline w started hhmm =
     (case ParseDeadline hhmm of None \<Rightarrow> None
      | Some (h, m) \<Rightarrow>
          (let d = sl_clock w started h m 0 in Some (if d > started then d else sl_clock w started h m 1)))"

text \<open>Whether \<open>slaBreachDetail\<close> has a sentence.\<close>

definition slaBreachDetail :: "sla_world \<Rightarrow> int \<Rightarrow> int option \<Rightarrow> string option \<Rightarrow> bool" where
  "slaBreachDetail w started warnAfter mustFinishBy \<longleftrightarrow>
     (case warnAfter of None \<Rightarrow> False | Some n \<Rightarrow> n > 0 \<and> time_sub (sl_now w) started > wrap64 (n * nsSecond)) \<or>
     (case mustFinishBy of None \<Rightarrow> False
      | Some s \<Rightarrow> (case resolveDeadline w started s of None \<Rightarrow> False | Some d \<Rightarrow> sl_now w > d))"

definition parseStamp :: "sla_world \<Rightarrow> string \<Rightarrow> int" where "parseStamp w s = coalesce (ck_parse (sw_clock w) s) 0"

definition same_name_jobs :: "gate_db \<Rightarrow> string \<Rightarrow> string \<Rightarrow> nat" where
  "same_name_jobs db name source = length (filter (\<lambda>j. j_name j = name \<and> j_source j = source) (gd_jobs db))"

definition judged_by :: "gate_db \<Rightarrow> live_run \<Rightarrow> gate_job \<Rightarrow> bool" where
  "judged_by db r j \<longleftrightarrow>
     (let source = coalesce (d_job_source r) ''git''
      in if coalesce (d_job_uid r) [] \<noteq> [] then j_uid j = coalesce (d_job_uid r) []
         else j_name j = d_job_name r \<and> j_source j = source \<and> same_name_jobs db (d_job_name r) source = 1)"

definition breached :: "sla_world \<Rightarrow> sla \<Rightarrow> live_run \<Rightarrow> gate_job \<Rightarrow> bool" where
  "breached w st r j \<longleftrightarrow>
     (case (d_started_at r, map_of (sl_deadlines st) (j_uid j)) of
        (Some s, Some (warnAfter, mustFinishBy)) \<Rightarrow>
          d_status r = ''running'' \<and> map_of (sl_warned st) (d_id r) = None \<and> (warnAfter \<noteq> None \<or> mustFinishBy \<noteq> None) \<and>
          parseStamp w s \<noteq> 0 \<and> slaBreachDetail w (parseStamp w s) warnAfter mustFinishBy
      | _ \<Rightarrow> False)"

definition breaches :: "sla_world \<Rightarrow> sla \<Rightarrow> live_run list" where
  "breaches w st =
     concat (map (\<lambda>r. map (\<lambda>_. r) (filter (\<lambda>j. judged_by (ss_db (sl_sched st)) r j \<and> breached w st r j) (gd_jobs (ss_db (sl_sched st)))))
       (runs_of (sl_sched st)))"

text \<open>The stamp is the claim on the alert.\<close>

definition warn :: "sla_world \<Rightarrow> live_run \<Rightarrow> sla \<Rightarrow> sla" where
  "warn w r st =
     (if map_of (sl_warned st) (d_id r) \<noteq> None then st
      else st\<lparr>sl_warned := (d_id r, sl_format w (sl_now w)) # sl_warned st, sl_alerts := sl_alerts st @ [Overdue (d_id r) (d_job_name r)]\<rparr>)"

definition ScanSLA :: "sla_world \<Rightarrow> sla \<Rightarrow> sla" where
  "ScanSLA w st = fold (warn w) (breaches w st) st"

section \<open>Expected fires\<close>

definition parseWindowBound :: "(string \<Rightarrow> moment option) \<Rightarrow> string \<Rightarrow> moment option" where
  "parseWindowBound parse v = (if v = [] then None else parse v)"

definition parseWindowCols :: "(string \<Rightarrow> moment option) \<Rightarrow> string \<Rightarrow> string \<Rightarrow> window option" where
  "parseWindowCols parse startAt endAt = NewWindow (parseWindowBound parse startAt) (parseWindowBound parse endAt)"

definition parse_time :: "sla_world \<Rightarrow> string \<Rightarrow> moment option" where
  "parse_time w s = map_option (Pair (sl_text_zone w s)) (ck_parse (sw_clock w) s)"

definition entry_spec :: "sla_world \<Rightarrow> 'a schedule_entry_scheme \<Rightarrow> spec" where
  "entry_spec w e = \<lparr>sp_cron = de_cron e, sp_interval = de_interval e, sp_window = parseWindowCols (parse_time w) (de_start e) (de_end e)\<rparr>"

text \<open>A definition that is expected to fire: enabled, not in the recycle bin, not the built-in agency's, not paused.\<close>

definition paused_owner :: "gate_db \<Rightarrow> string \<Rightarrow> string \<Rightarrow> string \<Rightarrow> string \<Rightarrow> bool" where
  "paused_owner db kind uid source name \<longleftrightarrow>
     list_ex (\<lambda>p. pz_kind p = kind \<and> (pz_uid p = Some uid \<or> pz_uid p = None \<and> pz_source p = source \<and> pz_name p = name)) (gd_paused db)"

definition watched_job :: "gate_db \<Rightarrow> gate_job \<Rightarrow> bool" where
  "watched_job db j \<longleftrightarrow> dr_enabled j \<and> \<not> def_row.dr_deleted j \<and> coalesce (job_agency db j) [] \<noteq> Global \<and>
     \<not> paused_owner db ''job'' (j_uid j) (j_source j) (j_name j)"

definition watched_workflow :: "gate_db \<Rightarrow> gate_wf \<Rightarrow> bool" where
  "watched_workflow db x \<longleftrightarrow> wd_enabled x \<and> \<not> wd_deleted x \<and> coalesce (wf_agency db x) [] \<noteq> Global \<and>
     \<not> paused_owner db ''workflow'' (wd_uid x) (wd_source x) (wd_name x)"

definition owns_entry :: "schedule_entry \<Rightarrow> string \<Rightarrow> string \<Rightarrow> string \<Rightarrow> nat \<Rightarrow> bool" where
  "owns_entry e uid name source namesakes \<longleftrightarrow>
     (case de_uid e of Some u \<Rightarrow> uid = u | None \<Rightarrow> name = de_owner e \<and> source = de_source e \<and> namesakes = 1)"

definition detected :: "schedule_entry \<Rightarrow> string \<Rightarrow> string \<Rightarrow> detection_entry" where
  "detected e uid scope = schedule_entry.extend e \<lparr>de_ownerUID = uid, de_scope = scope\<rparr>"

definition scheduleEntriesForDetection :: "gate_db \<Rightarrow> schedule_entry list \<Rightarrow> detection_entry list" where
  "scheduleEntriesForDetection db entries =
     concat (map (\<lambda>e. map (\<lambda>j. detected e (j_uid j) (dr_scope j))
         (filter (\<lambda>j. de_kind e = ''job'' \<and> owns_entry e (j_uid j) (j_name j) (j_source j) (same_name_jobs db (de_owner e) (de_source e)) \<and>
            watched_job db j) (gd_jobs db))) entries) @
     concat (map (\<lambda>e. map (\<lambda>x. detected e (wd_uid x) [])
         (filter (\<lambda>x. de_kind e = ''workflow'' \<and> owns_entry e (wd_uid x) (wd_name x) (wd_source x)
              (length (filter (\<lambda>y. wd_name y = de_owner e \<and> wd_source y = de_source e) (gd_workflows db))) \<and>
            watched_workflow db x) (gd_workflows db))) entries)"

text \<open>The fires of an entry after \<open>cursor\<close> and before \<open>stop\<close>; \<open>None\<close> is a panic. A day holds at most 86400 seconds
  and a fire is on a whole one.\<close>

definition max_fires :: nat where "max_fires = 86401"

definition expected_fires :: "sla_world \<Rightarrow> detection_entry \<Rightarrow> int \<Rightarrow> int \<Rightarrow> int list option" where
  "expected_fires w e cursor stop =
     (case ParseSpec (sl_lib w) (entry_spec w e) of Inl _ \<Rightarrow> Some []
      | Inr sched \<Rightarrow> moment_loop sched (\<lambda>t. \<not> t < stop) max_fires (sl_zone w, cursor))"

section \<open>What explains a fire\<close>

definition near :: "sla_world \<Rightarrow> int \<Rightarrow> string \<Rightarrow> bool" where
  "near w t s \<longleftrightarrow> sl_format w (t - nsMinute) \<le> s \<and> s \<le> sl_format w (t + missedGrace)"

definition entry_runs :: "sla \<Rightarrow> detection_entry \<Rightarrow> live_run list" where
  "entry_runs st e = filter (\<lambda>r. jobRowsOfEntrySQL (de_ownerUID e) (de_owner e) (de_source e) r \<and>
     coalesce (d_schedule_name r) [] = de_name e) (runs_of (sl_sched st))"

definition entry_wfruns :: "sla \<Rightarrow> detection_entry \<Rightarrow> wf_entry list" where
  "entry_wfruns st e = filter (\<lambda>r. workflowRowsOfEntrySQL (de_ownerUID e) (de_owner e) (de_source e) r \<and>
     coalesce (we_schedule r) [] = de_name e) (ss_wfruns (sl_sched st))"

definition parked_rows :: "sla \<Rightarrow> detection_entry \<Rightarrow> pending_row list" where
  "parked_rows st e = filter (\<lambda>p. pd_kind p = ''job'' \<and> pd_gate p = Some gateConcurrency \<and> pd_status p = ''pending'' \<and>
     (de_ownerUID e \<noteq> [] \<and> pd_uid p = Some (de_ownerUID e) \<or>
      (pd_uid p = None \<or> de_ownerUID e = []) \<and> pd_name p = de_owner e \<and> pd_source p = de_source e)) (ss_pending (sl_sched st))"

definition newest :: "nat \<Rightarrow> ('a \<Rightarrow> string) \<Rightarrow> 'a list \<Rightarrow> 'a list" where
  "newest n f xs = take n (rev (sort_key f xs))"

text \<open>The zero time of a stamp that does not parse is on no day the detector asks about.\<close>

definition on_day :: "sla_world \<Rightarrow> int \<Rightarrow> string \<Rightarrow> bool" where
  "on_day w t s \<longleftrightarrow> sl_dayof w (parseStamp w s) = sl_dayof w t"

definition near_run :: "sla_world \<Rightarrow> int \<Rightarrow> live_run \<Rightarrow> bool" where
  "near_run w t r \<longleftrightarrow> near w t (d_created_at r) \<or> (case d_scheduled_for r of None \<Rightarrow> False | Some s \<Rightarrow> near w t s)"

definition parked_schedule :: "pending_row \<Rightarrow> string option" where
  "parked_schedule p = (case pd_params p of Some (Unreadable _) \<Rightarrow> None | Some (Frozen q) \<Rightarrow> Some (e_ScheduleName q) | None \<Rightarrow> Some [])"

text \<open>\<open>None\<close> is a query that fails, on a parked row whose frozen request is not JSON.\<close>

definition fireExplained :: "sla_world \<Rightarrow> sla \<Rightarrow> detection_entry \<Rightarrow> int \<Rightarrow> bool option" where
  "fireExplained w st e t =
     (if de_kind e = ''workflow''
      then Some (list_ex (\<lambda>r. near w t (we_created r)) (entry_wfruns st e) \<or>
             list_ex (\<lambda>r. on_day w t (we_created r)) (newest 200 we_created (filter (\<lambda>r. we_status r = ''skipped'') (entry_wfruns st e))))
      else if list_ex (near_run w t) (entry_runs st e) then Some True
      else if list_ex (\<lambda>p. parked_schedule p = None) (parked_rows st e) then None
      else if list_ex (\<lambda>p. parked_schedule p = Some (de_name e) \<and> near w t (pd_created p)) (parked_rows st e) then Some True
      else Some (list_ex (\<lambda>r. on_day w t (d_created_at r)) (newest 200 d_created_at (filter (\<lambda>r. d_status r = ''skipped'') (entry_runs st e)))))"

section \<open>A missed fire\<close>

definition missed_record :: "sla_world \<Rightarrow> int \<Rightarrow> skip_record" where
  "missed_record w t = \<lparr>sk_Reason = reasonMissedFire, sk_Mode = DedupeEpisodeReason, sk_Calendar = [], sk_Day = [],
     sk_TriggerKind = [], sk_TriggeredBy = [], sk_At = sl_format w t\<rparr>"

definition missed_job :: "sla \<Rightarrow> detection_entry \<Rightarrow> enqueue_params" where
  "missed_job st e = no_params\<lparr>e_JobName := de_owner e, e_JobSource := de_source e, e_JobUID := de_ownerUID e, e_Scope := de_scope e,
     e_ScheduleName := de_name e, e_RunType := runTypeOf (sl_sched st) (de_ownerUID e) (de_source e) (de_owner e)\<rparr>"

definition raiseAlert :: "sla_alert \<Rightarrow> sla \<Rightarrow> sla" where
  "raiseAlert a st = st\<lparr>sl_alerts := sl_alerts st @ [a]\<rparr>"

text \<open>An insert that fails ends it before the alert.\<close>

definition recordMissedFire :: "sla_world \<Rightarrow> detection_entry \<Rightarrow> int \<Rightarrow> sla \<Rightarrow> sla" where
  "recordMissedFire w e t st =
     (let alert = raiseAlert (Missed (de_kind e) (de_ownerUID e) (de_owner e) (de_name e) t)
      in if de_kind e = ''workflow''
         then alert (st\<lparr>sl_sched := recordWorkflowSuppression (base (sl_fw w)) (de_ownerUID e) (de_source e) (de_owner e) (de_name e)
                (missed_record w t) (sl_sched st)\<rparr>)
         else case recordSkippedFire (base (sl_fw w)) (sl_sched st) (missed_job st e) (missed_record w t) of
             None \<Rightarrow> st
           | Some _ \<Rightarrow>
               alert (st\<lparr>sl_sched := recordSuppression (base (sl_fw w)) (missed_job st e) (missed_record w t) (sl_sched st)\<rparr>))"

definition check_fire :: "sla_world \<Rightarrow> detection_entry \<Rightarrow> int \<Rightarrow> sla \<Rightarrow> sla" where
  "check_fire w e t st = (if fireExplained w st e t = Some False then recordMissedFire w e t st else st)"

section \<open>A scan\<close>

definition missedCursor :: "sla_world \<Rightarrow> sla \<Rightarrow> int option" where
  "missedCursor w st = (case sl_cursor st of None \<Rightarrow> None | Some v \<Rightarrow> if v = [] then None else ck_parse (sw_clock w) v)"

definition writeMissedCursor :: "sla_world \<Rightarrow> int \<Rightarrow> sla \<Rightarrow> sla" where
  "writeMissedCursor w t st = st\<lparr>sl_cursor := Some (sl_format w t)\<rparr>"

definition window_end :: "sla_world \<Rightarrow> int" where "window_end w = sl_now w - missedGrace"

definition window_start :: "sla_world \<Rightarrow> int \<Rightarrow> int" where
  "window_start w cursor = (if cursor < window_end w - missedCatchUp then window_end w - missedCatchUp else cursor)"

text \<open>The fires to check, in order; a panic in one entry ends the process.\<close>

fun fires_of :: "sla_world \<Rightarrow> int \<Rightarrow> detection_entry list \<Rightarrow> (detection_entry \<times> int) list option" where
  "fires_of w cursor [] = Some []"
| "fires_of w cursor (e # es) =
     (case expected_fires w e cursor (window_end w) of None \<Rightarrow> None
      | Some ts \<Rightarrow> map_option (\<lambda>rest. map (Pair e) ts @ rest) (fires_of w cursor es))"

definition check_all :: "sla_world \<Rightarrow> (detection_entry \<times> int) list \<Rightarrow> sla \<Rightarrow> sla" where
  "check_all w = fold (\<lambda>(e, t). check_fire w e t)"

text \<open>\<open>None\<close> is a panic.\<close>

definition ScanMissedRuns :: "sla_world \<Rightarrow> sla \<Rightarrow> sla option" where
  "ScanMissedRuns w st =
     (case missedCursor w st of
        None \<Rightarrow> Some (writeMissedCursor w (window_end w) st)
      | Some cursor0 \<Rightarrow>
          (let cursor = window_start w cursor0
           in if \<not> window_end w > cursor then Some st
              else map_option (\<lambda>fires. writeMissedCursor w (window_end w) (check_all w fires st))
                     (fires_of w cursor (scheduleEntriesForDetection (ss_db (sl_sched st)) (sl_entries st)))))"

end
