(* ===== verification/Sched_Sla_Props.thy ===== *)
theory Sched_Sla_Props
  imports Sched_Sla Sched_Props
begin

text \<open>
  What the two scans tell: a late run is warned of once; an alert of a missing run is of a fire that was expected
  and has no run near it, and a fire that is not told of is explained. And how the day's one record fails to
  stand for the day, when the day before left one.
\<close>

section \<open>Late runs\<close>

definition late :: "sla_world \<Rightarrow> sla \<Rightarrow> live_run \<Rightarrow> bool" where
  "late w st r \<longleftrightarrow> (\<exists>j \<in> set (gd_jobs (ss_db (sl_sched st))). judged_by (ss_db (sl_sched st)) r j \<and> breached w st r j)"

lemma set_breaches: "set (breaches w st) = {r \<in> set (runs_of (sl_sched st)). late w st r}"
  by (auto simp: breaches_def late_def)

definition overdue_alert :: "live_run \<Rightarrow> sla_alert" where "overdue_alert r = Overdue (d_id r) (d_job_name r)"

lemma warn_fold:
  assumes "inj_on d_id (set rs)"
  shows "\<exists>new. sl_alerts (fold (warn w) rs st) = sl_alerts st @ new \<and> distinct new \<and>
    set new = overdue_alert ` {r \<in> set rs. map_of (sl_warned st) (d_id r) = None} \<and>
    sl_sched (fold (warn w) rs st) = sl_sched st \<and> dom (map_of (sl_warned (fold (warn w) rs st))) = dom (map_of (sl_warned st)) \<union> d_id ` set rs"
  using assms
proof (induction rs arbitrary: st)
  case (Cons r rs)
  let ?s = "warn w r st"
  have inj: "inj_on d_id (set rs)" using Cons.prems by (rule inj_on_subset) auto
  from Cons.IH [OF inj, of ?s] obtain new where n: "sl_alerts (fold (warn w) rs ?s) = sl_alerts ?s @ new" "distinct new"
    "set new = overdue_alert ` {x \<in> set rs. map_of (sl_warned ?s) (d_id x) = None}" "sl_sched (fold (warn w) rs ?s) = sl_sched ?s"
    "dom (map_of (sl_warned (fold (warn w) rs ?s))) = dom (map_of (sl_warned ?s)) \<union> d_id ` set rs" by blast
  show ?case
  proof (cases "map_of (sl_warned st) (d_id r) = None")
    case False
    then have "?s = st" by (simp add: warn_def)
    then show ?thesis using n False by (intro exI [of _ new]) auto
  next
    case True
    have s: "sl_alerts ?s = sl_alerts st @ [overdue_alert r]" "sl_sched ?s = sl_sched st"
      "map_of (sl_warned ?s) = (map_of (sl_warned st))(d_id r \<mapsto> sl_format w (sl_now w))"
      using True by (simp_all add: warn_def overdue_alert_def)
    have e: "{x \<in> set rs. map_of (sl_warned ?s) (d_id x) = None} = {x \<in> set rs. map_of (sl_warned st) (d_id x) = None \<and> d_id x \<noteq> d_id r}"
      by (auto simp: s(3))
    have "overdue_alert r \<notin> set new" by (auto simp: n(3) e overdue_alert_def)
    moreover have "{x \<in> set (r # rs). map_of (sl_warned st) (d_id x) = None} =
        insert r {x \<in> set rs. map_of (sl_warned st) (d_id x) = None \<and> d_id x \<noteq> d_id r}"
      using True Cons.prems by (auto simp: inj_on_def)
    ultimately show ?thesis
      using n s by (intro exI [of _ "overdue_alert r # new"]) (auto simp: e)
  qed
qed (auto intro: exI [of _ "[]"])

text \<open>C39: a scan warns of exactly the running runs that are past a deadline of their own job and were not warned of, once
  each, changes nothing else, and no later scan warns of them again.\<close>

theorem a_late_run_is_warned_once:
  assumes "distinct (map d_id (runs_of (sl_sched st)))"
  shows "\<exists>new. sl_alerts (ScanSLA w st) = sl_alerts st @ new \<and> distinct new \<and>
    set new = overdue_alert ` {r \<in> set (runs_of (sl_sched st)). late w st r} \<and> sl_sched (ScanSLA w st) = sl_sched st \<and>
    (\<forall>r \<in> set (runs_of (sl_sched st)). late w st r \<longrightarrow> (\<forall>w'. \<not> late w' (ScanSLA w st) r))"
proof -
  have "inj_on d_id (set (breaches w st))"
    using assms by (rule inj_on_subset [OF distinct_map [THEN iffD1, THEN conjunct2]]) (auto simp: set_breaches)
  from warn_fold [OF this, of w st] obtain new where n: "sl_alerts (ScanSLA w st) = sl_alerts st @ new" "distinct new"
    "set new = overdue_alert ` {r \<in> set (breaches w st). map_of (sl_warned st) (d_id r) = None}" "sl_sched (ScanSLA w st) = sl_sched st"
    "dom (map_of (sl_warned (ScanSLA w st))) = dom (map_of (sl_warned st)) \<union> d_id ` set (breaches w st)"
    by (auto simp: ScanSLA_def)
  have unwarned: "map_of (sl_warned st) (d_id r) = None" if "late w st r" for r
    using that by (auto simp: late_def breached_def split: option.splits)
  have "\<not> late w' (ScanSLA w st) r" if "r \<in> set (runs_of (sl_sched st))" "late w st r" for w' r
  proof -
    have "d_id r \<in> dom (map_of (sl_warned (ScanSLA w st)))" using that by (simp add: n(5) set_breaches)
    then show ?thesis by (auto simp: late_def breached_def split: option.splits)
  qed
  then show ?thesis using n(1,2,3,4) unwarned by (intro exI [of _ new]) (auto simp: set_breaches)
qed

section \<open>Missing runs\<close>

text \<open>A window is a day at most and fires are a second apart at least, so \<open>max_fires\<close> cuts none off.\<close>

lemma moment_loop_enough:
  assumes "\<And>z t z' u. nxt (z, t) = Some (z', u) \<Longrightarrow> u = 0 \<or> t + nsSecond \<le> u" and "stop \<le> cur + int n * nsSecond"
  shows "moment_loop nxt (\<lambda>t. \<not> t < stop) (Suc n + k) (z, cur) = moment_loop nxt (\<lambda>t. \<not> t < stop) (Suc n) (z, cur)"
  using assms(2)
proof (induction n arbitrary: z cur)
  case 0
  then show ?case using assms(1) [of z cur] by (auto simp: nsSecond_def split: option.split)
next
  case (Suc n)
  have "moment_loop nxt (\<lambda>t. \<not> t < stop) (Suc n + k) (z', u) = moment_loop nxt (\<lambda>t. \<not> t < stop) (Suc n) (z', u)"
    if "nxt (z, cur) = Some (z', u)" "u \<noteq> 0" for z' u
    using Suc assms(1) that by (fastforce simp: algebra_simps)
  then show ?case by (auto split: option.split)
qed

lemma max_fires_enough:
  assumes "\<And>z t z' u. nxt (z, t) = Some (z', u) \<Longrightarrow> u = 0 \<or> t + nsSecond \<le> u" and "window_end w - missedCatchUp \<le> cur"
  shows "moment_loop nxt (\<lambda>t. \<not> t < window_end w) (max_fires + k) (z, cur) = moment_loop nxt (\<lambda>t. \<not> t < window_end w) max_fires (z, cur)"
  using moment_loop_enough [of nxt "window_end w" cur 86400 k z] assms by (simp add: max_fires_def missedCatchUp_def duration_defs)

text \<open>A row of the entry near the instant.\<close>

definition ran_near :: "sla_world \<Rightarrow> sla \<Rightarrow> detection_entry \<Rightarrow> int \<Rightarrow> bool" where
  "ran_near w st e t \<longleftrightarrow>
     (if de_kind e = ''workflow'' then list_ex (\<lambda>r. near w t (we_created r)) (entry_wfruns st e)
      else list_ex (near_run w t) (entry_runs st e))"

definition parked_near :: "sla_world \<Rightarrow> sla \<Rightarrow> detection_entry \<Rightarrow> int \<Rightarrow> bool" where
  "parked_near w st e t \<longleftrightarrow> de_kind e \<noteq> ''workflow'' \<and>
     list_ex (\<lambda>p. parked_schedule p = None \<or> parked_schedule p = Some (de_name e) \<and> near w t (pd_created p)) (parked_rows st e)"

definition skipped_that_day :: "sla_world \<Rightarrow> sla \<Rightarrow> detection_entry \<Rightarrow> int \<Rightarrow> bool" where
  "skipped_that_day w st e t \<longleftrightarrow>
     (if de_kind e = ''workflow'' then list_ex (\<lambda>r. we_status r = ''skipped'' \<and> on_day w t (we_created r)) (entry_wfruns st e)
      else list_ex (\<lambda>r. d_status r = ''skipped'' \<and> on_day w t (d_created_at r)) (entry_runs st e))"

lemma newest_in: "x \<in> set (newest n f xs) \<Longrightarrow> x \<in> set xs"
  by (auto simp: newest_def dest: in_set_takeD)

lemma unexplained:
  "fireExplained w st e t = Some False \<Longrightarrow> \<not> ran_near w st e t"
  by (auto simp: fireExplained_def ran_near_def split: if_splits)

lemma list_ex_newest: "list_ex p (newest n f (filter q xs)) \<Longrightarrow> list_ex (\<lambda>x. q x \<and> p x) xs"
  by (auto simp: list_ex_iff dest!: newest_in)

lemma explained:
  assumes "fireExplained w st e t \<noteq> Some False"
  shows "ran_near w st e t \<or> parked_near w st e t \<or> skipped_that_day w st e t"
proof (cases "de_kind e = ''workflow''")
  case True
  then show ?thesis
    using assms list_ex_newest [of "\<lambda>r. on_day w t (we_created r)" 200 we_created]
    by (auto simp: fireExplained_def ran_near_def skipped_that_day_def)
next
  case False
  then consider "list_ex (near_run w t) (entry_runs st e)" | "list_ex (\<lambda>p. parked_schedule p = None) (parked_rows st e)"
    | "list_ex (\<lambda>p. parked_schedule p = Some (de_name e) \<and> near w t (pd_created p)) (parked_rows st e)"
    | "list_ex (\<lambda>r. on_day w t (d_created_at r)) (newest 200 d_created_at (filter (\<lambda>r. d_status r = ''skipped'') (entry_runs st e)))"
    using assms by (auto simp: fireExplained_def split: if_splits)
  then show ?thesis
  proof cases
    case 4
    then show ?thesis using list_ex_newest [OF 4] False by (simp add: skipped_that_day_def)
  qed (use False in \<open>auto simp: ran_near_def parked_near_def list_ex_iff\<close>)
qed

text \<open>A state whose rows are all still there.\<close>

definition grows :: "sla \<Rightarrow> sla \<Rightarrow> bool" where
  "grows st st' \<longleftrightarrow> set (runs_of (sl_sched st)) \<subseteq> set (runs_of (sl_sched st')) \<and> set (ss_wfruns (sl_sched st)) \<subseteq> set (ss_wfruns (sl_sched st')) \<and>
     ss_pending (sl_sched st') = ss_pending (sl_sched st)"

lemma grows_refl [simp]: "grows st st" and grows_trans: "grows a b \<Longrightarrow> grows b c \<Longrightarrow> grows a c"
  by (auto simp: grows_def)

lemma list_ex_mono: "list_ex p xs \<Longrightarrow> set xs \<subseteq> set ys \<Longrightarrow> list_ex p ys"
  by (auto simp: list_ex_iff)

lemma grows_near:
  assumes "grows st st'"
  shows "ran_near w st e t \<Longrightarrow> ran_near w st' e t" "parked_near w st e t = parked_near w st' e t"
    "skipped_that_day w st e t \<Longrightarrow> skipped_that_day w st' e t"
proof -
  have r: "set (entry_runs st e) \<subseteq> set (entry_runs st' e)" "set (entry_wfruns st e) \<subseteq> set (entry_wfruns st' e)"
    using assms by (auto simp: grows_def entry_runs_def entry_wfruns_def)
  show "ran_near w st e t \<Longrightarrow> ran_near w st' e t"
    using list_ex_mono [OF _ r(1)] list_ex_mono [OF _ r(2)] by (simp add: ran_near_def split: if_splits)
  show "skipped_that_day w st e t \<Longrightarrow> skipped_that_day w st' e t"
    using list_ex_mono [OF _ r(1)] list_ex_mono [OF _ r(2)] by (simp add: skipped_that_day_def split: if_splits)
  show "parked_near w st e t = parked_near w st' e t"
    using assms by (simp add: parked_near_def parked_rows_def grows_def)
qed

lemma record_grows:
  "runs_of (recordSuppression w p k s) = runs_of s \<or> (\<exists>r. runs_of (recordSuppression w p k s) = runs_of s @ [r])"
  "ss_wfruns (recordSuppression w p k s) = ss_wfruns s" "ss_pending (recordSuppression w p k s) = ss_pending s"
  by (auto simp: recordSuppression_def recordSkippedFire_def notifySuppressed_def insert_run_def Let_def with_runs_def runs_of_def
      split: option.splits sum.splits bool.splits prod.splits if_splits)

lemma wf_record_grows:
  "runs_of (recordWorkflowSuppression w u a n s k st) = runs_of st" "ss_pending (recordWorkflowSuppression w u a n s k st) = ss_pending st"
  "set (ss_wfruns st) \<subseteq> set (ss_wfruns (recordWorkflowSuppression w u a n s k st))"
  by (auto simp: recordWorkflowSuppression_def recordSkippedWorkflowFire_def notifySuppressed_def Let_def runs_of_def
      split: bool.splits prod.splits if_splits)

lemma check_grows: "grows st (check_fire w e t st)"
  using record_grows [of "base (sl_fw w)" "missed_job st e" "missed_record w t" "sl_sched st"]
    wf_record_grows [where w = "base (sl_fw w)" and st = "sl_sched st"]
  by (auto simp: check_fire_def recordMissedFire_def raiseAlert_def grows_def Let_def split: option.splits)

lemma check_all_grows: "grows st (check_all w fires st)"
proof (induction fires arbitrary: st)
  case (Cons x fires)
  obtain e t where x: "x = (e, t)" by fastforce
  have "grows st (check_fire w e t st)" by (rule check_grows)
  then show ?case using Cons grows_trans by (fastforce simp: check_all_def x)
qed (simp add: check_all_def)

definition missed_alert :: "detection_entry \<Rightarrow> int \<Rightarrow> sla_alert" where
  "missed_alert e t = Missed (de_kind e) (de_ownerUID e) (de_owner e) (de_name e) t"

lemma check_alerts:
  "sl_alerts (check_fire w e t st) = sl_alerts st \<or>
   (sl_alerts (check_fire w e t st) = sl_alerts st @ [missed_alert e t] \<and> \<not> ran_near w st e t)"
  using unexplained [of w st e t]
  by (auto simp: check_fire_def recordMissedFire_def raiseAlert_def missed_alert_def Let_def split: option.splits)

text \<open>A write that fails: no id is fresh, or the agency of the row cannot be read.\<close>

definition unwritable :: "sla_world \<Rightarrow> sla \<Rightarrow> detection_entry \<Rightarrow> int \<Rightarrow> bool" where
  "unwritable w st e t \<longleftrightarrow> de_kind e \<noteq> ''workflow'' \<and>
     recordSkippedFire (base (sl_fw w)) (sl_sched st) (missed_job st e) (missed_record w t) = None"

lemma check_told:
  assumes "sl_alerts (check_fire w e t st) = sl_alerts st"
  shows "ran_near w st e t \<or> parked_near w st e t \<or> skipped_that_day w st e t \<or> unwritable w st e t"
proof (cases "fireExplained w st e t = Some False")
  case True
  then show ?thesis
    using assms by (auto simp: check_fire_def recordMissedFire_def raiseAlert_def unwritable_def Let_def split: option.splits if_splits)
qed (use explained in blast)

lemma check_all_alerts:
  "\<exists>new. sl_alerts (check_all w fires st) = sl_alerts st @ new \<and>
     (\<forall>a \<in> set new. \<exists>(e, t) \<in> set fires. a = missed_alert e t \<and> \<not> ran_near w st e t) \<and>
     (\<forall>(e, t) \<in> set fires. missed_alert e t \<notin> set new \<longrightarrow>
        ran_near w (check_all w fires st) e t \<or> parked_near w st e t \<or> skipped_that_day w (check_all w fires st) e t \<or>
        (\<exists>pre post. fires = pre @ (e, t) # post \<and> unwritable w (check_all w pre st) e t))"
proof (induction fires arbitrary: st)
  case (Cons x fires)
  obtain e t where x: "x = (e, t)" by fastforce
  let ?s = "check_fire w e t st"
  have s: "check_all w (x # fires) st = check_all w fires ?s" by (simp add: check_all_def x)
  have g: "grows st ?s" "grows ?s (check_all w fires ?s)" by (rule check_grows, rule check_all_grows)
  from Cons.IH [of ?s] obtain new where n: "sl_alerts (check_all w fires ?s) = sl_alerts ?s @ new"
    "\<forall>a \<in> set new. \<exists>(e, t) \<in> set fires. a = missed_alert e t \<and> \<not> ran_near w ?s e t"
    "\<forall>(e, t) \<in> set fires. missed_alert e t \<notin> set new \<longrightarrow>
        ran_near w (check_all w fires ?s) e t \<or> parked_near w ?s e t \<or> skipped_that_day w (check_all w fires ?s) e t \<or>
        (\<exists>pre post. fires = pre @ (e, t) # post \<and> unwritable w (check_all w pre ?s) e t)" by blast
  have new_ok: "\<exists>(e, t) \<in> set (x # fires). a = missed_alert e t \<and> \<not> ran_near w st e t" if "a \<in> set new" for a
    using n(2) that grows_near(1) [OF g(1)] by fastforce
  have rest: "ran_near w (check_all w (x # fires) st) e' t' \<or> parked_near w st e' t' \<or> skipped_that_day w (check_all w (x # fires) st) e' t' \<or>
      (\<exists>pre post. x # fires = pre @ (e', t') # post \<and> unwritable w (check_all w pre st) e' t')"
    if i: "(e', t') \<in> set fires" and j: "missed_alert e' t' \<notin> set new" for e' t'
  proof -
    consider "ran_near w (check_all w fires ?s) e' t'" | "parked_near w ?s e' t'" | "skipped_that_day w (check_all w fires ?s) e' t'"
      | pre post where "fires = pre @ (e', t') # post" "unwritable w (check_all w pre ?s) e' t'"
      using n(3) [THEN bspec, OF i] j by (simp only: prod.case) metis
    then show ?thesis
    proof cases
      case 4
      then have "x # fires = (x # pre) @ (e', t') # post \<and> unwritable w (check_all w (x # pre) st) e' t'" by (simp add: check_all_def x)
      then show ?thesis by blast
    qed (use grows_near(2) [OF g(1)] s in auto)
  qed
  consider (silent) "sl_alerts ?s = sl_alerts st" | (told) "sl_alerts ?s = sl_alerts st @ [missed_alert e t]" "\<not> ran_near w st e t"
    using check_alerts by blast
  then show ?case
  proof cases
    case silent
    have "ran_near w (check_all w (x # fires) st) e t \<or> parked_near w st e t \<or> skipped_that_day w (check_all w (x # fires) st) e t \<or>
      (\<exists>pre post. x # fires = pre @ (e, t) # post \<and> unwritable w (check_all w pre st) e t)"
    proof -
      have "unwritable w (check_all w [] st) e t \<Longrightarrow> ?thesis" using x by (intro disjI2 exI [of _ "[]"] exI [of _ fires]) auto
      moreover have "unwritable w (check_all w [] st) e t = unwritable w st e t" by (simp add: check_all_def)
      ultimately show ?thesis
        using check_told [OF silent] grows_near(1,3) [OF grows_trans [OF g]] s by metis
    qed
    then show ?thesis using n(1) silent new_ok rest s x by (intro exI [of _ new]) auto
  next
    case told
    then show ?thesis using n(1) new_ok rest s x by (intro exI [of _ "missed_alert e t # new"]) auto
  qed
qed (simp add: check_all_def)

text \<open>a page of a missing run is of a fire the entry of a watched definition expected in the window, with no run of the
  entry near it; and an expected fire that is not told of has a run near it, a fire parked near it, a skip of the
  entry on its day, or could not be written.\<close>

theorem a_page_is_of_a_missing_run:
  assumes "missedCursor w st = Some cursor" and "window_start w cursor < window_end w"
    and "fires_of w (window_start w cursor) (scheduleEntriesForDetection (ss_db (sl_sched st)) (sl_entries st)) = Some fires"
  shows "\<exists>st' new. ScanMissedRuns w st = Some st' \<and> sl_alerts st' = sl_alerts st @ new \<and>
    (\<forall>a \<in> set new. \<exists>(e, t) \<in> set fires. a = missed_alert e t \<and> \<not> ran_near w st e t) \<and>
    (\<forall>(e, t) \<in> set fires. missed_alert e t \<notin> set new \<longrightarrow>
       ran_near w st' e t \<or> parked_near w st e t \<or> skipped_that_day w st' e t \<or>
       (\<exists>pre post. fires = pre @ (e, t) # post \<and> unwritable w (check_all w pre st) e t))"
proof -
  have same: "ran_near w (writeMissedCursor w x y) e t = ran_near w y e t"
    "skipped_that_day w (writeMissedCursor w x y) e t = skipped_that_day w y e t" for x y e t
    by (simp_all add: ran_near_def skipped_that_day_def entry_runs_def entry_wfruns_def writeMissedCursor_def)
  have "ScanMissedRuns w st = Some (writeMissedCursor w (window_end w) (check_all w fires st))"
    using assms by (simp add: ScanMissedRuns_def Let_def)
  then show ?thesis
    using check_all_alerts [of w fires st] by (auto simp: same) (simp add: writeMissedCursor_def)
qed

section \<open>The second day\<close>

text \<open>the record of a missed fire is written once per episode, whatever the day, and only a skip of the same day
  explains the day's next fires: while the newest row of the entry is an earlier day's record, every expected fire
  is paged for and none is recorded.\<close>

theorem a_second_day_pages_for_every_fire:
  assumes "de_kind e \<noteq> ''workflow''" and "skipAlreadyRecorded (base (sl_fw w)) (sl_sched st) (missed_job st e) (missed_record w t0)"
    and "\<forall>t \<in> set ts. fireExplained w st e t = Some False"
  shows "sl_alerts (check_all w (map (Pair e) ts) st) = sl_alerts st @ map (missed_alert e) ts \<and>
    sl_sched (check_all w (map (Pair e) ts) st) = sl_sched st"
  using assms
proof (induction ts arbitrary: st)
  case (Cons t ts)
  let ?s = "check_fire w e t st"
  have "skipAlreadyRecorded (base (sl_fw w)) (sl_sched st) (missed_job st e) (missed_record w t)"
    using Cons.prems(2) by (simp add: skipAlreadyRecorded_def missed_record_def)
  then have s: "?s = raiseAlert (missed_alert e t) st"
    using Cons.prems(1,3) by (simp add: check_fire_def recordMissedFire_def recordSuppression_def recordSkippedFire_def missed_alert_def Let_def)
  have "fireExplained w ?s e u = fireExplained w st e u" for u
    by (simp add: s raiseAlert_def fireExplained_def entry_runs_def entry_wfruns_def parked_rows_def)
  moreover have "missed_job ?s e = missed_job st e" by (simp add: s raiseAlert_def missed_job_def)
  ultimately have "sl_alerts (check_all w (map (Pair e) ts) ?s) = sl_alerts ?s @ map (missed_alert e) ts \<and>
      sl_sched (check_all w (map (Pair e) ts) ?s) = sl_sched ?s"
    using Cons.prems by (intro Cons.IH) (simp_all add: s raiseAlert_def)
  then show ?case by (simp add: check_all_def s raiseAlert_def)
qed (simp add: check_all_def)

section \<open>An hourly job that stopped\<close>

definition demo_hhmm :: "int \<Rightarrow> string" where
  "demo_hhmm t = [char_of (nat (t div nsHour)), char_of (nat (t mod nsHour div nsMinute))]"

definition demo_of_hhmm :: "string \<Rightarrow> int option" where
  "demo_of_hhmm s = (case s of [h, m] \<Rightarrow> Some (int (of_char h) * nsHour + int (of_char m) * nsMinute) | _ \<Rightarrow> None)"

definition demo_hourly :: cron_lib where
  "demo_hourly = \<lparr>parse6 = (\<lambda>_. Some (\<lambda>_ t. Some ((t div nsHour + 1) * nsHour))), parse5 = (\<lambda>_. None), parse_duration = (\<lambda>_. None),
     local_zone = []\<rparr>"

definition demo_sla_world :: sla_world where
  "demo_sla_world = fire_world.extend (demo_fire_world\<lparr>sw_clock := demo_clock\<lparr>ck_now := 28 * nsHour, ck_parse := demo_of_hhmm\<rparr>\<rparr>)
     \<lparr>sl_lib = demo_hourly, sl_zone = [], sl_format = demo_hhmm, sl_dayof = (\<lambda>t. [char_of (nat (t div nsDay))]),
      sl_clock = (\<lambda>t h m k. (t div nsDay + int k) * nsDay + h * nsHour + m * nsMinute), sl_text_zone = (\<lambda>_. [])\<rparr>"

definition demo_schedule :: schedule_entry where
  "demo_schedule = \<lparr>de_kind = ''job'', de_source = ''cronomicon'', de_owner = ''nightly'', de_uid = Some ''u1'', de_name = ''s'',
     de_cron = ''0 * * * *'', de_interval = [], de_start = [], de_end = []\<rparr>"

definition demo_detected :: detection_entry where "demo_detected = detected demo_schedule ''u1'' ''edge''"

definition demo_sla :: sla where
  "demo_sla = \<lparr>sl_sched = demo_sched, sl_deadlines = [(''u1'', None, Some ''03:00'')], sl_warned = [], sl_entries = [demo_schedule],
     sl_cursor = Some (demo_hhmm (25 * nsHour + 30 * nsMinute)), sl_alerts = []\<rparr>"

text \<open>The record of the day before, at two in the morning.\<close>

definition demo_yesterday :: live_run where
  "demo_yesterday = (demo_run ''r0'' (demo_hhmm (2 * nsHour)))\<lparr>d_job_uid := Some ''u1'', d_schedule_name := Some ''s'', d_status := ''skipped'',
     d_queued_reason := Some reasonMissedFire, d_created_at := demo_hhmm (2 * nsHour), d_suppressed_by_calendar := None\<rparr>"

definition demo_late_run :: live_run where
  "demo_late_run = (demo_run ''r1'' ''x'')\<lparr>d_job_uid := Some ''u1'', d_job_name := ''nightly'', d_status := ''running'',
     d_started_at := Some (demo_hhmm (26 * nsHour))\<rparr>"

definition with_rows :: "live_run list \<Rightarrow> sla \<Rightarrow> sla" where
  "with_rows rs st = st\<lparr>sl_sched := with_runs (\<lambda>_. rs) (sl_sched st)\<rparr>"
lemma distinct_singleton:
  assumes "distinct xs" and "set xs = {x}"
  shows "xs = [x]"
proof (cases xs)
  case (Cons y ys)
  then have "y = x" "x \<notin> set ys" "set ys \<subseteq> {x}" using assms by auto
  then show ?thesis using Cons by (cases ys) auto
qed (use assms in simp)

theorem a_late_run_is_warned_once_witness:
  "sl_alerts (ScanSLA demo_sla_world (with_rows [demo_late_run] demo_sla)) = [overdue_alert demo_late_run]"
proof -
  let ?st = "with_rows [demo_late_run] demo_sla"
  have "distinct (map d_id (runs_of (sl_sched ?st)))" by code_simp
  from a_late_run_is_warned_once [OF this, of demo_sla_world] obtain new where
    n: "sl_alerts (ScanSLA demo_sla_world ?st) = sl_alerts ?st @ new" "distinct new"
      "set new = overdue_alert ` {r \<in> set (runs_of (sl_sched ?st)). late demo_sla_world ?st r}" by blast
  have r: "runs_of (sl_sched ?st) = [demo_late_run]" by (simp add: with_rows_def)
  have "judged_by (ss_db (sl_sched ?st)) demo_late_run demo_gate_job" "breached demo_sla_world ?st demo_late_run demo_gate_job"
    "gd_jobs (ss_db (sl_sched ?st)) = [demo_gate_job]" by code_simp+
  then have "late demo_sla_world ?st demo_late_run" by (auto simp: late_def)
  then have "set new = {overdue_alert demo_late_run}" using n(3) by (auto simp: r)
  then have "new = [overdue_alert demo_late_run]" by (rule distinct_singleton [OF n(2)])
  then show ?thesis using n(1) by (simp add: with_rows_def demo_sla_def)
qed

lemma demo_fires:
  "missedCursor demo_sla_world demo_sla = Some (25 * nsHour + 30 * nsMinute)"
  "window_start demo_sla_world (25 * nsHour + 30 * nsMinute) = 25 * nsHour + 30 * nsMinute"
  "window_end demo_sla_world = 28 * nsHour - 5 * nsMinute"
  by code_simp+

lemma demo_spec:
  "ParseSpec (sl_lib demo_sla_world) (entry_spec demo_sla_world demo_detected) = Inr (cron_schedule (\<lambda>_ t. Some ((t div nsHour + 1) * nsHour)))"
  by (simp add: ParseSpec_def Validate_def entry_spec_def demo_detected_def detected_def demo_schedule_def schedule_entry.defs
      parseWindowCols_def parseWindowBound_def NewWindow_def Mode_def trim_space_def is_space_def demo_sla_world_def fire_world.defs
      demo_hourly_def withWindow_def Parse_def isEveryDescriptor_def Valid_def to_lower_def to_lower_char_def has_prefix_def)

lemma demo_expected:
  "fires_of demo_sla_world (25 * nsHour + 30 * nsMinute) (scheduleEntriesForDetection (ss_db (sl_sched demo_sla)) (sl_entries demo_sla)) =
     Some [(demo_detected, 26 * nsHour), (demo_detected, 27 * nsHour)]"
proof -
  have e: "scheduleEntriesForDetection (ss_db (sl_sched demo_sla)) (sl_entries demo_sla) = [demo_detected]" by code_simp
  have m: "max_fires = Suc (Suc (Suc 86398))" by (simp add: max_fires_def)
  have l: "moment_loop (cron_schedule (\<lambda>_ t. Some ((t div nsHour + 1) * nsHour))) (\<lambda>t. \<not> t < 28 * nsHour - 5 * nsMinute) (Suc (Suc (Suc n)))
      (sl_zone demo_sla_world, 25 * nsHour + 30 * nsMinute) = Some [26 * nsHour, 27 * nsHour]" for n
    by (simp add: duration_defs cron_schedule_def)
  have "expected_fires demo_sla_world demo_detected (25 * nsHour + 30 * nsMinute) (28 * nsHour - 5 * nsMinute) = Some [26 * nsHour, 27 * nsHour]"
    unfolding expected_fires_def demo_spec m sum.case by (rule l)
  then show ?thesis by (simp add: e demo_fires(3))
qed

lemma demo_empty: "entry_runs demo_sla demo_detected = []" "parked_rows demo_sla demo_detected = []"
  by code_simp+

theorem a_page_is_of_a_missing_run_witness:
  "\<exists>st' new. ScanMissedRuns demo_sla_world demo_sla = Some st' \<and> sl_alerts st' = new \<and> set new \<subseteq>
     {missed_alert demo_detected (26 * nsHour), missed_alert demo_detected (27 * nsHour)}"
proof -
  have w: "window_start demo_sla_world (25 * nsHour + 30 * nsMinute) < window_end demo_sla_world"
    unfolding demo_fires by (simp add: duration_defs)
  obtain st' new where s: "ScanMissedRuns demo_sla_world demo_sla = Some st'" "sl_alerts st' = sl_alerts demo_sla @ new"
    "\<forall>a \<in> set new. \<exists>(e, t) \<in> set [(demo_detected, 26 * nsHour), (demo_detected, 27 * nsHour)]. a = missed_alert e t \<and>
       \<not> ran_near demo_sla_world demo_sla e t"
    using a_page_is_of_a_missing_run [OF demo_fires(1) w, unfolded demo_fires(2), OF demo_expected] by blast
  then have "set new \<subseteq> {missed_alert demo_detected (26 * nsHour), missed_alert demo_detected (27 * nsHour)}" by auto
  moreover have "sl_alerts demo_sla = []" by (simp add: demo_sla_def)
  ultimately show ?thesis using s(1,2) by auto
qed

theorem a_second_day_pages_for_every_fire_witness:
  "sl_alerts (check_all demo_sla_world (map (Pair demo_detected) [26 * nsHour, 27 * nsHour]) (with_rows [demo_yesterday] demo_sla)) =
     [missed_alert demo_detected (26 * nsHour), missed_alert demo_detected (27 * nsHour)]"
proof -
  let ?st = "with_rows [demo_yesterday] demo_sla"
  have k: "de_kind demo_detected \<noteq> ''workflow''" by code_simp
  have s: "skipAlreadyRecorded (base (sl_fw demo_sla_world)) (sl_sched ?st) (missed_job ?st demo_detected) (missed_record demo_sla_world 0)"
    by code_simp
  have f: "fireExplained demo_sla_world ?st demo_detected (26 * nsHour) = Some False"
    "fireExplained demo_sla_world ?st demo_detected (27 * nsHour) = Some False" by code_simp+
  then have "\<forall>t \<in> set [26 * nsHour, 27 * nsHour]. fireExplained demo_sla_world ?st demo_detected t = Some False" by simp
  from a_second_day_pages_for_every_fire [OF k s this] show ?thesis by (simp add: with_rows_def demo_sla_def)
qed

end
