(* ===== verification/Runner_Life.thy ===== *)
theory Runner_Life
  imports Sched_Skip
begin

text \<open>
  The life of an agent and the end of a run (\<open>backend/internal/runner\<close>: \<open>reaper.go\<close>, \<open>drain.go\<close>, \<open>processes.go\<close>,
  the ends of \<open>log.go\<close>, the deregistration of \<open>register.go\<close>; the local runner's ends of \<open>sshexec/sshexec.go\<close>;
  the write of \<open>killJob\<close>). The columns of \<open>runners\<close> that only these read are kept by the runner's id (\<open>beat\<close>), the
  columns of \<open>runs\<close> that only an end writes by the run's. Times are formatted and parsed by the world; an activity row
  is what it is about, and metrics and notifications are the list \<open>fl_told\<close>.
\<close>

section \<open>State\<close>

definition pollTimeout :: int where "pollTimeout = 30 * nsSecond"
definition BusyHeartbeat :: int where "BusyHeartbeat = 5 * nsSecond"
definition processHoldWindow :: int where "processHoldWindow = pollTimeout + BusyHeartbeat + 10 * nsSecond"
definition maxProcessValueLen :: nat where "maxProcessValueLen = 128"
definition driftOpCooldown :: int where "driftOpCooldown = 5 * nsMinute"
definition drainDefaultMinutes :: int where "drainDefaultMinutes = 60"
definition MinProtocolVersion :: int where "MinProtocolVersion = 14"

record life_world =
  lw_now :: int
  lw_format :: "int \<Rightarrow> string"
  lw_parse :: "string \<Rightarrow> int option"
  lw_offlineAfter :: int
  lw_deregisterAfter :: int

record beat =
  bt_seen :: "string option"
  bt_registered :: string
  bt_deadline :: "string option"
  bt_lost_before :: "string option"
  bt_shared_at :: "string option"
  bt_protocol :: int
  bt_resync :: bool
  bt_digest :: string

record process =
  pr_seq :: nat
  pr_runner :: string
  pr_value :: string
  pr_first :: string
  pr_last :: string

record control =
  ac_run :: string
  ac_op :: string
  ac_consumed :: bool

record run_end =
  re_run :: string
  re_outcome :: string
  re_actor :: string

record placement =
  pl_runner :: string
  pl_name :: string
  pl_agencies :: "string list"
  pl_capabilities :: "string list"
  pl_owner :: string
  pl_at :: string
  pl_by :: string
  pl_via :: string

record fleet =
  fl_db :: claim_db
  fl_beat :: "string \<Rightarrow> beat"
  fl_procs :: "process list"
  fl_seq :: nat
  fl_exit :: "string \<Rightarrow> int option"
  fl_killed_by :: "string \<Rightarrow> string option"
  fl_actions :: "control list"
  fl_ends :: "run_end list"
  fl_told :: "(string \<times> string) list"
  fl_notes :: "(string \<times> string \<times> string) list"
  fl_shared :: "string list"
  fl_tokens :: "(string \<times> string option) list"
  fl_placements :: "placement list"
  fl_refused :: "string \<Rightarrow> int option"
  fl_drift :: "string \<Rightarrow> int option"

definition fl_runs :: "fleet \<Rightarrow> live_run list" where "fl_runs st = cl_runs (fl_db st)"

definition runner_row :: "fleet \<Rightarrow> string \<Rightarrow> runner option" where "runner_row st rid = the_runner (fl_db st) rid"

definition set_runs :: "(live_run \<Rightarrow> live_run) \<Rightarrow> fleet \<Rightarrow> fleet" where
  "set_runs f st = st\<lparr>fl_db := (fl_db st)\<lparr>cl_runs := map f (fl_runs st)\<rparr>\<rparr>"

definition set_runner :: "string \<Rightarrow> (runner \<Rightarrow> runner) \<Rightarrow> fleet \<Rightarrow> fleet" where
  "set_runner rid f st = st\<lparr>fl_db := (fl_db st)\<lparr>cl_runners := map (\<lambda>r. if rn_id r = rid then f r else r) (cl_runners (fl_db st))\<rparr>\<rparr>"

definition on_beat :: "string \<Rightarrow> (beat \<Rightarrow> beat) \<Rightarrow> fleet \<Rightarrow> fleet" where
  "on_beat rid f st = st\<lparr>fl_beat := (fl_beat st)(rid := f (fl_beat st rid))\<rparr>"

definition lw_stamp :: "life_world \<Rightarrow> string" where "lw_stamp w = lw_format w (lw_now w)"

definition note_config :: "string \<Rightarrow> string \<Rightarrow> string \<Rightarrow> fleet \<Rightarrow> fleet" where
  "note_config actor target summary st = st\<lparr>fl_notes := fl_notes st @ [(actor, target, summary)]\<rparr>"

section \<open>A run ends\<close>

definition still_running :: "fleet \<Rightarrow> string \<Rightarrow> bool" where
  "still_running st t \<longleftrightarrow> list_ex (\<lambda>r. d_id r = t \<and> running r) (fl_runs st)"

definition write_end :: "string \<Rightarrow> string \<Rightarrow> string \<Rightarrow> fleet \<Rightarrow> fleet" where
  "write_end t outcome actor st = st\<lparr>fl_ends := fl_ends st @ [\<lparr>re_run = t, re_outcome = outcome, re_actor = actor\<rparr>]\<rparr>"

definition emitRunTerminal :: "string \<Rightarrow> string \<Rightarrow> fleet \<Rightarrow> fleet" where
  "emitRunTerminal t status st = st\<lparr>fl_told := fl_told st @ [(t, status)]\<rparr>"

text \<open>The guarded update of a terminal writer.\<close>

definition end_running :: "string \<Rightarrow> (live_run \<Rightarrow> live_run) \<Rightarrow> fleet \<Rightarrow> fleet" where
  "end_running t f = set_runs (\<lambda>r. if d_id r = t \<and> running r then f r else r)"

definition forget_refusal :: "string \<Rightarrow> fleet \<Rightarrow> fleet" where
  "forget_refusal t st = st\<lparr>fl_refused := (fl_refused st)(t := None)\<rparr>"

definition held :: "fleet \<Rightarrow> string \<Rightarrow> live_run list" where
  "held st rid = filter (\<lambda>r. running r \<and> lr_runner r = Some rid) (fl_runs st)"

section \<open>Draining\<close>

definition fail_stuck :: "life_world \<Rightarrow> string \<Rightarrow> fleet \<Rightarrow> fleet" where
  "fail_stuck w t st =
     (if still_running st t
      then emitRunTerminal t ''failure'' (write_end t ''failure'' ''system''
             (end_running t (\<lambda>r. r\<lparr>d_status := ''failure'', d_completed_at := Some (lw_stamp w), d_queued_reason := Some ''drain_timeout''\<rparr>) st))
      else st)"

definition forceOfflineOnDrainTimeout :: "life_world \<Rightarrow> string \<Rightarrow> fleet \<Rightarrow> fleet" where
  "forceOfflineOnDrainTimeout w rid st =
     on_beat rid (\<lambda>b. b\<lparr>bt_deadline := None\<rparr>)
       (set_runner rid (\<lambda>r. r\<lparr>rn_status := ''offline'', rn_load := 0\<rparr>) (fold (fail_stuck w) (map d_id (held st rid)) st))"

definition checkDrainComplete :: "life_world \<Rightarrow> string \<Rightarrow> fleet \<Rightarrow> fleet" where
  "checkDrainComplete w rid st =
     (case runner_row st rid of None \<Rightarrow> st
      | Some r \<Rightarrow>
          if rn_status r \<noteq> ''draining'' then st
          else if rn_load r = 0
          then on_beat rid (\<lambda>b. b\<lparr>bt_deadline := None\<rparr>) (set_runner rid (\<lambda>r. r\<lparr>rn_status := ''offline''\<rparr>) st)
          else (case Option.bind (bt_deadline (fl_beat st rid)) (lw_parse w) of
             None \<Rightarrow> st
           | Some dl \<Rightarrow> if lw_now w > dl then forceOfflineOnDrainTimeout w rid st else st))"

datatype drain_answer = DrainNotFound | DrainConflict | DrainAccepted string

definition HandleDrain :: "life_world \<Rightarrow> string \<Rightarrow> string \<Rightarrow> int \<Rightarrow> fleet \<Rightarrow> drain_answer \<times> fleet" where
  "HandleDrain w actor rid minutes st =
     (case runner_row st rid of None \<Rightarrow> (DrainNotFound, st)
      | Some r \<Rightarrow>
          if rn_status r = ''draining'' \<or> rn_status r = ''offline'' then (DrainConflict, st)
          else (let m = (if minutes \<le> 0 then drainDefaultMinutes else minutes);
                    deadline = lw_format w (lw_now w + wrap64 (m * nsMinute));
                    st1 = on_beat rid (\<lambda>b. b\<lparr>bt_deadline := Some deadline\<rparr>) (set_runner rid (\<lambda>r. r\<lparr>rn_status := ''draining''\<rparr>) st);
                    st2 = (if rn_load r = 0
                           then on_beat rid (\<lambda>b. b\<lparr>bt_deadline := None\<rparr>) (set_runner rid (\<lambda>r. r\<lparr>rn_status := ''offline''\<rparr>) st1)
                           else st1)
                in (DrainAccepted (if rn_load r = 0 then ''offline'' else ''draining''),
                    note_config actor (''runner:'' @ rn_name r) ''drain initiated'' st2)))"

section \<open>The end an agent reports\<close>

definition release_slot :: "string \<Rightarrow> fleet \<Rightarrow> fleet" where
  "release_slot rid = set_runner rid (\<lambda>r. r\<lparr>rn_load := max 0 (rn_load r - 1)\<rparr>)"

definition finalizeRun :: "life_world \<Rightarrow> string \<Rightarrow> string \<Rightarrow> string \<Rightarrow> int option \<Rightarrow> int \<Rightarrow> string \<Rightarrow> fleet \<Rightarrow> fleet" where
  "finalizeRun w t rid status exit dur reason st =
     (let won = still_running st t;
          st1 = forget_refusal t st;
          st2 = (if won
                 then (end_running t (\<lambda>r. r\<lparr>d_status := status, d_completed_at := Some (lw_stamp w), d_duration_ms := Some dur,
                          d_queued_reason := nullStr reason\<rparr>) st1)\<lparr>fl_exit := (fl_exit st)(t := exit)\<rparr>
                 else st1);
          st3 = (if rid = [] then st2 else checkDrainComplete w rid (release_slot rid st2))
      in if won then emitRunTerminal t status (write_end t status (''runner:'' @ rid) st3) else st3)"

section \<open>Lost runs\<close>

definition millis :: "int \<Rightarrow> int" where
  "millis d = (if d < 0 then - ((- d) div 1000000) else d div 1000000)"

definition elapsed :: "life_world \<Rightarrow> string \<Rightarrow> int" where
  "elapsed w s =
     (case (if s = [] then None else lw_parse w s) of None \<Rightarrow> 0
      | Some t \<Rightarrow> (let d = millis (time_sub (lw_now w) t) in if d > 0 then d else 0))"

text \<open>A run as the sweeps carry it: its id and its start.\<close>

definition carried :: "live_run \<Rightarrow> string \<times> string" where
  "carried r = (d_id r, case d_started_at r of None \<Rightarrow> [] | Some s \<Rightarrow> s)"

fun endLostRuns :: "life_world \<Rightarrow> (string \<times> string) list \<Rightarrow> fleet \<Rightarrow> string list \<times> fleet" where
  "endLostRuns w [] st = ([], st)"
| "endLostRuns w ((t, started) # orphans) st =
     (if still_running st t
      then (let (ended, st') = endLostRuns w orphans (write_end t ''failure'' ''system''
              (end_running t (\<lambda>r. r\<lparr>d_status := ''failure'', d_queued_reason := Some ''runner_lost'', d_completed_at := Some (lw_stamp w),
                 d_duration_ms := Some (elapsed w started)\<rparr>) st))
            in (t # ended, st'))
      else endLostRuns w orphans st)"

definition announceLostRuns :: "string list \<Rightarrow> fleet \<Rightarrow> fleet" where
  "announceLostRuns ended st = fold (\<lambda>t s. emitRunTerminal t ''failure'' (forget_refusal t s)) ended st"

definition closeLostRuns :: "life_world \<Rightarrow> (string \<times> string) list \<Rightarrow> fleet \<Rightarrow> nat \<times> fleet" where
  "closeLostRuns w orphans st = (let (ended, st') = endLostRuns w orphans st in (length ended, announceLostRuns ended st'))"

definition failRunningRunsBefore :: "life_world \<Rightarrow> string \<Rightarrow> string \<Rightarrow> fleet \<Rightarrow> nat \<times> fleet" where
  "failRunningRunsBefore w rid before st =
     closeLostRuns w (map carried (filter (\<lambda>r. before = [] \<or> (case d_started_at r of None \<Rightarrow> False | Some s \<Rightarrow> s < before)) (held st rid))) st"

definition failRunningRuns :: "life_world \<Rightarrow> string \<Rightarrow> fleet \<Rightarrow> nat \<times> fleet" where
  "failRunningRuns w rid st = failRunningRunsBefore w rid [] st"

definition runningRunsOf :: "fleet \<Rightarrow> string \<Rightarrow> (string \<times> string) list" where
  "runningRunsOf st rid = map carried (held st rid)"

section \<open>Two processes on one identity\<close>

definition raiseIdentityShared :: "string \<Rightarrow> fleet \<Rightarrow> fleet" where
  "raiseIdentityShared rid st = st\<lparr>fl_shared := (if rid \<in> set (fl_shared st) then fl_shared st else fl_shared st @ [rid])\<rparr>"

definition clearIdentityShared :: "string \<Rightarrow> fleet \<Rightarrow> fleet" where
  "clearIdentityShared rid st =
     (on_beat rid (\<lambda>b. b\<lparr>bt_shared_at := None\<rparr>) st)\<lparr>fl_shared := filter (\<lambda>x. x \<noteq> rid) (fl_shared st)\<rparr>"

definition resolveIdentitySharedIfAlone :: "string \<Rightarrow> fleet \<Rightarrow> fleet" where
  "resolveIdentitySharedIfAlone rid st =
     (if bt_shared_at (fl_beat st rid) = None \<or> length (filter (\<lambda>p. pr_runner p = rid) (fl_procs st)) > 1 then st
      else clearIdentityShared rid st)"

definition closeLostRunsIfOwnersGone :: "life_world \<Rightarrow> string \<Rightarrow> fleet \<Rightarrow> fleet" where
  "closeLostRunsIfOwnersGone w rid st =
     (case bt_lost_before (fl_beat st rid) of None \<Rightarrow> st
      | Some before \<Rightarrow>
          if list_ex (\<lambda>p. pr_runner p = rid \<and> pr_first p < before \<and> lw_format w (lw_now w - processHoldWindow) \<le> pr_last p) (fl_procs st)
          then st
          else (let (n, st') = failRunningRunsBefore w rid before st
                in on_beat rid (\<lambda>b. b\<lparr>bt_lost_before := None\<rparr>) (set_runner rid (\<lambda>r. r\<lparr>rn_load := max 0 (rn_load r - int n)\<rparr>) st')))"

definition processWindow :: "life_world \<Rightarrow> int" where
  "processWindow w = (if lw_offlineAfter w > 0 then lw_offlineAfter w else 5 * nsMinute)"

definition record_process :: "life_world \<Rightarrow> string \<Rightarrow> string \<Rightarrow> fleet \<Rightarrow> fleet" where
  "record_process w rid v st =
     (let kept = filter (\<lambda>p. \<not> (pr_runner p = rid \<and> pr_last p < lw_format w (lw_now w - processWindow w))) (fl_procs st)
      in if list_ex (\<lambda>p. pr_runner p = rid \<and> pr_value p = v) kept
         then st\<lparr>fl_procs := map (\<lambda>p. if pr_runner p = rid \<and> pr_value p = v then p\<lparr>pr_last := lw_stamp w\<rparr> else p) kept\<rparr>
         else st\<lparr>fl_procs := kept @ [\<lparr>pr_seq = fl_seq st, pr_runner = rid, pr_value = v, pr_first = lw_stamp w, pr_last = lw_stamp w\<rparr>],
                 fl_seq := fl_seq st + 1\<rparr>)"

text \<open>Whether the close of a start is deferred.\<close>

definition noteProcess :: "life_world \<Rightarrow> string \<Rightarrow> string \<Rightarrow> bool \<Rightarrow> fleet \<Rightarrow> bool \<times> fleet" where
  "noteProcess w rid v started st =
     (if v = [] \<or> length v > maxProcessValueLen then (False, st)
      else (let st1 = record_process w rid v st
            in case List.find (\<lambda>p. pr_runner p = rid \<and> pr_value p = v) (fl_procs st1) of
              None \<Rightarrow> (False, st1)
            | Some me \<Rightarrow>
                (let newer = list_ex (\<lambda>p. pr_runner p = rid \<and> pr_seq p > pr_seq me) (fl_procs st1);
                     st2 = (if newer
                            then raiseIdentityShared rid (on_beat rid (\<lambda>b. b\<lparr>bt_shared_at := Some (lw_stamp w), bt_lost_before := None\<rparr>) st1)
                            else st1);
                     othersLive = list_ex (\<lambda>p. pr_runner p = rid \<and> pr_value p \<noteq> v \<and>
                        lw_format w (lw_now w - processHoldWindow) \<le> pr_last p) (fl_procs st2);
                     deferClose = (started \<and> \<not> newer \<and> othersLive);
                     st3 = (if started \<and> \<not> newer
                            then on_beat rid (\<lambda>b. b\<lparr>bt_lost_before := (if othersLive then Some (pr_first me) else None)\<rparr>) st2
                            else st2);
                     st4 = (if deferClose then st3 else closeLostRunsIfOwnersGone w rid st3)
                 in (deferClose, if newer then st4 else resolveIdentitySharedIfAlone rid st4))))"

section \<open>The reaper\<close>

definition heartbeat :: "beat \<Rightarrow> string" where
  "heartbeat b = (case bt_seen b of None \<Rightarrow> bt_registered b | Some s \<Rightarrow> if s \<noteq> [] then s else bt_registered b)"

definition offlineRunner :: "life_world \<Rightarrow> string \<Rightarrow> fleet \<Rightarrow> fleet" where
  "offlineRunner w rid st =
     clearIdentityShared rid (on_beat rid (\<lambda>b. b\<lparr>bt_lost_before := None\<rparr>)
       (set_runner rid (\<lambda>r. r\<lparr>rn_status := ''offline'', rn_load := 0\<rparr>) (snd (failRunningRuns w rid st))))"

definition stale_agents :: "life_world \<Rightarrow> fleet \<Rightarrow> string list" where
  "stale_agents w st = map rn_id (filter (\<lambda>r. rn_status r \<in> {''online'', ''draining''} \<and> rn_kind r \<noteq> ''server'' \<and>
     (case lw_parse w (heartbeat (fl_beat st (rn_id r))) of None \<Rightarrow> True | Some t \<Rightarrow> t < lw_now w - lw_offlineAfter w)) (cl_runners (fl_db st)))"

definition sweepOffline :: "life_world \<Rightarrow> fleet \<Rightarrow> fleet" where
  "sweepOffline w st = fold (offlineRunner w) (stale_agents w st) st"

definition revokeRunnerKeys :: "life_world \<Rightarrow> string \<Rightarrow> fleet \<Rightarrow> fleet" where
  "revokeRunnerKeys w rid st =
     st\<lparr>fl_tokens := map (\<lambda>(r, revoked). (r, if r = rid \<and> revoked = None then Some (lw_stamp w) else revoked)) (fl_tokens st)\<rparr>"

definition agencyIDsFor :: "fleet \<Rightarrow> string \<Rightarrow> string list" where
  "agencyIDsFor st rid = sort (map snd (filter (\<lambda>(r, a). r = rid \<and> a \<noteq> Global) (cl_runner_agencies (fl_db st))))"

definition capturePlacement :: "life_world \<Rightarrow> string \<Rightarrow> string \<Rightarrow> string \<Rightarrow> string \<Rightarrow> fleet \<Rightarrow> fleet option" where
  "capturePlacement w rid name actor via st =
     (case runner_row st rid of None \<Rightarrow> None
      | Some r \<Rightarrow> Some (st\<lparr>fl_placements := fl_placements st @ [\<lparr>pl_runner = rid, pl_name = name, pl_agencies = agencyIDsFor st rid,
           pl_capabilities = rn_capabilities r, pl_owner = rn_owner r, pl_at = lw_stamp w, pl_by = actor, pl_via = via\<rparr>]\<rparr>))"

text \<open>The row's delete, with the schema's references: a run keeps its copy of the name and loses the id, the
  memberships and the processes go.\<close>

definition delete_runner :: "string \<Rightarrow> fleet \<Rightarrow> fleet" where
  "delete_runner rid st =
     (let db = fl_db st
      in st\<lparr>fl_db := db\<lparr>cl_runners := filter (\<lambda>r. rn_id r \<noteq> rid) (cl_runners db),
              cl_runner_agencies := filter (\<lambda>(r, a). r \<noteq> rid) (cl_runner_agencies db),
              cl_runs := map (\<lambda>x. if lr_runner x = Some rid then x\<lparr>lr_runner := None\<rparr> else x) (cl_runs db)\<rparr>,
            fl_procs := filter (\<lambda>p. pr_runner p \<noteq> rid) (fl_procs st)\<rparr>)"

definition deregisterRunner :: "life_world \<Rightarrow> string \<Rightarrow> string \<Rightarrow> fleet \<Rightarrow> fleet" where
  "deregisterRunner w rid name st =
     (case capturePlacement w rid name ''system'' ''reaper'' (revokeRunnerKeys w rid st) of None \<Rightarrow> st
      | Some st' \<Rightarrow> delete_runner rid (note_config ''system'' (''runner:'' @ name) ''deregistered'' st'))"

definition long_gone :: "life_world \<Rightarrow> fleet \<Rightarrow> (string \<times> string) list" where
  "long_gone w st = map (\<lambda>r. (rn_id r, rn_name r)) (filter (\<lambda>r. rn_status r = ''offline'' \<and> rn_kind r \<noteq> ''server'' \<and>
     (case lw_parse w (heartbeat (fl_beat st (rn_id r))) of None \<Rightarrow> False | Some t \<Rightarrow> t < lw_now w - lw_deregisterAfter w)) (cl_runners (fl_db st)))"

definition sweepDeregister :: "life_world \<Rightarrow> fleet \<Rightarrow> fleet" where
  "sweepDeregister w st = fold (\<lambda>(rid, name). deregisterRunner w rid name) (long_gone w st) st"

definition reapOnce :: "life_world \<Rightarrow> fleet \<Rightarrow> fleet" where
  "reapOnce w st = sweepDeregister w (sweepOffline w st)"

text \<open>An operator's deregistration: \<open>None\<close> is refused, with nothing written.\<close>

definition HandleDeregisterRunner :: "life_world \<Rightarrow> string \<Rightarrow> string \<Rightarrow> fleet \<Rightarrow> fleet option" where
  "HandleDeregisterRunner w actor rid st =
     (case runner_row st rid of None \<Rightarrow> None
      | Some r \<Rightarrow>
          (let st1 = revokeRunnerKeys w rid st;
               (ended, st2) = endLostRuns w (runningRunsOf st1 rid) st1
           in map_option (\<lambda>st3. (clearIdentityShared rid (announceLostRuns ended
                  (delete_runner rid (note_config actor (''runner:'' @ rn_name r) ''deregistered'' st3))))
                  \<lparr>fl_drift := (fl_drift st)(rid := None)\<rparr>)
                (capturePlacement w rid (rn_name r) actor ''operator'' st2)))"

section \<open>A poll\<close>

definition readmitRunner :: "string \<Rightarrow> fleet \<Rightarrow> bool \<times> fleet" where
  "readmitRunner rid st =
     (case runner_row st rid of None \<Rightarrow> (False, st)
      | Some r \<Rightarrow>
          if rn_status r = ''offline''
          then (True, note_config (''runner:'' @ rid) (''runner:'' @ rn_name r) ''runner re-admitted on poll (was offline)''
                  (on_beat rid (\<lambda>b. b\<lparr>bt_deadline := None\<rparr>) (set_runner rid (\<lambda>r. r\<lparr>rn_status := ''online''\<rparr>) st)))
          else (rn_status r = ''online'', st))"

definition for_runner :: "fleet \<Rightarrow> string \<Rightarrow> control \<Rightarrow> bool" where
  "for_runner st rid a \<longleftrightarrow> \<not> ac_consumed a \<and> list_ex (\<lambda>r. d_id r = ac_run a \<and> lr_runner r = Some rid) (fl_runs st)"

datatype poll_op = RunOp string string | DrainOp | ReRegister | HostKeyOp string

definition drainControl :: "string \<Rightarrow> fleet \<Rightarrow> poll_op list \<times> fleet" where
  "drainControl rid st =
     (map (\<lambda>a. RunOp (ac_op a) (ac_run a)) (filter (for_runner st rid) (fl_actions st)),
      st\<lparr>fl_actions := map (\<lambda>a. if for_runner st rid a then a\<lparr>ac_consumed := True\<rparr> else a) (fl_actions st)\<rparr>)"

definition takeResync :: "string \<Rightarrow> fleet \<Rightarrow> bool \<times> fleet" where
  "takeResync rid st = (bt_resync (fl_beat st rid), on_beat rid (\<lambda>b. b\<lparr>bt_resync := False\<rparr>) st)"

definition noteReRegisterSent :: "life_world \<Rightarrow> string \<Rightarrow> fleet \<Rightarrow> fleet" where
  "noteReRegisterSent w rid st = st\<lparr>fl_drift := (fl_drift st)(rid := Some (lw_now w))\<rparr>"

definition checkConfigDrift :: "life_world \<Rightarrow> string \<Rightarrow> string \<Rightarrow> string \<Rightarrow> fleet \<Rightarrow> bool \<times> fleet" where
  "checkConfigDrift w rid agentDigest storedDigest st =
     (if agentDigest = [] \<or> agentDigest = storedDigest then (False, st)
      else if (case fl_drift st rid of None \<Rightarrow> False | Some sent \<Rightarrow> time_sub (lw_now w) sent < driftOpCooldown) then (False, st)
      else (True, noteReRegisterSent w rid st))"

text \<open>A poll: its caller and parameters; the host-key ops, the managed settings and the watch list that await the
  runner are other services', and given.\<close>

record poll_request =
  pq_runner :: string
  pq_caller :: "string option"
  pq_started :: bool
  pq_process :: string
  pq_claims :: bool
  pq_digest :: string
  pq_hostkeys :: "string list"
  pq_settings :: bool
  pq_watches :: bool

datatype poll_answer = PollNotFound | PollTooOld | PollFailed | PollOps "poll_op list" | PollAssigned string | PollNothing

datatype poll_state = Answer poll_answer | Waiting claim_request

definition respondControlOr204 :: "poll_request \<Rightarrow> poll_op list \<Rightarrow> poll_answer" where
  "respondControlOr204 q control = (if control = [] \<and> \<not> pq_settings q \<and> \<not> pq_watches q then PollNothing else PollOps control)"

text \<open>The runs of a process that is gone.\<close>

definition close_restarted :: "life_world \<Rightarrow> poll_request \<Rightarrow> fleet \<Rightarrow> fleet" where
  "close_restarted w q st =
     (let rid = pq_runner q;
          (deferred, st1) = noteProcess w rid (pq_process q) (pq_started q) st
      in if pq_started q \<and> \<not> deferred
         then (let (n, st2) = failRunningRuns w rid st1 in if n > 0 then set_runner rid (\<lambda>r. r\<lparr>rn_load := 0\<rparr>) st2 else st2)
         else st1)"

text \<open>What a poll is told before it waits.\<close>

definition poll_ops :: "life_world \<Rightarrow> poll_request \<Rightarrow> string \<Rightarrow> fleet \<Rightarrow> poll_op list \<times> fleet" where
  "poll_ops w q storedDigest st =
     (let rid = pq_runner q;
          (resync, st1) = takeResync rid st;
          (drift, st2) = (if resync then (True, noteReRegisterSent w rid st1) else checkConfigDrift w rid (pq_digest q) storedDigest st1)
      in ((if drift then [ReRegister] else []) @ map HostKeyOp (pq_hostkeys q), st2))"

definition poll_ready :: "life_world \<Rightarrow> poll_request \<Rightarrow> runner \<Rightarrow> poll_op list \<Rightarrow> fleet \<Rightarrow> poll_state \<times> fleet" where
  "poll_ready w q r control st =
     (let (ops, st1) = poll_ops w q (bt_digest (fl_beat st (pq_runner q))) st;
          req = claimRun (fl_db st) r
      in if control @ ops \<noteq> [] then (Answer (PollOps (control @ ops)), st1)
         else if \<not> pq_claims q then (Answer (respondControlOr204 q []), st1)
         else if rq_caps req = [] then (Answer (respondControlOr204 q []), st1)
         else if pq_settings q then (Answer (PollOps []), st1)
         else (Waiting req, st1))"

definition poll_open :: "life_world \<Rightarrow> poll_request \<Rightarrow> fleet \<Rightarrow> poll_state \<times> fleet" where
  "poll_open w q st =
     (let rid = pq_runner q
      in if pq_caller q \<noteq> Some rid then (Answer PollNotFound, st)
         else case runner_row st rid of None \<Rightarrow> (Answer PollNotFound, st)
         | Some r \<Rightarrow>
             (let st1 = on_beat rid (\<lambda>b. b\<lparr>bt_seen := Some (lw_stamp w)\<rparr>) st
              in if bt_protocol (fl_beat st1 rid) < MinProtocolVersion then (Answer PollTooOld, st1)
                 else (let (control, st2) = drainControl rid (close_restarted w q st1)
                       in if rn_status r = ''draining'' then (Answer (PollOps (control @ [DrainOp])), st2)
                          else if rn_status r = ''offline''
                          then (case readmitRunner rid st2 of
                                  (False, st3) \<Rightarrow> (Answer (PollOps (control @ [DrainOp])), st3)
                                | (True, st3) \<Rightarrow> poll_ready w q r control st3)
                          else poll_ready w q r control st2)))"

text \<open>The last questions of a turn of the wait: \<open>None\<close> is to sleep and ask again.\<close>

definition poll_turn :: "life_world \<Rightarrow> poll_request \<Rightarrow> claim_request \<Rightarrow> fleet \<Rightarrow> poll_answer option \<times> fleet" where
  "poll_turn w q req st =
     (let rid = pq_runner q
      in if bt_resync (fl_beat st rid)
         then (Some (PollOps [ReRegister]), noteReRegisterSent w rid (snd (takeResync rid st)))
         else if pq_hostkeys q \<noteq> [] then (Some (PollOps (map HostKeyOp (pq_hostkeys q))), st)
         else case drainControl rid st of
           (a # as, st1) \<Rightarrow> (Some (PollOps (a # as)), st1)
         | ([], st1) \<Rightarrow>
             (case Claim (fl_db st1) req (lw_stamp w) of
                (ClaimError, _) \<Rightarrow> (Some PollFailed, st1)
              | (Claimed t, db) \<Rightarrow> (Some (PollAssigned t), st1\<lparr>fl_db := db\<rparr>)
              | (NoRun, _) \<Rightarrow> (None, st1)))"

definition poll_wait :: "life_world \<Rightarrow> poll_request \<Rightarrow> claim_request \<Rightarrow> fleet \<Rightarrow> poll_answer option \<times> fleet" where
  "poll_wait w q req st =
     (case runner_row st (pq_runner q) of None \<Rightarrow> (Some (respondControlOr204 q []), st)
      | Some r \<Rightarrow>
          if rn_status r = ''draining'' then (Some (PollOps [DrainOp]), st)
          else if rn_status r = ''offline''
          then (case readmitRunner (pq_runner q) st of
                  (False, st1) \<Rightarrow> (Some (respondControlOr204 q []), st1)
                | (True, st1) \<Rightarrow> poll_turn w q req st1)
          else poll_turn w q req st)"

section \<open>An operator stops a run\<close>

definition dispositions :: "string list" where "dispositions = [''killed'', ''failure'', ''success'', ''warning'']"

definition dispositionOutcome :: "string \<Rightarrow> string" where
  "dispositionOutcome d = (if d = ''killed'' then ''failure'' else d)"

definition runOfJobSQL :: "string \<Rightarrow> string \<Rightarrow> string \<Rightarrow> live_run \<Rightarrow> bool" where
  "runOfJobSQL uid source name r \<longleftrightarrow>
     d_job_uid r = Some uid \<or> d_job_uid r = None \<and> d_job_source r = Some source \<and> d_job_name r = name"

text \<open>The newest active run of a job.\<close>

definition run_to_stop :: "string \<Rightarrow> string \<Rightarrow> string \<Rightarrow> fleet \<Rightarrow> live_run option" where
  "run_to_stop uid source name st =
     (case rev (sort_key d_created_at (filter (\<lambda>r. runOfJobSQL uid source name r \<and> active r) (fl_runs st))) of
        [] \<Rightarrow> None | r # _ \<Rightarrow> Some r)"

definition stopped_for :: "life_world \<Rightarrow> live_run \<Rightarrow> int option" where
  "stopped_for w r =
     (case d_started_at r of None \<Rightarrow> None
      | Some s \<Rightarrow> (case (if s = [] then None else lw_parse w s) of None \<Rightarrow> None
          | Some t \<Rightarrow> (let d = millis (time_sub (lw_now w) t) in if d > 0 then Some d else None)))"

datatype kill_answer = NoActiveRun | BadOutcome | AlreadyTerminal | Stopped string

text \<open>The write of \<open>killJob\<close>, for a run it selected (with the start it read).\<close>

definition stop_run :: "life_world \<Rightarrow> string \<Rightarrow> string \<Rightarrow> string \<Rightarrow> int option \<Rightarrow> fleet \<Rightarrow> kill_answer \<times> fleet" where
  "stop_run w email disposition t dur st =
     (if \<not> list_ex (\<lambda>r. d_id r = t \<and> active r) (fl_runs st) then (AlreadyTerminal, st)
      else (Stopped t, write_end t (dispositionOutcome disposition) email
         ((set_runs (\<lambda>r. if d_id r = t \<and> active r
              then r\<lparr>d_status := disposition, d_completed_at := Some (lw_stamp w),
                     d_duration_ms := (case d_duration_ms r of None \<Rightarrow> dur | Some d \<Rightarrow> Some d)\<rparr> else r) st)
           \<lparr>fl_killed_by := (fl_killed_by st)(t := Some email),
            fl_actions := fl_actions st @ [\<lparr>ac_run = t, ac_op = ''kill'', ac_consumed = False\<rparr>]\<rparr>)))"

definition killJob :: "life_world \<Rightarrow> string \<Rightarrow> string \<Rightarrow> string \<Rightarrow> string \<Rightarrow> string \<Rightarrow> fleet \<Rightarrow> kill_answer \<times> fleet" where
  "killJob w email outcome uid source name st =
     (let disposition = (if outcome = [] then ''killed'' else outcome)
      in if disposition \<notin> set dispositions then (BadOutcome, st)
         else case run_to_stop uid source name st of None \<Rightarrow> (NoActiveRun, st)
         | Some r \<Rightarrow> stop_run w email disposition (d_id r) (stopped_for w r) st)"

section \<open>The local runner\<close>

definition localRun :: "fleet \<Rightarrow> live_run \<Rightarrow> bool" where
  "localRun st r \<longleftrightarrow> list_ex (\<lambda>rn. rn_kind rn = ''server'' \<and> lr_runner r = Some (rn_id rn)) (cl_runners (fl_db st)) \<or> d_executor r = ''ssh''"

definition releaseLoad :: "fleet \<Rightarrow> fleet" where
  "releaseLoad st = st\<lparr>fl_db := (fl_db st)\<lparr>cl_runners :=
     map (\<lambda>r. if rn_kind r = ''server'' then r\<lparr>rn_load := max 0 (rn_load r - 1)\<rparr> else r) (cl_runners (fl_db st))\<rparr>\<rparr>"

definition localRunnerActor :: string where "localRunnerActor = ''local-runner''"

definition emitTerminal :: "string \<Rightarrow> string \<Rightarrow> fleet \<Rightarrow> fleet" where
  "emitTerminal t status st = emitRunTerminal t status (write_end t status localRunnerActor st)"

text \<open>A worker of the server ends its run, with the start it claimed it at.\<close>

definition finalizeReason :: "life_world \<Rightarrow> string \<Rightarrow> int option \<Rightarrow> string \<Rightarrow> int option \<Rightarrow> string \<Rightarrow> fleet \<Rightarrow> fleet" where
  "finalizeReason w t started status exit reason st =
     emitTerminal t status
       (if still_running st t
        then releaseLoad ((end_running t (\<lambda>r. r\<lparr>d_status := status, d_completed_at := Some (lw_stamp w),
               d_duration_ms := map_option (\<lambda>s. millis (time_sub (lw_now w) s)) started,
               d_queued_reason := (if reason = [] then d_queued_reason r else Some reason)\<rparr>) st)\<lparr>fl_exit := (fl_exit st)(t := exit)\<rparr>)
        else st)"

definition reconcileOrphan :: "life_world \<Rightarrow> string \<times> string \<Rightarrow> fleet \<Rightarrow> fleet" where
  "reconcileOrphan w orphan st =
     (let t = fst orphan; d = elapsed w (snd orphan)
      in if list_ex (\<lambda>r. d_id r = t \<and> running r \<and> localRun st r) (fl_runs st)
         then emitTerminal t ''failure'' (releaseLoad (set_runs (\<lambda>r. if d_id r = t \<and> running r \<and> localRun st r
                then r\<lparr>d_status := ''failure'', d_queued_reason := Some ''executor_lost'', d_completed_at := Some (lw_stamp w),
                       d_duration_ms := (if d > 0 then Some d else None)\<rparr> else r) st))
         else st)"

definition reconcileOrphans :: "life_world \<Rightarrow> (live_run \<Rightarrow> bool) \<Rightarrow> fleet \<Rightarrow> fleet" where
  "reconcileOrphans w query st =
     fold (reconcileOrphan w) (map carried (filter (\<lambda>r. running r \<and> localRun st r \<and> query r) (fl_runs st))) st"

definition sweepLocalOrphansOnStartup :: "life_world \<Rightarrow> fleet \<Rightarrow> fleet" where
  "sweepLocalOrphansOnStartup w st =
     (let st1 = reconcileOrphans w (\<lambda>_. True) st
      in st1\<lparr>fl_db := (fl_db st1)\<lparr>cl_runners :=
           map (\<lambda>r. if rn_kind r = ''server'' then r\<lparr>rn_load := 0, rn_status := ''offline''\<rparr> else r) (cl_runners (fl_db st1))\<rparr>\<rparr>)"

definition reapLocalOrphansOnce :: "life_world \<Rightarrow> int \<Rightarrow> fleet \<Rightarrow> fleet" where
  "reapLocalOrphansOnce w staleAfter =
     reconcileOrphans w (\<lambda>r. case d_started_at r of None \<Rightarrow> False | Some s \<Rightarrow> s < lw_format w (lw_now w - staleAfter))"

end
