(* ===== verification/Runner_Ends.thy ===== *)
theory Runner_Ends
  imports Runner_Life
begin

text \<open>
  What it is to end runs: \<open>ended_as st es st'\<close> says that the rows named by the run-ends \<open>es\<close>, active before, are finished
  after, each with its one run-end, and no other row is touched. Every terminal writer is one, and they compose.
\<close>

section \<open>Well-typed rows\<close>

definition run_statuses :: "string list" where
  "run_statuses = [''queued'', ''running'', ''success'', ''failure'', ''warning'', ''killed'', ''skipped'']"

definition row_typed :: "live_run \<Rightarrow> bool" where
  "row_typed r \<longleftrightarrow>
     d_status r \<in> set run_statuses \<and> d_executor r = ''runner'' \<and> (d_status r \<noteq> ''skipped'' \<longrightarrow> d_agencies r \<noteq> []) \<and>
     (waiting r \<longrightarrow> d_started_at r = None \<and> d_completed_at r = None \<and> lr_runner r = None) \<and>
     (running r \<longrightarrow> d_started_at r \<noteq> None \<and> d_completed_at r = None \<and> d_queued_reason r = None) \<and>
     (\<not> active r \<longrightarrow> d_completed_at r \<noteq> None)"

definition finished :: "live_run \<Rightarrow> live_run \<Rightarrow> bool" where
  "finished r r' \<longleftrightarrow> d_id r' = d_id r \<and> lr_runner r' = lr_runner r \<and> d_executor r' = d_executor r \<and> d_agencies r' = d_agencies r \<and>
     d_status r' \<in> set dispositions \<and> d_completed_at r' \<noteq> None"

lemma finished_ended: "finished r r' \<Longrightarrow> \<not> active r'" "finished r r' \<Longrightarrow> \<not> running r'"
  by (auto simp: finished_def dispositions_def active_def)

lemma finished_typed: "finished r r' \<Longrightarrow> active r \<Longrightarrow> row_typed r \<Longrightarrow> row_typed r'"
proof -
  assume a: "finished r r'" "active r" "row_typed r"
  then have "d_status r' \<in> set run_statuses" "\<not> active r'" "d_status r \<noteq> ''skipped''"
    by (auto simp: finished_def dispositions_def run_statuses_def active_def)
  with a show ?thesis by (auto simp: finished_def row_typed_def active_def)
qed

section \<open>Ending runs\<close>

definition ended_as :: "fleet \<Rightarrow> run_end list \<Rightarrow> fleet \<Rightarrow> bool" where
  "ended_as st es st' \<longleftrightarrow>
     (\<exists>f. fl_runs st' = map f (fl_runs st) \<and> fl_ends st' = fl_ends st @ es \<and> distinct (map re_run es) \<and>
        (\<forall>e \<in> set es. \<exists>r \<in> set (fl_runs st). d_id r = re_run e \<and> active r) \<and>
        (\<forall>r \<in> set (fl_runs st). if active r \<and> d_id r \<in> re_run ` set es then finished r (f r) else f r = r))"

lemma ended_nil: "fl_runs st' = fl_runs st \<Longrightarrow> fl_ends st' = fl_ends st \<Longrightarrow> ended_as st [] st'"
  unfolding ended_as_def by (intro exI [of _ "\<lambda>r. r"]) simp

lemma ended_same:
  "ended_as st es st' \<Longrightarrow> fl_runs st'' = fl_runs st' \<Longrightarrow> fl_ends st'' = fl_ends st' \<Longrightarrow> ended_as st es st''"
  by (simp add: ended_as_def)

lemma ended_ids:
  assumes "ended_as st es st'"
  shows "map d_id (fl_runs st') = map d_id (fl_runs st)"
proof -
  obtain f where f: "fl_runs st' = map f (fl_runs st)"
    "\<forall>r \<in> set (fl_runs st). if active r \<and> d_id r \<in> re_run ` set es then finished r (f r) else f r = r"
    using assms by (auto simp: ended_as_def)
  have "d_id (f r) = d_id r" if "r \<in> set (fl_runs st)" for r
    using f(2) that by (fastforce simp: finished_def split: if_splits)
  then show ?thesis by (simp add: f(1))
qed

lemma ended_inactive:
  assumes "ended_as st es st'" and "r \<in> set (fl_runs st')" and "active r"
  shows "r \<in> set (fl_runs st) \<and> d_id r \<notin> re_run ` set es"
  using assms by (fastforce simp: ended_as_def dest: finished_ended split: if_splits)

lemma ended_trans:
  assumes "ended_as st es st'" and "ended_as st' es' st''"
  shows "ended_as st (es @ es') st''"
proof -
  obtain f where f: "fl_runs st' = map f (fl_runs st)" "fl_ends st' = fl_ends st @ es" "distinct (map re_run es)"
    "\<forall>e \<in> set es. \<exists>r \<in> set (fl_runs st). d_id r = re_run e \<and> active r"
    "\<And>r. r \<in> set (fl_runs st) \<Longrightarrow> if active r \<and> d_id r \<in> re_run ` set es then finished r (f r) else f r = r"
    using assms(1) by (auto simp: ended_as_def)
  obtain g where g: "fl_runs st'' = map g (fl_runs st')" "fl_ends st'' = fl_ends st' @ es'" "distinct (map re_run es')"
    "\<forall>e \<in> set es'. \<exists>r \<in> set (fl_runs st'). d_id r = re_run e \<and> active r"
    "\<And>r. r \<in> set (fl_runs st') \<Longrightarrow> if active r \<and> d_id r \<in> re_run ` set es' then finished r (g r) else g r = r"
    using assms(2) by (auto simp: ended_as_def)
  have new: "\<exists>r \<in> set (fl_runs st). d_id r = re_run e \<and> active r \<and> re_run e \<notin> re_run ` set es" if "e \<in> set es'" for e
    using g(4) that ended_inactive [OF assms(1)] by metis
  have "if active r \<and> d_id r \<in> re_run ` set (es @ es') then finished r (g (f r)) else g (f r) = r" if r: "r \<in> set (fl_runs st)" for r
  proof -
    have fr: "f r \<in> set (fl_runs st')" using r by (simp add: f(1))
    show ?thesis
    proof (cases "active r \<and> d_id r \<in> re_run ` set es")
      case True
      then have "finished r (f r)" using f(5) [OF r] by simp
      then show ?thesis using g(5) [OF fr] True finished_ended(1) by auto
    next
      case False
      then have "f r = r" using f(5) [OF r] by simp
      then have "if active r \<and> d_id r \<in> re_run ` set es' then finished r (g r) else g r = r" using g(5) [OF fr] unfolding \<open>f r = r\<close> by simp
      then show ?thesis using \<open>f r = r\<close> False by (auto simp: image_Un)
    qed
  qed
  moreover have "distinct (map re_run (es @ es'))"
  proof -
    have "x \<notin> set (map re_run es)" if "x \<in> set (map re_run es')" for x using that new by fastforce
    then show ?thesis using f(3) g(3) by (simp only: map_append distinct_append) blast
  qed
  moreover have "\<exists>r \<in> set (fl_runs st). d_id r = re_run e \<and> active r" if "e \<in> set (es @ es')" for e
    using that f(4) new by fastforce
  moreover have "fl_runs st'' = map (g \<circ> f) (fl_runs st)" "fl_ends st'' = fl_ends st @ es @ es'" using f(1,2) g(1,2) by simp_all
  ultimately show ?thesis unfolding ended_as_def by (intro exI [of _ "g \<circ> f"]) (simp add: comp_def)
qed

lemma ended_one:
  assumes "distinct (map d_id (fl_runs st))" and "list_ex (\<lambda>r. d_id r = re_run e \<and> p r) (fl_runs st)"
    and "fl_runs st' = map (\<lambda>r. if d_id r = re_run e \<and> p r then g r else r) (fl_runs st)" and "fl_ends st' = fl_ends st @ [e]"
    and "\<And>r. p r \<Longrightarrow> active r \<and> finished r (g r)"
  shows "ended_as st [e] st'"
proof -
  obtain r0 where r0: "r0 \<in> set (fl_runs st)" "d_id r0 = re_run e" "p r0" using assms(2) by (auto simp: list_ex_iff)
  have "r = r0" if "r \<in> set (fl_runs st)" "d_id r = re_run e" for r
    using assms(1) r0(1,2) that by (metis distinct_map inj_onD)
  then have "\<forall>r \<in> set (fl_runs st). if active r \<and> d_id r \<in> re_run ` set [e] then finished r (if d_id r = re_run e \<and> p r then g r else r)
      else (if d_id r = re_run e \<and> p r then g r else r) = r"
    using assms(5) r0(3) by force
  moreover have "\<forall>x \<in> set [e]. \<exists>r \<in> set (fl_runs st). d_id r = re_run x \<and> active r" using r0 assms(5) by auto
  ultimately show ?thesis unfolding ended_as_def
    using assms(3,4) by (intro exI [of _ "\<lambda>r. if d_id r = re_run e \<and> p r then g r else r"]) simp
qed

lemma ended_distinct: "ended_as st es st' \<Longrightarrow> distinct (map d_id (fl_runs st)) \<Longrightarrow> distinct (map d_id (fl_runs st'))"
  by (simp add: ended_ids)

lemma filter_map_same:
  assumes "\<And>x. x \<in> set xs \<Longrightarrow> P (f x) = Q x" and "\<And>x. x \<in> set xs \<Longrightarrow> Q x \<Longrightarrow> f x = x"
  shows "filter P (map f xs) = filter Q xs"
  using assms by (induction xs) auto

lemma ended_held:
  assumes "ended_as st es st'"
  shows "held st' rid = filter (\<lambda>r. d_id r \<notin> re_run ` set es) (held st rid)"
proof -
  obtain f where f: "fl_runs st' = map f (fl_runs st)"
    "\<And>r. r \<in> set (fl_runs st) \<Longrightarrow> if active r \<and> d_id r \<in> re_run ` set es then finished r (f r) else f r = r"
    using assms by (auto simp: ended_as_def)
  have "held st' rid = filter (\<lambda>r. d_id r \<notin> re_run ` set es \<and> running r \<and> lr_runner r = Some rid) (fl_runs st)"
    unfolding held_def f(1)
  proof (rule filter_map_same)
    fix r assume r: "r \<in> set (fl_runs st)"
    show "(running (f r) \<and> lr_runner (f r) = Some rid) = (d_id r \<notin> re_run ` set es \<and> running r \<and> lr_runner r = Some rid)"
      using f(2) [OF r] by (cases "active r \<and> d_id r \<in> re_run ` set es") (auto simp: active_def dest: finished_ended(2))
    assume "d_id r \<notin> re_run ` set es \<and> running r \<and> lr_runner r = Some rid"
    then show "f r = r" using f(2) [OF r] by simp
  qed
  then show ?thesis by (simp add: held_def conj_commute conj_left_commute)
qed

lemma ended_running: "ended_as st es st' \<Longrightarrow> still_running st' t \<longleftrightarrow> still_running st t \<and> t \<notin> re_run ` set es"
proof -
  assume a: "ended_as st es st'"
  then obtain f where f: "fl_runs st' = map f (fl_runs st)"
    "\<forall>r \<in> set (fl_runs st). if active r \<and> d_id r \<in> re_run ` set es then finished r (f r) else f r = r" by (auto simp: ended_as_def)
  show ?thesis
  proof
    assume "still_running st' t"
    then obtain r where "r \<in> set (fl_runs st')" "d_id r = t" "running r" by (auto simp: still_running_def list_ex_iff)
    then show "still_running st t \<and> t \<notin> re_run ` set es"
      using ended_inactive [OF a, of r] by (auto simp: still_running_def list_ex_iff active_def)
  next
    assume "still_running st t \<and> t \<notin> re_run ` set es"
    then obtain r where r: "r \<in> set (fl_runs st)" "d_id r = t" "running r" "t \<notin> re_run ` set es" by (auto simp: still_running_def list_ex_iff)
    have "f r = r" using f(2) r by auto
    then show "still_running st' t" using r f(1) by (force simp: still_running_def list_ex_iff)
  qed
qed

lemma image_restrict: "A \<subseteq> f ` H \<Longrightarrow> f ` {x \<in> H. f x \<in> A} = A"
  by blast

text \<open>As many of a runner's rows are gone as were ended, when all of them were its own.\<close>

lemma ended_count:
  assumes "ended_as st es st'" and "distinct (map d_id (fl_runs st))" and "re_run ` set es \<subseteq> d_id ` set (held st rid)"
  shows "length (held st' rid) + length es = length (held st rid)"
proof -
  let ?h = "held st rid" and ?ids = "re_run ` set es"
  have d: "distinct (map d_id ?h)" using assms(2) by (simp add: held_def distinct_map_filter)
  have "distinct (map re_run es)" using assms(1) by (auto simp: ended_as_def)
  then have "length es = card ?ids" by (metis distinct_card length_map set_map)
  also have "\<dots> = card (d_id ` set (filter (\<lambda>r. d_id r \<in> ?ids) ?h))"
  proof -
    have "d_id ` {r \<in> set ?h. d_id r \<in> ?ids} = ?ids" using image_restrict [OF assms(3)] .
    then show ?thesis by simp
  qed
  also have "\<dots> = length (filter (\<lambda>r. d_id r \<in> ?ids) ?h)"
  proof -
    have "distinct (map d_id (filter (\<lambda>r. d_id r \<in> ?ids) ?h))" using d by (rule distinct_map_filter)
    then show ?thesis by (metis distinct_card length_map set_map)
  qed
  finally have "length es = length (filter (\<lambda>r. d_id r \<in> ?ids) ?h)" .
  then show ?thesis using ended_held [OF assms(1)] sum_length_filter_compl [of "\<lambda>r. d_id r \<in> ?ids" ?h] by simp
qed

lemma ended_all_held:
  assumes "ended_as st es st'" and "d_id ` set (held st rid) \<subseteq> re_run ` set es"
  shows "held st' rid = []"
  using assms(2) by (auto simp: ended_held [OF assms(1)] filter_empty_conv)

section \<open>The writers\<close>

lemma fields [simp]:
  "fl_runs (write_end t a b st) = fl_runs st" "fl_ends (write_end t a b st) = fl_ends st @ [\<lparr>re_run = t, re_outcome = a, re_actor = b\<rparr>]"
  "cl_runners (fl_db (write_end t a b st)) = cl_runners (fl_db st)"
  "fl_runs (emitRunTerminal t x st) = fl_runs st" "fl_ends (emitRunTerminal t x st) = fl_ends st" "fl_db (emitRunTerminal t x st) = fl_db st"
  "fl_runs (forget_refusal t st) = fl_runs st" "fl_ends (forget_refusal t st) = fl_ends st" "fl_db (forget_refusal t st) = fl_db st"
  "fl_runs (set_runner rid g st) = fl_runs st" "fl_ends (set_runner rid g st) = fl_ends st"
  "cl_runners (fl_db (set_runner rid g st)) = map (\<lambda>r. if rn_id r = rid then g r else r) (cl_runners (fl_db st))"
  "fl_runs (on_beat rid h st) = fl_runs st" "fl_ends (on_beat rid h st) = fl_ends st" "fl_db (on_beat rid h st) = fl_db st"
  "fl_runs (note_config x y z st) = fl_runs st" "fl_ends (note_config x y z st) = fl_ends st" "fl_db (note_config x y z st) = fl_db st"
  "fl_runs (set_runs k st) = map k (fl_runs st)" "fl_ends (set_runs k st) = fl_ends st" "cl_runners (fl_db (set_runs k st)) = cl_runners (fl_db st)"
  by (simp_all add: write_end_def emitRunTerminal_def forget_refusal_def set_runner_def on_beat_def note_config_def set_runs_def fl_runs_def)

lemma update_fields [simp]:
  "fl_runs (st\<lparr>fl_exit := a\<rparr>) = fl_runs st" "fl_runs (st\<lparr>fl_killed_by := b\<rparr>) = fl_runs st" "fl_runs (st\<lparr>fl_actions := c\<rparr>) = fl_runs st"
  "fl_runs (st\<lparr>fl_told := d\<rparr>) = fl_runs st" "fl_runs (st\<lparr>fl_procs := p\<rparr>) = fl_runs st" "fl_runs (st\<lparr>fl_seq := n\<rparr>) = fl_runs st"
  "fl_runs (st\<lparr>fl_shared := s\<rparr>) = fl_runs st" "fl_runs (st\<lparr>fl_tokens := tk\<rparr>) = fl_runs st" "fl_runs (st\<lparr>fl_placements := pl\<rparr>) = fl_runs st"
  "fl_runs (st\<lparr>fl_refused := rf\<rparr>) = fl_runs st" "fl_runs (st\<lparr>fl_drift := dr\<rparr>) = fl_runs st" "fl_runs (st\<lparr>fl_beat := bt\<rparr>) = fl_runs st"
  "fl_runs (st\<lparr>fl_ends := es\<rparr>) = fl_runs st"
  by (simp_all add: fl_runs_def)

lemma end_running_fields [simp]:
  "fl_runs (end_running t f st) = map (\<lambda>r. if d_id r = t \<and> running r then f r else r) (fl_runs st)"
  "fl_ends (end_running t f st) = fl_ends st" "cl_runners (fl_db (end_running t f st)) = cl_runners (fl_db st)"
  by (simp_all add: end_running_def)

lemma fail_stuck_ends:
  assumes "distinct (map d_id (fl_runs st))"
  shows "\<exists>es. ended_as st es (fail_stuck w t st) \<and> re_run ` set es = (if still_running st t then {t} else {}) \<and>
    cl_runners (fl_db (fail_stuck w t st)) = cl_runners (fl_db st)"
proof (cases "still_running st t")
  case True
  have "ended_as st [\<lparr>re_run = t, re_outcome = ''failure'', re_actor = ''system''\<rparr>] (fail_stuck w t st)"
    by (rule ended_one [OF assms, where p = running and
          g = "\<lambda>r. r\<lparr>d_status := ''failure'', d_completed_at := Some (lw_stamp w), d_queued_reason := Some ''drain_timeout''\<rparr>"])
      (use True in \<open>simp_all add: still_running_def fail_stuck_def active_def finished_def dispositions_def\<close>)
  then show ?thesis using True by (intro exI [of _ "[\<lparr>re_run = t, re_outcome = ''failure'', re_actor = ''system''\<rparr>]"]) (simp add: fail_stuck_def)
qed (auto simp: fail_stuck_def intro!: ended_nil)

lemma fold_ends:
  assumes step: "\<And>t st. distinct (map d_id (fl_runs st)) \<Longrightarrow>
      \<exists>es. ended_as st es (g t st) \<and> re_run ` set es = (if still_running st (i t) then {i t} else {}) \<and> R st (g t st)"
    and R: "\<And>st. R st st" "\<And>a b c. R a b \<Longrightarrow> R b c \<Longrightarrow> R a c"
    and "distinct (map d_id (fl_runs st))"
  shows "\<exists>es. ended_as st es (fold g ts st) \<and> re_run ` set es = {x \<in> i ` set ts. still_running st x} \<and> R st (fold g ts st)"
  using assms(4)
proof (induction ts arbitrary: st)
  case Nil
  then show ?case using R(1) by (auto intro!: exI [of _ "[]"] ended_nil)
next
  case (Cons t ts)
  from step [OF Cons.prems] obtain es where e: "ended_as st es (g t st)" "re_run ` set es = (if still_running st (i t) then {i t} else {})" "R st (g t st)" by blast
  from Cons.IH [OF ended_distinct [OF e(1) Cons.prems]] obtain es' where
    e': "ended_as (g t st) es' (fold g ts (g t st))" "re_run ` set es' = {x \<in> i ` set ts. still_running (g t st) x}" "R (g t st) (fold g ts (g t st))" by blast
  have "re_run ` set (es @ es') = {x \<in> i ` set (t # ts). still_running st x}"
    unfolding set_append image_Un e'(2) ended_running [OF e(1)] e(2) by (auto split: if_splits)
  then show ?case using ended_trans [OF e(1) e'(1)] R(2) [OF e(3) e'(3)] by (intro exI [of _ "es @ es'"]) simp
qed

lemma held_running: "d_id ` set (held st rid) \<subseteq> {t. still_running st t}"
  by (auto simp: held_def still_running_def list_ex_iff)

definition frame :: "fleet \<Rightarrow> fleet \<Rightarrow> bool" where "frame st st' \<longleftrightarrow> cl_runners (fl_db st') = cl_runners (fl_db st)"

lemma frame_simps [simp]: "frame st st" and frame_trans: "frame a b \<Longrightarrow> frame b c \<Longrightarrow> frame a c"
  by (simp_all add: frame_def)

lemma force_ends:
  assumes "distinct (map d_id (fl_runs st))"
  shows "\<exists>es. ended_as st es (forceOfflineOnDrainTimeout w rid st) \<and> re_run ` set es = d_id ` set (held st rid) \<and>
    cl_runners (fl_db (forceOfflineOnDrainTimeout w rid st)) =
      map (\<lambda>r. if rn_id r = rid then r\<lparr>rn_status := ''offline'', rn_load := 0\<rparr> else r) (cl_runners (fl_db st))"
proof -
  have "\<exists>es. ended_as st es (fold (fail_stuck w) (map d_id (held st rid)) st) \<and>
      re_run ` set es = {x \<in> (\<lambda>t. t) ` set (map d_id (held st rid)). still_running st x} \<and> frame st (fold (fail_stuck w) (map d_id (held st rid)) st)"
    by (rule fold_ends [OF _ _ _ assms]) (use fail_stuck_ends frame_trans in \<open>auto simp: frame_def\<close>)
  then obtain es where e: "ended_as st es (fold (fail_stuck w) (map d_id (held st rid)) st)"
    "re_run ` set es = {x \<in> (\<lambda>t. t) ` set (map d_id (held st rid)). still_running st x}" "frame st (fold (fail_stuck w) (map d_id (held st rid)) st)" by blast
  have "re_run ` set es = d_id ` set (held st rid)" using e(2) held_running [of st rid] by auto
  then show ?thesis using ended_same [OF e(1)] e(3) by (intro exI [of _ es]) (auto simp: forceOfflineOnDrainTimeout_def frame_def)
qed

lemma lost_ends:
  assumes "distinct (map d_id (fl_runs st))" and "endLostRuns w os st = (ended, st')"
  shows "\<exists>es. ended_as st es st' \<and> map re_run es = ended \<and> set ended = {t \<in> fst ` set os. still_running st t} \<and> frame st st'"
  using assms
proof (induction os arbitrary: st ended)
  case Nil
  then show ?case by (auto intro!: exI [of _ "[]"] ended_nil)
next
  case (Cons x os)
  obtain t s where x: "x = (t, s)" by (cases x)
  show ?case
  proof (cases "still_running st t")
    case False
    then show ?thesis using Cons.IH [OF Cons.prems(1)] Cons.prems(2) by (fastforce simp: x)
  next
    case True
    let ?e = "\<lparr>re_run = t, re_outcome = ''failure'', re_actor = ''system''\<rparr>"
    define st1 where "st1 = write_end t ''failure'' ''system'' (end_running t (\<lambda>r. r\<lparr>d_status := ''failure'', d_queued_reason := Some ''runner_lost'',
        d_completed_at := Some (lw_stamp w), d_duration_ms := Some (elapsed w s)\<rparr>) st)"
    have e: "ended_as st [?e] st1"
      by (rule ended_one [OF Cons.prems(1), where p = running and g = "\<lambda>r. r\<lparr>d_status := ''failure'', d_queued_reason := Some ''runner_lost'',
            d_completed_at := Some (lw_stamp w), d_duration_ms := Some (elapsed w s)\<rparr>"])
        (use True in \<open>simp_all add: still_running_def st1_def active_def finished_def dispositions_def\<close>)
    obtain ended' where r: "endLostRuns w os st1 = (ended', st')" "ended = t # ended'"
      using Cons.prems(2) True by (auto simp: x st1_def split: prod.splits)
    from Cons.IH [OF ended_distinct [OF e Cons.prems(1)] r(1)] obtain es where
      es: "ended_as st1 es st'" "map re_run es = ended'" "set ended' = {t \<in> fst ` set os. still_running st1 t}" "frame st1 st'" by blast
    have "set ended = {u \<in> fst ` set (x # os). still_running st u}"
      using True by (auto simp: r(2) es(3) x ended_running [OF e])
    moreover have "frame st st1" by (simp add: frame_def st1_def)
    ultimately show ?thesis
      using ended_trans [OF e es(1)] es(2,4) frame_trans by (intro exI [of _ "?e # es"]) (auto simp: r(2))
  qed
qed

lemma announce_fields [simp]:
  "fl_runs (announceLostRuns ended st) = fl_runs st" "fl_ends (announceLostRuns ended st) = fl_ends st"
  "fl_db (announceLostRuns ended st) = fl_db st"
proof -
  have "fl_runs (announceLostRuns ended st) = fl_runs st \<and> fl_ends (announceLostRuns ended st) = fl_ends st \<and> fl_db (announceLostRuns ended st) = fl_db st"
    unfolding announceLostRuns_def by (induction ended arbitrary: st) auto
  then show "fl_runs (announceLostRuns ended st) = fl_runs st" "fl_ends (announceLostRuns ended st) = fl_ends st"
    "fl_db (announceLostRuns ended st) = fl_db st" by auto
qed

lemma before_ends:
  assumes "distinct (map d_id (fl_runs st))" and "failRunningRunsBefore w rid before st = (n, st')"
  shows "\<exists>es. ended_as st es st' \<and> n = length es \<and> re_run ` set es \<subseteq> d_id ` set (held st rid) \<and>
    (before = [] \<longrightarrow> re_run ` set es = d_id ` set (held st rid)) \<and> frame st st'"
proof -
  let ?os = "map carried (filter (\<lambda>r. before = [] \<or> (case d_started_at r of None \<Rightarrow> False | Some s \<Rightarrow> s < before)) (held st rid))"
  obtain ended st1 where e: "endLostRuns w ?os st = (ended, st1)" by fastforce
  from lost_ends [OF assms(1) e] obtain es where es: "ended_as st es st1" "map re_run es = ended"
    "set ended = {t \<in> fst ` set ?os. still_running st t}" "frame st st1" by blast
  have s: "re_run ` set es = set ended" using es(2) by (metis set_map)
  have r: "n = length ended" "st' = announceLostRuns ended st1"
    using assms(2) e by (simp_all add: failRunningRunsBefore_def closeLostRuns_def)
  have "re_run ` set es \<subseteq> d_id ` set (held st rid)" by (auto simp: s es(3) carried_def)
  moreover have "re_run ` set es = d_id ` set (held st rid)" if "before = []"
    using that held_running [of st rid] by (force simp: s es(3) carried_def)
  ultimately show ?thesis
    using ended_same [OF es(1)] es(2,4) by (intro exI [of _ es]) (auto simp: r frame_def)
qed

end
