(* ===== verification/Runner_Inv.thy ===== *)
theory Runner_Inv
  imports Runner_Ends Sched_Closed Claim_Props
begin

text \<open>
  The invariant of the fleet: every row of \<open>runs\<close> is well typed and has at most one run-end, which an active row has
  none of; and, when the ends agents report are checked and written as one, an agent's load counts at least the runs it
  holds, an offline agent's is zero, and every running run is held by a runner that exists. Each operation keeps it.
\<close>

section \<open>The invariant\<close>

definition ends_of :: "fleet \<Rightarrow> string \<Rightarrow> run_end list" where
  "ends_of st t = filter (\<lambda>e. re_run e = t) (fl_ends st)"

definition rows_ok :: "fleet \<Rightarrow> bool" where
  "rows_ok st \<longleftrightarrow> distinct (map d_id (fl_runs st)) \<and> distinct (map rn_id (cl_runners (fl_db st))) \<and>
     (\<forall>r \<in> set (fl_runs st). row_typed r \<and> (active r \<longrightarrow> ends_of st (d_id r) = [])) \<and>
     (\<forall>t. length (ends_of st t) \<le> 1) \<and> (\<forall>e \<in> set (fl_ends st). re_run e \<in> d_id ` set (fl_runs st))"

definition slot_ok :: "fleet \<Rightarrow> runner \<Rightarrow> bool" where
  "slot_ok st rn \<longleftrightarrow> int (length (held st (rn_id rn))) \<le> rn_load rn \<and> (rn_status rn = ''offline'' \<longrightarrow> rn_load rn = 0)"

definition slots_ok :: "fleet \<Rightarrow> bool" where
  "slots_ok st \<longleftrightarrow> (\<forall>rn \<in> set (cl_runners (fl_db st)). rn_kind rn \<noteq> ''server'' \<longrightarrow> slot_ok st rn) \<and>
     (\<forall>r \<in> set (fl_runs st). running r \<longrightarrow> (\<exists>rn \<in> set (cl_runners (fl_db st)). lr_runner r = Some (rn_id rn)))"

definition fleet_inv :: "bool \<Rightarrow> fleet \<Rightarrow> bool" where
  "fleet_inv b st \<longleftrightarrow> rows_ok st \<and> (b \<longrightarrow> slots_ok st)"

lemma inv_rows: "fleet_inv b st \<Longrightarrow> rows_ok st" and inv_distinct: "fleet_inv b st \<Longrightarrow> distinct (map d_id (fl_runs st))"
  by (simp_all add: fleet_inv_def rows_ok_def)

lemma held_cong: "fl_runs st' = fl_runs st \<Longrightarrow> held st' rid = held st rid"
  by (simp add: held_def)

lemma held_shrinks: "ended_as st es st' \<Longrightarrow> length (held st' rid) \<le> length (held st rid)"
  by (simp add: ended_held)

lemma filter_one: "distinct (map f es) \<Longrightarrow> length (filter (\<lambda>e. f e = t) es) \<le> 1"
  by (induction es) (auto simp: filter_empty_conv image_iff)

lemma ends_append: "fl_ends st' = fl_ends st @ es \<Longrightarrow> ends_of st' t = ends_of st t @ filter (\<lambda>e. re_run e = t) es"
  by (simp add: ends_of_def)

lemma rows_ended:
  assumes "rows_ok st" and e: "ended_as st es st'" and "map rn_id (cl_runners (fl_db st')) = map rn_id (cl_runners (fl_db st))"
  shows "rows_ok st'"
proof -
  obtain f where f: "fl_runs st' = map f (fl_runs st)" "fl_ends st' = fl_ends st @ es" "distinct (map re_run es)"
    "\<And>x. x \<in> set es \<Longrightarrow> \<exists>r \<in> set (fl_runs st). d_id r = re_run x \<and> active r"
    "\<And>r. r \<in> set (fl_runs st) \<Longrightarrow> if active r \<and> d_id r \<in> re_run ` set es then finished r (f r) else f r = r"
    using e by (auto simp: ended_as_def)
  have "row_typed (f r)" if "r \<in> set (fl_runs st)" for r
    using f(5) [OF that] that assms(1) finished_typed [of r "f r"] by (auto simp: rows_ok_def split: if_splits)
  then have typed: "row_typed r" if "r \<in> set (fl_runs st')" for r using that by (auto simp: f(1))
  have active: "ends_of st' (d_id r) = []" if "r \<in> set (fl_runs st')" "active r" for r
  proof -
    have r: "r \<in> set (fl_runs st)" "d_id r \<notin> re_run ` set es" using ended_inactive [OF e that] by auto
    then have "ends_of st (d_id r) = []" using assms(1) that(2) by (auto simp: rows_ok_def)
    moreover have "re_run x \<noteq> d_id r" if "x \<in> set es" for x using r(2) that by (metis image_eqI)
    ultimately show ?thesis by (simp add: ends_append [OF f(2)] filter_empty_conv)
  qed
  have one: "length (ends_of st' t) \<le> 1" for t
  proof (cases "t \<in> re_run ` set es")
    case True
    then obtain r where "r \<in> set (fl_runs st)" "d_id r = t" "active r" using f(4) by (metis imageE)
    then have "ends_of st t = []" using assms(1) by (auto simp: rows_ok_def)
    then show ?thesis using filter_one [OF f(3)] by (simp add: ends_append [OF f(2)])
  next
    case False
    then have "filter (\<lambda>x. re_run x = t) es = []" by (auto simp: filter_empty_conv)
    then show ?thesis using assms(1) by (simp add: ends_append [OF f(2)] rows_ok_def)
  qed
  have ids: "d_id ` set (fl_runs st') = d_id ` set (fl_runs st)" using ended_ids [OF e] by (metis set_map)
  have "re_run x \<in> d_id ` set (fl_runs st')" if "x \<in> set (fl_ends st')" for x
    using that assms(1) f(2,4) unfolding ids by (auto simp: rows_ok_def) (metis image_eqI)
  then show ?thesis
    using assms(1,3) ended_distinct [OF e] typed active one by (simp add: rows_ok_def)
qed

text \<open>An operation that ends runs and changes the rows of runners in place.\<close>

lemma inv_ended:
  assumes "fleet_inv b st" and e: "ended_as st es st'" and g: "cl_runners (fl_db st') = map g (cl_runners (fl_db st))"
    and id: "\<And>rn. rn_id (g rn) = rn_id rn" "\<And>rn. rn_kind (g rn) = rn_kind rn"
    and slot: "\<And>rn. b \<Longrightarrow> rn \<in> set (cl_runners (fl_db st)) \<Longrightarrow> rn_kind rn \<noteq> ''server'' \<Longrightarrow> slot_ok st rn \<Longrightarrow> slot_ok st' (g rn)"
  shows "fleet_inv b st'"
proof -
  have "map rn_id (cl_runners (fl_db st')) = map rn_id (cl_runners (fl_db st))" by (simp add: g id)
  then have "rows_ok st'" using rows_ended [OF inv_rows [OF assms(1)] e] by simp
  moreover have "slots_ok st'" if b
  proof -
    have s: "slots_ok st" using assms(1) that by (simp add: fleet_inv_def)
    have "\<exists>rn \<in> set (cl_runners (fl_db st')). lr_runner r = Some (rn_id rn)" if "r \<in> set (fl_runs st')" "running r" for r
      using s that ended_inactive [OF e that(1)] id(1) by (auto simp: slots_ok_def g active_def)
    moreover have "slot_ok st' rn" if "rn \<in> set (cl_runners (fl_db st'))" "rn_kind rn \<noteq> ''server''" for rn
      using s slot [OF \<open>b\<close>] id(2) that by (auto simp: slots_ok_def g)
    ultimately show ?thesis by (simp add: slots_ok_def)
  qed
  ultimately show ?thesis by (simp add: fleet_inv_def)
qed

lemma slot_shrinks: "ended_as st es st' \<Longrightarrow> slot_ok st rn \<Longrightarrow> slot_ok st' rn"
  using held_shrinks [of st es st' "rn_id rn"] by (simp add: slot_ok_def)

lemma inv_shrinks: "fleet_inv b st \<Longrightarrow> ended_as st es st' \<Longrightarrow> frame st st' \<Longrightarrow> fleet_inv b st'"
  by (rule inv_ended [of b st es st' "\<lambda>r. r"]) (simp_all add: frame_def slot_shrinks [of st es st'])

lemma inv_same: "fleet_inv b st \<Longrightarrow> fl_runs st' = fl_runs st \<Longrightarrow> fl_ends st' = fl_ends st \<Longrightarrow> frame st st' \<Longrightarrow> fleet_inv b st'"
  using inv_shrinks [OF _ ended_nil] by blast

lemma inv_silent:
  assumes "fleet_inv b st"
  shows "fleet_inv b (on_beat rid h st)" "fleet_inv b (note_config x y z st)" "fleet_inv b (emitRunTerminal t a st)"
    "fleet_inv b (forget_refusal t st)" "fleet_inv b (st\<lparr>fl_procs := ps\<rparr>)" "fleet_inv b (st\<lparr>fl_procs := ps, fl_seq := n\<rparr>)"
    "fleet_inv b (st\<lparr>fl_shared := sh\<rparr>)" "fleet_inv b (st\<lparr>fl_tokens := tk\<rparr>)" "fleet_inv b (st\<lparr>fl_placements := pl\<rparr>)"
    "fleet_inv b (st\<lparr>fl_drift := dr\<rparr>)" "fleet_inv b (st\<lparr>fl_actions := ac\<rparr>)" "fleet_inv b (announceLostRuns ended st)"
proof -
  have k: "fleet_inv b st'" if "fl_runs st' = fl_runs st" "fl_ends st' = fl_ends st" "fl_db st' = fl_db st" for st'
    using assms that(1,2) by (rule inv_same) (simp add: frame_def that(3))
  show "fleet_inv b (on_beat rid h st)" "fleet_inv b (note_config x y z st)" "fleet_inv b (emitRunTerminal t a st)"
    "fleet_inv b (forget_refusal t st)" "fleet_inv b (announceLostRuns ended st)" by (rule k; simp)+
  show "fleet_inv b (st\<lparr>fl_procs := ps\<rparr>)" "fleet_inv b (st\<lparr>fl_procs := ps, fl_seq := n\<rparr>)"
    "fleet_inv b (st\<lparr>fl_shared := sh\<rparr>)" "fleet_inv b (st\<lparr>fl_tokens := tk\<rparr>)" "fleet_inv b (st\<lparr>fl_placements := pl\<rparr>)"
    "fleet_inv b (st\<lparr>fl_drift := dr\<rparr>)" "fleet_inv b (st\<lparr>fl_actions := ac\<rparr>)" by (rule k; simp)+
qed

lemma slot_same_runs: "fl_runs st' = fl_runs st \<Longrightarrow> slot_ok st' rn \<longleftrightarrow> slot_ok st rn"
  by (simp add: slot_ok_def held_cong [of st' st])

lemma slot_set_runner [simp]: "slot_ok (set_runner rid g st) rn \<longleftrightarrow> slot_ok st rn"
  by (rule slot_same_runs) simp

text \<open>A runner's row alone.\<close>

lemma inv_runner:
  assumes "fleet_inv b st" and "\<And>rn. rn_id (g rn) = rn_id rn" "\<And>rn. rn_kind (g rn) = rn_kind rn"
    and "\<And>rn. b \<Longrightarrow> rn \<in> set (cl_runners (fl_db st)) \<Longrightarrow> rn_id rn = rid \<Longrightarrow> slot_ok st rn \<Longrightarrow> slot_ok st (g rn)"
  shows "fleet_inv b (set_runner rid g st)"
proof (rule inv_ended [OF assms(1), where es = "[]" and g = "\<lambda>r. if rn_id r = rid then g r else r"])
  show "ended_as st [] (set_runner rid g st)" by (rule ended_nil) simp_all
  fix rn assume "b" "rn \<in> set (cl_runners (fl_db st))" "slot_ok st rn"
  then show "slot_ok (set_runner rid g st) (if rn_id rn = rid then g rn else rn)" using assms(4) by simp
qed (simp_all add: assms(2,3))

lemma inv_emptied:
  assumes "fleet_inv b st" and "b \<Longrightarrow> held st rid = []"
  shows "fleet_inv b (set_runner rid (\<lambda>r. r\<lparr>rn_status := ''offline'', rn_load := 0\<rparr>) st)" "fleet_inv b (set_runner rid (\<lambda>r. r\<lparr>rn_load := 0\<rparr>) st)"
  by (rule inv_runner [OF assms(1)]; use assms(2) in \<open>auto simp: slot_ok_def\<close>)+

lemma inv_admitted:
  assumes "fleet_inv b st" and "s \<noteq> ''offline''"
  shows "fleet_inv b (set_runner rid (\<lambda>r. r\<lparr>rn_status := s\<rparr>) st)"
  by (rule inv_runner [OF assms(1)]) (use assms(2) in \<open>auto simp: slot_ok_def\<close>)

lemma the_runner_row:
  assumes "rows_ok st" and "runner_row st rid = Some r" and "rn \<in> set (cl_runners (fl_db st))" and "rn_id rn = rid"
  shows "rn = r"
proof -
  have "r \<in> set (cl_runners (fl_db st))" "rn_id r = rid"
    using assms(2) by (auto simp: runner_row_def the_runner_def find_Some_iff)
  then show ?thesis using assms(1,3,4) by (auto simp: rows_ok_def distinct_map dest: inj_onD)
qed

lemma inv_idle:
  assumes "fleet_inv b st" and "runner_row st rid = Some r" and "rn_load r = 0"
  shows "fleet_inv b (set_runner rid (\<lambda>r. r\<lparr>rn_status := ''offline''\<rparr>) st)"
  by (rule inv_runner [OF assms(1)]) (use the_runner_row [OF inv_rows [OF assms(1)] assms(2)] assms(3) in \<open>auto simp: slot_ok_def\<close>)

section \<open>Ends\<close>

lemma inv_before:
  assumes "fleet_inv b st" and "failRunningRunsBefore w rid before st = (n, st')"
  shows "fleet_inv b st'" "before = [] \<Longrightarrow> held st' rid = []"
    "fleet_inv b (set_runner rid (\<lambda>r. r\<lparr>rn_load := max 0 (rn_load r - int n)\<rparr>) st')"
proof -
  from before_ends [OF inv_distinct [OF assms(1)] assms(2)] obtain es where es: "ended_as st es st'" "n = length es"
    "re_run ` set es \<subseteq> d_id ` set (held st rid)" "before = [] \<longrightarrow> re_run ` set es = d_id ` set (held st rid)" "frame st st'" by blast
  show inv: "fleet_inv b st'" by (rule inv_shrinks [OF assms(1) es(1,5)])
  show "before = [] \<Longrightarrow> held st' rid = []" using ended_all_held [OF es(1)] es(4) by simp
  have c: "length (held st' rid) + n = length (held st rid)" using ended_count [OF es(1) inv_distinct [OF assms(1)] es(3)] es(2) by simp
  show "fleet_inv b (set_runner rid (\<lambda>r. r\<lparr>rn_load := max 0 (rn_load r - int n)\<rparr>) st')"
  proof (rule inv_ended [OF assms(1), where es = es and g = "\<lambda>r. if rn_id r = rid then r\<lparr>rn_load := max 0 (rn_load r - int n)\<rparr> else r"])
    show "ended_as st es (set_runner rid (\<lambda>r. r\<lparr>rn_load := max 0 (rn_load r - int n)\<rparr>) st')" by (rule ended_same [OF es(1)]) simp_all
    fix rn assume rn: "slot_ok st rn"
    show "slot_ok (set_runner rid (\<lambda>r. r\<lparr>rn_load := max 0 (rn_load r - int n)\<rparr>) st') (if rn_id rn = rid then rn\<lparr>rn_load := max 0 (rn_load rn - int n)\<rparr> else rn)"
      using rn slot_shrinks [OF es(1) rn] c by (auto simp: slot_ok_def held_cong [of "set_runner rid _ st'" st'])
  qed (use es(5) in \<open>auto simp: frame_def\<close>)
qed

end
