(* ===== verification/Runner_Steps.thy ===== *)
theory Runner_Steps
  imports Runner_Inv
begin

text \<open>Each operation of the fleet keeps the invariant; so do the scheduler's, which add rows and close what they could not write.\<close>

section \<open>Lost runs and processes\<close>

lemma inv_fail: "fleet_inv b st \<Longrightarrow> fleet_inv b (snd (failRunningRuns w rid st))"
  and fail_empties: "fleet_inv b st \<Longrightarrow> held (snd (failRunningRuns w rid st)) rid = []"
  unfolding failRunningRuns_def using inv_before [of b st w rid "[]"] by (metis prod.collapse)+

lemma inv_clearShared: "fleet_inv b st \<Longrightarrow> fleet_inv b (clearIdentityShared rid st)"
  unfolding clearIdentityShared_def by (intro inv_silent)

lemma inv_owners: "fleet_inv b st \<Longrightarrow> fleet_inv b (closeLostRunsIfOwnersGone w rid st)"
  unfolding closeLostRunsIfOwnersGone_def
  by (auto split: option.split prod.split intro!: inv_silent(1) dest: inv_before(3))

lemma inv_record: "fleet_inv b st \<Longrightarrow> fleet_inv b (record_process w rid v st)"
  unfolding record_process_def Let_def by (auto intro: inv_silent)

lemma inv_noteProcess: "fleet_inv b st \<Longrightarrow> fleet_inv b (snd (noteProcess w rid v started st))"
  unfolding noteProcess_def resolveIdentitySharedIfAlone_def raiseIdentityShared_def Let_def
  by (auto split: option.split intro!: inv_clearShared inv_owners inv_silent inv_record)

lemma inv_restarted: "fleet_inv b st \<Longrightarrow> fleet_inv b (close_restarted w q st)"
  unfolding close_restarted_def Let_def
  using inv_noteProcess [of b st w "pq_runner q" "pq_process q" "pq_started q"]
  by (auto split: prod.split dest: inv_fail fail_empties intro!: inv_emptied(2)) (metis fail_empties inv_fail snd_conv)+

section \<open>The reaper and the deregistration\<close>

lemma inv_offline: "fleet_inv b st \<Longrightarrow> fleet_inv b (offlineRunner w rid st)"
  unfolding offlineRunner_def
  by (intro inv_clearShared inv_silent inv_emptied inv_fail fail_empties)

lemma inv_sweepOffline: "fleet_inv b st \<Longrightarrow> fleet_inv b (sweepOffline w st)"
proof -
  have "fleet_inv b (fold (offlineRunner w) ids s)" if "fleet_inv b s" for ids s
    using that by (induction ids arbitrary: s) (auto intro: inv_offline)
  then show "fleet_inv b st \<Longrightarrow> fleet_inv b (sweepOffline w st)" by (simp add: sweepOffline_def)
qed

lemma held_delete: "held (delete_runner rid st) x = (if x = rid then [] else held st x)"
proof -
  let ?f = "\<lambda>r. if lr_runner r = Some rid then r\<lparr>lr_runner := None\<rparr> else r"
  have "held (delete_runner rid st) x = filter (\<lambda>r. running r \<and> lr_runner r = Some x) (map ?f (fl_runs st))"
    by (simp add: held_def delete_runner_def fl_runs_def Let_def)
  also have "\<dots> = filter (\<lambda>r. x \<noteq> rid \<and> running r \<and> lr_runner r = Some x) (fl_runs st)"
    by (rule filter_map_same) auto
  finally show ?thesis by (simp add: held_def)
qed

lemma inv_delete_runner:
  assumes "fleet_inv b st" and "b \<Longrightarrow> held st rid = []"
  shows "fleet_inv b (delete_runner rid st)"
proof -
  let ?s = "delete_runner rid st" and ?f = "\<lambda>r. if lr_runner r = Some rid then r\<lparr>lr_runner := None\<rparr> else r"
  have r: "fl_runs ?s = map ?f (fl_runs st)" "fl_ends ?s = fl_ends st" "cl_runners (fl_db ?s) = filter (\<lambda>r. rn_id r \<noteq> rid) (cl_runners (fl_db st))"
    by (simp_all add: delete_runner_def fl_runs_def Let_def)
  have t: "row_typed (?f x)" if "row_typed x" for x using that by (auto simp: row_typed_def active_def)
  have k1: "map d_id (map ?f xs) = map d_id xs" for xs by (induction xs) auto
  have k2: "d_id ` ?f ` set (fl_runs st) = d_id ` set (fl_runs st)" using arg_cong [where f = set, OF k1 [of "fl_runs st"]] by (simp only: set_map)
  have o: "rows_ok st" using assms(1) by (rule inv_rows)
  have e: "ends_of ?s = ends_of st" by (simp add: ends_of_def fun_eq_iff r(2))
  have row: "row_typed x \<and> (active x \<longrightarrow> ends_of ?s (d_id x) = [])" if x: "x \<in> set (fl_runs ?s)" for x
  proof -
    obtain y where y: "y \<in> set (fl_runs st)" "x = ?f y" using x unfolding r(1) set_map image_iff by blast
    have "row_typed y" "active y \<longrightarrow> ends_of st (d_id y) = []" using o y(1) by (auto simp: rows_ok_def)
    then show ?thesis using t [of y] by (auto simp: y(2) e active_def)
  qed
  have ro: "rows_ok ?s"
    unfolding rows_ok_def
  proof (intro conjI ballI)
    show "distinct (map d_id (fl_runs ?s))" using o by (simp only: r(1) k1) (simp add: rows_ok_def)
    show "distinct (map rn_id (cl_runners (fl_db ?s)))" using o by (simp add: r(3) rows_ok_def distinct_map_filter)
    show "\<forall>t. length (ends_of ?s t) \<le> 1" using o by (simp add: e rows_ok_def)
    show "re_run x \<in> d_id ` set (fl_runs ?s)" if "x \<in> set (fl_ends ?s)" for x
      using o that k2 by (simp add: r rows_ok_def)
  qed (use row in blast)+
  have "slots_ok ?s" if b
  proof -
    have s: "slots_ok st" using assms(1) that by (simp add: fleet_inv_def)
    have "\<exists>rn \<in> set (cl_runners (fl_db ?s)). lr_runner x = Some (rn_id rn)" if x: "x \<in> set (fl_runs ?s)" "running x" for x
    proof -
      obtain y where y: "y \<in> set (fl_runs st)" "x = ?f y" using x(1) unfolding r(1) set_map image_iff by blast
      then have "running y" using x(2) by (auto split: if_splits)
      then have "lr_runner y \<noteq> Some rid" using assms(2) [OF \<open>b\<close>] y(1) by (auto simp: held_def filter_empty_conv)
      then show ?thesis using s y \<open>running y\<close> by (auto simp: slots_ok_def r(3))
    qed
    then show ?thesis using s by (auto simp: slots_ok_def r(3) slot_ok_def held_delete)
  qed
  with ro show ?thesis by (simp add: fleet_inv_def)
qed

lemma capture_same: "capturePlacement w rid name actor via st = Some st' \<Longrightarrow> \<exists>ps. st' = st\<lparr>fl_placements := ps\<rparr>"
  by (auto simp: capturePlacement_def split: option.splits)

lemma held_update [simp]:
  "held (st\<lparr>fl_placements := ps\<rparr>) x = held st x" "held (note_config a c d st) x = held st x" "held (revokeRunnerKeys w rid st) x = held st x"
  "held (on_beat rid h st) x = held st x" "held (announceLostRuns ended st) x = held st x"
  by (simp_all add: held_def revokeRunnerKeys_def)

lemma inv_revoke: "fleet_inv b st \<Longrightarrow> fleet_inv b (revokeRunnerKeys w rid st)"
  unfolding revokeRunnerKeys_def by (rule inv_silent)

lemma inv_reaps:
  assumes "fleet_inv b st" and "b \<Longrightarrow> held st rid = []"
  shows "fleet_inv b (deregisterRunner w rid name st)" "held st x = [] \<Longrightarrow> held (deregisterRunner w rid name st) x = []"
proof -
  show "fleet_inv b (deregisterRunner w rid name st)"
    unfolding deregisterRunner_def using assms
    by (auto split: option.split dest!: capture_same intro!: inv_delete_runner inv_silent inv_revoke)
  show "held st x = [] \<Longrightarrow> held (deregisterRunner w rid name st) x = []"
    unfolding deregisterRunner_def by (auto split: option.split dest!: capture_same simp: held_delete)
qed

lemma inv_sweepDeregister:
  assumes "fleet_inv b st"
  shows "fleet_inv b (sweepDeregister w st)"
proof -
  have "fleet_inv b (fold (\<lambda>(rid, name). deregisterRunner w rid name) gone s)"
    if "fleet_inv b s" "\<forall>(rid, name) \<in> set gone. b \<longrightarrow> held s rid = []" for gone s
    using that
  proof (induction gone arbitrary: s)
    case (Cons x gone)
    obtain rid name where x: "x = (rid, name)" by (cases x)
    have "b \<Longrightarrow> held s rid = []" using Cons.prems(2) by (simp add: x)
    note d = inv_reaps [OF Cons.prems(1) this]
    have "\<forall>(r, n) \<in> set gone. b \<longrightarrow> held (deregisterRunner w rid name s) r = []"
      using Cons.prems(2) d(2) by fastforce
    then show ?case using Cons.IH [OF d(1)] by (simp add: x)
  qed simp
  moreover have "\<forall>(rid, name) \<in> set (long_gone w st). b \<longrightarrow> held st rid = []"
    using assms by (auto simp: long_gone_def fleet_inv_def slots_ok_def slot_ok_def)
  ultimately show ?thesis using assms by (simp add: sweepDeregister_def)
qed

lemma inv_reap: "fleet_inv b st \<Longrightarrow> fleet_inv b (reapOnce w st)"
  by (simp add: reapOnce_def inv_sweepDeregister inv_sweepOffline)

lemma inv_deregister:
  assumes "fleet_inv b st" and "HandleDeregisterRunner w actor rid st = Some st'"
  shows "fleet_inv b st'"
proof -
  let ?st1 = "revokeRunnerKeys w rid st"
  obtain ended st2 where l: "endLostRuns w (runningRunsOf ?st1 rid) ?st1 = (ended, st2)" by fastforce
  have i: "fleet_inv b ?st1" by (rule inv_revoke [OF assms(1)])
  from lost_ends [OF inv_distinct [OF i] l] obtain es where es: "ended_as ?st1 es st2" "map re_run es = ended"
    "set ended = {t \<in> fst ` set (runningRunsOf ?st1 rid). still_running ?st1 t}" "frame ?st1 st2" by blast
  have "d_id ` set (held ?st1 rid) \<subseteq> re_run ` set es"
  proof -
    have "fst ` set (runningRunsOf ?st1 rid) = d_id ` set (held ?st1 rid)" by (simp add: runningRunsOf_def carried_def image_image)
    moreover have "re_run ` set es = set ended" using es(2) by (metis set_map)
    ultimately show ?thesis using held_running [of ?st1 rid] es(3) by blast
  qed
  then have h: "held st2 rid = []" by (rule ended_all_held [OF es(1)])
  have i2: "fleet_inv b st2" by (rule inv_shrinks [OF i es(1,4)])
  show ?thesis using assms(2) l h i2
    by (auto simp: HandleDeregisterRunner_def split: option.splits dest!: capture_same
        intro!: inv_silent(10) inv_clearShared inv_silent(12) inv_delete_runner inv_silent(2) inv_silent(9))
qed

section \<open>Draining and the end an agent reports\<close>

lemma inv_check: "fleet_inv b st \<Longrightarrow> fleet_inv b (checkDrainComplete w rid st)"
proof -
  assume a: "fleet_inv b st"
  from force_ends [OF inv_distinct [OF a]] obtain es where es: "ended_as st es (forceOfflineOnDrainTimeout w rid st)"
    "re_run ` set es = d_id ` set (held st rid)" "cl_runners (fl_db (forceOfflineOnDrainTimeout w rid st)) =
      map (\<lambda>r. if rn_id r = rid then r\<lparr>rn_status := ''offline'', rn_load := 0\<rparr> else r) (cl_runners (fl_db st))" by blast
  have "held (forceOfflineOnDrainTimeout w rid st) rid = []" by (rule ended_all_held [OF es(1)]) (simp add: es(2))
  then have "fleet_inv b (forceOfflineOnDrainTimeout w rid st)"
    using slot_shrinks [OF es(1)] by (intro inv_ended [OF a es(1,3)]) (auto simp: slot_ok_def)
  then show ?thesis unfolding checkDrainComplete_def using a
    by (auto split: option.split intro!: inv_silent(1) inv_idle)
qed

lemma check_ends: "distinct (map d_id (fl_runs st)) \<Longrightarrow> \<exists>es. ended_as st es (checkDrainComplete w rid st)"
  using force_ends [of st w rid]
    ended_nil [of "on_beat rid (bt_deadline_update (\<lambda>_. None)) (set_runner rid (rn_status_update (\<lambda>_. ''offline'')) st)" st] ended_nil [of st st]
  by (auto simp: checkDrainComplete_def split: option.split)

lemma find_map: "(\<And>x. P (f x) = P x) \<Longrightarrow> List.find P (map f xs) = map_option f (List.find P xs)"
  by (induction xs) auto

lemma row_set_runner:
  "(\<And>r. rn_id (g r) = rn_id r) \<Longrightarrow> runner_row (set_runner rid g st) i = map_option (\<lambda>r. if rn_id r = rid then g r else r) (runner_row st i)"
  "runner_row (on_beat i' h st) i = runner_row st i"
  by (simp_all add: runner_row_def the_runner_def find_map)

lemma row_id: "runner_row st i = Some r \<Longrightarrow> rn_id r = i"
  by (auto simp: runner_row_def the_runner_def find_Some_iff)

lemma held_on_set: "held (set_runner rid g st) x = held st x" by (simp add: held_def)

lemma inv_drain: "fleet_inv b st \<Longrightarrow> fleet_inv b (snd (HandleDrain w actor rid m st))"
proof -
  assume a: "fleet_inv b st"
  have d: "fleet_inv b (on_beat rid h (set_runner rid (\<lambda>r. r\<lparr>rn_status := ''draining''\<rparr>) st))" for h
    by (intro inv_silent inv_admitted a) simp
  have "fleet_inv b (set_runner rid (\<lambda>r. r\<lparr>rn_status := ''offline''\<rparr>) (on_beat rid h (set_runner rid (\<lambda>r. r\<lparr>rn_status := ''draining''\<rparr>) st)))"
    if "runner_row st rid = Some r" "rn_load r = 0" for r h
    by (rule inv_idle [OF d, where r = "r\<lparr>rn_status := ''draining''\<rparr>"]) (use that row_id in \<open>auto simp: row_set_runner\<close>)
  then show ?thesis unfolding HandleDrain_def Let_def
    using a by (auto split: option.split intro!: inv_silent(1,2) d)
qed

lemma inv_unwrite: "fleet_inv b (write_end t x a st) \<Longrightarrow> fleet_inv b st"
proof -
  assume a: "fleet_inv b (write_end t x a st)"
  have e: "length (ends_of st u) \<le> length (ends_of (write_end t x a st) u)" for u by (simp add: ends_of_def)
  have "ends_of st u = []" if "ends_of (write_end t x a st) u = []" for u using e [of u] that by simp
  moreover have "length (ends_of st u) \<le> 1" if "length (ends_of (write_end t x a st) u) \<le> 1" for u using e [of u] that by simp
  moreover have "slots_ok (write_end t x a st) = slots_ok st" by (simp add: slots_ok_def slot_ok_def held_def)
  ultimately show ?thesis using a unfolding fleet_inv_def rows_ok_def by simp
qed

lemma inv_write:
  assumes "fleet_inv b st" and "ends_of st t = []" and "t \<in> d_id ` set (fl_runs st)" and "\<And>r. r \<in> set (fl_runs st) \<Longrightarrow> d_id r = t \<Longrightarrow> \<not> active r"
  shows "fleet_inv b (write_end t x a st)"
proof -
  have "slots_ok (write_end t x a st) = slots_ok st" by (simp add: slots_ok_def slot_ok_def held_def)
  moreover have e: "ends_of (write_end t x a st) u = ends_of st u @ (if u = t then [\<lparr>re_run = t, re_outcome = x, re_actor = a\<rparr>] else [])" for u
    by (simp add: ends_of_def)
  ultimately show ?thesis using assms by (auto simp: fleet_inv_def rows_ok_def)
qed

text \<open>The row, the slot and the drain; the run-end comes last.\<close>

lemma inv_final_end:
  assumes inv: "fleet_inv b st" and run: "still_running st t" and g: "\<And>r. running r \<Longrightarrow> finished r (g r)"
    and own: "b \<Longrightarrow> \<exists>r \<in> set (fl_runs st). d_id r = t \<and> running r \<and> lr_runner r = Some rid"
    and st2: "fl_runs st2 = map (\<lambda>r. if d_id r = t \<and> running r then g r else r) (fl_runs st)" "fl_ends st2 = fl_ends st" "frame st st2"
  shows "fleet_inv b (write_end t x a (if rid = [] then st2 else checkDrainComplete w rid (release_slot rid st2)))"
proof -
  let ?e = "\<lparr>re_run = t, re_outcome = x, re_actor = a\<rparr>"
  have dist: "distinct (map d_id (fl_runs st))" by (rule inv_distinct [OF inv])
  have ends: "ended_as st [?e] (write_end t x a s)" if "fl_runs s = fl_runs st2" "fl_ends s = fl_ends st2" for s
    by (rule ended_one [OF dist, where p = running and g = g])
      (use run g in \<open>simp_all add: that st2 still_running_def active_def\<close>)
  have one: "r = r'" if "r \<in> set (fl_runs st)" "r' \<in> set (fl_runs st)" "d_id r = t" "d_id r' = t" for r r'
    using dist that by (metis distinct_map inj_onD)
  have i2: "fleet_inv b st2"
  proof (rule inv_unwrite, rule inv_shrinks [OF inv])
    show "ended_as st [?e] (write_end t x a st2)" by (rule ends) simp_all
    show "frame st (write_end t x a st2)" using st2(3) by (simp add: frame_def)
  qed
  let ?s = "release_slot rid st2"
  have i3: "fleet_inv b ?s"
  proof (rule inv_unwrite, rule inv_ended [OF inv ends, where g = "\<lambda>r. if rn_id r = rid then r\<lparr>rn_load := max 0 (rn_load r - 1)\<rparr> else r"])
    fix rn assume rn: "b" "slot_ok st rn"
    from own [OF rn(1)] obtain r where r: "r \<in> set (fl_runs st)" "d_id r = t" "running r" "lr_runner r = Some rid" by blast
    have "re_run ` set [?e] \<subseteq> d_id ` set (held st rid)" using r by (auto simp: held_def)
    from ended_count [OF ends [OF refl refl] dist this] have "length (held st2 rid) + 1 = length (held st rid)" by (simp add: held_def)
    then show "slot_ok (write_end t x a ?s) (if rn_id rn = rid then rn\<lparr>rn_load := max 0 (rn_load rn - 1)\<rparr> else rn)"
      using rn slot_shrinks [OF ends [OF refl refl] rn(2)] by (auto simp: slot_ok_def held_def release_slot_def)
  qed (use st2(3) in \<open>auto simp: release_slot_def frame_def\<close>)
  have ended: "ends_of st2 t = []"
  proof -
    obtain r where "r \<in> set (fl_runs st)" "d_id r = t" "running r" using run by (auto simp: still_running_def list_ex_iff)
    then show ?thesis using inv_rows [OF inv] by (auto simp: rows_ok_def ends_of_def st2(2) active_def)
  qed
  have gone: "\<not> active r" if r: "r \<in> set (fl_runs st2)" "d_id r = t" for r
  proof -
    obtain r0 where r0: "r0 \<in> set (fl_runs st)" "d_id r0 = t" "running r0" using run by (auto simp: still_running_def list_ex_iff)
    obtain y where y: "y \<in> set (fl_runs st)" "r = (if d_id y = t \<and> running y then g y else y)"
      using r(1) unfolding st2(1) set_map image_iff by blast
    have "d_id y = t" using r(2) y(2) g by (auto simp: finished_def split: if_splits)
    then have "y = r0" using one y(1) r0 by blast
    then show ?thesis using y(2) r0 g finished_ended(1) by auto
  qed
  have id: "t \<in> d_id ` set (fl_runs st2)"
  proof -
    have "map d_id (fl_runs st2) = map d_id (fl_runs st)" using g by (auto simp: st2(1) finished_def)
    moreover have "t \<in> set (map d_id (fl_runs st))" using run by (auto simp: still_running_def list_ex_iff)
    ultimately show ?thesis by (metis set_map)
  qed
  show ?thesis
  proof (cases "rid = []")
    case True
    then show ?thesis using inv_write [OF i2 ended id gone] by simp
  next
    case False
    from check_ends [OF inv_distinct [OF i3]] obtain es where es: "ended_as ?s es (checkDrainComplete w rid ?s)" by blast
    have same: "fl_runs ?s = fl_runs st2" "fl_ends ?s = fl_ends st2" by (simp_all add: release_slot_def)
    have no: "re_run e \<noteq> t" if "e \<in> set es" for e
      using es that gone by (auto simp: ended_as_def same)
    have c: "fleet_inv b (checkDrainComplete w rid ?s)" by (rule inv_check [OF i3])
    have "ends_of (checkDrainComplete w rid ?s) t = []"
    proof -
      have "fl_ends (checkDrainComplete w rid ?s) = fl_ends ?s @ es" using es by (auto simp: ended_as_def)
      then have "ends_of (checkDrainComplete w rid ?s) t = ends_of st2 t @ filter (\<lambda>e. re_run e = t) es"
        by (simp add: ends_of_def same(2))
      then show ?thesis using ended no by (simp add: filter_empty_conv)
    qed
    moreover have "t \<in> d_id ` set (fl_runs (checkDrainComplete w rid ?s))" using id ended_ids [OF es] same(1) by (metis set_map)
    moreover have "\<not> active r" if "r \<in> set (fl_runs (checkDrainComplete w rid ?s))" "d_id r = t" for r
      using ended_inactive [OF es that(1)] gone that(2) same(1) by auto
    ultimately show ?thesis using inv_write [OF c] False by simp
  qed
qed

lemma inv_finalize:
  assumes "fleet_inv b st" and "status \<in> {''success'', ''failure''}"
    and "b \<Longrightarrow> \<exists>r \<in> set (fl_runs st). d_id r = t \<and> running r \<and> lr_runner r = Some rid"
  shows "fleet_inv b (finalizeRun w t rid status exit dur reason st)"
proof (cases "still_running st t")
  case True
  let ?g = "\<lambda>r. r\<lparr>d_status := status, d_completed_at := Some (lw_stamp w), d_duration_ms := Some dur, d_queued_reason := nullStr reason\<rparr>"
  let ?st2 = "(end_running t ?g (forget_refusal t st))\<lparr>fl_exit := (fl_exit st)(t := exit)\<rparr>"
  have "fleet_inv b (write_end t status (''runner:'' @ rid) (if rid = [] then ?st2 else checkDrainComplete w rid (release_slot rid ?st2)))"
    by (rule inv_final_end [OF assms(1) True _ assms(3), where g = ?g])
      (use assms(2) in \<open>auto simp: finished_def dispositions_def frame_def\<close>)
  then show ?thesis unfolding finalizeRun_def Let_def using True by (simp only: if_True) (rule inv_silent(3))
next
  case False
  then have "\<not> b" using assms(3) by (auto simp: still_running_def list_ex_iff)
  have "fleet_inv b (release_slot rid (forget_refusal t st))" unfolding release_slot_def
    by (rule inv_runner) (use \<open>\<not> b\<close> assms(1) in \<open>auto intro: inv_silent\<close>)
  then show ?thesis using False assms(1) by (auto simp: finalizeRun_def Let_def intro: inv_check inv_silent)
qed

end
