(* ===== verification/Runner_Reach.thy ===== *)
theory Runner_Reach
  imports Runner_Steps
begin

text \<open>
  The other operations: polls and claims, an operator's stop, the local runner's ends, and the scheduler's writes to the
  table the fleet shares with it; and the order of all of them, \<open>fleet_step\<close>.
\<close>

section \<open>Claims and polls\<close>

lemma inv_claim_run:
  assumes "fleet_inv b st" and "Claim (fl_db st) req ts = (Claimed t, db')"
    and "b \<Longrightarrow> \<exists>rn \<in> set (cl_runners (fl_db st)). rn_id rn = rq_runner req \<and> (rn_kind rn = ''server'' \<or> rn_status rn \<noteq> ''offline'')"
  shows "fleet_inv b (st\<lparr>fl_db := db'\<rparr>)"
proof -
  from Claim_Claimed [OF assms(2)] obtain r where r0: "r \<in> set (cl_runs (fl_db st))" "d_id r = t" "claimable (fl_db st) req r"
    "db' = (fl_db st)\<lparr>cl_runs := map (\<lambda>x. if d_id x = t then take_run (fl_db st) req ts x else x) (cl_runs (fl_db st)),
              cl_runners := map (\<lambda>rn. if rn_id rn = rq_runner req then rn\<lparr>rn_load := rn_load rn + 1\<rparr> else rn) (cl_runners (fl_db st)),
              cl_log := cl_log (fl_db st) @ [(rq_actor req, t)]\<rparr>" by blast
  let ?s = "st\<lparr>fl_db := db'\<rparr>" and ?f = "\<lambda>x. if d_id x = t then take_run (fl_db st) req ts x else x"
  have o: "rows_ok st" using assms(1) by (rule inv_rows)
  have r: "r \<in> set (fl_runs st)" "waiting r" using r0(1,3) by (simp_all add: fl_runs_def claimable_def)
  have one: "x = r" if "x \<in> set (fl_runs st)" "d_id x = t" for x
    using o that r(1) r0(2) by (metis distinct_map inj_onD rows_ok_def)
  have s: "fl_runs ?s = map ?f (fl_runs st)" "fl_ends ?s = fl_ends st"
    "cl_runners (fl_db ?s) = map (\<lambda>rn. if rn_id rn = rq_runner req then rn\<lparr>rn_load := rn_load rn + 1\<rparr> else rn) (cl_runners (fl_db st))"
    by (simp_all add: fl_runs_def r0(4))
  have s3: "cl_runners db' = map (\<lambda>rn. if rn_id rn = rq_runner req then rn\<lparr>rn_load := rn_load rn + 1\<rparr> else rn) (cl_runners (fl_db st))"
    by (simp add: r0(4))
  have tk: "d_id (take_run db q ts x) = d_id x" "running (take_run db q ts x)" "lr_runner (take_run db q ts x) = Some (rq_runner q)" for db q x
    by (simp_all add: take_run_def)
  have ids: "map d_id (fl_runs ?s) = map d_id (fl_runs st)" by (simp add: s(1) tk)
  have e: "ends_of ?s = ends_of st" by (simp add: ends_of_def fun_eq_iff)
  have t: "row_typed (?f x) \<and> (active (?f x) \<longrightarrow> ends_of st (d_id (?f x)) = [])" if "x \<in> set (fl_runs st)" for x
  proof (cases "d_id x = t")
    case True
    then have "x = r" using one that by blast
    moreover have "row_typed r" "ends_of st (d_id r) = []" using o r by (auto simp: rows_ok_def active_def)
    ultimately show ?thesis using r(2) True by (auto simp: row_typed_def take_run_def active_def run_statuses_def)
  next
    case False
    then show ?thesis using o that by (simp add: rows_ok_def)
  qed
  have rn: "map rn_id (cl_runners (fl_db ?s)) = map rn_id (cl_runners (fl_db st))" unfolding s(3) by simp
  have ro: "rows_ok ?s"
    unfolding rows_ok_def ids rn e s(2)
  proof (intro conjI)
    show "\<forall>x \<in> set (fl_runs ?s). row_typed x \<and> (active x \<longrightarrow> ends_of st (d_id x) = [])" unfolding s(1) set_map using t by blast
    show "\<forall>x \<in> set (fl_ends st). re_run x \<in> d_id ` set (fl_runs ?s)" using o ids by (metis rows_ok_def set_map)
  qed (use o in \<open>simp_all add: rows_ok_def\<close>)
  have held: "length (held ?s x) \<le> length (held st x) + (if x = rq_runner req then 1 else 0)" for x
  proof -
    let ?P = "\<lambda>y. running y \<and> lr_runner y = Some x"
    have "length (filter ?P (map ?f ys)) \<le> length (filter ?P ys) + (if x = rq_runner req then length (filter (\<lambda>y. d_id y = t) ys) else 0)" for ys
      by (induction ys) (auto simp: tk)
    moreover have "length (filter (\<lambda>y. d_id y = t) (fl_runs st)) \<le> 1"
      using o by (intro filter_one) (simp add: rows_ok_def)
    ultimately show ?thesis by (fastforce simp: held_def s(1) split: if_splits)
  qed
  have "slots_ok ?s" if bb: b
  proof -
    have sl: "slots_ok st" using assms(1) bb by (simp add: fleet_inv_def)
    obtain rn0 where rn0: "rn0 \<in> set (cl_runners (fl_db st))" "rn_id rn0 = rq_runner req" "rn_kind rn0 = ''server'' \<or> rn_status rn0 \<noteq> ''offline''"
      using assms(3) [OF bb] by blast
    have one_rn: "x = rn0" if "x \<in> set (cl_runners (fl_db st))" "rn_id x = rq_runner req" for x
      using o that rn0(1,2) by (metis distinct_map inj_onD rows_ok_def)
    have "slot_ok ?s (if rn_id x = rq_runner req then x\<lparr>rn_load := rn_load x + 1\<rparr> else x)"
      if "x \<in> set (cl_runners (fl_db st))" "rn_kind x \<noteq> ''server''" for x
      using sl that held [of "rn_id x"] one_rn [OF that(1)] rn0(3) by (auto simp: slots_ok_def slot_ok_def split: if_splits)
    moreover have "\<exists>rn \<in> set (cl_runners (fl_db ?s)). lr_runner (?f x) = Some (rn_id rn)" if x: "x \<in> set (fl_runs st)" "running (?f x)" for x
    proof -
      have "\<exists>i \<in> rn_id ` set (cl_runners (fl_db st)). lr_runner (?f x) = Some i"
      proof (cases "d_id x = t")
        case True
        then show ?thesis using rn0(1,2) by (auto simp: tk intro: rev_image_eqI)
      qed (use sl x in \<open>auto simp: slots_ok_def\<close>)
      moreover have "rn_id ` set (cl_runners (fl_db ?s)) = rn_id ` set (cl_runners (fl_db st))"
        using arg_cong [where f = set, OF rn] by (simp only: set_map)
      ultimately show ?thesis by (metis imageE)
    qed
    ultimately show ?thesis unfolding slots_ok_def
    proof (intro conjI ballI impI)
      fix rn assume sl1: "\<And>x. x \<in> set (cl_runners (fl_db st)) \<Longrightarrow> rn_kind x \<noteq> ''server'' \<Longrightarrow>
          slot_ok ?s (if rn_id x = rq_runner req then x\<lparr>rn_load := rn_load x + 1\<rparr> else x)"
        and m: "rn \<in> set (cl_runners (fl_db ?s))" "rn_kind rn \<noteq> ''server''"
      from m(1) obtain x where x: "x \<in> set (cl_runners (fl_db st))" "rn = (if rn_id x = rq_runner req then x\<lparr>rn_load := rn_load x + 1\<rparr> else x)"
        unfolding s(3) set_map by blast
      from x(2) m(2) have "rn_kind x \<noteq> ''server''" by (cases "rn_id x = rq_runner req") simp_all
      from sl1 [OF x(1) this] show "slot_ok ?s rn" unfolding x(2) .
    next
      fix y assume own: "\<And>x. x \<in> set (fl_runs st) \<Longrightarrow> running (?f x) \<Longrightarrow> \<exists>rn \<in> set (cl_runners (fl_db ?s)). lr_runner (?f x) = Some (rn_id rn)"
        and m: "y \<in> set (fl_runs ?s)" "running y"
      from m(1) obtain x where x: "x \<in> set (fl_runs st)" "y = ?f x" unfolding s(1) set_map by blast
      show "\<exists>rn \<in> set (cl_runners (fl_db ?s)). lr_runner y = Some (rn_id rn)" using own [OF x(1)] m(2) unfolding x(2) by blast
    qed
  qed
  with ro show ?thesis by (simp add: fleet_inv_def)
qed

lemma inv_readmit: "fleet_inv b st \<Longrightarrow> fleet_inv b (snd (readmitRunner rid st))"
  unfolding readmitRunner_def by (auto split: option.split intro!: inv_silent(1,2) inv_admitted)

lemma inv_control: "fleet_inv b st \<Longrightarrow> fleet_inv b (snd (drainControl rid st))"
  unfolding drainControl_def by (simp add: inv_silent)

lemma inv_ops: "fleet_inv b st \<Longrightarrow> fleet_inv b (snd (poll_ops w q d st))"
  unfolding poll_ops_def takeResync_def noteReRegisterSent_def checkConfigDrift_def Let_def
  by (auto simp: Let_def intro!: inv_silent split: option.split prod.split)

lemma inv_ready: "fleet_inv b st \<Longrightarrow> fleet_inv b (snd (poll_ready w q r control st))"
  using inv_ops [of b st w q "bt_digest (fl_beat st (pq_runner q))"]
  unfolding poll_ready_def Let_def by (auto split: prod.split)

lemma inv_open: "fleet_inv b st \<Longrightarrow> fleet_inv b (snd (poll_open w q st))"
proof -
  assume a: "fleet_inv b st"
  let ?s = "close_restarted w q (on_beat (pq_runner q) (\<lambda>x. x\<lparr>bt_seen := Some (lw_stamp w)\<rparr>) st)"
  obtain c st2 where c: "drainControl (pq_runner q) ?s = (c, st2)" by fastforce
  obtain ok st3 where r: "readmitRunner (pq_runner q) st2 = (ok, st3)" by fastforce
  have i1: "fleet_inv b (on_beat (pq_runner q) (\<lambda>x. x\<lparr>bt_seen := Some (lw_stamp w)\<rparr>) st)" by (rule inv_silent [OF a])
  have i2: "fleet_inv b st2" using inv_control [OF inv_restarted [OF i1], of "pq_runner q" w q] by (simp add: c)
  have i3: "fleet_inv b st3" using inv_readmit [OF i2, of "pq_runner q"] by (simp add: r)
  show ?thesis unfolding poll_open_def Let_def
    using a i1 i2 i3 by (auto simp: c r split: option.split bool.split intro: inv_ready)
qed

lemma control_frame: "drainControl rid st = (c, st') \<Longrightarrow> fl_db st' = fl_db st"
  by (auto simp: drainControl_def)

lemma inv_turn:
  assumes "fleet_inv b st" and "rq_runner req = pq_runner q"
    and "b \<Longrightarrow> \<exists>rn \<in> set (cl_runners (fl_db st)). rn_id rn = pq_runner q \<and> (rn_kind rn = ''server'' \<or> rn_status rn \<noteq> ''offline'')"
  shows "fleet_inv b (snd (poll_turn w q req st))"
proof -
  obtain c st1 where c: "drainControl (pq_runner q) st = (c, st1)" by fastforce
  have i1: "fleet_inv b st1" using inv_control [OF assms(1), of "pq_runner q"] by (simp add: c)
  have "fleet_inv b (st1\<lparr>fl_db := db'\<rparr>)" if "Claim (fl_db st1) req (lw_stamp w) = (Claimed t, db')" for t db'
    by (rule inv_claim_run [OF i1 that]) (use assms(2,3) control_frame [OF c] in simp)
  then show ?thesis unfolding poll_turn_def Let_def takeResync_def noteReRegisterSent_def
    using assms(1) i1 by (auto simp: c split: list.split claim_result.split prod.split intro!: inv_silent)
qed

lemma row_in: "runner_row st i = Some r \<Longrightarrow> r \<in> set (cl_runners (fl_db st)) \<and> rn_id r = i"
  by (auto simp: runner_row_def the_runner_def find_Some_iff)

lemma readmitted:
  assumes "readmitRunner rid st = (True, st')"
  shows "\<exists>rn \<in> set (cl_runners (fl_db st')). rn_id rn = rid \<and> rn_status rn = ''online''"
proof (cases "runner_row st rid")
  case (Some r)
  note row = row_in [OF Some]
  show ?thesis
  proof (cases "rn_status r = ''offline''")
    case True
    then have "cl_runners (fl_db st') = map (\<lambda>r. if rn_id r = rid then r\<lparr>rn_status := ''online''\<rparr> else r) (cl_runners (fl_db st))"
      using assms Some by (auto simp: readmitRunner_def)
    then show ?thesis using row by (auto intro!: bexI [of _ "r\<lparr>rn_status := ''online''\<rparr>"] image_eqI [of _ _ r])
  next
    case False
    then show ?thesis using assms Some row by (auto simp: readmitRunner_def)
  qed
qed (use assms in \<open>simp add: readmitRunner_def\<close>)

lemma inv_wait:
  assumes "fleet_inv b st" and "rq_runner req = pq_runner q"
  shows "fleet_inv b (snd (poll_wait w q req st))"
proof (cases "runner_row st (pq_runner q)")
  case None
  then show ?thesis using assms(1) by (simp add: poll_wait_def)
next
  case (Some r)
  obtain ok st1 where m: "readmitRunner (pq_runner q) st = (ok, st1)" by fastforce
  have i1: "fleet_inv b st1" using inv_readmit [OF assms(1), of "pq_runner q"] by (simp add: m)
  have "fleet_inv b (snd (poll_turn w q req st1))" if ok
    using readmitted [of "pq_runner q" st st1] m that by (intro inv_turn [OF i1 assms(2)]) auto
  moreover have "fleet_inv b (snd (poll_turn w q req st))" if "rn_status r \<noteq> ''offline''"
    by (rule inv_turn [OF assms]) (use row_in [OF Some] that in blast)
  ultimately show ?thesis using Some assms(1) i1 m by (auto simp: poll_wait_def split: bool.split)
qed

section \<open>A stop, and the local runner\<close>

lemma stop_ends:
  assumes "distinct (map d_id (fl_runs st))" and "disposition \<in> set dispositions" and "stop_run w email disposition t dur st = (Stopped u, st')"
  shows "ended_as st [\<lparr>re_run = t, re_outcome = dispositionOutcome disposition, re_actor = email\<rparr>] st' \<and> frame st st'"
proof -
  have k: "list_ex (\<lambda>r. d_id r = t \<and> active r) (fl_runs st)" and s: "st' = write_end t (dispositionOutcome disposition) email
     ((set_runs (\<lambda>r. if d_id r = t \<and> active r then r\<lparr>d_status := disposition, d_completed_at := Some (lw_stamp w),
           d_duration_ms := (case d_duration_ms r of None \<Rightarrow> dur | Some d \<Rightarrow> Some d)\<rparr> else r) st)
        \<lparr>fl_killed_by := (fl_killed_by st)(t := Some email), fl_actions := fl_actions st @ [\<lparr>ac_run = t, ac_op = ''kill'', ac_consumed = False\<rparr>]\<rparr>)"
    using assms(3) by (auto simp: stop_run_def split: if_splits)
  have "ended_as st [\<lparr>re_run = t, re_outcome = dispositionOutcome disposition, re_actor = email\<rparr>] st'"
    by (rule ended_one [OF assms(1), where p = active and g = "\<lambda>r. r\<lparr>d_status := disposition, d_completed_at := Some (lw_stamp w),
           d_duration_ms := (case d_duration_ms r of None \<Rightarrow> dur | Some d \<Rightarrow> Some d)\<rparr>"])
      (use k assms(2) in \<open>simp_all add: s finished_def\<close>)
  then show ?thesis by (simp add: s frame_def)
qed

lemma inv_stop:
  assumes "fleet_inv b st" and "disposition \<in> set dispositions"
  shows "fleet_inv b (snd (stop_run w email disposition t dur st))"
proof (cases "list_ex (\<lambda>r. d_id r = t \<and> active r) (fl_runs st)")
  case True
  then obtain st' where s: "stop_run w email disposition t dur st = (Stopped t, st')" by (simp add: stop_run_def)
  from stop_ends [OF inv_distinct [OF assms(1)] assms(2) s] have "fleet_inv b st'" using inv_shrinks [OF assms(1)] by blast
  then show ?thesis by (simp add: s)
qed (use assms(1) in \<open>simp add: stop_run_def\<close>)

lemma inv_kill: "fleet_inv b st \<Longrightarrow> fleet_inv b (snd (killJob w email outcome uid source name st))"
  unfolding killJob_def Let_def by (auto split: option.split intro: inv_stop)

text \<open>Rows of the server alone.\<close>

lemma inv_servers:
  assumes "fleet_inv b st" and e: "ended_as st es st'" and "cl_runners (fl_db st') = map (\<lambda>r. if rn_kind r = ''server'' then g r else r) (cl_runners (fl_db st))"
    and "\<And>r. rn_id (g r) = rn_id r" "\<And>r. rn_kind (g r) = rn_kind r"
  shows "fleet_inv b st'"
  by (rule inv_ended [OF assms(1) e assms(3)]) (use assms(4,5) slot_shrinks [OF e] in auto)

lemma local_fields [simp]:
  "fl_runs (releaseLoad st) = fl_runs st" "fl_ends (releaseLoad st) = fl_ends st"
  "cl_runners (fl_db (releaseLoad st)) = map (\<lambda>r. if rn_kind r = ''server'' then r\<lparr>rn_load := max 0 (rn_load r - 1)\<rparr> else r) (cl_runners (fl_db st))"
  "fl_runs (emitTerminal t s st) = fl_runs st" "fl_ends (emitTerminal t s st) = fl_ends st @ [\<lparr>re_run = t, re_outcome = s, re_actor = localRunnerActor\<rparr>]"
  "cl_runners (fl_db (emitTerminal t s st)) = cl_runners (fl_db st)"
proof -
  show "fl_runs (releaseLoad st) = fl_runs st" by (simp add: releaseLoad_def fl_runs_def)
qed (simp_all add: releaseLoad_def emitTerminal_def)

lemma inv_local_end:
  assumes "fleet_inv b st" and "still_running st t" and "status \<in> set dispositions"
  shows "fleet_inv b (finalizeReason w t started status exit reason st)"
proof -
  let ?g = "\<lambda>r. r\<lparr>d_status := status, d_completed_at := Some (lw_stamp w), d_duration_ms := map_option (\<lambda>s. millis (time_sub (lw_now w) s)) started,
        d_queued_reason := (if reason = [] then d_queued_reason r else Some reason)\<rparr>"
  have "ended_as st [\<lparr>re_run = t, re_outcome = status, re_actor = localRunnerActor\<rparr>] (finalizeReason w t started status exit reason st)"
    by (rule ended_one [OF inv_distinct [OF assms(1)], where p = running and g = ?g])
      (use assms(2,3) in \<open>simp_all add: finalizeReason_def still_running_def active_def finished_def\<close>)
  then show ?thesis
    by (rule inv_servers [OF assms(1), where g = "\<lambda>r. r\<lparr>rn_load := max 0 (rn_load r - 1)\<rparr>"]) (use assms(2) in \<open>simp_all add: finalizeReason_def\<close>)
qed

lemma inv_orphan:
  assumes "fleet_inv b st"
  shows "fleet_inv b (reconcileOrphan w x st)"
proof (cases "list_ex (\<lambda>r. d_id r = fst x \<and> running r \<and> localRun st r) (fl_runs st)")
  case True
  let ?d = "elapsed w (snd x)"
  let ?g = "\<lambda>r. r\<lparr>d_status := ''failure'', d_queued_reason := Some ''executor_lost'', d_completed_at := Some (lw_stamp w),
                       d_duration_ms := (if ?d > 0 then Some ?d else None)\<rparr>"
  have "ended_as st [\<lparr>re_run = fst x, re_outcome = ''failure'', re_actor = localRunnerActor\<rparr>] (reconcileOrphan w x st)"
    by (rule ended_one [OF inv_distinct [OF assms], where p = "\<lambda>r. running r \<and> localRun st r" and g = ?g])
      (use True in \<open>simp_all add: reconcileOrphan_def Let_def active_def finished_def dispositions_def\<close>)
  then show ?thesis
    by (rule inv_servers [OF assms, where g = "\<lambda>r. r\<lparr>rn_load := max 0 (rn_load r - 1)\<rparr>"]) (use True in \<open>simp_all add: reconcileOrphan_def Let_def\<close>)
qed (use assms in \<open>simp add: reconcileOrphan_def Let_def\<close>)

lemma inv_orphans: "fleet_inv b st \<Longrightarrow> fleet_inv b (reconcileOrphans w query st)"
proof -
  have "fleet_inv b (fold (reconcileOrphan w) xs s)" if "fleet_inv b s" for xs s
    using that by (induction xs arbitrary: s) (auto intro: inv_orphan)
  then show "fleet_inv b st \<Longrightarrow> fleet_inv b (reconcileOrphans w query st)" by (simp add: reconcileOrphans_def)
qed

lemma inv_startup: "fleet_inv b st \<Longrightarrow> fleet_inv b (sweepLocalOrphansOnStartup w st)"
proof -
  assume "fleet_inv b st"
  then have i: "fleet_inv b (reconcileOrphans w (\<lambda>_. True) st)" by (rule inv_orphans)
  show ?thesis unfolding sweepLocalOrphansOnStartup_def Let_def
    by (rule inv_servers [OF i, where es = "[]" and g = "\<lambda>r. r\<lparr>rn_load := 0, rn_status := ''offline''\<rparr>"])
      (auto intro: ended_nil simp: fl_runs_def)
qed

section \<open>The scheduler's writes\<close>

text \<open>How an operation of the scheduler changes the rows: the ones there keep their runner and do not start or come back,
  the new ones are well typed and do not run.\<close>

definition row_kept :: "live_run \<Rightarrow> live_run \<Rightarrow> bool" where
  "row_kept r r' \<longleftrightarrow> d_id r' = d_id r \<and> lr_runner r' = lr_runner r \<and> running r' = running r \<and> (active r' \<longrightarrow> active r) \<and>
     (row_typed r \<longrightarrow> row_typed r')"

lemma row_kept_trans: "row_kept a b \<Longrightarrow> row_kept b c \<Longrightarrow> row_kept a c"
  by (simp add: row_kept_def)

lemma row_kept_ids: "(\<And>r. row_kept r (h r)) \<Longrightarrow> map d_id (map h xs) = map d_id xs"
  by (simp add: row_kept_def)

lemma row_kept_idset: "(\<And>r. row_kept r (h r)) \<Longrightarrow> d_id ` h ` A = d_id ` A"
  by (simp add: row_kept_def image_image)

definition grown :: "live_run list \<Rightarrow> live_run list \<Rightarrow> bool" where
  "grown rs rs' \<longleftrightarrow> (\<exists>f new. rs' = map f rs @ new \<and>
     (\<forall>r. row_kept r (f r)) \<and>
     (\<forall>x \<in> set new. row_typed x \<and> \<not> running x) \<and> distinct (map d_id new) \<and> d_id ` set new \<inter> d_id ` set rs = {})"

lemma grown_refl: "grown rs rs"
  unfolding grown_def by (intro exI [of _ "\<lambda>r. r"] exI [of _ "[]"]) (simp add: row_kept_def)

lemma grownE:
  assumes "grown rs rs'"
  obtains f new where "rs' = map f rs @ new" "\<And>r. row_kept r (f r)" "\<forall>x \<in> set new. row_typed x \<and> \<not> running x" "distinct (map d_id new)"
    "d_id ` set new \<inter> d_id ` set rs = {}"
  using assms unfolding grown_def by blast

lemma grownI:
  assumes "rs' = map f rs @ new" "\<And>r. row_kept r (f r)" "\<And>x. x \<in> set new \<Longrightarrow> row_typed x \<and> \<not> running x" "distinct (map d_id new)"
    "d_id ` set new \<inter> d_id ` set rs = {}"
  shows "grown rs rs'"
  using assms unfolding grown_def by blast

lemma grown_map:
  assumes "grown rs rs'" and h: "\<And>r. row_kept r (h r)"
  shows "grown rs (map h rs')"
proof (rule grownE [OF assms(1)])
  fix f new
  assume f: "rs' = map f rs @ new" "\<And>r. row_kept r (f r)" "\<forall>x \<in> set new. row_typed x \<and> \<not> running x" "distinct (map d_id new)"
    "d_id ` set new \<inter> d_id ` set rs = {}"
  show ?thesis
  proof (rule grownI [where f = "\<lambda>r. h (f r)" and new = "map h new"])
    show "row_kept r (h (f r))" for r using f(2) h row_kept_trans by blast
    show "row_typed x \<and> \<not> running x" if "x \<in> set (map h new)" for x
      using f(3) h that by (auto simp: row_kept_def)
    show "distinct (map d_id (map h new))" unfolding row_kept_ids [OF h] by (rule f(4))
    show "d_id ` set (map h new) \<inter> d_id ` set rs = {}" unfolding set_map row_kept_idset [OF h] by (rule f(5))
  qed (simp add: f(1))
qed

lemma grown_snoc:
  assumes "grown rs rs'" and "row_typed x" and "\<not> running x" and "d_id x \<notin> d_id ` set rs'"
  shows "grown rs (rs' @ [x])"
proof (rule grownE [OF assms(1)])
  fix f new
  assume f: "rs' = map f rs @ new" "\<And>r. row_kept r (f r)" "\<forall>x \<in> set new. row_typed x \<and> \<not> running x" "distinct (map d_id new)"
    "d_id ` set new \<inter> d_id ` set rs = {}"
  have "d_id ` set rs' = d_id ` set rs \<union> d_id ` set new" unfolding f(1) set_append set_map image_Un row_kept_idset [OF f(2)] ..
  then show ?thesis using f assms(2-4) by (intro grownI [where f = f and new = "new @ [x]"]) auto
qed

lemma queued_typed:
  "row_typed (live_of w (run_columns c t now (queued_row p) u q))" "\<not> running (live_of w (run_columns c t now (queued_row p) u q))"
  by (simp_all add: row_typed_def run_statuses_def live_of_def queued_row_def statusOrDefault_def agenciesSnapshot_def agenciesJSONOrDefault_def
      active_def db_run.defs)

lemma skipped_typed:
  "row_typed (live_of w (run_columns c t now (skipped_run p k) u q))" "\<not> running (live_of w (run_columns c t now (skipped_run p k) u q))"
  by (simp_all add: row_typed_def run_statuses_def live_of_def skipped_run_def queued_row_def statusOrDefault_def active_def db_run.defs)

lemma grown_insert:
  assumes "grown rs (runs_of s)" and "insert_run w s r = Inr (t, s')"
    and "\<And>c t now u q. row_typed (live_of w (run_columns c t now r u q)) \<and> \<not> running (live_of w (run_columns c t now r u q))"
  shows "grown rs (runs_of s') \<and> agents_of s' = agents_of s"
proof -
  from insert_run_Inr [OF assms(2)] obtain now req where i:
    "s' = (with_runs (\<lambda>rs. rs @ [live_of w (run_columns (catalog_of s) t now r (row_uid (catalog_of s) r) req)]) s)\<lparr>ss_minted := ss_minted s + 1\<rparr>"
    "t \<notin> d_id ` set (runs_of s)" by blast
  have "d_id (live_of w (run_columns c t now r u q)) = t" for c now u q by (simp add: live_of_def db_run.defs)
  then show ?thesis using assms(1,3) i by (auto intro: grown_snoc)
qed

lemma stamped_same:
  obtains f where "runs_of (with_dispatch (\<lambda>db. snd (StampUnclaimableReason db t)) s) = map f (runs_of s)"
    "\<And>r. row_kept r (f r)" "agents_of (with_dispatch (\<lambda>db. snd (StampUnclaimableReason db t)) s) = agents_of s"
proof -
  let ?db = "gd_dispatch (ss_db s)"
  define f where "f = (if fst (StampUnclaimableReason ?db t) = [] then (\<lambda>r :: live_run. r)
     else (\<lambda>r. if d_id r = t \<and> waiting r then r\<lparr>d_queued_reason := Some (fst (StampUnclaimableReason ?db t))\<rparr> else r))"
  have "cl_runs (snd (StampUnclaimableReason ?db t)) = map f (cl_runs ?db) \<and> cl_runners (snd (StampUnclaimableReason ?db t)) = cl_runners ?db"
    by (auto simp: StampUnclaimableReason_def Let_def f_def split: if_splits)
  moreover have "row_kept r (f r)" for r
    by (auto simp: f_def row_kept_def active_def row_typed_def)
  ultimately show thesis using that [of f] by (simp add: runs_of_def with_dispatch_def)
qed

lemma closed_same: "row_kept r (close_unwritten t now r)"
  by (cases "d_id r = t \<and> waiting r") (auto simp: row_kept_def close_unwritten_def active_def row_typed_def run_statuses_def)

interpretation grows: sched_closed "\<lambda>s. grown rs0 (runs_of s) \<and> agents_of s = ag0" for rs0 ag0
proof
  fix s :: sched and w p k t now s'
  assume a: "grown rs0 (runs_of s) \<and> agents_of s = ag0"
  show "insert_run w s (queued_row p) = Inr (t, s') \<Longrightarrow> grown rs0 (runs_of s') \<and> agents_of s' = ag0"
    using grown_insert [of rs0 s w "queued_row p" t s'] a queued_typed by auto
  show "insert_run w s (skipped_run p k) = Inr (t, s') \<Longrightarrow> grown rs0 (runs_of s') \<and> agents_of s' = ag0"
    using grown_insert [of rs0 s w "skipped_run p k" t s'] a skipped_typed by auto
  show "grown rs0 (runs_of (with_dispatch (\<lambda>db. snd (StampUnclaimableReason db t)) s)) \<and> agents_of (with_dispatch (\<lambda>db. snd (StampUnclaimableReason db t)) s) = ag0"
    by (rule stamped_same [of t s]) (use a in \<open>auto intro: grown_map\<close>)
  show "grown rs0 (runs_of (with_runs (map (close_unwritten t now)) s)) \<and> agents_of (with_runs (map (close_unwritten t now)) s) = ag0"
    using a closed_same by (auto intro!: grown_map)
qed (auto simp: insert_pending_def Let_def split: if_splits)

lemma inv_grown:
  assumes "fleet_inv b st" and "grown (fl_runs st) (cl_runs db)" and "cl_runners db = cl_runners (fl_db st)"
  shows "fleet_inv b (st\<lparr>fl_db := db\<rparr>)"
proof (rule grownE [OF assms(2)])
  fix f new
  assume f: "cl_runs db = map f (fl_runs st) @ new" "\<And>r. row_kept r (f r)" "\<forall>x \<in> set new. row_typed x \<and> \<not> running x" "distinct (map d_id new)"
    "d_id ` set new \<inter> d_id ` set (fl_runs st) = {}"
  let ?s = "st\<lparr>fl_db := db\<rparr>"
  have o: "rows_ok st" using assms(1) by (rule inv_rows)
  have r: "fl_runs ?s = map f (fl_runs st) @ new" by (simp add: fl_runs_def f(1))
  note ids = row_kept_ids [OF f(2)] and idset = row_kept_idset [OF f(2)]
  have e: "ends_of ?s = ends_of st" by (simp add: ends_of_def fun_eq_iff)
  have none: "ends_of st (d_id x) = []" if "x \<in> set new" for x
  proof -
    have "d_id x \<notin> d_id ` set (fl_runs st)" using f(5) that by auto
    then have "re_run y \<noteq> d_id x" if "y \<in> set (fl_ends st)" for y using o that unfolding rows_ok_def by metis
    then show ?thesis by (simp add: ends_of_def filter_empty_conv)
  qed
  have ro: "rows_ok ?s"
    unfolding rows_ok_def e r
  proof (intro conjI)
    show "distinct (map d_id (map f (fl_runs st) @ new))"
      unfolding map_append ids using o f(4,5) by (auto simp: rows_ok_def)
    show "\<forall>x \<in> set (map f (fl_runs st) @ new). row_typed x \<and> (active x \<longrightarrow> ends_of st (d_id x) = [])"
    proof
      fix x assume "x \<in> set (map f (fl_runs st) @ new)"
      then consider y where "y \<in> set (fl_runs st)" "x = f y" | "x \<in> set new" by auto
      then show "row_typed x \<and> (active x \<longrightarrow> ends_of st (d_id x) = [])"
      proof cases
        case 1
        then show ?thesis using o f(2) [of y] by (auto simp: rows_ok_def row_kept_def)
      qed (use f(3) none in blast)
    qed
    show "\<forall>x \<in> set (fl_ends ?s). re_run x \<in> d_id ` set (map f (fl_runs st) @ new)"
      using o by (auto simp: rows_ok_def image_Un idset)
  qed (use o assms(3) in \<open>simp_all add: rows_ok_def\<close>)
  have "length (held ?s x) = length (held st x)" for x
  proof -
    have "length (filter (\<lambda>y. running y \<and> lr_runner y = Some x) (map f ys)) = length (filter (\<lambda>y. running y \<and> lr_runner y = Some x) ys)" for ys
      using f(2) by (induction ys) (auto simp: row_kept_def)
    moreover have "filter (\<lambda>y. running y \<and> lr_runner y = Some x) new = []" using f(3) by (auto simp: filter_empty_conv)
    ultimately show ?thesis by (simp add: held_def r)
  qed
  moreover have "\<exists>rn \<in> set (cl_runners (fl_db ?s)). lr_runner x = Some (rn_id rn)" if x: "slots_ok st" "x \<in> set (fl_runs ?s)" "running x" for x
  proof -
    obtain y where y: "y \<in> set (fl_runs st)" "x = f y" using x(2,3) f(3) by (auto simp: r)
    then show ?thesis using x(1,3) f(2) [of y] by (auto simp: slots_ok_def row_kept_def assms(3))
  qed
  ultimately have "slots_ok ?s" if "slots_ok st"
    using that by (simp add: slots_ok_def slot_ok_def assms(3))
  with ro assms(1) show ?thesis by (simp add: fleet_inv_def)
qed

section \<open>Any order\<close>

text \<open>The scheduler's state \<open>s\<close> holds the tables of the fleet. With \<open>late\<close>, an agent's end may also be written after its
  run was ended by another, or its runner replaced.\<close>

inductive fleet_step :: "bool \<Rightarrow> fleet \<Rightarrow> fleet \<Rightarrow> bool" for late where
  clock: "gd_dispatch (ss_db s) = fl_db st \<Longrightarrow> fleet_step late st (st\<lparr>fl_db := gd_dispatch (ss_db (snd (fire fw s a)))\<rparr>)"
| clock_workflow: "gd_dispatch (ss_db s) = fl_db st \<Longrightarrow> fleet_step late st (st\<lparr>fl_db := gd_dispatch (ss_db (snd (fireWorkflow firer fw s wa)))\<rparr>)"
| promotion: "gd_dispatch (ss_db s) = fl_db st \<Longrightarrow> fleet_step late st (st\<lparr>fl_db := gd_dispatch (ss_db (PromotePending firer fw s))\<rparr>)"
| trigger: "gd_dispatch (ss_db s) = fl_db st \<Longrightarrow> fleet_step late st (st\<lparr>fl_db := gd_dispatch (ss_db (snd (EnqueueRunWithID sw s p)))\<rparr>)"
| poll: "fleet_step late st (snd (poll_open w q st))"
| wait: "rq_runner req = pq_runner q \<Longrightarrow> fleet_step late st (snd (poll_wait w q req st))"
| final: "r \<in> set (fl_runs st) \<Longrightarrow> running r \<Longrightarrow> lr_runner r = Some rid \<Longrightarrow> status \<in> {''success'', ''failure''} \<Longrightarrow>
    fleet_step late st (finalizeRun w (d_id r) rid status exit dur reason st)"
| late_final: "late \<Longrightarrow> status \<in> {''success'', ''failure''} \<Longrightarrow> fleet_step late st (finalizeRun w t rid status exit dur reason st)"
| reap: "fleet_step late st (reapOnce w st)"
| drain: "fleet_step late st (snd (HandleDrain w actor rid m st))"
| deregister: "HandleDeregisterRunner w actor rid st = Some st' \<Longrightarrow> fleet_step late st st'"
| stop: "fleet_step late st (snd (killJob w email outcome uid source name st))"
| claim_local: "rn \<in> set (cl_runners (fl_db st)) \<Longrightarrow> rn_kind rn = ''server'' \<Longrightarrow> Claim (fl_db st) (local_claim rn) ts = (Claimed t, db') \<Longrightarrow>
    fleet_step late st (st\<lparr>fl_db := db'\<rparr>)"
| end_local: "still_running st t \<Longrightarrow> status \<in> set dispositions \<Longrightarrow> fleet_step late st (finalizeReason w t started status exit reason st)"
| start_server: "fleet_step late st (sweepLocalOrphansOnStartup w st)"
| reap_local: "fleet_step late st (reapLocalOrphansOnce w stale st)"

inductive fleet_reach :: "bool \<Rightarrow> fleet \<Rightarrow> fleet \<Rightarrow> bool" for late st0 where
  start: "fleet_reach late st0 st0"
| step: "fleet_reach late st0 st \<Longrightarrow> fleet_step late st st' \<Longrightarrow> fleet_reach late st0 st'"

lemma scheduled:
  assumes "fleet_inv b st" and "gd_dispatch (ss_db s) = fl_db st" and "grown (runs_of s) (runs_of s') \<and> agents_of s' = agents_of s"
  shows "fleet_inv b (st\<lparr>fl_db := gd_dispatch (ss_db s')\<rparr>)"
  using assms by (intro inv_grown) (simp_all add: runs_of_def fl_runs_def)

lemma fleet_step_inv: "fleet_step late st st' \<Longrightarrow> fleet_inv (\<not> late) st \<Longrightarrow> fleet_inv (\<not> late) st'"
proof (induction rule: fleet_step.induct)
  case (clock s st fw a)
  show ?case by (rule scheduled [OF clock(2,1)], rule grows.fires) (simp add: grown_refl)
next
  case (clock_workflow s st firer fw wa)
  show ?case by (rule scheduled [OF clock_workflow(2,1)], rule grows.workflow_fires) (simp add: grown_refl)
next
  case (promotion s st firer fw)
  show ?case by (rule scheduled [OF promotion(2,1)], rule grows.promotes) (simp add: grown_refl)
next
  case (trigger s st sw p)
  show ?case by (rule scheduled [OF trigger(2,1)], rule grows.enqueue) (simp add: grown_refl)
next
  case (final r st rid status w exit dur reason)
  then show ?case by (intro inv_finalize) auto
next
  case (claim_local rn st ts t db')
  then show ?case by (intro inv_claim_run [OF claim_local(4,3)]) (auto simp: local_claim_def)
next
  case (late_final status st w t rid exit dur reason)
  then show ?case by (intro inv_finalize) auto
qed (auto simp: reapLocalOrphansOnce_def
    intro: inv_open inv_wait inv_reap inv_drain inv_deregister inv_kill inv_local_end inv_startup inv_orphans)

lemma fleet_reach_inv: "fleet_reach late st0 st \<Longrightarrow> fleet_inv (\<not> late) st0 \<Longrightarrow> fleet_inv (\<not> late) st"
  by (induction rule: fleet_reach.induct) (auto intro: fleet_step_inv)

end
