(* ===== verification/Runner_Props.thy ===== *)
theory Runner_Props
  imports Runner_Reach
begin

text \<open>
  What the operations of a fleet do to its runs, in any order.
\<close>

section \<open>Rows and run-ends\<close>

lemma step_late: "fleet_step late st st' \<Longrightarrow> fleet_step True st st'"
  by (induction rule: fleet_step.induct) (auto intro: fleet_step.intros)

lemma reach_late: "fleet_reach late st0 st \<Longrightarrow> fleet_reach True st0 st"
  by (induction rule: fleet_reach.induct) (auto intro: fleet_reach.intros step_late)

lemma reach_rows: "fleet_reach late st0 st \<Longrightarrow> rows_ok st0 \<Longrightarrow> rows_ok st"
  using fleet_reach_inv [OF reach_late] by (simp add: fleet_inv_def)

lemma reach_slots: "fleet_reach False st0 st \<Longrightarrow> rows_ok st0 \<Longrightarrow> slots_ok st0 \<Longrightarrow> rows_ok st \<and> slots_ok st"
  using fleet_reach_inv [of False st0 st] by (simp add: fleet_inv_def)




section \<open>The reaper\<close>

definition lost_end :: "string \<Rightarrow> run_end" where
  "lost_end t = \<lparr>re_run = t, re_outcome = ''failure'', re_actor = ''system''\<rparr>"

lemma lost_written: "endLostRuns w os st = (ended, st') \<Longrightarrow> fl_ends st' = fl_ends st @ map lost_end ended"
proof (induction os arbitrary: st ended)
  case (Cons x os)
  obtain t s where x: "x = (t, s)" by fastforce
  show ?case
    using Cons.prems Cons.IH by (fastforce simp: x lost_end_def split: if_splits prod.splits)
qed simp

lemma offline_ends:
  assumes "distinct (map d_id (fl_runs st))"
  shows "\<exists>ts. ended_as st (map lost_end ts) (offlineRunner w rid st) \<and> set ts = d_id ` set (held st rid) \<and>
    cl_runners (fl_db (offlineRunner w rid st)) =
      map (\<lambda>r. if rn_id r = rid then r\<lparr>rn_status := ''offline'', rn_load := 0\<rparr> else r) (cl_runners (fl_db st))"
proof -
  let ?os = "map carried (held st rid)"
  obtain ended st1 where e: "endLostRuns w ?os st = (ended, st1)" by fastforce
  from lost_ends [OF assms e] obtain es where es: "ended_as st es st1" "map re_run es = ended"
    "set ended = {t \<in> fst ` set ?os. still_running st t}" "frame st st1" by blast
  have s: "offlineRunner w rid st = clearIdentityShared rid (on_beat rid (\<lambda>b. b\<lparr>bt_lost_before := None\<rparr>)
       (set_runner rid (\<lambda>r. r\<lparr>rn_status := ''offline'', rn_load := 0\<rparr>) (announceLostRuns ended st1)))"
    using e by (simp add: offlineRunner_def failRunningRuns_def failRunningRunsBefore_def closeLostRuns_def)
  have "fl_ends st1 = fl_ends st @ es" using es(1) by (auto simp: ended_as_def)
  then have l: "es = map lost_end ended" using lost_written [OF e] by simp
  have "ended_as st es (offlineRunner w rid st)"
    by (rule ended_same [OF es(1)]) (simp_all add: s clearIdentityShared_def)
  moreover have "set ended = d_id ` set (held st rid)"
    using held_running [of st rid] by (auto simp: es(3) carried_def image_image)
  ultimately show ?thesis using l es(4) by (auto simp: s clearIdentityShared_def frame_def)
qed

lemma sweep_ends:
  assumes "distinct (map d_id (fl_runs st))"
  shows "\<exists>ts. ended_as st (map lost_end ts) (fold (offlineRunner w) ids st) \<and> set ts = d_id ` {r \<in> set (fl_runs st). \<exists>i \<in> set ids. r \<in> set (held st i)} \<and>
    cl_runners (fl_db (fold (offlineRunner w) ids st)) =
      map (\<lambda>r. if rn_id r \<in> set ids then r\<lparr>rn_status := ''offline'', rn_load := 0\<rparr> else r) (cl_runners (fl_db st))"
  using assms
proof (induction ids arbitrary: st)
  case Nil
  then show ?case by (auto intro!: exI [of _ "[]"] ended_nil)
next
  case (Cons i ids)
  let ?s = "offlineRunner w i st"
  from offline_ends [OF Cons.prems] obtain ts where a: "ended_as st (map lost_end ts) ?s" "set ts = d_id ` set (held st i)"
    "cl_runners (fl_db ?s) = map (\<lambda>r. if rn_id r = i then r\<lparr>rn_status := ''offline'', rn_load := 0\<rparr> else r) (cl_runners (fl_db st))" by blast
  have "distinct (map d_id (fl_runs ?s))" using Cons.prems ended_ids [OF a(1)] by simp
  from Cons.IH [OF this] obtain us where b: "ended_as ?s (map lost_end us) (fold (offlineRunner w) ids ?s)"
    "set us = d_id ` {r \<in> set (fl_runs ?s). \<exists>i \<in> set ids. r \<in> set (held ?s i)}"
    "cl_runners (fl_db (fold (offlineRunner w) ids ?s)) =
      map (\<lambda>r. if rn_id r \<in> set ids then r\<lparr>rn_status := ''offline'', rn_load := 0\<rparr> else r) (cl_runners (fl_db ?s))" by blast
  have h: "set (held ?s j) = {r \<in> set (held st j). d_id r \<notin> set ts}" for j
    by (auto simp: ended_held [OF a(1)] lost_end_def image_image)
  have sub: "set (held s j) \<subseteq> set (fl_runs s)" for s j by (auto simp: held_def)
  have "set (ts @ us) = d_id ` {r \<in> set (fl_runs st). \<exists>j \<in> set (i # ids). r \<in> set (held st j)}"
  proof -
    have "r \<in> set (fl_runs ?s)" if "r \<in> set (held st j)" "d_id r \<notin> set ts" for r j
      using sub [of ?s j] h [of j] that by blast
    then have new: "d_id r \<in> set ts \<or> d_id r \<in> set us" if "j \<in> set ids" "r \<in> set (held st j)" for r j
      using that h [of j] unfolding b(2) by blast
    have old: "\<exists>j \<in> set ids. r \<in> set (held st j)" if "\<exists>j \<in> set ids. r \<in> set (held ?s j)" for r using that h by blast
    show ?thesis
    proof (intro set_eqI iffI)
      fix x assume "x \<in> set (ts @ us)"
      then show "x \<in> d_id ` {r \<in> set (fl_runs st). \<exists>j \<in> set (i # ids). r \<in> set (held st j)}"
        using sub [of st] old unfolding set_append a(2) b(2) by force
    next
      fix x assume "x \<in> d_id ` {r \<in> set (fl_runs st). \<exists>j \<in> set (i # ids). r \<in> set (held st j)}"
      then show "x \<in> set (ts @ us)" using new a(2) by auto
    qed
  qed
  moreover have "ended_as st (map lost_end (ts @ us)) (fold (offlineRunner w) (i # ids) st)"
    using ended_trans [OF a(1) b(1)] by simp
  ultimately show ?case using a(3) b(3) by (intro exI [of _ "ts @ us"]) (auto simp: fun_eq_iff)
qed


section \<open>A stop and the local runner\<close>

text \<open>an operator's stop of a local run that is still active writes a run-end, and the worker that then ends the run
  writes another of its own outcome, though its guarded update matched no row.\<close>

theorem a_stopped_local_run_ends_twice:
  assumes "stop_run w email disposition t dur st = (Stopped t, st')" and "disposition \<in> set dispositions"
  shows "\<not> still_running st' t \<and>
    ends_of (finalizeReason w' t started status exit reason st') t =
      ends_of st t @ [\<lparr>re_run = t, re_outcome = dispositionOutcome disposition, re_actor = email\<rparr>,
                      \<lparr>re_run = t, re_outcome = status, re_actor = localRunnerActor\<rparr>] \<and>
    fl_told (finalizeReason w' t started status exit reason st') = fl_told st @ [(t, status)]"
proof -
  let ?f = "\<lambda>r. if d_id r = t \<and> active r then r\<lparr>d_status := disposition, d_completed_at := Some (lw_stamp w),
         d_duration_ms := (case d_duration_ms r of None \<Rightarrow> dur | Some d \<Rightarrow> Some d)\<rparr> else r"
  have s: "st' = write_end t (dispositionOutcome disposition) email
     ((set_runs ?f st)\<lparr>fl_killed_by := (fl_killed_by st)(t := Some email), fl_actions := fl_actions st @ [\<lparr>ac_run = t, ac_op = ''kill'', ac_consumed = False\<rparr>]\<rparr>)"
    using assms(1) by (auto simp: stop_run_def split: if_splits)
  have "disposition \<noteq> ''running''" using assms(2) by (auto simp: dispositions_def)
  then have "\<not> (d_id (?f r) = t \<and> running (?f r))" for r by (simp add: active_def)
  moreover have "fl_runs st' = map ?f (fl_runs st)" by (simp add: s)
  ultimately have over: "\<not> still_running st' t" by (auto simp only: still_running_def list_ex_iff set_map)
  have "fl_ends st' = fl_ends st @ [\<lparr>re_run = t, re_outcome = dispositionOutcome disposition, re_actor = email\<rparr>]"
    "fl_told st' = fl_told st" by (simp_all add: s write_end_def set_runs_def)
  then show ?thesis using over by (simp add: finalizeReason_def emitTerminal_def emitRunTerminal_def ends_of_def write_end_def)
qed

section \<open>A drain of an idle agent\<close>

text \<open>The statuses of the runners, and the run ids.\<close>

definition same_statuses :: "(string \<times> string) list \<Rightarrow> fleet \<Rightarrow> bool" where
  "same_statuses S st \<longleftrightarrow> map (\<lambda>r. (rn_id r, rn_status r)) (cl_runners (fl_db st)) = S \<and> distinct (map d_id (fl_runs st))"

lemma keeps_statuses:
  assumes "same_statuses S st"
  shows "same_statuses S (on_beat rid h st)" "same_statuses S (st\<lparr>fl_procs := ps\<rparr>)" "same_statuses S (st\<lparr>fl_procs := ps, fl_seq := n\<rparr>)"
    "same_statuses S (st\<lparr>fl_shared := sh\<rparr>)" "same_statuses S (st\<lparr>fl_actions := ac\<rparr>)"
    "same_statuses S (set_runner rid (\<lambda>r. r\<lparr>rn_load := f r\<rparr>) st)"
  using assms by (auto simp: same_statuses_def cong: map_cong)

lemma before_keeps_statuses:
  assumes "same_statuses S st" and "failRunningRunsBefore w rid before st = (n, st')"
  shows "same_statuses S st'"
proof -
  have d: "distinct (map d_id (fl_runs st))" using assms(1) by (simp add: same_statuses_def)
  from before_ends [OF d assms(2)] obtain es where "ended_as st es st'" "frame st st'" by blast
  then show ?thesis using assms(1) ended_ids by (simp add: same_statuses_def frame_def)
qed

lemma owners_keeps_statuses: "same_statuses S st \<Longrightarrow> same_statuses S (closeLostRunsIfOwnersGone w rid st)"
  unfolding closeLostRunsIfOwnersGone_def
  by (auto split: option.split prod.split intro!: keeps_statuses(1,6) dest: before_keeps_statuses)

lemma process_keeps_statuses: "same_statuses S st \<Longrightarrow> same_statuses S (snd (noteProcess w rid v started st))"
proof -
  assume a: "same_statuses S st"
  have r: "same_statuses S (record_process w rid v st)"
    unfolding record_process_def Let_def using a by (auto intro: keeps_statuses(2,3))
  have al: "same_statuses S (resolveIdentitySharedIfAlone rid s)" if "same_statuses S s" for s
    unfolding resolveIdentitySharedIfAlone_def clearIdentityShared_def using that by (auto intro: keeps_statuses(1,4))
  show ?thesis unfolding noteProcess_def raiseIdentityShared_def Let_def
    using a r by (auto split: option.split intro!: al owners_keeps_statuses keeps_statuses(1,4))
qed

lemma restarted_keeps_statuses:
  assumes "same_statuses S st"
  shows "same_statuses S (close_restarted w q st)"
proof -
  obtain df st1 where p: "noteProcess w (pq_runner q) (pq_process q) (pq_started q) st = (df, st1)" by fastforce
  obtain n st2 where f: "failRunningRuns w (pq_runner q) st1 = (n, st2)" by fastforce
  have s1: "same_statuses S st1" using process_keeps_statuses [OF assms, of w "pq_runner q"] p by (metis snd_conv)
  moreover have "same_statuses S st2" using before_keeps_statuses [OF s1] f by (simp add: failRunningRuns_def)
  ultimately show ?thesis by (auto simp: close_restarted_def Let_def p f intro: keeps_statuses(6))
qed

lemma status_of_row: "map_option rn_status (runner_row st rid) = map_option snd (List.find (\<lambda>p. fst p = rid) (map (\<lambda>r. (rn_id r, rn_status r)) (cl_runners (fl_db st))))"
proof -
  have "map_option rn_status (List.find (\<lambda>x. rn_id x = rid) xs) = map_option snd (List.find (\<lambda>p. fst p = rid) (map (\<lambda>r. (rn_id r, rn_status r)) xs))"
    for xs :: "runner list" by (induction xs) auto
  then show ?thesis by (simp add: runner_row_def the_runner_def)
qed

lemma same_status_row: "same_statuses S st \<Longrightarrow> same_statuses S st' \<Longrightarrow> map_option rn_status (runner_row st' rid) = map_option rn_status (runner_row st rid)"
  by (simp add: status_of_row same_statuses_def)

lemma ready_frame: "cl_runners (fl_db (snd (poll_ready w q r control st))) = cl_runners (fl_db st)"
proof -
  have "cl_runners (fl_db (snd (poll_ops w q d st))) = cl_runners (fl_db st)" for d
    by (simp add: poll_ops_def takeResync_def noteReRegisterSent_def checkConfigDrift_def Let_def split: prod.split option.split)
  then show ?thesis unfolding poll_ready_def Let_def by (auto split: prod.split) (metis snd_conv)+
qed

lemma readmit_offline:
  assumes "map_option rn_status (runner_row st rid) = Some ''offline''"
  obtains st' where "readmitRunner rid st = (True, st')" "map_option rn_status (runner_row st' rid) = Some ''online''" "fl_actions st' = fl_actions st"
proof -
  obtain r where r: "runner_row st rid = Some r" "rn_status r = ''offline''" using assms by auto
  let ?s = "set_runner rid (\<lambda>r. r\<lparr>rn_status := ''online''\<rparr>) st"
  have "runner_row ?s rid = Some (r\<lparr>rn_status := ''online''\<rparr>)"
    using row_set_runner(1) [of "\<lambda>r. r\<lparr>rn_status := ''online''\<rparr>" rid st rid] r row_id [OF r(1)] by simp
  then have "map_option rn_status (runner_row (note_config a b c (on_beat rid h ?s)) rid) = Some ''online''" for a b c h
    by (simp add: runner_row_def)
  then show thesis
    using r by (intro that [of "snd (readmitRunner rid st)"]) (simp_all add: readmitRunner_def note_config_def on_beat_def set_runner_def)
qed

lemma claim_statuses:
  assumes "Claim db req ts = (Claimed t, db')"
  shows "map (\<lambda>r. (rn_id r, rn_status r)) (cl_runners db') = map (\<lambda>r. (rn_id r, rn_status r)) (cl_runners db)"
  by (rule Claim_Claimed [OF assms]) simp

lemma turn_online: "map_option rn_status (runner_row (snd (poll_turn w q req st)) rid) = map_option rn_status (runner_row st rid)"
proof -
  obtain ops st1 where c: "drainControl (pq_runner q) st = (ops, st1)" by fastforce
  then have "fl_db st1 = fl_db st" by (rule control_frame)
  then show ?thesis unfolding status_of_row poll_turn_def Let_def takeResync_def noteReRegisterSent_def
    by (auto simp: c split: list.split claim_result.split prod.split dest: claim_statuses)
qed

lemma turn_no_drain: "fst (poll_turn w q req st) \<noteq> Some (PollOps [DrainOp])"
  by (auto simp: poll_turn_def Let_def drainControl_def split: list.split claim_result.split prod.split)

text \<open>draining an agent that holds no run sets it offline at once; its next poll, or the wait it is in, takes the offline
  row for a restarted agent's and re-admits it: the drain is undone, and no drain op is ever sent.\<close>

theorem an_idle_drain_is_undone:
  assumes "runner_row st rid = Some r" and "rn_status r = ''online''" and "rn_load r = 0" and "distinct (map d_id (fl_runs st))"
    and "HandleDrain w actor rid minutes st = (a, st')"
    and "pq_runner q = rid" and "pq_caller q = Some rid" and "bt_protocol (fl_beat st rid) \<ge> MinProtocolVersion"
  shows "a = DrainAccepted ''offline'' \<and>
    map_option rn_status (runner_row (snd (poll_open w' q st')) rid) = Some ''online'' \<and>
    (\<forall>ops. fst (poll_open w' q st') = Answer (PollOps ops) \<longrightarrow> DrainOp \<notin> set ops) \<and>
    map_option rn_status (runner_row (snd (poll_wait w' q req st')) rid) = Some ''online'' \<and>
    fst (poll_wait w' q req st') \<noteq> Some (PollOps [DrainOp])"
proof -
  obtain x where x: "a = DrainAccepted ''offline''" "st' = note_config actor x ''drain initiated'' (on_beat rid (\<lambda>b. b\<lparr>bt_deadline := None\<rparr>)
      (set_runner rid (\<lambda>r. r\<lparr>rn_status := ''offline''\<rparr>) (on_beat rid (\<lambda>b. b\<lparr>bt_deadline := Some (lw_format w (lw_now w + wrap64
        ((if minutes \<le> 0 then drainDefaultMinutes else minutes) * nsMinute)))\<rparr>) (set_runner rid (\<lambda>r. r\<lparr>rn_status := ''draining''\<rparr>) st))))"
    using assms(1-3,5) by (auto simp: HandleDrain_def Let_def)
  have row: "map_option rn_status (runner_row st' rid) = Some ''offline''"
    using assms(1) row_id [OF assms(1)] unfolding x(2) by (simp add: note_config_def runner_row_def set_runner_def on_beat_def the_runner_def find_map)
  then obtain r1 where r1: "runner_row st' rid = Some r1" "rn_status r1 = ''offline''" by auto
  obtain st'' where wait: "readmitRunner rid st' = (True, st'')" "map_option rn_status (runner_row st'' rid) = Some ''online''"
    using readmit_offline [OF row] by blast
  note calls = assms(6,7)
  have proto: "bt_protocol (fl_beat st' rid) \<ge> MinProtocolVersion"
    using assms(8) unfolding x(2) by (simp add: note_config_def on_beat_def set_runner_def)
  have dist: "distinct (map d_id (fl_runs st'))" using assms(4) unfolding x(2) by simp
  let ?S = "map (\<lambda>r. (rn_id r, rn_status r)) (cl_runners (fl_db st'))"
  let ?b = "on_beat rid (\<lambda>b. b\<lparr>bt_seen := Some (lw_stamp w')\<rparr>) st'"
  have S: "same_statuses ?S st'" using dist by (simp add: same_statuses_def)
  obtain control st2 where c: "drainControl rid (close_restarted w' q ?b) = (control, st2)" by fastforce
  have "same_statuses ?S (close_restarted w' q ?b)" by (rule restarted_keeps_statuses [OF keeps_statuses(1) [OF S]])
  then have "same_statuses ?S st2" using c by (auto simp: drainControl_def intro: keeps_statuses(5))
  then have "map_option rn_status (runner_row st2 rid) = Some ''offline''" using same_status_row [OF S] row by simp
  then obtain st3 where st3: "readmitRunner rid st2 = (True, st3)" "map_option rn_status (runner_row st3 rid) = Some ''online''"
    using readmit_offline by blast
  have opened: "poll_open w' q st' = poll_ready w' q r1 control st3"
    using calls proto r1 c st3(1) by (simp add: poll_open_def Let_def on_beat_def)
  have "map_option rn_status (runner_row (snd (poll_open w' q st')) rid) = Some ''online''"
    using st3(2) unfolding opened status_of_row ready_frame .
  moreover have "DrainOp \<notin> set ops" if "fst (poll_open w' q st') = Answer (PollOps ops)" for ops
    using that c unfolding opened by (auto simp: poll_ready_def poll_ops_def respondControlOr204_def drainControl_def Let_def split: prod.splits if_splits)
  moreover have "map_option rn_status (runner_row (snd (poll_wait w' q req st')) rid) = Some ''online''"
    using wait r1 calls(1) turn_online by (simp add: poll_wait_def)
  moreover have "fst (poll_wait w' q req st') \<noteq> Some (PollOps [DrainOp])"
    using wait r1 calls(1) turn_no_drain by (simp add: poll_wait_def)
  ultimately show ?thesis using x(1) by simp
qed

section \<open>A small fleet\<close>

definition demo_life :: life_world where
  "demo_life = \<lparr>lw_now = 0, lw_format = (\<lambda>_. ''10:06''), lw_parse = (\<lambda>_. None), lw_offlineAfter = 0, lw_deregisterAfter = 0\<rparr>"

definition demo_beat :: beat where
  "demo_beat = \<lparr>bt_seen = None, bt_registered = ''10:00'', bt_deadline = None, bt_lost_before = None, bt_shared_at = None, bt_protocol = 14,
     bt_resync = False, bt_digest = []\<rparr>"

definition demo_fleet :: fleet where
  "demo_fleet = \<lparr>fl_db = demo_dispatch, fl_beat = (\<lambda>_. demo_beat), fl_procs = [], fl_seq = 0, fl_exit = (\<lambda>_. None), fl_killed_by = (\<lambda>_. None),
     fl_actions = [], fl_ends = [], fl_told = [], fl_notes = [], fl_shared = [], fl_tokens = [], fl_placements = [], fl_refused = (\<lambda>_. None),
     fl_drift = (\<lambda>_. None)\<rparr>"

definition demo_poll :: poll_request where
  "demo_poll = \<lparr>pq_runner = ''r1'', pq_caller = Some ''r1'', pq_started = True, pq_process = ''p1'', pq_claims = True, pq_digest = [],
     pq_hostkeys = [], pq_settings = False, pq_watches = False\<rparr>"

text \<open>The agent takes a run, and reports its end.\<close>

definition demo_taken :: fleet where "demo_taken = snd (poll_wait demo_life demo_poll demo_request demo_fleet)"
definition demo_done :: fleet where "demo_done = finalizeRun demo_life ''b'' ''r1'' ''success'' (Some 0) 5 [] demo_taken"

lemma demo_rows: "rows_ok demo_fleet"
proof -
  have "list_all row_typed (fl_runs demo_fleet) \<and> distinct (map d_id (fl_runs demo_fleet)) \<and> distinct (map rn_id (cl_runners (fl_db demo_fleet)))"
    by code_simp
  then show ?thesis by (simp add: rows_ok_def ends_of_def list_all_iff) (simp add: demo_fleet_def)
qed

lemma demo_slots: "slots_ok demo_fleet"
proof -
  have "held demo_fleet ''r1'' = [] \<and> list_all (\<lambda>r. \<not> running r) (fl_runs demo_fleet)" by code_simp
  then show ?thesis by (auto simp: slots_ok_def slot_ok_def list_all_iff) (auto simp: demo_fleet_def demo_dispatch_def demo_runner_def)
qed

lemma demo_takes: "fleet_reach late demo_fleet demo_taken"
  unfolding demo_taken_def by (rule fleet_reach.step [OF fleet_reach.start], rule fleet_step.wait) code_simp

lemma demo_takes_b: "length (fl_runs demo_taken) = 2 \<and> running (fl_runs demo_taken ! 1) \<and> d_id (fl_runs demo_taken ! 1) = ''b'' \<and>
    lr_runner (fl_runs demo_taken ! 1) = Some ''r1''"
  by code_simp

lemma demo_ends: "fleet_reach late demo_fleet demo_done"
proof -
  have b: "fl_runs demo_taken ! 1 \<in> set (fl_runs demo_taken)" using demo_takes_b by simp
  have "fleet_step late demo_taken (finalizeRun demo_life (d_id (fl_runs demo_taken ! 1)) ''r1'' ''success'' (Some 0) 5 [] demo_taken)"
    by (rule fleet_step.final [OF b]) (use demo_takes_b in simp_all)
  then show ?thesis using fleet_reach.step [OF demo_takes] demo_takes_b by (simp add: demo_done_def)
qed





theorem a_stopped_local_run_ends_twice_witness:
  "length (ends_of (finalizeReason demo_life ''b'' None ''success'' (Some 0) [] (snd (stop_run demo_life ''ann'' ''killed'' ''b'' None demo_taken))) ''b'') = 2"
proof -
  have k: "fst (stop_run demo_life ''ann'' ''killed'' ''b'' None demo_taken) = Stopped ''b'' \<and> ends_of demo_taken ''b'' = [] \<and> ''killed'' \<in> set dispositions"
    by code_simp
  then have "stop_run demo_life ''ann'' ''killed'' ''b'' None demo_taken = (Stopped ''b'', snd (stop_run demo_life ''ann'' ''killed'' ''b'' None demo_taken))"
    by (metis prod.collapse)
  from a_stopped_local_run_ends_twice [OF this, of demo_life None "''success''" "Some 0" "[]"] k show ?thesis by simp
qed

theorem an_idle_drain_is_undone_witness:
  "fst (HandleDrain demo_life ''ann'' ''r1'' 10 demo_fleet) = DrainAccepted ''offline'' \<and>
   map_option rn_status (runner_row (snd (poll_open demo_life demo_poll (snd (HandleDrain demo_life ''ann'' ''r1'' 10 demo_fleet)))) ''r1'') = Some ''online''"
proof -
  have k: "runner_row demo_fleet ''r1'' = Some demo_runner \<and> rn_status demo_runner = ''online'' \<and> rn_load demo_runner = 0 \<and>
      distinct (map d_id (fl_runs demo_fleet)) \<and> bt_protocol (fl_beat demo_fleet ''r1'') \<ge> MinProtocolVersion \<and> pq_runner demo_poll = ''r1'' \<and>
      pq_caller demo_poll = Some ''r1''"
    by (simp add: demo_fleet_def runner_row_def the_runner_def demo_dispatch_def demo_runner_def demo_beat_def MinProtocolVersion_def demo_poll_def
        fl_runs_def demo_distinct [unfolded demo_dispatch_def, simplified])
  then show ?thesis
    using an_idle_drain_is_undone [of demo_fleet "''r1''" demo_runner demo_life "''ann''" 10 _ _ demo_poll demo_life] by (metis prod.collapse)
qed

end
