(* ===== verification/Redact.thy ===== *)
theory Redact
  imports Go_Prelude
begin

text \<open>
  Redaction (\<open>backend/internal/redactdict/dict.go\<close>, \<open>backend/internal/runner/redact.go\<close>): which values enter a
  dictionary, the dictionary of a run, and the replacement of its values in a line. Values and lines are strings
  of bytes; case and space are those of ASCII.
\<close>

section \<open>The dictionary\<close>

definition Mask :: string where "Mask = ''[REDACTED]''"
definition minLen :: nat where "minLen = 5"

definition commonLiterals :: "string list" where
  "commonLiterals = [''true'', ''false'', ''null'', ''none'', ''nil'',
     ''trace'', ''debug'', ''info'', ''warn'', ''warning'', ''error'', ''fatal'',
     ''prod'', ''production'', ''dev'', ''development'', ''stage'', ''staging'', ''test'', ''testing'',
     ''local'', ''localhost'', ''default'', ''unknown'',
     ''enabled'', ''disabled'', ''active'', ''inactive'', ''online'', ''offline'']"

definition Skip :: "string \<Rightarrow> bool" where
  "Skip v \<longleftrightarrow> length v < minLen \<or> to_lower (trim_space v) \<in> set commonLiterals"

definition multi_line :: "string \<Rightarrow> bool" where
  "multi_line v \<longleftrightarrow> CHR 0x0A \<in> set v \<or> CHR 0x0D \<in> set v"

definition line_fields :: "string \<Rightarrow> string list" where
  "line_fields v = filter (\<lambda>w. w \<noteq> []) (split_on (CHR 0x0A) (map (\<lambda>c. if c = CHR 0x0D then CHR 0x0A else c) v))"

definition AddValue :: "string list \<Rightarrow> string \<Rightarrow> string list" where
  "AddValue vals v =
     (if v = [] then vals
      else (if Skip v then vals else vals @ [v]) @
           (if multi_line v then filter (\<lambda>l. l \<noteq> [] \<and> \<not> Skip l) (map trim_space (line_fields v)) else []))"

text \<open>Longest first; values of one length in the order they came.\<close>

definition FromValues :: "string list \<Rightarrow> string list" where
  "FromValues vals = sort_key (\<lambda>v. - int (length v)) vals"

definition New :: "string list \<Rightarrow> string list" where
  "New raw = FromValues (foldl AddValue [] raw)"

section \<open>The replacement\<close>

text \<open>\<open>bytes.ReplaceAll\<close>, leftmost and not overlapping, of a value that is not empty.\<close>

function replace_all :: "string \<Rightarrow> string \<Rightarrow> string \<Rightarrow> string" where
  "replace_all v r s =
     (if v = [] \<or> s = [] then s
      else if has_prefix s v then r @ replace_all v r (drop (length v) s)
      else hd s # replace_all v r (tl s))"
  by pat_completeness auto
termination by (relation "measure (\<lambda>(v, r, s). length s)") auto

declare replace_all.simps [simp del]

definition Redact :: "string list \<Rightarrow> string \<Rightarrow> string" where
  "Redact dict p = foldl (\<lambda>p v. if contains p v then replace_all v Mask p else p) p dict"

text \<open>The dictionary of a run: the multi-line values of \<open>env_vars\<close>, the stored secrets, and what dispatch injected;
  \<open>None\<close> when the first two could not be read.\<close>

definition NewRedactor :: "string list option \<Rightarrow> string list option \<Rightarrow> string list \<Rightarrow> string list option" where
  "NewRedactor env stored extra =
     (case (env, stored) of
        (Some es, Some ss) \<Rightarrow> Some (FromValues (foldl AddValue (foldl AddValue (foldl AddValue [] (filter multi_line es)) ss) extra))
      | _ \<Rightarrow> None)"

section \<open>What a redacted line holds\<close>

lemma contains_iff: "contains s p \<longleftrightarrow> (\<exists>a b. s = a @ p @ b)"
proof (induction s)
  case (Cons c s)
  have "(\<exists>a b. c # s = a @ p @ b) \<longleftrightarrow> (\<exists>b. c # s = p @ b) \<or> (\<exists>a b. s = a @ p @ b)"
    by (metis append_Cons append_Nil list.inject neq_Nil_conv)
  then show ?case using Cons by (simp add: has_prefix_iff)
qed simp

lemma contains_tl: "contains (tl s) u \<Longrightarrow> contains s u" and contains_drop: "contains (drop n s) u \<Longrightarrow> contains s u"
  unfolding contains_iff by (metis append_Cons list.collapse tl_Nil) (metis append_assoc append_take_drop_id)

text \<open>A value that cannot be made by the mask: no bracket in it, and not a part of the mask's word.\<close>

definition maskable :: "string \<Rightarrow> bool" where
  "maskable u \<longleftrightarrow> u \<noteq> [] \<and> CHR ''['' \<notin> set u \<and> CHR '']'' \<notin> set u \<and> \<not> contains Mask u"

lemma maskable_after: "maskable u \<Longrightarrow> contains (Mask @ s) u \<Longrightarrow> contains s u"
proof -
  assume u: "maskable u" and "contains (Mask @ s) u"
  then obtain a b where ab: "Mask @ s = a @ u @ b" by (auto simp: contains_iff)
  from iffD1 [OF append_eq_append_conv2 ab] obtain us where us: "Mask = a @ us \<and> us @ s = u @ b \<or> Mask @ us = a \<and> s = us @ u @ b" by blast
  then consider c where "a = Mask @ c" "s = c @ u @ b" | c where "Mask = a @ c" "c \<noteq> []" "c @ s = u @ b"
    by (cases "us = []") (metis append_Nil append_Nil2, blast)
  then show "contains s u"
  proof cases
    case 2
    have "CHR '']'' = last Mask" by (simp add: Mask_def)
    then have lc: "CHR '']'' \<in> set c" using 2(1,2) by (metis last_appendR last_in_set)
    from iffD1 [OF append_eq_append_conv2 2(3)] consider d where "c = u @ d" | d where "u = c @ d" by blast
    then show ?thesis
    proof cases
      case 1
      then have "contains Mask u" using 2(1) by (auto simp: contains_iff)
      then show ?thesis using u by (simp add: maskable_def)
    qed (use lc u in \<open>simp add: maskable_def\<close>)
  qed (auto simp: contains_iff)
qed

lemma prefix_kept: "CHR ''['' \<notin> set u \<Longrightarrow> has_prefix (replace_all v Mask s) u \<Longrightarrow> has_prefix s u"
proof (induction v Mask s arbitrary: u rule: replace_all.induct)
  case (1 v s)
  show ?case
  proof (cases u)
    case (Cons c u')
    show ?thesis
    proof (cases "v = [] \<or> s = []")
      case False
      have "\<not> has_prefix s v"
      proof
        assume p: "has_prefix s v"
        have "has_prefix (Mask @ replace_all v Mask (drop (length v) s)) u" using "1.prems"(2) False p by (simp add: replace_all.simps)
        then show False using "1.prems"(1) by (auto simp: Cons Mask_def has_prefix_def)
      qed
      moreover from this have "has_prefix (hd s # replace_all v Mask (tl s)) u" using "1.prems"(2) False by (simp add: replace_all.simps)
      ultimately show ?thesis using "1.hyps"(2) [of u'] "1.prems"(1) False
        by (cases s) (auto simp: Cons has_prefix_def)
    qed (use "1.prems" in \<open>simp add: replace_all.simps\<close>)
  qed (simp add: has_prefix_def)
qed

lemma prefix_contains: "has_prefix s u \<Longrightarrow> contains s u"
  unfolding contains_iff has_prefix_iff by (metis append_Nil)

lemma replaced_holds:
  assumes "maskable u"
  shows "contains (replace_all v Mask s) u \<Longrightarrow> contains s u" "v = u \<Longrightarrow> \<not> contains (replace_all v Mask s) u"
proof -
  have "(contains (replace_all v Mask s) u \<longrightarrow> contains s u) \<and> (v = u \<longrightarrow> \<not> contains (replace_all v Mask s) u)"
  proof (induction v Mask s rule: replace_all.induct)
    case (1 v s)
    consider "v = [] \<or> s = []" | "\<not> (v = [] \<or> s = [])" "has_prefix s v" | "\<not> (v = [] \<or> s = [])" "\<not> has_prefix s v" by blast
    then show ?case
    proof cases
      case 1
      then have "replace_all v Mask s = s" by (simp add: replace_all.simps [of v Mask s])
      moreover have "v \<noteq> u \<or> s = []" "u \<noteq> []" using 1 assms by (auto simp: maskable_def)
      ultimately show ?thesis by (auto simp del: contains.simps simp: contains.simps(1))
    next
      case 2
      let ?r = "replace_all v Mask (drop (length v) s)"
      have s: "replace_all v Mask s = Mask @ ?r" using 2 by (simp add: replace_all.simps [of v Mask s])
      have ih: "(contains ?r u \<longrightarrow> contains (drop (length v) s) u) \<and> (v = u \<longrightarrow> \<not> contains ?r u)" by (rule "1.hyps"(1) [OF 2])
      have "contains (Mask @ ?r) u \<Longrightarrow> contains ?r u" by (rule maskable_after [OF assms])
      then show ?thesis unfolding s using ih contains_drop [of "length v" s u] by blast
    next
      case 3
      have s: "replace_all v Mask s = hd s # replace_all v Mask (tl s)" using 3 by (simp add: replace_all.simps)
      have p: "has_prefix s u" if "has_prefix (replace_all v Mask s) u" by (rule prefix_kept [OF _ that]) (use assms in \<open>simp add: maskable_def\<close>)
      show ?thesis using "1.hyps"(2) [OF 3] p 3(2) contains_tl [of s u] prefix_contains [of s u] unfolding s contains.simps(2) by blast
    qed
  qed
  then show "contains (replace_all v Mask s) u \<Longrightarrow> contains s u" "v = u \<Longrightarrow> \<not> contains (replace_all v Mask s) u" by blast+
qed

lemma redact_step: "Redact (v # dict) p = Redact dict (if contains p v then replace_all v Mask p else p)"
  by (simp add: Redact_def)

lemma Redact_keeps_out: "maskable u \<Longrightarrow> \<not> contains p u \<Longrightarrow> \<not> contains (Redact dict p) u"
proof (induction dict arbitrary: p)
  case (Cons v dict)
  then show ?case using replaced_holds(1) [OF Cons.prems(1), of v p] by (auto simp: redact_step)
qed (simp add: Redact_def)

lemma Redact_removes: "maskable u \<Longrightarrow> u \<in> set dict \<Longrightarrow> \<not> contains (Redact dict p) u"
proof (induction dict arbitrary: p)
  case (Cons v dict)
  show ?case
  proof (cases "u = v")
    case True
    then have "\<not> contains (if contains p v then replace_all v Mask p else p) u" using replaced_holds(2) [OF Cons.prems(1), of v p] by simp
    then show ?thesis using Redact_keeps_out [OF Cons.prems(1)] by (simp add: redact_step)
  qed (use Cons in \<open>simp add: redact_step\<close>)
qed simp

lemma Redact_untouched: "\<forall>v \<in> set dict. \<not> contains p v \<Longrightarrow> Redact dict p = p"
  by (induction dict) (auto simp: redact_step, simp add: Redact_def)

text \<open>What a value puts into a dictionary stays there.\<close>

lemma AddValue_grows: "set vals \<subseteq> set (foldl AddValue vals raw)"
proof (induction raw arbitrary: vals)
  case (Cons v raw)
  have "set vals \<subseteq> set (AddValue vals v)" by (auto simp: AddValue_def)
  with Cons [of "AddValue vals v"] show ?case by auto
qed simp

lemma AddValue_adds:
  assumes "v \<in> set raw" and "\<not> Skip l" and "l = v \<and> v \<noteq> [] \<or> multi_line v \<and> l \<noteq> [] \<and> l \<in> trim_space ` set (line_fields v)"
  shows "l \<in> set (foldl AddValue vals raw)"
  using assms(1)
proof (induction raw arbitrary: vals)
  case (Cons x raw)
  show ?case
  proof (cases "x = v")
    case True
    have "v \<noteq> []" using assms(3) by (auto simp: line_fields_def multi_line_def)
    then have "l \<in> set (AddValue vals v)" using assms(2,3) by (auto simp: AddValue_def)
    then show ?thesis using AddValue_grows [of "AddValue vals v" raw] True by auto
  qed (use Cons in auto)
qed simp

lemma set_FromValues [simp]: "set (FromValues vals) = set vals" by (simp add: FromValues_def)



end
