(* ===== verification/Run_Ingest.thy ===== *)
theory Run_Ingest
  imports Runner_Props Redact
begin

text \<open>
  The log an agent uploads (\<open>HandleIngestLog\<close> of \<open>backend/internal/runner/log.go\<close>, with the output markers of
  \<open>backend/internal/execspec/execspec.go\<close>): which chunk is taken, what of it is stored, and how a final chunk ends
  its run. A body is the string of its bytes, received whole; the log files, the offsets and the captured outputs are
  kept by the run's id. The JSON of an envelope, the values of the run's references and the stored secrets are given
  by the request's world, \<open>None\<close> when they could not be read.
\<close>

section \<open>Lines\<close>

definition LF :: char where "LF = CHR 0x0A"
definition MaxLine :: int where "MaxLine = 1048576"

definition drop_cr :: "string \<Rightarrow> string" where
  "drop_cr s = (if s \<noteq> [] \<and> last s = CHR 0x0D then butlast s else s)"

text \<open>\<open>bufio.Scanner\<close> over the segments of a body between its line feeds: the lines, and whether one was too long.\<close>

fun scan_segments :: "string list \<Rightarrow> string list \<times> bool" where
  "scan_segments [] = ([], False)"
| "scan_segments [s] = (if s = [] then ([], False) else if int (length s) \<ge> MaxLine then ([], True) else ([drop_cr s], False))"
| "scan_segments (s # t # ss) =
     (if int (length s) \<ge> MaxLine then ([], True) else (let (ls, long) = scan_segments (t # ss) in (drop_cr s # ls, long)))"

definition scan_lines :: "string \<Rightarrow> string list \<times> bool" where
  "scan_lines body = scan_segments (split_on LF body)"

section \<open>Outputs\<close>

definition re_space :: "char \<Rightarrow> bool" where "re_space c \<longleftrightarrow> c \<in> {CHR 0x09, CHR 0x0A, CHR 0x0C, CHR 0x0D, CHR '' ''}"

definition ident_char :: "char \<Rightarrow> bool" where
  "ident_char c \<longleftrightarrow> is_alpha c \<or> is_digit c \<or> c = CHR ''_''"

definition ParseOutputMarker :: "string \<Rightarrow> (string \<times> string) option" where
  "ParseOutputMarker line =
     (let s = rev (dropWhile (\<lambda>c. c = CHR 0x0D \<or> c = LF) (rev line));
          t = drop (length ''::cronomicon-output'') s;
          u = dropWhile re_space t;
          v = drop (length ''name='') u;
          k = takeWhile ident_char v;
          x = dropWhile ident_char v
      in if has_prefix s ''::cronomicon-output'' \<and> t \<noteq> u \<and> has_prefix u ''name='' \<and> k \<noteq> [] \<and> \<not> is_digit (hd k) \<and>
            has_prefix x ''::'' \<and> LF \<notin> set (drop 2 x)
         then Some (k, drop 2 x) else None)"

definition AgentPrefixesOutput :: "string \<Rightarrow> bool" where
  "AgentPrefixesOutput runType \<longleftrightarrow> runType \<noteq> ''ansible'' \<and> runType \<noteq> ''terraform''"

fun cut_after :: "string \<Rightarrow> string \<Rightarrow> string option" where
  "cut_after sep [] = (if sep = [] then Some [] else None)"
| "cut_after sep (c # s) = (if has_prefix (c # s) sep then Some (drop (length sep) (c # s)) else cut_after sep s)"

definition ParseRunnerOutputMarker :: "string \<Rightarrow> bool \<Rightarrow> (string \<times> string) option" where
  "ParseRunnerOutputMarker line prefixed =
     (case ParseOutputMarker line of Some kv \<Rightarrow> Some kv
      | None \<Rightarrow> if \<not> prefixed \<or> \<not> has_prefix line ''['' then None
                else Option.bind (cut_after ''] '' line) ParseOutputMarker)"

definition set_output :: "string \<Rightarrow> string \<Rightarrow> string gomap \<Rightarrow> string gomap" where
  "set_output k v m = filter (\<lambda>x. fst x \<noteq> k) m @ [(k, v)]"

text \<open>The name of the first output that holds an injected value; empty when none does.\<close>

definition FirstOutputLeakingSecret :: "string gomap \<Rightarrow> string list \<Rightarrow> string" where
  "FirstOutputLeakingSecret outputs injected =
     (case List.find (\<lambda>n. list_ex (\<lambda>s. s \<noteq> [] \<and> contains (the (map_of outputs n)) s) injected) (sorted_keys outputs) of
        None \<Rightarrow> [] | Some n \<Rightarrow> n)"

section \<open>The envelope\<close>

record envelope =
  ev_exit :: int
  ev_duration :: int
  ev_ended :: string
  ev_reason :: string

definition parseTrailingEnvelope :: "(string \<Rightarrow> envelope option) \<Rightarrow> string \<Rightarrow> envelope option" where
  "parseTrailingEnvelope json line =
     (let s = trim_space line
      in if s = [] \<or> \<not> has_prefix s ''{'' then None
         else case json s of None \<Rightarrow> None | Some e \<Rightarrow> if ev_ended e = [] then None else Some e)"

definition exitCodeToStatus :: "int \<Rightarrow> string" where
  "exitCodeToStatus code = (if code = 0 then ''success'' else ''failure'')"

section \<open>A request\<close>

record ingest_world =
  iw_life :: life_world
  iw_max :: int
  iw_json :: "string \<Rightarrow> envelope option"
  iw_env :: "string list option"
  iw_stored :: "string list option"
  iw_inject :: "string list option"

record ingest_request =
  iq_caller :: "string option"
  iq_partial :: bool
  iq_resume :: string
  iq_body :: string

record ingest =
  ig_fleet :: fleet
  ig_injects :: "string \<Rightarrow> bool"
  ig_file :: "string \<Rightarrow> string"
  ig_offset :: "string \<Rightarrow> int"
  ig_outputs :: "string \<Rightarrow> string gomap"

datatype ingest_answer = BadTrace | NoRun404 | RunClosed409 | Unredactable503 | LimitExceeded413 | BadOffset400 | Resume409 int | Stored204

definition unredactableGrace :: int where "unredactableGrace = 10 * nsMinute"
definition maxTraceIDLen :: nat where "maxTraceIDLen = 64"

definition ValidTraceID :: "string \<Rightarrow> bool" where
  "ValidTraceID i \<longleftrightarrow> i \<noteq> [] \<and> length i \<le> maxTraceIDLen \<and> \<not> contains i ''..'' \<and> hd i \<noteq> CHR ''.'' \<and>
     list_all (\<lambda>c. is_alpha c \<or> is_digit c \<or> c \<in> {CHR ''-'', CHR ''_'', CHR ''.''}) i"

definition noteLogNotRedactable :: string where
  "noteLogNotRedactable = ''cronomicon: the end of this run's output was not stored: it could not be redacted '' @
     ''(a secret it was given can no longer be resolved). The run's outcome and exit code are kept.''"

definition noteLimit :: string where "noteLimit = ''cronomicon: run log size limit reached; further output discarded'' @ [LF]"

definition noteLeak :: "string \<Rightarrow> string" where
  "noteLeak n = ''cronomicon: output '' @ go_quote n @ '' would leak an injected secret value; refusing to capture it and failing the run'' @ [LF]"

definition put_file :: "string \<Rightarrow> string \<Rightarrow> ingest \<Rightarrow> ingest" where "put_file t s st = st\<lparr>ig_file := (ig_file st)(t := s)\<rparr>"
definition put_offset :: "string \<Rightarrow> int \<Rightarrow> ingest \<Rightarrow> ingest" where "put_offset t n st = st\<lparr>ig_offset := (ig_offset st)(t := n)\<rparr>"
definition on_fleet :: "(fleet \<Rightarrow> fleet) \<Rightarrow> ingest \<Rightarrow> ingest" where "on_fleet f st = st\<lparr>ig_fleet := f (ig_fleet st)\<rparr>"

text \<open>The run ends as its envelope says.\<close>

definition end_enveloped :: "ingest_world \<Rightarrow> string \<Rightarrow> string \<Rightarrow> string \<Rightarrow> string \<Rightarrow> ingest \<Rightarrow> ingest" where
  "end_enveloped w t rid line defaultReason =
     on_fleet (case parseTrailingEnvelope (iw_json w) line of
        None \<Rightarrow> finalizeRun (iw_life w) t rid ''failure'' None 0 ''log_stream_lost''
      | Some e \<Rightarrow> finalizeRun (iw_life w) t rid (exitCodeToStatus (ev_exit e)) (Some (ev_exit e)) (ev_duration e)
                    (if ev_reason e = [] then defaultReason else ev_reason e))"

definition later_line :: "string list \<Rightarrow> string \<Rightarrow> string" where
  "later_line ls l = fold (\<lambda>x l. if trim_space x \<noteq> [] then trim_space x else l) ls l"

definition endWithoutText :: "ingest_world \<Rightarrow> string \<Rightarrow> string \<Rightarrow> string \<Rightarrow> string \<Rightarrow> string \<Rightarrow> ingest \<Rightarrow> ingest" where
  "endWithoutText w t rid body note defaultReason st =
     end_enveloped w t rid (later_line (fst (scan_lines body)) []) defaultReason
       (if note = [] then st else put_file t (ig_file st t @ note @ [LF]) st)"

definition endUnredactable :: "ingest_world \<Rightarrow> string \<Rightarrow> string \<Rightarrow> string \<Rightarrow> ingest \<Rightarrow> ingest" where
  "endUnredactable w t rid body = endWithoutText w t rid body noteLogNotRedactable ''log_not_redactable''"

section \<open>The lines of a chunk\<close>

text \<open>What a chunk leaves: the text to append, the last line, the outputs, and the lines not reached when the log's limit was.\<close>

record stored =
  sd_text :: string
  sd_last :: string
  sd_outputs :: "string gomap"
  sd_rest :: "string list option"

definition capture :: "bool \<Rightarrow> string \<Rightarrow> string gomap \<Rightarrow> string gomap" where
  "capture prefixed l m = (case ParseRunnerOutputMarker l prefixed of None \<Rightarrow> m | Some (k, v) \<Rightarrow> set_output k v m)"

fun store_lines :: "(string \<Rightarrow> string) \<Rightarrow> bool \<Rightarrow> int \<Rightarrow> int \<Rightarrow> string list \<Rightarrow> stored \<Rightarrow> stored" where
  "store_lines red prefixed limit start [] sd = sd"
| "store_lines red prefixed limit start (l # ls) sd =
     (let sd1 = sd\<lparr>sd_outputs := capture prefixed l (sd_outputs sd)\<rparr>; r = red l
      in if limit > 0 \<and> start + int (length (sd_text sd)) + int (length r) + 1 > limit
         then sd1\<lparr>sd_text := sd_text sd @ noteLimit, sd_last := (if trim_space l \<noteq> [] then trim_space l else sd_last sd), sd_rest := Some ls\<rparr>
         else store_lines red prefixed limit start ls (sd1\<lparr>sd_text := sd_text sd @ r @ [LF], sd_last := r\<rparr>))"

definition nothing_stored :: stored where "nothing_stored = \<lparr>sd_text = [], sd_last = [], sd_outputs = [], sd_rest = None\<rparr>"

section \<open>The handler\<close>

definition injected_values :: "ingest_world \<Rightarrow> string list" where
  "injected_values w = (case iw_inject w of None \<Rightarrow> [] | Some xs \<Rightarrow> xs)"

definition redactor_of :: "ingest_world \<Rightarrow> string list option" where
  "redactor_of w = NewRedactor (iw_env w) (iw_stored w) (injected_values w)"

definition redact_line :: "ingest_world \<Rightarrow> string \<Rightarrow> string" where
  "redact_line w = (case redactor_of w of None \<Rightarrow> (\<lambda>l. l) | Some d \<Rightarrow> Redact d)"

definition unredactable :: "ingest_world \<Rightarrow> bool" where
  "unredactable w \<longleftrightarrow> iw_inject w = None \<or> redactor_of w = None \<or> injected_values w = []"

text \<open>A chunk of a run whose secrets cannot be masked.\<close>

definition refuse_unredactable :: "ingest_world \<Rightarrow> string \<Rightarrow> string \<Rightarrow> ingest_request \<Rightarrow> ingest \<Rightarrow> ingest_answer \<times> ingest" where
  "refuse_unredactable w t rid q st =
     (if iq_partial q then (Unredactable503, st)
      else (let permanent = (iw_inject w \<noteq> None \<and> redactor_of w \<noteq> None);
                now = lw_now (iw_life w);
                first = (case fl_refused (ig_fleet st) t of None \<Rightarrow> now | Some f \<Rightarrow> f)
            in if permanent \<or> time_sub now first \<ge> unredactableGrace
               then (Stored204, endUnredactable w t rid (iq_body q) (on_fleet (forget_refusal t) st))
               else (Unredactable503, on_fleet (\<lambda>fl. fl\<lparr>fl_refused := (fl_refused fl)(t := Some first)\<rparr>) st)))"

text \<open>A chunk whose text is stored: the file it is appended to, what its lines leave, the state after its text is
  written, and after its outputs and its bytes are counted.\<close>

definition old_text :: "string \<Rightarrow> ingest \<Rightarrow> string" where
  "old_text t st = (if ig_offset st t = 0 then [] else ig_file st t)"

definition chunk_lines :: "ingest_world \<Rightarrow> string \<Rightarrow> bool \<Rightarrow> ingest_request \<Rightarrow> ingest \<Rightarrow> stored" where
  "chunk_lines w t prefixed q st =
     store_lines (redact_line w) prefixed (iw_max w) (int (length (old_text t st))) (fst (scan_lines (iq_body q))) nothing_stored"

definition chunk_written :: "ingest_world \<Rightarrow> string \<Rightarrow> stored \<Rightarrow> ingest \<Rightarrow> ingest" where
  "chunk_written w t sd st =
     (let st1 = put_file t (old_text t st @ sd_text sd) st
      in if sd_rest sd = None then st1 else put_offset t (iw_max w) st1)"

definition chunk_leak :: "ingest_world \<Rightarrow> stored \<Rightarrow> string" where
  "chunk_leak w sd = FirstOutputLeakingSecret (sd_outputs sd) (injected_values w)"

definition chunk_counted :: "ingest_world \<Rightarrow> string \<Rightarrow> stored \<Rightarrow> ingest_request \<Rightarrow> ingest \<Rightarrow> ingest" where
  "chunk_counted w t sd q st =
     (let leaked = chunk_leak w sd;
          st1 = (if leaked \<noteq> [] then put_file t (ig_file st t @ noteLeak leaked) st
                 else if sd_outputs sd = [] then st else st\<lparr>ig_outputs := (ig_outputs st)(t := sd_outputs sd)\<rparr>)
      in if snd (scan_lines (iq_body q)) then st1 else put_offset t (ig_offset st1 t + int (length (iq_body q))) st1)"

definition chunk_last :: "stored \<Rightarrow> string" where
  "chunk_last sd = (case sd_rest sd of None \<Rightarrow> sd_last sd | Some rest \<Rightarrow> later_line rest (sd_last sd))"

definition store_chunk :: "ingest_world \<Rightarrow> string \<Rightarrow> string \<Rightarrow> bool \<Rightarrow> ingest_request \<Rightarrow> ingest \<Rightarrow> ingest_answer \<times> ingest" where
  "store_chunk w t rid prefixed q st =
     (let sd = chunk_lines w t prefixed q st;
          written = chunk_written w t sd st;
          counted = chunk_counted w t sd q written
      in if sd_rest sd \<noteq> None \<and> iq_partial q then (LimitExceeded413, written)
         else if chunk_leak w sd \<noteq> [] then (Stored204, on_fleet (finalizeRun (iw_life w) t rid ''failure'' None 0 ''output_secret_leak'') counted)
         else if iq_partial q then (Stored204, counted)
         else (Stored204, end_enveloped w t rid (chunk_last sd) [] counted))"

definition HandleIngestLog :: "ingest_world \<Rightarrow> string \<Rightarrow> ingest_request \<Rightarrow> ingest \<Rightarrow> ingest_answer \<times> ingest" where
  "HandleIngestLog w t q st =
     (if \<not> ValidTraceID t then (BadTrace, st)
      else case List.find (\<lambda>r. d_id r = t) (fl_runs (ig_fleet st)) of
        None \<Rightarrow> (NoRun404, st)
      | Some r \<Rightarrow>
         (let rid = (case lr_runner r of None \<Rightarrow> [] | Some i \<Rightarrow> i)
          in if \<not> running r then (RunClosed409, on_fleet (forget_refusal t) st)
             else if iq_caller q \<noteq> Some rid then (NoRun404, st)
             else if ig_injects st t \<and> unredactable w then refuse_unredactable w t rid q st
             else if iw_max w > 0 \<and> ig_offset st t \<ge> iw_max w
             then (if iq_partial q then (LimitExceeded413, st) else (Stored204, endWithoutText w t rid (iq_body q) [] [] st))
             else if iq_resume q \<noteq> [] \<and> (case atoi (iq_resume q) of None \<Rightarrow> True | Some n \<Rightarrow> n < 0) then (BadOffset400, st)
             else if iq_resume q \<noteq> [] \<and> atoi (iq_resume q) \<noteq> Some (ig_offset st t) then (Resume409 (ig_offset st t), st)
             else store_chunk w t rid (AgentPrefixesOutput (d_run_type r)) q st))"

end
