(* ===== verification/Run_Ingest_Props.thy ===== *)
theory Run_Ingest_Props
  imports Run_Ingest
begin

text \<open>
  What the ingest of a log keeps: a run's secrets stay out of its file, a final chunk that is taken ends its run, and
  its effect on the fleet is a step of the fleet. And three things it does not.
\<close>

section \<open>The effect on the fleet\<close>

text \<open>What a request may do to the fleet: nothing but a refusal's clock, or the end of the run it is for.\<close>

inductive log_effect :: "string \<Rightarrow> string \<Rightarrow> fleet \<Rightarrow> fleet \<Rightarrow> bool" for t rid where
  quiet: "log_effect t rid fl fl"
| refusal: "log_effect t rid fl (fl\<lparr>fl_refused := rf\<rparr>)"
| ends: "status \<in> {''success'', ''failure''} \<Longrightarrow> log_effect t rid fl (finalizeRun w t rid status exit dur reason fl)"
| ends_refused: "status \<in> {''success'', ''failure''} \<Longrightarrow> log_effect t rid fl (finalizeRun w t rid status exit dur reason (forget_refusal t fl))"

lemma file_fleet [simp]:
  "ig_fleet (put_file t s st) = ig_fleet st" "ig_fleet (put_offset t n st) = ig_fleet st" "ig_fleet (on_fleet f st) = f (ig_fleet st)"
  "ig_fleet (st\<lparr>ig_outputs := m\<rparr>) = ig_fleet st"
  "ig_file (put_file t s st) = (ig_file st)(t := s)" "ig_file (put_offset t n st) = ig_file st" "ig_file (on_fleet f st) = ig_file st"
  "ig_offset (put_file t s st) = ig_offset st" "ig_offset (put_offset t n st) = (ig_offset st)(t := n)" "ig_offset (on_fleet f st) = ig_offset st"
  "ig_outputs (put_file t s st) = ig_outputs st" "ig_outputs (put_offset t n st) = ig_outputs st" "ig_outputs (on_fleet f st) = ig_outputs st"
  "ig_injects (put_file t s st) = ig_injects st" "ig_injects (put_offset t n st) = ig_injects st" "ig_injects (on_fleet f st) = ig_injects st"
  by (simp_all add: put_file_def put_offset_def on_fleet_def)

lemma statuses_of_exit: "exitCodeToStatus c \<in> {''success'', ''failure''}" by (simp add: exitCodeToStatus_def)

lemma enveloped_effect:
  "\<exists>status exit dur reason. status \<in> {''success'', ''failure''} \<and>
     end_enveloped w t rid l d st = on_fleet (finalizeRun (iw_life w) t rid status exit dur reason) st"
proof (cases "parseTrailingEnvelope (iw_json w) l")
  case None
  then show ?thesis by (auto simp: end_enveloped_def)
next
  case (Some e)
  then show ?thesis using statuses_of_exit [of "ev_exit e"] by (auto simp: end_enveloped_def)
qed

lemma without_text_effect:
  "\<exists>status exit dur reason. status \<in> {''success'', ''failure''} \<and>
     ig_fleet (endWithoutText w t rid b note d st) = finalizeRun (iw_life w) t rid status exit dur reason (ig_fleet st)"
proof -
  obtain status ex dur reason where "status \<in> {''success'', ''failure''}"
    "endWithoutText w t rid b note d st = on_fleet (finalizeRun (iw_life w) t rid status ex dur reason)
      (if note = [] then st else put_file t (ig_file st t @ note @ [LF]) st)"
    using enveloped_effect unfolding endWithoutText_def by metis
  then show ?thesis by (intro exI) (auto simp: file_fleet)
qed

lemma refuse_effect: "log_effect t rid (ig_fleet st) (ig_fleet (snd (refuse_unredactable w t rid q st)))"
proof -
  obtain status ex dur reason where "status \<in> {''success'', ''failure''}"
    "ig_fleet (endUnredactable w t rid (iq_body q) (on_fleet (forget_refusal t) st)) =
      finalizeRun (iw_life w) t rid status ex dur reason (forget_refusal t (ig_fleet st))"
    unfolding endUnredactable_def using without_text_effect [of w t rid "iq_body q" noteLogNotRedactable "''log_not_redactable''" "on_fleet (forget_refusal t) st"] by auto
  then show ?thesis by (auto simp: refuse_unredactable_def Let_def intro: log_effect.intros)
qed

lemma run_found: "List.find (\<lambda>r. d_id r = t) xs = Some r \<Longrightarrow> r \<in> set xs \<and> d_id r = t"
  by (auto simp: find_Some_iff)

lemma chunk_fleet [simp]:
  "ig_fleet (chunk_written w t sd st) = ig_fleet st" "ig_fleet (chunk_counted w t sd q st) = ig_fleet st"
  by (simp_all add: chunk_written_def chunk_counted_def Let_def)

lemma store_effect: "log_effect t rid (ig_fleet st) (ig_fleet (snd (store_chunk w t rid p q st)))"
proof -
  have e: "log_effect t rid (ig_fleet st) (ig_fleet (end_enveloped w t rid l d s))" if "ig_fleet s = ig_fleet st" for l d s
    using enveloped_effect [of w t rid l d s] that by (auto intro: log_effect.intros)
  then show ?thesis by (simp add: store_chunk_def Let_def log_effect.ends log_effect.quiet)
qed

text \<open>The run a request is for, its owner's, and the branch it reaches.\<close>

lemma ingest_effect:
  assumes "HandleIngestLog w t q st = (a, st')" and "iq_caller q \<noteq> Some []"
  shows "(\<exists>rf. ig_fleet st' = (ig_fleet st)\<lparr>fl_refused := rf\<rparr>) \<or>
    (\<exists>r rid. r \<in> set (fl_runs (ig_fleet st)) \<and> d_id r = t \<and> running r \<and> lr_runner r = Some rid \<and> log_effect t rid (ig_fleet st) (ig_fleet st'))"
proof -
  have same: "\<exists>rf. ig_fleet st = (ig_fleet st)\<lparr>fl_refused := rf\<rparr>" by (intro exI [of _ "fl_refused (ig_fleet st)"]) simp
  have forgot: "\<exists>rf. forget_refusal t (ig_fleet st) = (ig_fleet st)\<lparr>fl_refused := rf\<rparr>" unfolding forget_refusal_def by blast
  show ?thesis
  proof (cases "ValidTraceID t \<and> (\<exists>r. List.find (\<lambda>r. d_id r = t) (fl_runs (ig_fleet st)) = Some r)")
    case False
    then show ?thesis using assms(1) same by (auto simp: HandleIngestLog_def split: option.splits if_splits)
  next
    case True
    then obtain r where r: "List.find (\<lambda>r. d_id r = t) (fl_runs (ig_fleet st)) = Some r" and v: "ValidTraceID t" by blast
    note mem = run_found [OF r]
    show ?thesis
    proof (cases "running r \<and> (\<exists>rid. lr_runner r = Some rid \<and> iq_caller q = Some rid)")
      case False
      then have "ig_fleet (snd (HandleIngestLog w t q st)) \<in> {ig_fleet st, forget_refusal t (ig_fleet st)}"
        using assms(2) by (cases "lr_runner r") (auto simp: HandleIngestLog_def Let_def v r)
      then show ?thesis using assms(1) same forgot by auto
    next
      case True
      then obtain rid where rid: "running r" "lr_runner r = Some rid" "iq_caller q = Some rid" by blast
      have wt: "log_effect t rid (ig_fleet st) (ig_fleet (endWithoutText w t rid (iq_body q) [] [] st))"
        using without_text_effect [of w t rid "iq_body q" "[]" "[]" st] by (auto intro: log_effect.ends)
      have "log_effect t rid (ig_fleet st) (ig_fleet (snd (HandleIngestLog w t q st)))"
        by (simp add: HandleIngestLog_def Let_def v r rid wt refuse_effect store_effect log_effect.quiet)
      then show ?thesis using mem rid(1,2) assms(1) by (metis snd_conv)
    qed
  qed
qed

section \<open>What a chunk stores\<close>

lemma stored_text:
  "\<exists>ls ns. sd_text (store_lines red p limit start xs sd) = sd_text sd @ concat (map (\<lambda>l. l @ [LF]) ls) @ ns \<and>
     set ls \<subseteq> red ` set xs \<and> ns \<in> {[], noteLimit}"
proof (induction xs arbitrary: sd)
  case (Cons x xs)
  let ?sd = "sd\<lparr>sd_outputs := capture p x (sd_outputs sd), sd_text := sd_text sd @ red x @ [LF], sd_last := red x\<rparr>"
  show ?case
  proof (cases "limit > 0 \<and> start + int (length (sd_text sd)) + int (length (red x)) + 1 > limit")
    case True
    then show ?thesis by (intro exI [of _ "[]"] exI [of _ noteLimit]) (simp add: Let_def)
  next
    case False
    from Cons [of ?sd] obtain ls ns where ls: "sd_text (store_lines red p limit start xs ?sd) = sd_text ?sd @ concat (map (\<lambda>l. l @ [LF]) ls) @ ns"
      "set ls \<subseteq> red ` set xs" "ns \<in> {[], noteLimit}" by blast
    have "store_lines red p limit start (x # xs) sd = store_lines red p limit start xs ?sd"
      by (simp only: store_lines.simps(2) Let_def if_not_P [OF False])
    with ls show ?thesis by (intro exI [of _ "red x # ls"] exI [of _ ns]) auto
  qed
qed (auto intro: exI [of _ "[]"])

text \<open>The captured names are identifiers, and the captured values are of one line.\<close>

definition captured_ok :: "string gomap \<Rightarrow> bool" where
  "captured_ok m \<longleftrightarrow> distinct (map fst m) \<and> (\<forall>(k, v) \<in> set m. k \<noteq> [] \<and> list_all ident_char k \<and> LF \<notin> set v)"

lemma marker_ok: "ParseOutputMarker l = Some (k, v) \<Longrightarrow> k \<noteq> [] \<and> list_all ident_char k \<and> LF \<notin> set v"
  by (auto simp: ParseOutputMarker_def Let_def list_all_iff dest: set_takeWhileD split: if_splits)

lemma runner_marker_ok: "ParseRunnerOutputMarker l p = Some (k, v) \<Longrightarrow> k \<noteq> [] \<and> list_all ident_char k \<and> LF \<notin> set v"
  by (auto simp: ParseRunnerOutputMarker_def dest: marker_ok split: option.splits if_splits bind_splits)

lemma capture_ok: "captured_ok m \<Longrightarrow> captured_ok (capture p l m)"
  using runner_marker_ok [of l p]
  by (auto simp: captured_ok_def capture_def set_output_def distinct_map_filter split: option.split)

lemma stored_ok: "captured_ok (sd_outputs sd) \<Longrightarrow> captured_ok (sd_outputs (store_lines red p limit start xs sd))"
  by (induction xs arbitrary: sd) (simp_all add: Let_def capture_ok)

lemma chunk_ok: "captured_ok (sd_outputs (chunk_lines w t p q st))"
  unfolding chunk_lines_def by (rule stored_ok) (simp add: nothing_stored_def captured_ok_def)

lemma leak_found:
  assumes "FirstOutputLeakingSecret m injected = n" and "n \<noteq> []"
  shows "\<exists>v s. (n, v) \<in> set m \<and> s \<in> set injected \<and> s \<noteq> [] \<and> contains v s"
proof -
  from assms obtain k where k: "List.find (\<lambda>n. list_ex (\<lambda>s. s \<noteq> [] \<and> contains (the (map_of m n)) s) injected) (sorted_keys m) = Some k" "k = n"
    by (auto simp: FirstOutputLeakingSecret_def split: option.splits)
  then have "n \<in> set (sorted_keys m)" "list_ex (\<lambda>s. s \<noteq> [] \<and> contains (the (map_of m n)) s) injected"
    by (auto simp: find_Some_iff simp del: set_sorted_keys)
  then obtain v s where "map_of m n = Some v" "s \<in> set injected" "s \<noteq> []" "contains v s" by (auto simp: list_ex_iff)
  then show ?thesis using map_of_SomeD by metis
qed

lemma no_leak:
  assumes "captured_ok m" and "FirstOutputLeakingSecret m injected = []" and "(k, v) \<in> set m" and "s \<in> set injected" and "s \<noteq> []"
  shows "\<not> contains v s"
proof
  assume c: "contains v s"
  have kv: "map_of m k = Some v" "k \<noteq> []" using assms(1,3) by (auto simp: captured_ok_def)
  let ?P = "\<lambda>n. list_ex (\<lambda>s. s \<noteq> [] \<and> contains (the (map_of m n)) s) injected"
  have "?P k" using assms(4,5) c kv(1) by (auto simp: list_ex_iff)
  moreover have "k \<in> set (sorted_keys m)" using kv(1) by auto
  ultimately obtain n where n: "List.find ?P (sorted_keys m) = Some n"
    by (cases "List.find ?P (sorted_keys m)") (auto simp: find_None_iff)
  then have "n \<in> dom (map_of m)" using set_sorted_keys [of m] by (auto simp: find_Some_iff simp del: set_sorted_keys)
  then have "n \<noteq> []" using assms(1) by (auto simp: captured_ok_def dest: map_of_SomeD)
  then show False using assms(2) n by (simp add: FirstOutputLeakingSecret_def)
qed

definition fixed_note :: "string \<Rightarrow> bool" where
  "fixed_note x \<longleftrightarrow> (\<exists>y n. x = y @ n \<and> y \<in> {[], noteLimit} \<and> (n \<in> {[], noteLogNotRedactable @ [LF]} \<or> (\<exists>k. list_all ident_char k \<and> n = noteLeak k)))"

lemma fixed_notes: "y \<in> {[], noteLimit} \<Longrightarrow> fixed_note y" "fixed_note (noteLogNotRedactable @ [LF])"
  "y \<in> {[], noteLimit} \<Longrightarrow> list_all ident_char k \<Longrightarrow> fixed_note (y @ noteLeak k)"
  unfolding fixed_note_def by (metis append_Nil append_Nil2 insertI1 insert_iff)+

lemma masked_line:
  assumes "\<not> unredactable w" and "v \<in> set (injected_values w)" and "\<not> Skip v" and "maskable v"
  shows "\<not> contains (redact_line w l) v"
proof -
  obtain d where d: "redactor_of w = Some d" using assms(1) by (auto simp: unredactable_def)
  then obtain es ss where e: "iw_env w = Some es" "iw_stored w = Some ss" by (auto simp: redactor_of_def NewRedactor_def split: option.splits)
  have "set d = set (foldl AddValue (foldl AddValue (foldl AddValue [] (filter multi_line es)) ss) (injected_values w))"
    using d by (auto simp: redactor_of_def NewRedactor_def e)
  moreover have "v = v \<and> v \<noteq> []" using assms(4) by (simp add: maskable_def)
  ultimately have "v \<in> set d" using AddValue_adds [OF assms(2,3)] by simp
  then show ?thesis by (simp add: redact_line_def d Redact_removes [OF assms(4)])
qed

lemma chunk_file:
  "\<exists>ls ns. ig_file (snd (store_chunk w t rid p q st)) t = old_text t st @ concat (map (\<lambda>l. l @ [LF]) ls) @ ns \<and>
     set ls \<subseteq> range (redact_line w) \<and> fixed_note ns"
proof -
  let ?sd = "chunk_lines w t p q st" and ?k = "chunk_leak w (chunk_lines w t p q st)"
  from stored_text [of "redact_line w" p "iw_max w" "int (length (old_text t st))" "fst (scan_lines (iq_body q))" nothing_stored]
  obtain ls ns where s: "sd_text ?sd = sd_text nothing_stored @ concat (map (\<lambda>l. l @ [LF]) ls) @ ns"
    "set ls \<subseteq> redact_line w ` set (fst (scan_lines (iq_body q)))" "ns \<in> {[], noteLimit}" unfolding chunk_lines_def by blast
  then have ls: "sd_text ?sd = concat (map (\<lambda>l. l @ [LF]) ls) @ ns" "set ls \<subseteq> range (redact_line w)" "ns \<in> {[], noteLimit}"
    by (simp add: nothing_stored_def, blast, blast)
  have w: "ig_file (chunk_written w t ?sd st) t = old_text t st @ sd_text ?sd" by (simp add: chunk_written_def Let_def)
  have c: "ig_file (chunk_counted w t ?sd q s) t = ig_file s t @ (if ?k = [] then [] else noteLeak ?k)" for s
    by (simp add: chunk_counted_def Let_def)
  have "ig_file (end_enveloped w t rid l d s) = ig_file s" for l d s by (simp add: end_enveloped_def)
  moreover have "list_all ident_char ?k" if "?k \<noteq> []"
    using leak_found [of "sd_outputs ?sd" "injected_values w" ?k] that chunk_ok [of w t p q st] by (auto simp: chunk_leak_def captured_ok_def)
  ultimately have "ig_file (snd (store_chunk w t rid p q st)) t = old_text t st @ concat (map (\<lambda>l. l @ [LF]) ls) @ ns \<or>
      ig_file (snd (store_chunk w t rid p q st)) t = old_text t st @ concat (map (\<lambda>l. l @ [LF]) ls) @ (ns @ noteLeak ?k) \<and> list_all ident_char ?k"
    by (auto simp: store_chunk_def Let_def w c ls(1))
  then show ?thesis using ls(2,3) fixed_notes by blast
qed

text \<open>for a run that was given a secret, whatever a request is answered, what it adds to the run's log is lines without an
  injected value (one long enough, not a common word, and that the mask cannot make) and the server's own notes: a chunk
  that cannot be masked leaves no line.\<close>

theorem a_secret_bearing_log_is_masked:
  assumes "ig_injects st t" and "HandleIngestLog w t q st = (a, st')"
  shows "\<exists>old ls ns. ig_file st' t = old @ concat (map (\<lambda>l. l @ [LF]) ls) @ ns \<and> old \<in> {[], ig_file st t} \<and> fixed_note ns \<and>
    (\<forall>l \<in> set ls. \<forall>v \<in> set (injected_values w). \<not> Skip v \<and> maskable v \<longrightarrow> \<not> contains l v) \<and> (unredactable w \<longrightarrow> ls = [])"
proof -
  have same: ?thesis if "ig_file st' t = ig_file st t"
    using that fixed_notes(1) [of "[]"] by (intro exI [of _ "ig_file st t"] exI [of _ "[]"]) simp
  have u: "ig_file (snd (refuse_unredactable w t rid q s)) t \<in> {ig_file s t, ig_file s t @ noteLogNotRedactable @ [LF]}" for rid s
    by (auto simp: refuse_unredactable_def Let_def endUnredactable_def endWithoutText_def end_enveloped_def noteLogNotRedactable_def)
  consider "ig_file st' t = ig_file st t" | "ig_file st' t = ig_file st t @ noteLogNotRedactable @ [LF]"
    | rid p where "st' = snd (store_chunk w t rid p q st)" "\<not> unredactable w"
    using assms u by (auto simp: HandleIngestLog_def Let_def endWithoutText_def end_enveloped_def split: option.splits if_splits) (metis snd_conv)+
  then show ?thesis
  proof cases
    case 2
    then show ?thesis using fixed_notes(2) by (intro exI [of _ "ig_file st t"] exI [of _ "[]"] exI [of _ "noteLogNotRedactable @ [LF]"]) simp
  next
    case 3
    obtain ls ns where ls: "ig_file st' t = old_text t st @ concat (map (\<lambda>l. l @ [LF]) ls) @ ns" "set ls \<subseteq> range (redact_line w)" "fixed_note ns"
      using chunk_file [of w t rid p q st] 3(1) by blast
    moreover have "\<forall>l \<in> set ls. \<forall>v \<in> set (injected_values w). \<not> Skip v \<and> maskable v \<longrightarrow> \<not> contains l v"
      using ls(2) masked_line [OF 3(2)] by blast
    moreover have "old_text t st \<in> {[], ig_file st t}" by (simp add: old_text_def)
    ultimately show ?thesis using 3(2) by blast
  qed (rule same)
qed

text \<open>what a request leaves as the outputs of its run either was there, or holds no injected value.\<close>

theorem no_injected_value_leaves_as_an_output:
  assumes "HandleIngestLog w t q st = (a, st')" and "ig_outputs st' t \<noteq> ig_outputs st t" and "(k, v) \<in> set (ig_outputs st' t)"
    and "s \<in> set (injected_values w)" and "s \<noteq> []"
  shows "\<not> contains v s"
proof -
  have e: "ig_outputs (end_enveloped w t rid l d x) = ig_outputs x" for rid l d x by (simp add: end_enveloped_def)
  have wt: "ig_outputs (endWithoutText w t rid b n d x) = ig_outputs x" for rid b n d x by (simp add: endWithoutText_def e)
  have un: "ig_outputs (snd (refuse_unredactable w t rid q x)) = ig_outputs x" for rid x
    by (simp add: refuse_unredactable_def endUnredactable_def Let_def wt)
  have wr: "ig_outputs (chunk_written w t sd x) = ig_outputs x" for sd x by (simp add: chunk_written_def Let_def)
  have sc: "ig_outputs (snd (store_chunk w t rid p q st)) t = ig_outputs st t \<or> ig_outputs (snd (store_chunk w t rid p q st)) t = sd_outputs (chunk_lines w t p q st) \<and>
      chunk_leak w (chunk_lines w t p q st) = []" for rid p
    by (simp add: store_chunk_def Let_def e wr chunk_counted_def)
  from assms(1,2) obtain rid p where "ig_outputs st' t = sd_outputs (chunk_lines w t p q st)" "chunk_leak w (chunk_lines w t p q st) = []"
    using wt un sc by (auto simp: HandleIngestLog_def Let_def split: option.splits if_splits) (metis snd_conv)+
  then show ?thesis using no_leak [OF chunk_ok] assms(3-5) unfolding chunk_leak_def by metis
qed

section \<open>A final chunk ends its run\<close>

lemma ended_is_over:
  assumes "distinct (map d_id (fl_runs fl))" and "status \<in> {''success'', ''failure''}"
  shows "\<not> still_running (finalizeRun w t rid status exit dur reason fl) t"
proof -
  let ?g = "\<lambda>r. r\<lparr>d_status := status, d_completed_at := Some (lw_stamp w), d_duration_ms := Some dur, d_queued_reason := nullStr reason\<rparr>"
  let ?f = "\<lambda>r. if d_id r = t \<and> running r then ?g r else r"
  define st2 where "st2 = (if still_running fl t then (end_running t ?g (forget_refusal t fl))\<lparr>fl_exit := (fl_exit fl)(t := exit)\<rparr>
      else forget_refusal t fl)"
  have d2: "distinct (map d_id (fl_runs st2))"
  proof -
    have "d_id \<circ> ?f = d_id" by (simp add: fun_eq_iff)
    then show ?thesis using assms(1) by (simp only: st2_def, simp)
  qed
  have o2: "\<not> still_running st2 t"
  proof (cases "still_running fl t")
    case True
    have "\<not> (d_id (?f r) = t \<and> running (?f r))" for r using assms(2) by auto
    moreover have "fl_runs st2 = map ?f (fl_runs fl)" using True by (simp add: st2_def)
    ultimately show ?thesis by (auto simp only: still_running_def list_ex_iff set_map)
  qed (simp add: st2_def still_running_def)
  let ?st3 = "if rid = [] then st2 else checkDrainComplete w rid (release_slot rid st2)"
  have "\<exists>es. ended_as (release_slot rid st2) es (checkDrainComplete w rid (release_slot rid st2))"
    by (rule check_ends) (use d2 in \<open>simp add: release_slot_def\<close>)
  then have "\<not> still_running ?st3 t"
    using o2 ended_running by (auto simp: release_slot_def still_running_def) 
  then show ?thesis
    by (auto simp: finalizeRun_def Let_def st2_def still_running_def)
qed

text \<open>a final chunk of a running run, from the runner that holds it and at the offset the server has (or without one), is
  taken and ends the run: also past the log's limit, without an envelope, and for a run with secrets that cannot be masked
  now, once that cannot change or the grace has passed.\<close>

theorem a_final_chunk_ends_its_run:
  assumes "ValidTraceID t" and "List.find (\<lambda>r. d_id r = t) (fl_runs (ig_fleet st)) = Some r" and "running r" and "lr_runner r = Some rid"
    and "distinct (map d_id (fl_runs (ig_fleet st)))" and "iq_caller q = Some rid" and "\<not> iq_partial q"
    and "iq_resume q = [] \<or> atoi (iq_resume q) = Some (ig_offset st t) \<and> ig_offset st t \<ge> 0"
    and "ig_injects st t \<and> unredactable w \<longrightarrow> iw_inject w \<noteq> None \<and> redactor_of w \<noteq> None \<or>
      (\<exists>f. fl_refused (ig_fleet st) t = Some f \<and> time_sub (lw_now (iw_life w)) f \<ge> unredactableGrace)"
    and "HandleIngestLog w t q st = (a, st')"
  shows "a = Stored204 \<and> \<not> still_running (ig_fleet st') t"
proof -
  have over: "\<not> still_running (finalizeRun w' t rid status ex dur reason fl) t"
    if "status \<in> {''success'', ''failure''}" "fl = ig_fleet st \<or> fl = forget_refusal t (ig_fleet st)" for w' status ex dur reason fl
    by (rule ended_is_over) (use that assms(5) in auto)
  have env: "\<not> still_running (ig_fleet (end_enveloped w t rid l d s)) t" if "ig_fleet s = ig_fleet st" for l d s
    using enveloped_effect [of w t rid l d s] over that by auto
  have lost: "\<not> still_running (ig_fleet (endWithoutText w t rid b n d s)) t" if "ig_fleet s = ig_fleet st \<or> ig_fleet s = forget_refusal t (ig_fleet st)" for b n d s
    using without_text_effect [of w t rid b n d s] over that by metis
  have st: "fst (store_chunk w t rid p q st) = Stored204 \<and> \<not> still_running (ig_fleet (snd (store_chunk w t rid p q st))) t" for p
    using assms(7) env over [of "''failure''" "ig_fleet st"] by (simp add: store_chunk_def Let_def)
  have un: "fst (refuse_unredactable w t rid q st) = Stored204 \<and> \<not> still_running (ig_fleet (snd (refuse_unredactable w t rid q st))) t"
    if "ig_injects st t \<and> unredactable w"
    using assms(7,9) that lost by (auto simp: refuse_unredactable_def endUnredactable_def Let_def)
  have "fst (HandleIngestLog w t q st) = Stored204 \<and> \<not> still_running (ig_fleet (snd (HandleIngestLog w t q st))) t"
    using assms(8) st un lost [of st] assms(1,3,4,6,7) by (auto simp: HandleIngestLog_def Let_def assms(2))
  then show ?thesis using assms(10) by simp
qed

section \<open>What it does not keep\<close>

text \<open>a run that was stopped keeps its agent's slot: every chunk of it is refused before the slot would be given back,
  its final one too, so the rows of the runners stay as the stop left them, as before it.\<close>

theorem a_stopped_run_keeps_its_slot:
  assumes "stop_run lw email disposition t dur (ig_fleet st) = (Stopped t, fl)" and "disposition \<in> set dispositions"
    and "HandleIngestLog w t q (st\<lparr>ig_fleet := fl\<rparr>) = (a, st')"
  shows "a \<in> {BadTrace, RunClosed409} \<and> cl_runners (fl_db (ig_fleet st')) = cl_runners (fl_db (ig_fleet st))"
proof -
  let ?f = "\<lambda>r. if d_id r = t \<and> active r then r\<lparr>d_status := disposition, d_completed_at := Some (lw_stamp lw),
         d_duration_ms := (case d_duration_ms r of None \<Rightarrow> dur | Some d \<Rightarrow> Some d)\<rparr> else r"
  have s: "fl_runs fl = map ?f (fl_runs (ig_fleet st))" "cl_runners (fl_db fl) = cl_runners (fl_db (ig_fleet st))"
    and ex: "list_ex (\<lambda>r. d_id r = t \<and> active r) (fl_runs (ig_fleet st))"
    using assms(1) by (auto simp: stop_run_def split: if_splits)
  have over: "d_id (?f r) = t \<Longrightarrow> \<not> running (?f r)" for r using assms(2) by (auto simp: dispositions_def active_def)
  have "List.find (\<lambda>r. d_id r = t) (fl_runs fl) \<noteq> None"
    using ex by (auto simp: find_None_iff s(1) list_ex_iff)
  then obtain r where r: "List.find (\<lambda>r. d_id r = t) (fl_runs fl) = Some r" by blast
  from run_found [OF r] obtain x where x: "r = ?f x" "d_id r = t" unfolding s(1) set_map by blast
  have "\<not> running r" using over [of x] x(2) unfolding x(1) by blast
  then show ?thesis using assms(3) r s(2) by (auto simp: HandleIngestLog_def split: if_splits)
qed

text \<open>the outputs a chunk captures replace those of the chunks before it: after a chunk that is taken and has one, a name
  it does not set is gone.\<close>

theorem a_later_chunk_drops_the_outputs:
  assumes "store_chunk w t rid p q st = (Stored204, st')" and "chunk_leak w (chunk_lines w t p q st) = []"
    and "sd_outputs (chunk_lines w t p q st) \<noteq> []" and "k \<notin> fst ` set (sd_outputs (chunk_lines w t p q st))"
  shows "map_of (ig_outputs st' t) k = None"
proof -
  have "ig_outputs (end_enveloped w t rid l d s) = ig_outputs s" for l d s by (simp add: end_enveloped_def)
  moreover have "ig_outputs (chunk_counted w t (chunk_lines w t p q st) q s) t = sd_outputs (chunk_lines w t p q st)" for s
    using assms(2,3) by (simp add: chunk_counted_def Let_def)
  ultimately have "ig_outputs st' t = sd_outputs (chunk_lines w t p q st)"
    using assms(1,2) by (auto simp: store_chunk_def Let_def split: if_splits)
  then show ?thesis using assms(4) by (simp add: map_of_eq_None_iff)
qed

text \<open>an output is one line, so an injected value of several lines, as a private key is, is never found in one, whatever
  line of it the job prints as its value: such an output is captured.\<close>

theorem a_key_is_never_seen_to_leak:
  assumes "\<forall>s \<in> set (injected_values w). s = [] \<or> LF \<in> set s"
  shows "chunk_leak w (chunk_lines w t p q st) = []"
proof (rule ccontr)
  assume a: "chunk_leak w (chunk_lines w t p q st) \<noteq> []"
  from leak_found [OF refl a [unfolded chunk_leak_def]] obtain n v s where v: "(n, v) \<in> set (sd_outputs (chunk_lines w t p q st))"
    "s \<in> set (injected_values w)" "s \<noteq> []" "contains v s" by blast
  then have "LF \<notin> set v" using chunk_ok [of w t p q st] by (auto simp: captured_ok_def)
  moreover have "LF \<in> set s" using assms v(2,3) by blast
  ultimately show False using v(4) by (auto simp: contains_iff)
qed

section \<open>A run's log\<close>

definition demo_uploads :: "string list \<Rightarrow> ingest_world" where
  "demo_uploads injected = \<lparr>iw_life = demo_life, iw_max = 0,
     iw_json = (\<lambda>_. Some \<lparr>ev_exit = 0, ev_duration = 5, ev_ended = ''10:07'', ev_reason = []\<rparr>),
     iw_env = Some [], iw_stored = Some [], iw_inject = Some injected\<rparr>"

definition demo_chunk :: "bool \<Rightarrow> string \<Rightarrow> ingest_request" where
  "demo_chunk partial body = \<lparr>iq_caller = Some ''r1'', iq_partial = partial, iq_resume = [], iq_body = body @ [LF]\<rparr>"

definition demo_logs :: "bool \<Rightarrow> ingest" where
  "demo_logs secret = \<lparr>ig_fleet = demo_taken, ig_injects = (\<lambda>_. secret), ig_file = (\<lambda>_. []), ig_offset = (\<lambda>_. 0), ig_outputs = (\<lambda>_. [])\<rparr>"

definition demo_logged :: ingest where
  "demo_logged = snd (HandleIngestLog (demo_uploads []) ''b'' (demo_chunk True ''[h] ::cronomicon-output name=A::1'') (demo_logs False))"

theorem a_secret_bearing_log_is_masked_witness:
  "\<exists>st' old ls ns. HandleIngestLog (demo_uploads [''hunter22'']) ''b'' (demo_chunk True ''[h] pw=hunter22'') (demo_logs True) = (Stored204, st') \<and>
     ig_file st' ''b'' = ''[h] pw=[REDACTED]'' @ [LF] \<and> ig_file st' ''b'' = old @ concat (map (\<lambda>l. l @ [LF]) ls) @ ns \<and> fixed_note ns"
proof -
  let ?h = "HandleIngestLog (demo_uploads [''hunter22'']) ''b'' (demo_chunk True ''[h] pw=hunter22'') (demo_logs True)"
  have k: "fst ?h = Stored204 \<and> ig_file (snd ?h) ''b'' = ''[h] pw=[REDACTED]'' @ [LF] \<and> ig_injects (demo_logs True) ''b''" by code_simp
  then have h: "?h = (Stored204, snd ?h)" by (metis prod.collapse)
  from a_secret_bearing_log_is_masked [OF _ h] k h show ?thesis by blast
qed

lemma demo_run_b: "map_option d_id (List.find (\<lambda>r. d_id r = ''b'') (fl_runs demo_taken)) = Some ''b'' \<and>
    map_option d_status (List.find (\<lambda>r. d_id r = ''b'') (fl_runs demo_taken)) = Some ''running'' \<and>
    Option.bind (List.find (\<lambda>r. d_id r = ''b'') (fl_runs demo_taken)) lr_runner = Some ''r1'' \<and> distinct (map d_id (fl_runs demo_taken))"
  by code_simp

theorem a_final_chunk_ends_its_run_witness:
  "still_running demo_taken ''b'' \<and> \<not> still_running (ig_fleet (snd (HandleIngestLog (demo_uploads []) ''b'' (demo_chunk False ''{}'') (demo_logs False)))) ''b''"
proof -
  let ?h = "HandleIngestLog (demo_uploads []) ''b'' (demo_chunk False ''{}'') (demo_logs False)"
  obtain r where r: "List.find (\<lambda>r. d_id r = ''b'') (fl_runs demo_taken) = Some r" "running r" "lr_runner r = Some ''r1''"
    using demo_run_b by (cases "List.find (\<lambda>r. d_id r = ''b'') (fl_runs demo_taken)") auto
  have v: "ValidTraceID ''b''" by code_simp
  have "?h = (fst ?h, snd ?h)" by simp
  from a_final_chunk_ends_its_run [OF v _ r(2,3) _ _ _ _ _ this] r(1) demo_run_b have "\<not> still_running (ig_fleet (snd ?h)) ''b''"
    by (simp add: demo_logs_def demo_chunk_def)
  moreover have "still_running demo_taken ''b''" by code_simp
  ultimately show ?thesis by blast
qed

theorem a_stopped_run_keeps_its_slot_witness:
  "fst (HandleIngestLog (demo_uploads []) ''b'' (demo_chunk False ''{}'')
     ((demo_logs False)\<lparr>ig_fleet := snd (stop_run demo_life ''ann'' ''killed'' ''b'' None demo_taken)\<rparr>)) \<in> {BadTrace, RunClosed409}"
proof -
  have "fst (stop_run demo_life ''ann'' ''killed'' ''b'' None demo_taken) = Stopped ''b'' \<and> ''killed'' \<in> set dispositions" by code_simp
  then have s: "stop_run demo_life ''ann'' ''killed'' ''b'' None (ig_fleet (demo_logs False)) = (Stopped ''b'', snd (stop_run demo_life ''ann'' ''killed'' ''b'' None demo_taken))"
    "''killed'' \<in> set dispositions" by (auto simp: demo_logs_def) (metis prod.collapse)
  from a_stopped_run_keeps_its_slot [OF s surjective_pairing] show ?thesis by blast
qed

text \<open>The output of the first chunk, after the second.\<close>

theorem a_later_chunk_drops_the_outputs_witness:
  "ig_outputs demo_logged ''b'' = [(''A'', ''1'')] \<and>
   map_of (ig_outputs (snd (store_chunk (demo_uploads []) ''b'' ''r1'' True (demo_chunk True ''[h] ::cronomicon-output name=B::2'') demo_logged)) ''b'') ''A'' = None"
proof -
  let ?q = "demo_chunk True ''[h] ::cronomicon-output name=B::2''"
  have k: "ig_outputs demo_logged ''b'' = [(''A'', ''1'')] \<and> sd_outputs (chunk_lines (demo_uploads []) ''b'' True ?q demo_logged) = [(''B'', ''2'')] \<and>
      chunk_leak (demo_uploads []) (chunk_lines (demo_uploads []) ''b'' True ?q demo_logged) = [] \<and>
      fst (store_chunk (demo_uploads []) ''b'' ''r1'' True ?q demo_logged) = Stored204" by code_simp
  then have "store_chunk (demo_uploads []) ''b'' ''r1'' True ?q demo_logged = (Stored204, snd (store_chunk (demo_uploads []) ''b'' ''r1'' True ?q demo_logged))"
    by (metis prod.collapse)
  from a_later_chunk_drops_the_outputs [OF this, of "''A''"] k show ?thesis by simp
qed

theorem a_key_is_never_seen_to_leak_witness:
  "chunk_leak (demo_uploads [''-BEGIN'' @ [LF] @ ''c2VjcmV0'']) (chunk_lines (demo_uploads [''-BEGIN'' @ [LF] @ ''c2VjcmV0'']) ''b'' True
     (demo_chunk True ''[h] ::cronomicon-output name=K::c2VjcmV0'') (demo_logs True)) = [] \<and>
   sd_outputs (chunk_lines (demo_uploads [''-BEGIN'' @ [LF] @ ''c2VjcmV0'']) ''b'' True
     (demo_chunk True ''[h] ::cronomicon-output name=K::c2VjcmV0'') (demo_logs True)) = [(''K'', ''c2VjcmV0'')]"
proof -
  have "\<forall>s \<in> set (injected_values (demo_uploads [''-BEGIN'' @ [LF] @ ''c2VjcmV0''])). s = [] \<or> LF \<in> set s"
    by (simp add: injected_values_def demo_uploads_def)
  moreover have "sd_outputs (chunk_lines (demo_uploads [''-BEGIN'' @ [LF] @ ''c2VjcmV0'']) ''b'' True
     (demo_chunk True ''[h] ::cronomicon-output name=K::c2VjcmV0'') (demo_logs True)) = [(''K'', ''c2VjcmV0'')]" by code_simp
  ultimately show ?thesis using a_key_is_never_seen_to_leak by blast
qed

theorem no_injected_value_leaves_as_an_output_witness:
  "ig_outputs (snd (HandleIngestLog (demo_uploads [''hunter22'']) ''b'' (demo_chunk True ''[h] ::cronomicon-output name=A::1'') (demo_logs True))) ''b'' = [(''A'', ''1'')] \<and>
   \<not> contains ''1'' ''hunter22''"
proof -
  let ?h = "HandleIngestLog (demo_uploads [''hunter22'']) ''b'' (demo_chunk True ''[h] ::cronomicon-output name=A::1'') (demo_logs True)"
  have k: "ig_outputs (snd ?h) ''b'' = [(''A'', ''1'')] \<and> ig_outputs (demo_logs True) ''b'' = []" by code_simp
  have "''hunter22'' \<in> set (injected_values (demo_uploads [''hunter22'']))" by (simp add: injected_values_def demo_uploads_def)
  from no_injected_value_leaves_as_an_output [OF surjective_pairing [of ?h] _ _ this, of "''A''" "''1''"] k show ?thesis by simp
qed

end
