(* ===== verification/Spec2Isabelle.thy ===== *)
theory Spec2Isabelle
  imports Calendar_Catalogue Cron_Props Workflow_Inputs Workflow_Resolve_Props Workflow_Runs_Props Sched_Race
    Ref_Store_Props Ref_Refuse_Props Auth_Props Auth_Views Auth_Session_Props Sched_React_Gate Sched_Sla_Props
    Run_Ingest_Props
begin

text \<open>
  A verification library for cronomicon, a self-hosted scheduler of jobs and workflows (Go, \<open>src/backend\<close>).

  \<^bold>\<open>The program.\<close> A job or a workflow is a definition with an owning agency, scopes, calendars and schedules. The clock, a
  manual trigger, the API, a file arrival or a reaction asks for a run; the admission gate decides; the run becomes a
  row of \<open>runs\<close> or a row of the queue; agents claim queued rows; what a run needs (variables, secrets, connections) is
  resolved for it; its log comes back redacted; its end is written once and may start other things. Who may ask is
  decided by grants. Each of these is a component here.

  \<^bold>\<open>Theories and sources\<close> (paths below \<open>src/backend/internal\<close>; every definition carries its Go name where HOL allows it).

  \<^item> \<open>Go_Prelude\<close>: the pieces of Go's standard library that are used, a locale of idempotent string normalisers with its
    interpretations, the lemmas on lists that components share.
  \<^item> \<open>Calendar\<close>, \<open>Calendar_Admin\<close>, \<open>Calendar_Catalogue\<close> (\<open>calendar/\<close>): the suppression rule of a day and its refinement to
    an independent rule; which bindings are accepted; the freeze and the imported catalogue.
  \<^item> \<open>Cron_Spec\<close>, \<open>Cron_Laws\<close>, \<open>Cron_Props\<close> (\<open>cronutil/\<close>): schedule specifications, activation windows with the zone of the
    instant they continue from, projections; the contract of \<open>Next\<close> as a locale, interpreted on the interval, once and windowed schedules. Robfig's cron parser is a
    parameter.
  \<^item> \<open>Env_Ref\<close> (\<open>envref/\<close>, \<open>envmerge/\<close>): the names of references and the layering of environments.
  \<^item> \<open>Workflow_Graph\<close>, \<open>Workflow_Graph_Props\<close>, \<open>Workflow_Validate\<close>, \<open>Workflow_Cover\<close>, \<open>Workflow_Inputs\<close> (\<open>workflow/engine.go\<close>):
    the step graph, its walkers, its structural validation, and what validation buys a walk.
  \<^item> \<open>Workflow_Resolve\<close>, \<open>Workflow_Resolve_Props\<close>, \<open>Workflow_Authorize\<close> (\<open>workflow/engine.go\<close>, \<open>subworkflow.go\<close>): what the
    names of a graph mean, and that a trigger is authorised on everything its run can start.
  \<^item> \<open>Workflow_Step\<close>, \<open>Workflow_Step_Props\<close>, \<open>Workflow_Walk\<close>, \<open>Workflow_Walk_Props\<close>: one step with its gates, wait and
    retries; the walk of a graph and of its sub-workflows as a list of events.
  \<^item> \<open>Workflow_Runs\<close>, \<open>Workflow_Runs_Props\<close>: the rows of \<open>workflow_runs\<close> under walks, cancels and sweeps in any order.
  \<^item> \<open>Run_Row\<close>, \<open>Sched_Gate\<close>, \<open>Sched_Skip\<close>, \<open>Sched_Skip_Props\<close>, \<open>Sched_Queue\<close>, \<open>Sched_Fire\<close>, \<open>Sched_Promote\<close>, \<open>Sched_Inv\<close>,
    \<open>Sched_Closed\<close>, \<open>Sched_Props\<close>, \<open>Sched_Account\<close>, \<open>Sched_Race\<close> (\<open>scheduler/\<close>): the writer of a run's row, the gate, skipped starts,
    the bounded queue, the clock's fires, the promotion of parked rows; the invariant of their tables, with the queue's count
    and insert taken apart.
  \<^item> \<open>Reaction\<close>, \<open>Sched_React\<close>, \<open>Sched_React_Props\<close>, \<open>Sched_React_Gate\<close> (\<open>reaction/\<close>, \<open>scheduler/reaction.go\<close>): when one
    definition's end starts another.
  \<^item> \<open>Sched_Sla\<close>, \<open>Sched_Sla_Props\<close> (\<open>scheduler/sla.go\<close>, \<open>window.go\<close>): late and missing runs.
  \<^item> \<open>Claim\<close>, \<open>Claim_Props\<close>, \<open>Claim_Mirror\<close> (\<open>runcap/\<close>, \<open>execspec/claimrule.go\<close>, \<open>execspec.go\<close>): the claim of a run, its
    caps, and the two written mirrors of its rule.
  \<^item> \<open>Ref_Resolve\<close>, \<open>Ref_Resolve_Props\<close>, \<open>Ref_Store_Props\<close>, \<open>Ref_Refuse\<close>, \<open>Ref_Refuse_Props\<close> (\<open>runref/\<close>): the bindings of a job, their
    resolution at dispatch, what an operator is told, the list of refusals.
  \<^item> \<open>Auth_Roles\<close>, \<open>Auth_Grants\<close>, \<open>Auth_Snapshot\<close>, \<open>Auth_Login\<close>, \<open>Auth_Session\<close>, \<open>Auth_Props\<close>, \<open>Auth_Views\<close>, \<open>Auth_Session_Props\<close>
    (\<open>auth/\<close>): roles as a semilattice of permissions, grants and the decisions made of them, the cached snapshot, who a
    request is, how long a session lasts.
  \<^item> \<open>Runner_Life\<close>, \<open>Runner_Ends\<close>, \<open>Runner_Inv\<close>, \<open>Runner_Steps\<close>, \<open>Runner_Reach\<close>, \<open>Runner_Props\<close> (\<open>runner/\<close>): agents, the ends of
    runs, reapers and drains, shared with the scheduler's writes to the same table.
  \<^item> \<open>Redact\<close>, \<open>Run_Ingest\<close>, \<open>Run_Ingest_Props\<close> (\<open>redactdict/\<close>, \<open>runner/redact.go\<close>, \<open>runner/log.go\<close>, \<open>execspec/execspec.go\<close>):
    the dictionary of a run's secrets, redaction, and the ingest of an agent's log.

  \<^bold>\<open>How they meet.\<close> The fire of \<open>Sched_Fire\<close> and the reactions of \<open>Sched_React\<close> ask the gate of \<open>Sched_Gate\<close>, which asks the
  calendars of \<open>Calendar\<close>; both write rows by the \<open>InsertRun\<close> of \<open>Run_Row\<close>. \<open>Claim\<close> takes such rows, \<open>Ref_Refuse\<close> may still stop
  them, \<open>Runner_Life\<close> and \<open>Run_Ingest\<close> end them, and \<open>Workflow_Step\<close> waits for them. The state of each component is a record of
  the tables it reads and writes; an operation is a function on it that returns the new state with a value of the source's
  error or outcome type. Operations that may come in any order are the rules of inductive relations (\<open>sched_step\<close>,
  \<open>race_step\<close>, \<open>engine_reach\<close>, \<open>fleet_reach\<close>), and invariants of them are proved by rule induction, one lemma per operation.

  \<^bold>\<open>What is shown.\<close> In the manifest, each property names its theorem. By kind: invariants (caps and single claims, single
  ends, keys, the well-typed rows of the fleet), refinements and equivalences (the calendar rule, the mirror of the claim, the
  pruned authorisation search, the cancelled tree), safety (authorisation, confinement, no oracle, redaction), round trips
  (bindings, references), bounds (depth, retries, intervals), termination (the nesting of sub-workflows), errors (specs,
  bindings) and liveness (a final chunk ends its run).

  \<^bold>\<open>Bounds and fuel.\<close> Go's recursion over sub-workflows is given the levels that are left below \<open>MaxWorkflowDepth\<close>; the lemma
  \<open>levels_enough\<close> shows that the arm for no levels is never taken, and the recursion without levels is shown to
  have exactly this solution. \<open>CancelTree\<close> is given \<open>MaxWorkflowDepth + 2\<close> rounds and its
  theorem says every descendant is reached. The loops of projections are bounded by the number of rows asked for and by the
  projection's maximum, as in the source. Machine integers are integers with their 64-bit wrap written out where it can be
  reached (durations, intervals, counters).

  \<^bold>\<open>Parameters.\<close> The clock, fresh identifiers, the cron parser, time zones, JSON, the network and the answers of other services
  are arguments. Statements about them are named hypotheses.

  \<^bold>\<open>Not modelled.\<close> A SQL statement is atomic; a failing query is modelled where its error takes a branch of its own. Most
  operations run one after another; where two statements of one operation can be interleaved with another's and it matters, the
  split is modelled and said so. HTTP, cryptography and the vault, OIDC's exchange and cookies' wire format, SSH, Git
  synchronisation and YAML, migrations, notifications' delivery, backups and the frontend are left out.
\<close>

end
